(* ===== verification/Prelude.thy ===== *)
theory Prelude
  imports Complex_Main "HOL-Library.AList" "HOL-Library.Word" "HOL-Library.Sublist" "HOL-Library.Multiset"
begin

text \<open>
  Shared vocabulary of the development: the machine types the runtime uses, the string helpers
  several components repeat, and the generic lemmas on lists, options and association lists the
  component theories rest on.

  \<^item> A \<open>size_t\<close> is a \<open>nat\<close>; every addition or product of the source that can leave the 64-bit
    range is written with \<open>size_add\<close>/\<open>size_mul\<close>, which reduce modulo \<open>2 ^ 64\<close>.
  \<^item> An \<open>int64_t\<close> is an \<open>int\<close>; the casts of the source between the two are \<open>size_of_int64\<close>
    and \<open>int64_of_size\<close>.
  \<^item> A \<open>std::byte\<close> is an \<open>8 word\<close> and a \<open>uint64_t\<close> counter a \<open>64 word\<close>, whose \<open>+\<close> wraps.
  \<^item> A \<open>std::string\<close> is a \<open>string\<close> (a list of 8-bit characters).
  \<^item> An \<open>unordered_map\<close> is an association list; its order stands for the unspecified iteration
    order of the container.
\<close>

section \<open>Machine types\<close>

type_synonym size_t = nat
type_synonym int64_t = int
type_synonym byte = "8 word"
type_synonym uint64_t = "64 word"
type_synonym double = rat \<comment> \<open>a finite IEEE double is a rational; rounding is a parameter where it matters\<close>
type_synonym time_point = int \<comment> \<open>\<open>steady_clock::time_point\<close>, in nanoseconds\<close>

named_theorems size_arith \<open>evaluation of size_t arithmetic within range\<close>
named_theorems frame \<open>fields an operation leaves alone\<close>

definition size_limit :: nat where
  "size_limit = 2 ^ 64"

definition size_of_int64 :: "int64_t \<Rightarrow> size_t" where
  "size_of_int64 i = nat (i mod 2 ^ 64)"

definition int64_of_size :: "size_t \<Rightarrow> int64_t" where
  "int64_of_size n = (let m = int (n mod size_limit) in if m < 2 ^ 63 then m else m - 2 ^ 64)"

definition size_add :: "size_t \<Rightarrow> size_t \<Rightarrow> size_t" where
  "size_add a b = (a + b) mod size_limit"

definition size_mul :: "size_t \<Rightarrow> size_t \<Rightarrow> size_t" where
  "size_mul a b = (a * b) mod size_limit"

text \<open>\<open>std::accumulate\<close> with an initial \<open>size_t\<close> zero.\<close>

definition size_total :: "size_t list \<Rightarrow> size_t" where
  "size_total ns = foldl size_add 0 ns"

section \<open>Strings\<close>

definition startsWith :: "string \<Rightarrow> string \<Rightarrow> bool" where
  "startsWith v p \<longleftrightarrow> take (length p) v = p"

definition endsWith :: "string \<Rightarrow> string \<Rightarrow> bool" where
  "endsWith v s \<longleftrightarrow> length s \<le> length v \<and> drop (length v - length s) v = s"

text \<open>\<open>std::string::find\<close> of one character: the first position, if there is one.\<close>

fun find_char :: "char \<Rightarrow> string \<Rightarrow> nat option" where
  "find_char c [] = None"
| "find_char c (x # xs) = (if x = c then Some 0 else map_option Suc (find_char c xs))"

definition digit_char :: "nat \<Rightarrow> char" where
  "digit_char d = char_of (48 + d)"

text \<open>\<open>std::to_string\<close> on unsigned values.\<close>

fun to_string :: "nat \<Rightarrow> string" where
  "to_string n = (if n < 10 then [digit_char n] else to_string (n div 10) @ [digit_char (n mod 10)])"

declare to_string.simps [simp del]

text \<open>\<open>std::to_string\<close> and \<open>operator<<\<close> of a signed value.\<close>

definition int_text :: "int \<Rightarrow> string" where
  "int_text i = (if i < 0 then ''-'' @ to_string (nat (- i)) else to_string (nat i))"

text \<open>The entries of a \<open>std::map\<close> in the order of its keys.\<close>

definition ordered_items :: "('k::linorder \<times> 'v) list \<Rightarrow> ('k \<times> 'v) list" where
  "ordered_items m = sort_key fst m"

section \<open>Lists and options\<close>

text \<open>The first element with a property, as \<open>std::find_if\<close> and the search loops give it.\<close>

fun find_first :: "('a \<Rightarrow> bool) \<Rightarrow> 'a list \<Rightarrow> 'a option" where
  "find_first p [] = None"
| "find_first p (x # xs) = (if p x then Some x else find_first p xs)"

text \<open>The first error a check reports on the elements of a list, in order.\<close>

fun first_error :: "('a \<Rightarrow> string option) \<Rightarrow> 'a list \<Rightarrow> string option" where
  "first_error chk [] = None"
| "first_error chk (x # xs) = (case chk x of Some e \<Rightarrow> Some e | None \<Rightarrow> first_error chk xs)"

text \<open>\<open>std::stable_sort\<close>: an element goes after every element that is not behind it.\<close>

fun insert_stable :: "('a \<Rightarrow> 'a \<Rightarrow> bool) \<Rightarrow> 'a \<Rightarrow> 'a list \<Rightarrow> 'a list" where
  "insert_stable before x [] = [x]"
| "insert_stable before x (y # ys) = (if before y x then y # insert_stable before x ys else x # y # ys)"

definition stable_sort :: "('a \<Rightarrow> 'a \<Rightarrow> bool) \<Rightarrow> 'a list \<Rightarrow> 'a list" where
  "stable_sort before xs = foldr (insert_stable before) xs []"

section \<open>Reachable states and inductive invariants\<close>

text \<open>
  Every stateful component is a set of initial states and a step relation. \<open>reach\<close> collects the
  states its runs visit; the locale packages the one argument all invariant proofs share, so that a
  component interprets it with its own steps and reads \<open>reach_inv\<close> off the interpretation.
\<close>

inductive reach :: "('s \<Rightarrow> bool) \<Rightarrow> ('s \<Rightarrow> 's \<Rightarrow> bool) \<Rightarrow> 's \<Rightarrow> bool"
  for start :: "'s \<Rightarrow> bool" and step :: "'s \<Rightarrow> 's \<Rightarrow> bool" where
  reach_start: "start s \<Longrightarrow> reach start step s"
| reach_step: "reach start step s \<Longrightarrow> step s t \<Longrightarrow> reach start step t"

locale invariant_system =
  fixes start :: "'s \<Rightarrow> bool"
    and step :: "'s \<Rightarrow> 's \<Rightarrow> bool"
    and inv :: "'s \<Rightarrow> bool"
  assumes inv_start: "start s \<Longrightarrow> inv s"
    and inv_step: "inv s \<Longrightarrow> step s t \<Longrightarrow> inv t"
begin

lemma reach_inv: "reach start step s \<Longrightarrow> inv s"
  by (induction rule: reach.induct) (auto intro: inv_start inv_step)

end

section \<open>Lemmas\<close>

lemma size_limit_pos [simp]: "0 < size_limit"
  by (simp add: size_limit_def)

lemma size_add_lt [simp]: "size_add a b < size_limit"
  by (simp add: size_add_def)

lemma size_mul_lt [simp]: "size_mul a b < size_limit"
  by (simp add: size_mul_def)

lemma size_add_exact [size_arith]: "a + b < size_limit \<Longrightarrow> size_add a b = a + b"
  by (simp add: size_add_def)

lemma size_mul_exact [size_arith]: "a * b < size_limit \<Longrightarrow> size_mul a b = a * b"
  by (simp add: size_mul_def)

lemma size_of_int64_nonneg [size_arith]:
  "0 \<le> i \<Longrightarrow> i < 2 ^ 63 \<Longrightarrow> size_of_int64 i = nat i"
  by (simp add: size_of_int64_def)

lemma int64_of_size_exact [size_arith]: "n < 2 ^ 63 \<Longrightarrow> int64_of_size n = int n"
proof -
  assume n: "n < 2 ^ 63"
  then have "int n < 2 ^ 63" by simp
  moreover have "n mod size_limit = n" using n by (simp add: size_limit_def)
  ultimately show ?thesis by (simp add: int64_of_size_def)
qed

lemma size_of_int64_lt [simp]: "size_of_int64 i < size_limit"
proof -
  have "nat (i mod 2 ^ 64) < nat (2 ^ 64)"
    by (subst nat_less_eq_zless) simp_all
  then show ?thesis by (simp add: size_of_int64_def size_limit_def)
qed

lemma foldl_size_add: "a < size_limit \<Longrightarrow> foldl size_add a ns = (a + sum_list ns) mod size_limit"
proof (induction ns arbitrary: a)
  case Nil
  then show ?case by simp
next
  case (Cons n ns)
  have "foldl size_add a (n # ns) = (size_add a n + sum_list ns) mod size_limit"
    using Cons.IH [of "size_add a n"] by simp
  also have "\<dots> = (a + sum_list (n # ns)) mod size_limit"
    by (simp add: size_add_def mod_simps add.assoc)
  finally show ?case .
qed

lemma size_total_mod: "size_total ns = sum_list ns mod size_limit"
  by (simp add: size_total_def foldl_size_add)

lemma size_total_exact [size_arith]: "sum_list ns < size_limit \<Longrightarrow> size_total ns = sum_list ns"
  by (simp add: size_total_mod)

lemma find_first_Some: "find_first p xs = Some x \<Longrightarrow> x \<in> set xs \<and> p x"
  by (induction xs) (auto split: if_splits)

lemma find_first_None [simp]: "find_first p xs = None \<longleftrightarrow> (\<forall>x \<in> set xs. \<not> p x)"
  by (induction xs) auto

lemma first_error_None: "first_error chk xs = None \<longleftrightarrow> (\<forall>x \<in> set xs. chk x = None)"
  by (induction xs) (auto split: option.splits)

text \<open>A chain of checks reports nothing exactly when no check does.\<close>

lemma orelse_error_None [simp]:
  "(case a of None \<Rightarrow> b | Some e \<Rightarrow> Some e) = None \<longleftrightarrow> a = None \<and> b = None"
  by (cases a) auto

lemma startsWith_iff: "startsWith v p \<longleftrightarrow> (\<exists>t. v = p @ t)"
  by (metis append_eq_conv_conj append_take_drop_id startsWith_def)

lemma endsWith_iff: "endsWith v s \<longleftrightarrow> (\<exists>h. v = h @ s)"
proof
  assume "endsWith v s"
  then have "v = take (length v - length s) v @ s"
    by (metis append_take_drop_id endsWith_def)
  then show "\<exists>h. v = h @ s" by blast
qed (auto simp: endsWith_def)

lemma find_char_None [simp]: "find_char c xs = None \<longleftrightarrow> c \<notin> set xs"
  by (induction xs) auto

lemma find_char_Some:
  "find_char c xs = Some i \<Longrightarrow> i < length xs \<and> xs ! i = c \<and> c \<notin> set (take i xs)"
  by (induction xs arbitrary: i) (auto split: if_splits)

lemma to_string_nonempty [simp]: "to_string n \<noteq> []"
  by (subst to_string.simps) simp

text \<open>A window of a concatenation, when the pieces have known widths.\<close>

lemma length_concat_widths:
  "length ps = length ns \<Longrightarrow> (\<forall>i < length ps. length (ps ! i) = ns ! i * w) \<Longrightarrow>
     length (concat ps) = sum_list ns * w"
proof (induction ps ns rule: list_induct2)
  case (Cons p ps n ns)
  then have "length p = n * w" and "\<forall>i < length ps. length (ps ! i) = ns ! i * w"
    by auto
  with Cons.IH show ?case by (simp add: distrib_right)
qed simp

lemma concat_window:
  assumes len: "length ps = length ns" and width: "\<forall>i < length ps. length (ps ! i) = ns ! i * w"
    and k: "k < length ps"
  shows "take (ns ! k * w) (drop (sum_list (take k ns) * w) (concat ps)) = ps ! k"
proof -
  have "length (concat (take k ps)) = sum_list (take k ns) * w"
    using len width k by (intro length_concat_widths) auto
  moreover have "concat ps = concat (take k ps) @ ps ! k @ concat (drop (Suc k) ps)"
    using k by (metis concat.simps(2) concat_append id_take_nth_drop)
  ultimately show ?thesis using width k by simp
qed

lemma sum_list_take_nth_le:
  "k < length ns \<Longrightarrow> sum_list (take k ns) + ns ! k \<le> sum_list (ns :: nat list)"
  by (metis add.assoc le_add1 id_take_nth_drop sum_list.Cons sum_list_append)

lemma those_map_Some:
  "(\<And>x. x \<in> set xs \<Longrightarrow> f x = Some (g x)) \<Longrightarrow> those (map f xs) = Some (map g xs)"
  by (induction xs) auto

lemma map_of_delete_None [simp]: "map_of (AList.delete k al) k = None"
  by (simp add: delete_conv)

text \<open>A subsequence inherits membership, order and distinctness.\<close>

lemma subseq_set: "subseq xs ys \<Longrightarrow> set xs \<subseteq> set ys"
  by (metis notin_set_nthsI subseq_conv_nths subsetI)

lemma subseq_sorted: "subseq xs ys \<Longrightarrow> sorted_wrt P ys \<Longrightarrow> sorted_wrt P xs"
proof (induction rule: list_emb.induct)
  case (list_emb_Cons2 x y xs ys)
  then show ?case using subseq_set [of xs ys] by auto
qed auto

lemma subseq_distinct_list: "subseq xs ys \<Longrightarrow> distinct ys \<Longrightarrow> distinct xs"
proof (induction rule: list_emb.induct)
  case (list_emb_Cons2 x y xs ys)
  then show ?case using subseq_set [of xs ys] by auto
qed auto

lemma distinct_submset: "distinct ys \<Longrightarrow> mset xs \<subseteq># mset ys \<Longrightarrow> distinct xs"
  unfolding distinct_count_atmost_1
proof (intro allI)
  fix a assume "\<forall>a. count (mset ys) a = (if a \<in> set ys then 1 else 0)" and "mset xs \<subseteq># mset ys"
  then have "count (mset xs) a \<le> 1" by (metis le_zero_eq mset_subset_eq_count zero_le_one dual_order.refl)
  then show "count (mset xs) a = (if a \<in> set xs then 1 else 0)"
    by (cases "a \<in> set xs") (auto simp: le_Suc_eq count_eq_zero_iff)
qed

lemma mset_insert_stable [simp]: "mset (insert_stable before x xs) = add_mset x (mset xs)"
  by (induction xs) auto

lemma mset_stable_sort [simp]: "mset (stable_sort before xs) = mset xs"
  by (induction xs) (simp_all add: stable_sort_def)

lemma set_stable_sort [simp]: "set (stable_sort before xs) = set xs"
  by (metis mset_stable_sort set_mset_mset)

lemma sorted_insert_stable:
  assumes "\<And>x y. before x y \<longleftrightarrow> f y < (f x :: nat)" "sorted_wrt (\<lambda>x y. f y \<le> f x) xs"
  shows "sorted_wrt (\<lambda>x y. f y \<le> f x) (insert_stable before x xs)"
proof -
  have "set (insert_stable before x xs) = insert x (set xs)" for xs
    by (metis mset_insert_stable set_mset_add_mset_insert set_mset_mset)
  with assms show ?thesis by (induction xs) (auto simp: not_less intro: order_trans)
qed

text \<open>A comparison by a number, larger first, sorts in descending order of that number.\<close>

lemma sorted_stable_sort:
  assumes "\<And>x y. before x y \<longleftrightarrow> f y < (f x :: nat)"
  shows "sorted_wrt (\<lambda>x y. f y \<le> f x) (stable_sort before xs)"
  by (induction xs) (simp_all add: stable_sort_def sorted_insert_stable [OF assms])

end
