(* ===== verification/Model_State.thy ===== *)
theory Model_State
  imports Prelude
begin

text \<open>
  The lifecycle of one model: \<open>ModelState.hpp\<close> (the states, their names and the transition table)
  and \<open>ModelStateMachine.hpp\<close> (the guarded transitions and the observers they notify).

  A \<open>std::function\<close> observer is a number, an empty one is \<open>None\<close>; the calls it receives are
  recorded in \<open>sm_calls\<close>, oldest first, so that what observers see can be stated.
\<close>

section \<open>States and the transition table\<close>

datatype ModelState = Unloaded | Loading | Ready | Failed | Unavailable | Unloading

fun modelStateName :: "ModelState \<Rightarrow> string" where
  "modelStateName Unloaded = ''UNLOADED''"
| "modelStateName Loading = ''LOADING''"
| "modelStateName Ready = ''READY''"
| "modelStateName Failed = ''FAILED''"
| "modelStateName Unavailable = ''UNAVAILABLE''"
| "modelStateName Unloading = ''UNLOADING''"

fun isValidTransition :: "ModelState \<Rightarrow> ModelState \<Rightarrow> bool" where
  "isValidTransition Unloaded next = (next = Loading)"
| "isValidTransition Loading next = (next = Ready \<or> next = Failed \<or> next = Unavailable)"
| "isValidTransition Ready next = (next = Unloading \<or> next = Unavailable)"
| "isValidTransition Unloading next = (next = Unloaded)"
| "isValidTransition Failed next = (next = Unloaded)"
| "isValidTransition Unavailable next = (next = Ready \<or> next = Unloaded)"

section \<open>The state machine\<close>

type_synonym observer = nat
type_synonym observer_call = "observer \<times> ModelState \<times> ModelState"

record ModelStateMachine =
  sm_state :: ModelState
  sm_observers :: "observer option list"
  sm_calls :: "observer_call list"

definition newStateMachine :: ModelStateMachine where
  "newStateMachine = \<lparr>sm_state = Unloaded, sm_observers = [], sm_calls = []\<rparr>"

definition onTransition :: "observer option \<Rightarrow> ModelStateMachine \<Rightarrow> ModelStateMachine" where
  "onTransition obs m = m\<lparr>sm_observers := sm_observers m @ [obs]\<rparr>"

fun notify_all_observers ::
  "observer option list \<Rightarrow> ModelState \<Rightarrow> ModelState \<Rightarrow> observer_call list" where
  "notify_all_observers [] from to = []"
| "notify_all_observers (Some obs # rest) from to =
     (obs, from, to) # notify_all_observers rest from to"
| "notify_all_observers (None # rest) from to = notify_all_observers rest from to"

definition notify :: "ModelState \<Rightarrow> ModelState \<Rightarrow> ModelStateMachine \<Rightarrow> ModelStateMachine" where
  "notify from to m =
     m\<lparr>sm_calls := sm_calls m @ notify_all_observers (sm_observers m) from to\<rparr>"

definition transitionTo :: "ModelState \<Rightarrow> ModelStateMachine \<Rightarrow> bool \<times> ModelStateMachine" where
  "transitionTo next m =
     (if \<not> isValidTransition (sm_state m) next then (False, m)
      else let prev = sm_state m; m' = m\<lparr>sm_state := next\<rparr> in (True, notify prev next m'))"

definition startLoad :: "ModelStateMachine \<Rightarrow> bool \<times> ModelStateMachine" where
  "startLoad = transitionTo Loading"

definition markReady :: "ModelStateMachine \<Rightarrow> bool \<times> ModelStateMachine" where
  "markReady = transitionTo Ready"

definition markFailed :: "ModelStateMachine \<Rightarrow> bool \<times> ModelStateMachine" where
  "markFailed = transitionTo Failed"

definition markUnavailable :: "ModelStateMachine \<Rightarrow> bool \<times> ModelStateMachine" where
  "markUnavailable = transitionTo Unavailable"

definition beginUnload :: "ModelStateMachine \<Rightarrow> bool \<times> ModelStateMachine" where
  "beginUnload = transitionTo Unloading"

definition completeUnload_sm :: "ModelStateMachine \<Rightarrow> bool \<times> ModelStateMachine" where
  "completeUnload_sm = transitionTo Unloaded"

definition reset :: "ModelStateMachine \<Rightarrow> bool \<times> ModelStateMachine" where
  "reset m = (if sm_state m = Unloaded then (False, m) else transitionTo Unloaded m)"

definition isLoaded :: "ModelStateMachine \<Rightarrow> bool" where
  "isLoaded m \<longleftrightarrow> sm_state m = Ready"

definition isTerminal :: "ModelStateMachine \<Rightarrow> bool" where
  "isTerminal m \<longleftrightarrow> sm_state m = Failed \<or> sm_state m = Unavailable"

text \<open>The public interface as events, for runs of the machine.\<close>

datatype StateOp =
  StartLoad | MarkReady | MarkFailed | MarkUnavailable | BeginUnload | CompleteUnload | Reset
| OnTransition "observer option"

fun apply_op :: "StateOp \<Rightarrow> ModelStateMachine \<Rightarrow> bool \<times> ModelStateMachine" where
  "apply_op StartLoad m = startLoad m"
| "apply_op MarkReady m = markReady m"
| "apply_op MarkFailed m = markFailed m"
| "apply_op MarkUnavailable m = markUnavailable m"
| "apply_op BeginUnload m = beginUnload m"
| "apply_op CompleteUnload m = completeUnload_sm m"
| "apply_op Reset m = reset m"
| "apply_op (OnTransition obs) m = (True, onTransition obs m)"

fun run_ops :: "StateOp list \<Rightarrow> ModelStateMachine \<Rightarrow> ModelStateMachine" where
  "run_ops [] m = m"
| "run_ops (op # ops) m = run_ops ops (snd (apply_op op m))"

text \<open>What one observer has been told, and when a list of transitions is a path of the table.\<close>

definition heard :: "observer \<Rightarrow> observer_call list \<Rightarrow> (ModelState \<times> ModelState) list" where
  "heard obs calls = map snd (filter (\<lambda>c. fst c = obs) calls)"

fun transition_path :: "ModelState \<Rightarrow> (ModelState \<times> ModelState) list \<Rightarrow> ModelState \<Rightarrow> bool" where
  "transition_path s [] t = (s = t)"
| "transition_path s ((a, b) # rest) t = (s = a \<and> isValidTransition a b \<and> transition_path b rest t)"

section \<open>Lemmas\<close>

lemma isValidTransition_irrefl: "\<not> isValidTransition s s"
  by (cases s) auto

lemma transitionTo_state [simp]:
  "sm_state (snd (transitionTo next m)) = (if isValidTransition (sm_state m) next then next else sm_state m)"
  by (simp add: transitionTo_def notify_def Let_def)

lemma transitionTo_fst [simp]: "fst (transitionTo next m) = isValidTransition (sm_state m) next"
  by (simp add: transitionTo_def Let_def)

lemma transitionTo_observers [simp]: "sm_observers (snd (transitionTo next m)) = sm_observers m"
  by (simp add: transitionTo_def notify_def Let_def)

lemma transitionTo_calls:
  "sm_calls (snd (transitionTo next m)) =
     sm_calls m @ (if isValidTransition (sm_state m) next
                   then notify_all_observers (sm_observers m) (sm_state m) next else [])"
  by (simp add: transitionTo_def notify_def Let_def)

lemma startLoad_state [simp]:
  "sm_state (snd (startLoad m)) = (if sm_state m = Unloaded then Loading else sm_state m)"
  by (cases "sm_state m") (simp_all add: startLoad_def)

lemma markReady_state [simp]:
  "sm_state (snd (markReady m)) =
     (if sm_state m = Loading \<or> sm_state m = Unavailable then Ready else sm_state m)"
  by (cases "sm_state m") (simp_all add: markReady_def)

lemma markFailed_state [simp]:
  "sm_state (snd (markFailed m)) = (if sm_state m = Loading then Failed else sm_state m)"
  by (cases "sm_state m") (simp_all add: markFailed_def)

lemma beginUnload_state [simp]:
  "sm_state (snd (beginUnload m)) = (if sm_state m = Ready then Unloading else sm_state m)"
  by (cases "sm_state m") (simp_all add: beginUnload_def)

lemma completeUnload_sm_state [simp]:
  "sm_state (snd (completeUnload_sm m)) =
     (if sm_state m \<in> {Unloading, Failed, Unavailable} then Unloaded else sm_state m)"
  by (cases "sm_state m") (simp_all add: completeUnload_sm_def)

lemma completeUnload_sm_fst [simp]:
  "fst (completeUnload_sm m) \<longleftrightarrow> sm_state m \<in> {Unloading, Failed, Unavailable}"
  by (cases "sm_state m") (simp_all add: completeUnload_sm_def)

lemma reset_state [simp]:
  "sm_state (snd (reset m)) =
     (if sm_state m \<in> {Unloading, Failed, Unavailable} then Unloaded else sm_state m)"
  by (cases "sm_state m") (simp_all add: reset_def)

lemma heard_Nil [simp]: "heard obs [] = []"
  by (simp add: heard_def)

lemma heard_append [simp]: "heard obs (xs @ ys) = heard obs xs @ heard obs ys"
  by (simp add: heard_def)

lemma heard_notify:
  "heard obs (notify_all_observers obss a b) = replicate (count_list obss (Some obs)) (a, b)"
  by (induction obss a b rule: notify_all_observers.induct) (simp_all add: heard_def)

lemma transition_path_snoc:
  "transition_path s p t \<Longrightarrow> isValidTransition t u \<Longrightarrow> transition_path s (p @ [(t, u)]) u"
  by (induction s p t rule: transition_path.induct) auto

text \<open>The guard of \<open>reset\<close> is the table's own answer for an unloaded machine.\<close>

lemma reset_eq: "reset m = transitionTo Unloaded m"
  by (simp add: reset_def transitionTo_def)

lemma apply_op_cases:
  obtains (transition) n where "apply_op op m = transitionTo n m"
  | (register) obs where "op = OnTransition obs"
  by (cases op) (auto simp: reset_eq startLoad_def markReady_def markFailed_def markUnavailable_def
      beginUnload_def completeUnload_sm_def)

text \<open>
  An observer registered exactly once has heard precisely the path of table transitions the machine
  took since the registration: nothing is skipped, repeated or reordered.
\<close>

definition heard_since :: "ModelState \<Rightarrow> observer \<Rightarrow> ModelStateMachine \<Rightarrow> bool" where
  "heard_since s0 obs m \<longleftrightarrow>
     count_list (sm_observers m) (Some obs) = 1 \<and>
     transition_path s0 (heard obs (sm_calls m)) (sm_state m)"

lemma heard_since_apply:
  assumes "heard_since s0 obs m" and "op \<noteq> OnTransition (Some obs)"
  shows "heard_since s0 obs (snd (apply_op op m))"
proof (cases rule: apply_op_cases [of op m])
  case (transition n)
  with assms show ?thesis
    by (auto simp: heard_since_def transitionTo_calls heard_notify intro: transition_path_snoc)
next
  case (register obs')
  with assms show ?thesis
    by (auto simp: heard_since_def onTransition_def)
qed

lemma heard_since_run:
  "heard_since s0 obs m \<Longrightarrow> OnTransition (Some obs) \<notin> set ops \<Longrightarrow> heard_since s0 obs (run_ops ops m)"
proof (induction ops arbitrary: m)
  case (Cons op ops)
  then have "heard_since s0 obs (snd (apply_op op m))"
    by (intro heard_since_apply) auto
  with Cons show ?case by simp
qed simp

text \<open>Before its registration an observer has heard nothing.\<close>

definition unheard :: "observer \<Rightarrow> ModelStateMachine \<Rightarrow> bool" where
  "unheard obs m \<longleftrightarrow> Some obs \<notin> set (sm_observers m) \<and> heard obs (sm_calls m) = []"

lemma unheard_apply:
  assumes "unheard obs m" and "op \<noteq> OnTransition (Some obs)"
  shows "unheard obs (snd (apply_op op m))"
proof (cases rule: apply_op_cases [of op m])
  case (transition n)
  with assms show ?thesis
    by (simp add: unheard_def transitionTo_calls heard_notify count_list_0_iff)
next
  case (register obs')
  with assms show ?thesis
    by (auto simp: unheard_def onTransition_def)
qed

lemma unheard_run:
  "unheard obs m \<Longrightarrow> OnTransition (Some obs) \<notin> set ops \<Longrightarrow> unheard obs (run_ops ops m)"
proof (induction ops arbitrary: m)
  case (Cons op ops)
  then have "unheard obs (snd (apply_op op m))"
    by (intro unheard_apply) auto
  with Cons show ?case by simp
qed simp

lemma run_ops_append [simp]: "run_ops (xs @ ys) m = run_ops ys (run_ops xs m)"
  by (induction xs arbitrary: m) auto

section \<open>Properties\<close>

text \<open>
  Observers are told the truth: an observer registered once, at any point of the life of a
  machine, has heard exactly the sequence of transitions the machine took since then; the sequence
  is a path of the transition table from the state at registration to the current state.
\<close>

theorem observer_hears_every_transition:
  assumes "OnTransition (Some obs) \<notin> set before" and "OnTransition (Some obs) \<notin> set after"
  shows "transition_path (sm_state (run_ops before newStateMachine))
     (heard obs (sm_calls (run_ops (before @ OnTransition (Some obs) # after) newStateMachine)))
     (sm_state (run_ops (before @ OnTransition (Some obs) # after) newStateMachine))"
proof -
  let ?m = "run_ops before newStateMachine"
  have "unheard obs ?m" using assms(1) by (intro unheard_run) (auto simp: unheard_def newStateMachine_def)
  then have "heard_since (sm_state ?m) obs (onTransition (Some obs) ?m)"
    by (auto simp: unheard_def heard_since_def onTransition_def count_list_0_iff)
  with assms(2) have "heard_since (sm_state ?m) obs (run_ops after (onTransition (Some obs) ?m))"
    by (intro heard_since_run)
  then show ?thesis by (simp add: heard_since_def)
qed

theorem observer_hears_every_transition_witness:
  "transition_path Loading
     (heard 7 (sm_calls (run_ops [StartLoad, OnTransition (Some 7), MarkReady, MarkFailed, BeginUnload] newStateMachine)))
     Unloading"
  using observer_hears_every_transition [of 7 "[StartLoad]" "[MarkReady, MarkFailed, BeginUnload]"]
  by (simp add: newStateMachine_def onTransition_def)

end
