(* ===== verification/Tensors.thy ===== *)
theory Tensors
  imports Prelude
begin

text \<open>
  The data the runtime moves: \<open>TensorBytes.hpp\<close> (element types and typed byte buffers),
  \<open>Executor.hpp\<close> (tensors, requests and responses) and \<open>ModelMetadata.hpp\<close>.

  A \<open>CancelToken\<close> (a shared atomic flag) is the name of the flag in the scheduler's store; a
  streaming callback is a number as well, since only its presence matters to the code here.
\<close>

section \<open>Element types\<close>

datatype ElementType =
  T_int8 | T_int16 | T_int32 | T_int64 | T_uint8 | T_uint16 | T_uint32 | T_uint64 | T_float | T_double

fun sizeof :: "ElementType \<Rightarrow> size_t" where
  "sizeof T_int8 = 1" | "sizeof T_uint8 = 1"
| "sizeof T_int16 = 2" | "sizeof T_uint16 = 2"
| "sizeof T_int32 = 4" | "sizeof T_uint32 = 4" | "sizeof T_float = 4"
| "sizeof T_int64 = 8" | "sizeof T_uint64 = 8" | "sizeof T_double = 8"

definition tensorElementSize :: "string \<Rightarrow> size_t" where
  "tensorElementSize datatype =
     (if datatype = ''BOOL'' \<or> datatype = ''INT8'' \<or> datatype = ''UINT8'' then 1
      else if datatype = ''INT16'' \<or> datatype = ''UINT16'' then 2
      else if datatype = ''INT32'' \<or> datatype = ''UINT32'' \<or> datatype = ''FP32'' \<or> datatype = ''FP16'' then 4
      else if datatype = ''INT64'' \<or> datatype = ''UINT64'' \<or> datatype = ''FP64'' then 8
      else 0)"

text \<open>The element type \<open>withTensorElementType\<close> hands to its callback; \<open>None\<close> when it returns false.\<close>

definition withTensorElementType :: "string \<Rightarrow> ElementType option" where
  "withTensorElementType datatype =
     (if datatype = ''BOOL'' \<or> datatype = ''INT8'' then Some T_int8
      else if datatype = ''INT16'' then Some T_int16
      else if datatype = ''INT32'' then Some T_int32
      else if datatype = ''INT64'' then Some T_int64
      else if datatype = ''UINT8'' then Some T_uint8
      else if datatype = ''UINT16'' then Some T_uint16
      else if datatype = ''UINT32'' then Some T_uint32
      else if datatype = ''UINT64'' then Some T_uint64
      else if datatype = ''FP16'' \<or> datatype = ''FP32'' then Some T_float
      else if datatype = ''FP64'' then Some T_double
      else None)"

definition tensorElementCount :: "string \<Rightarrow> byte list \<Rightarrow> size_t" where
  "tensorElementCount datatype bytes =
     (let element_size = tensorElementSize datatype
      in if element_size = 0 then 0 else length bytes div element_size)"

section \<open>Scalars in a byte buffer\<close>

text \<open>
  The object representation of an unsigned value of \<open>n\<close> bytes on the little-endian hosts the
  runtime is built for, and what reading it back with \<open>memcpy\<close> gives.
\<close>

definition scalar_bytes :: "nat \<Rightarrow> nat \<Rightarrow> byte list" where
  "scalar_bytes n v = map (\<lambda>i. word_of_nat (v div 256 ^ i)) [0..<n]"

fun scalar_value :: "byte list \<Rightarrow> nat" where
  "scalar_value [] = 0"
| "scalar_value (b # bs) = unat b + 256 * scalar_value bs"

definition appendTensorScalar :: "ElementType \<Rightarrow> byte list \<Rightarrow> nat \<Rightarrow> byte list" where
  "appendTensorScalar T bytes v = bytes @ scalar_bytes (sizeof T) v"

text \<open>\<open>tensorScalarAt\<close> reads past the buffer when the index is out of range; that is \<open>None\<close> here.\<close>

definition tensorScalarAt :: "ElementType \<Rightarrow> byte list \<Rightarrow> nat \<Rightarrow> nat option" where
  "tensorScalarAt T bytes i =
     (if (i + 1) * sizeof T \<le> length bytes
      then Some (scalar_value (take (sizeof T) (drop (i * sizeof T) bytes))) else None)"

section \<open>Tensors, requests and responses\<close>

record TensorMetadata =
  tm_name :: string
  tm_datatype :: string
  tm_shape :: "int64_t list"

record ModelMetadata =
  mm_name :: string
  mm_versions :: "string list"
  mm_platform :: string
  mm_inputs :: "TensorMetadata list"
  mm_outputs :: "TensorMetadata list"

definition empty_metadata :: ModelMetadata where
  "empty_metadata = \<lparr>mm_name = [], mm_versions = [], mm_platform = [], mm_inputs = [], mm_outputs = []\<rparr>"

definition isBytesDatatype :: "string \<Rightarrow> bool" where
  "isBytesDatatype datatype \<longleftrightarrow> datatype = ''BYTES''"

record OutputTensor =
  ot_name :: string
  ot_datatype :: string
  ot_shape :: "int64_t list"
  ot_bytes :: "byte list"
  ot_string_data :: "string list"

record InputTensor =
  it_name :: string
  it_datatype :: string
  it_shape :: "int64_t list"
  it_bytes :: "byte list"
  it_string_data :: "string list"

definition input_elementCount :: "InputTensor \<Rightarrow> size_t" where
  "input_elementCount t = tensorElementCount (it_datatype t) (it_bytes t)"

definition output_elementCount :: "OutputTensor \<Rightarrow> size_t" where
  "output_elementCount t = tensorElementCount (ot_datatype t) (ot_bytes t)"

record LlmGenerationParams =
  lp_max_tokens :: "size_t option"
  lp_temperature :: "double option"
  lp_top_p :: "double option"
  lp_top_k :: "size_t option"
  lp_streaming :: bool

record LlmResultMetadata =
  lm_prompt_tokens :: size_t
  lm_completion_tokens :: size_t
  lm_finish_reason :: string

text \<open>A token the caller made, or one \<open>submit\<close> made for a request that came without.\<close>

datatype CancelToken = CallerToken nat | SchedulerToken nat

type_synonym StreamingTokenCallback = nat

record ExecutionRequest =
  er_id :: "string option"
  er_inputs :: "InputTensor list"
  er_requested_outputs :: "string list"
  er_llm_params :: "LlmGenerationParams option"
  er_cancel_token :: "CancelToken option"
  er_streaming_callback :: "StreamingTokenCallback option"

record ExecutionResponse =
  rs_ok :: bool
  rs_error_code :: string
  rs_error_message :: string
  rs_outputs :: "OutputTensor list"
  rs_llm_metadata :: "LlmResultMetadata option"

definition empty_request :: ExecutionRequest where
  "empty_request = \<lparr>er_id = None, er_inputs = [], er_requested_outputs = [], er_llm_params = None,
     er_cancel_token = None, er_streaming_callback = None\<rparr>"

definition empty_response :: ExecutionResponse where
  "empty_response = \<lparr>rs_ok = True, rs_error_code = [], rs_error_message = [], rs_outputs = [],
     rs_llm_metadata = None\<rparr>"

text \<open>What a call of \<open>Executor::infer\<close> can do: return, or throw with or without a message.\<close>

datatype InferOutcome =
  InferReturns ExecutionResponse | InferThrows string | InferThrowsOther

text \<open>The default \<open>Executor::inferStreaming\<close> ignores the callback.\<close>

definition inferStreaming_default ::
  "(ExecutionRequest \<Rightarrow> InferOutcome) \<Rightarrow> ExecutionRequest \<Rightarrow> StreamingTokenCallback option \<Rightarrow> InferOutcome" where
  "inferStreaming_default infer request callback = infer request"

section \<open>Lemmas\<close>

lemma sizeof_pos [simp]: "0 < sizeof T"
  by (cases T) auto

text \<open>Both tables, read as one: the twelve datatypes with their element type and size.\<close>

definition datatype_table :: "(string \<times> ElementType \<times> size_t) list" where
  "datatype_table =
     [(''BOOL'', T_int8, 1), (''INT8'', T_int8, 1), (''INT16'', T_int16, 2), (''INT32'', T_int32, 4),
      (''INT64'', T_int64, 8), (''UINT8'', T_uint8, 1), (''UINT16'', T_uint16, 2),
      (''UINT32'', T_uint32, 4), (''UINT64'', T_uint64, 8), (''FP16'', T_float, 4),
      (''FP32'', T_float, 4), (''FP64'', T_double, 8)]"

lemma datatype_table_sound:
  "\<forall>(d, T, n) \<in> set datatype_table.
     withTensorElementType d = Some T \<and> tensorElementSize d = n \<and> sizeof T = n \<and> 0 < n"
  by (simp add: datatype_table_def withTensorElementType_def tensorElementSize_def)

lemma datatype_table_complete:
  assumes "d \<notin> fst ` set datatype_table"
  shows "withTensorElementType d = None \<and> tensorElementSize d = 0"
proof -
  have "d \<noteq> ''BOOL''" "d \<noteq> ''INT8''" "d \<noteq> ''INT16''" "d \<noteq> ''INT32''" "d \<noteq> ''INT64''" "d \<noteq> ''UINT8''"
    "d \<noteq> ''UINT16''" "d \<noteq> ''UINT32''" "d \<noteq> ''UINT64''" "d \<noteq> ''FP16''" "d \<noteq> ''FP32''" "d \<noteq> ''FP64''"
    using assms unfolding datatype_table_def by (simp_all only: list.set image_insert fst_conv insert_iff de_Morgan_disj not_False_eq_True)
  then show ?thesis
    unfolding withTensorElementType_def tensorElementSize_def by (simp only: if_False simp_thms)
qed

lemma datatype_cases:
  obtains (known) T n where "withTensorElementType d = Some T" "tensorElementSize d = n" "sizeof T = n" "0 < n"
  | (unknown) "withTensorElementType d = None" "tensorElementSize d = 0"
proof (cases "d \<in> fst ` set datatype_table")
  case True
  then obtain T n where "(d, T, n) \<in> set datatype_table" by force
  from bspec [OF datatype_table_sound this] show ?thesis
    by (auto intro: known)
next
  case False
  then have "withTensorElementType d = None \<and> tensorElementSize d = 0"
    by (rule datatype_table_complete)
  then show ?thesis by (elim conjE) (rule unknown)
qed

lemma sizeof_tensorElementSize:
  "withTensorElementType d = Some T \<Longrightarrow> sizeof T = tensorElementSize d"
  by (rule datatype_cases [of d]) auto

lemma withTensorElementType_None:
  "withTensorElementType d = None \<longleftrightarrow> tensorElementSize d = 0"
  by (rule datatype_cases [of d]) auto

lemma isBytesDatatype_size: "isBytesDatatype d \<Longrightarrow> tensorElementSize d = 0"
  by (simp add: isBytesDatatype_def tensorElementSize_def)

lemma length_scalar_bytes [simp]: "length (scalar_bytes n v) = n"
  by (simp add: scalar_bytes_def)

lemma scalar_bytes_Suc:
  "scalar_bytes (Suc n) v = word_of_nat v # scalar_bytes n (v div 256)"
proof -
  have "[0..<Suc n] = 0 # map Suc [0..<n]"
    by (simp add: map_Suc_upt upt_conv_Cons)
  then show ?thesis by (simp add: scalar_bytes_def div_mult2_eq)
qed

lemma scalar_value_bytes: "scalar_value (scalar_bytes n v) = v mod 256 ^ n"
proof (induction n arbitrary: v)
  case 0
  then show ?case by (simp add: scalar_bytes_def)
next
  case (Suc n)
  have "unat (word_of_nat v :: byte) = v mod 256"
    by (simp add: unat_of_nat)
  then have "scalar_value (scalar_bytes (Suc n) v) = v mod 256 + 256 * (v div 256 mod 256 ^ n)"
    by (simp add: scalar_bytes_Suc Suc.IH)
  then show ?case by (simp add: mod_mult2_eq)
qed

lemma append_scalar_length [simp]:
  "length (appendTensorScalar T bytes v) = length bytes + sizeof T"
  by (simp add: appendTensorScalar_def)

lemma tensorElementCount_append:
  assumes "withTensorElementType d = Some T" and "length bytes = n * sizeof T"
  shows "tensorElementCount d (appendTensorScalar T bytes v) = n + 1"
proof -
  have "sizeof T = tensorElementSize d" using assms(1) by (rule sizeof_tensorElementSize)
  moreover have "(n * sizeof T + sizeof T) div sizeof T = n + 1" by (simp add: div_add1_eq)
  ultimately show ?thesis
    using assms(2) by (simp add: tensorElementCount_def Let_def)
      (metis less_not_refl sizeof_pos)
qed

text \<open>Reading back the scalar just appended, and the ones already there.\<close>

lemma tensorScalarAt_append_new:
  assumes "length bytes = n * sizeof T" and "v < 256 ^ sizeof T"
  shows "tensorScalarAt T (appendTensorScalar T bytes v) n = Some v"
  using assms by (simp add: tensorScalarAt_def appendTensorScalar_def scalar_value_bytes)

lemma tensorScalarAt_append_old:
  assumes "(i + 1) * sizeof T \<le> length bytes"
  shows "tensorScalarAt T (appendTensorScalar T bytes v) i = tensorScalarAt T bytes i"
proof -
  have "take (sizeof T) (drop (i * sizeof T) (bytes @ scalar_bytes (sizeof T) v)) =
        take (sizeof T) (drop (i * sizeof T) bytes)"
    using assms by simp
  with assms show ?thesis by (simp add: tensorScalarAt_def appendTensorScalar_def)
qed

lemma append_scalars:
  assumes "\<forall>v \<in> set vs. v < 256 ^ sizeof T"
  shows "length (foldl (appendTensorScalar T) [] vs) = length vs * sizeof T \<and>
     (\<forall>i < length vs. tensorScalarAt T (foldl (appendTensorScalar T) [] vs) i = Some (vs ! i))"
  using assms
proof (induction vs rule: rev_induct)
  case (snoc v vs)
  let ?b = "foldl (appendTensorScalar T) [] vs"
  have len: "length ?b = length vs * sizeof T"
    and old: "\<forall>i < length vs. tensorScalarAt T ?b i = Some (vs ! i)"
    using snoc by simp_all
  have "tensorScalarAt T (appendTensorScalar T ?b v) i = Some ((vs @ [v]) ! i)" if "i < length (vs @ [v])" for i
  proof (cases "i = length vs")
    case True
    then show ?thesis using tensorScalarAt_append_new [OF len] snoc.prems by simp
  next
    case False
    with that have i: "i < length vs" by simp
    then have "(i + 1) * sizeof T \<le> length vs * sizeof T" by (intro mult_le_mono1) simp
    then have "tensorScalarAt T (appendTensorScalar T ?b v) i = tensorScalarAt T ?b i"
      using len by (intro tensorScalarAt_append_old) simp
    then show ?thesis using old i by (simp add: nth_append)
  qed
  then show ?case using len by simp
qed simp

section \<open>Properties\<close>

text \<open>
  Typed payloads round-trip: for a datatype with a fixed-size element type, appending values of
  that width one by one gives a payload whose element count is the number of values and from which
  every value reads back at its own index.
\<close>

theorem tensor_scalars_roundtrip:
  assumes "withTensorElementType d = Some T" and "\<forall>v \<in> set vs. v < 256 ^ sizeof T"
  shows "tensorElementCount d (foldl (appendTensorScalar T) [] vs) = length vs \<and>
     (\<forall>i < length vs. tensorScalarAt T (foldl (appendTensorScalar T) [] vs) i = Some (vs ! i))"
proof -
  have "sizeof T = tensorElementSize d" using assms(1) by (rule sizeof_tensorElementSize)
  then have "length vs * sizeof T div tensorElementSize d = length vs" and "tensorElementSize d \<noteq> 0"
    using sizeof_pos [of T] by simp_all
  with append_scalars [OF assms(2)] show ?thesis by (simp add: tensorElementCount_def)
qed

theorem tensor_scalars_roundtrip_witness:
  "tensorElementCount ''UINT16'' (foldl (appendTensorScalar T_uint16) [] [258, 65535]) = 2 \<and>
   tensorScalarAt T_uint16 (foldl (appendTensorScalar T_uint16) [] [258, 65535]) 0 = Some 258"
proof -
  have "withTensorElementType ''UINT16'' = Some T_uint16" by (simp add: withTensorElementType_def)
  moreover have "\<forall>v \<in> set [258, 65535 :: nat]. v < 256 ^ sizeof T_uint16" by simp
  ultimately show ?thesis using tensor_scalars_roundtrip [of "''UINT16''" T_uint16 "[258, 65535]"] by simp
qed

end
