(* ===== verification/Batching.thy ===== *)
theory Batching
  imports Tensors
begin

text \<open>
  Batch formation rules: \<open>BatchCompatibility.cpp\<close> (when two requests may share a batch) and
  \<open>DynamicBatcher.cpp\<close> (merging requests along the batch dimension and splitting the batched
  response again). Sizes are computed as the source computes them, modulo \<open>2 ^ 64\<close>.
\<close>

section \<open>BatchCompatibility.cpp\<close>

definition shapesMatchExceptBatch :: "int64_t list \<Rightarrow> int64_t list \<Rightarrow> bool" where
  "shapesMatchExceptBatch left right \<longleftrightarrow>
     length left = length right \<and> (\<forall>i \<in> {1..<length left}. left ! i = right ! i)"

definition findInputByName :: "ExecutionRequest \<Rightarrow> string \<Rightarrow> InputTensor option" where
  "findInputByName request name = find_first (\<lambda>input. it_name input = name) (er_inputs request)"

definition requestBatchSize :: "ExecutionRequest \<Rightarrow> int64_t" where
  "requestBatchSize request =
     (case er_inputs request of
        [] \<Rightarrow> 1
      | front # _ \<Rightarrow> (case it_shape front of [] \<Rightarrow> 1 | d # _ \<Rightarrow> d))"

definition inputCompatibilityError :: "ExecutionRequest \<Rightarrow> InputTensor \<Rightarrow> string option" where
  "inputCompatibilityError right left_input =
     (case findInputByName right (it_name left_input) of
        None \<Rightarrow> Some ''input name mismatch''
      | Some right_input \<Rightarrow>
          if it_datatype left_input \<noteq> it_datatype right_input then Some ''input datatype mismatch''
          else if it_shape left_input = [] \<or> it_shape right_input = []
            then Some ''input shape missing batch dimension''
          else if \<not> shapesMatchExceptBatch (it_shape left_input) (it_shape right_input)
            then Some ''input shape mismatch''
          else if length (it_shape left_input) \<noteq> length (it_shape right_input)
            then Some ''input rank mismatch''
          else None)"

definition bytesInputError :: "InputTensor \<Rightarrow> string option" where
  "bytesInputError input =
     (if isBytesDatatype (it_datatype input) then Some ''BYTES tensors are not batch-compatible'' else None)"

definition batchCompatibilityError :: "ExecutionRequest \<Rightarrow> ExecutionRequest \<Rightarrow> string option" where
  "batchCompatibilityError left right =
     (case first_error bytesInputError (er_inputs left) of
        Some e \<Rightarrow> Some e
      | None \<Rightarrow>
     (case first_error bytesInputError (er_inputs right) of
        Some e \<Rightarrow> Some e
      | None \<Rightarrow>
        if length (er_inputs left) \<noteq> length (er_inputs right) then Some ''input count mismatch''
        else if er_requested_outputs left \<noteq> er_requested_outputs right
          then Some ''requested output mismatch''
        else (case first_error (inputCompatibilityError right) (er_inputs left) of
                Some e \<Rightarrow> Some e
              | None \<Rightarrow>
                  first_error (\<lambda>right_input.
                      if findInputByName left (it_name right_input) = None
                      then Some ''input name mismatch'' else None) (er_inputs right))))"

definition areBatchCompatible :: "ExecutionRequest \<Rightarrow> ExecutionRequest \<Rightarrow> bool" where
  "areBatchCompatible left right \<longleftrightarrow> batchCompatibilityError left right = None"

section \<open>DynamicBatcher.cpp\<close>

record DynamicBatchingConfig =
  db_enabled :: bool
  db_max_batch_size :: size_t
  db_max_queue_delay_us :: int64_t
  db_preferred_batch_sizes :: "size_t list"

record MergedBatch =
  mb_request :: ExecutionRequest
  mb_batch_sizes :: "size_t list"

definition dims_product :: "int64_t list \<Rightarrow> size_t" where
  "dims_product dims = foldl (\<lambda>count d. size_mul count (size_of_int64 d)) 1 dims"

definition shapeElementCount :: "int64_t list \<Rightarrow> size_t" where
  "shapeElementCount shape = (if shape = [] then 0 else dims_product shape)"

definition sliceElementCount :: "int64_t list \<Rightarrow> size_t" where
  "sliceElementCount shape = (if length shape \<le> 1 then 1 else dims_product (tl shape))"

text \<open>
  \<open>merged.shape[0] = ...\<close> is undefined when the front input has no dimension (or there is no front
  input); the model says so with \<open>None\<close>.
\<close>

definition mergeInputTensors :: "InputTensor list \<Rightarrow> size_t list \<Rightarrow> InputTensor option" where
  "mergeInputTensors inputs batch_sizes =
     (case inputs of
        [] \<Rightarrow> None
      | front # _ \<Rightarrow>
          if it_shape front = [] then None
          else Some (front\<lparr>it_shape := (it_shape front)[0 := int64_of_size (size_total batch_sizes)],
                           it_bytes := concat (map it_bytes inputs)\<rparr>))"

definition shouldDispatchBatchSize :: "size_t \<Rightarrow> DynamicBatchingConfig \<Rightarrow> bool \<Rightarrow> bool" where
  "shouldDispatchBatchSize merged_batch_dimension config delay_elapsed =
     (if merged_batch_dimension = 0 then False
      else if merged_batch_dimension \<ge> db_max_batch_size config then True
      else if merged_batch_dimension \<in> set (db_preferred_batch_sizes config) then True
      else delay_elapsed)"

text \<open>The three ways a merge ends: an error message, a merged batch, or undefined behaviour.\<close>

datatype MergeResult = MergeError string | MergeOk MergedBatch | MergeUndefined

fun matching_inputs :: "string \<Rightarrow> ExecutionRequest list \<Rightarrow> InputTensor list option" where
  "matching_inputs name [] = Some []"
| "matching_inputs name (request # requests) =
     (case findInputByName request name of
        None \<Rightarrow> None
      | Some found \<Rightarrow> map_option ((#) found) (matching_inputs name requests))"

fun merge_inputs ::
  "InputTensor list \<Rightarrow> ExecutionRequest list \<Rightarrow> size_t list \<Rightarrow> InputTensor list \<Rightarrow> (string + InputTensor list) option" where
  "merge_inputs [] requests batch_sizes acc = Some (Inr acc)"
| "merge_inputs (reference_input # rest) requests batch_sizes acc =
     (case matching_inputs (it_name reference_input) requests of
        None \<Rightarrow> Some (Inl ''input name mismatch during merge'')
      | Some found \<Rightarrow>
          (case mergeInputTensors found batch_sizes of
             None \<Rightarrow> None
           | Some merged \<Rightarrow> merge_inputs rest requests batch_sizes (acc @ [merged])))"

definition mergeExecutionRequests :: "ExecutionRequest list \<Rightarrow> MergeResult" where
  "mergeExecutionRequests requests =
     (case requests of
        [] \<Rightarrow> MergeError ''batch requires at least one request''
      | front # others \<Rightarrow>
          if \<exists>request \<in> set requests. er_inputs request = [] then MergeError ''request missing inputs''
          else let batch_sizes = map (\<lambda>request. size_of_int64 (requestBatchSize request)) requests in
            (case first_error (batchCompatibilityError front) others of
               Some e \<Rightarrow> MergeError e
             | None \<Rightarrow>
                 (case merge_inputs (er_inputs front) requests batch_sizes [] of
                    None \<Rightarrow> MergeUndefined
                  | Some (Inl e) \<Rightarrow> MergeError e
                  | Some (Inr inputs) \<Rightarrow>
                      MergeOk \<lparr>mb_request = empty_request\<lparr>er_requested_outputs := er_requested_outputs front,
                                                          er_inputs := inputs\<rparr>,
                               mb_batch_sizes = batch_sizes\<rparr>)))"

text \<open>
  One output tensor of one request: the checks and the slice of \<open>splitExecutionResponse\<close>. The slice takes it that the
  end is not before the start; for sizes a machine can hold, the checks imply it (\<open>split_range_forward\<close> below).
\<close>

definition split_output ::
  "size_t list \<Rightarrow> size_t \<Rightarrow> size_t \<Rightarrow> OutputTensor \<Rightarrow> string + OutputTensor" where
  "split_output batch_sizes batch_offset request_batch output =
     (let split_shape = (if ot_shape output = [] then []
                         else (ot_shape output)[0 := int64_of_size request_batch]);
          expected_batch_dim = size_total batch_sizes;
          element_size = tensorElementSize (ot_datatype output);
          expected_elements = shapeElementCount (ot_shape output);
          slice_elements = sliceElementCount (ot_shape output);
          start = size_mul (size_mul batch_offset slice_elements) element_size;
          end_pos = size_add start (size_mul (size_mul request_batch slice_elements) element_size);
          slice = take (end_pos - start) (drop start (ot_bytes output))
      in if ot_shape output \<noteq> [] \<and> size_of_int64 (hd (ot_shape output)) \<noteq> expected_batch_dim
           then Inl ''batched output batch dimension mismatch''
         else if element_size = 0 \<or> size_mul expected_elements element_size \<noteq> length (ot_bytes output)
           then Inl ''batched output data size mismatch''
         else if slice_elements = 0 then Inl ''batched output slice size mismatch''
         else if start > length (ot_bytes output) \<or> end_pos > length (ot_bytes output)
           then Inl ''batched output size mismatch''
         else if size_mul (shapeElementCount split_shape) element_size \<noteq> length slice
           then Inl ''batched output slice data size mismatch''
         else Inr \<lparr>ot_name = ot_name output, ot_datatype = ot_datatype output, ot_shape = split_shape,
                   ot_bytes = slice, ot_string_data = []\<rparr>)"

fun split_outputs ::
  "size_t list \<Rightarrow> size_t \<Rightarrow> size_t \<Rightarrow> OutputTensor list \<Rightarrow> OutputTensor list \<Rightarrow> ExecutionResponse" where
  "split_outputs batch_sizes batch_offset request_batch [] acc = empty_response\<lparr>rs_outputs := acc\<rparr>"
| "split_outputs batch_sizes batch_offset request_batch (output # outputs) acc =
     (case split_output batch_sizes batch_offset request_batch output of
        Inl message \<Rightarrow> empty_response\<lparr>rs_ok := False, rs_error_code := ''BACKEND_ERROR'',
                         rs_error_message := message\<rparr>
      | Inr tensor \<Rightarrow> split_outputs batch_sizes batch_offset request_batch outputs (acc @ [tensor]))"

text \<open>\<open>None\<close> is the \<open>std::out_of_range\<close> of \<open>batch_sizes.at\<close>.\<close>

definition split_one ::
  "ExecutionResponse \<Rightarrow> size_t list \<Rightarrow> nat \<Rightarrow> ExecutionResponse option" where
  "split_one batched batch_sizes request_index =
     (if request_index < length batch_sizes
      then Some (split_outputs batch_sizes (size_total (take request_index batch_sizes))
                   (batch_sizes ! request_index) (rs_outputs batched) [])
      else None)"

definition splitExecutionResponse ::
  "ExecutionResponse \<Rightarrow> size_t list \<Rightarrow> ExecutionRequest list \<Rightarrow> ExecutionResponse list option" where
  "splitExecutionResponse batched batch_sizes source_requests =
     (if \<not> rs_ok batched then Some (replicate (length source_requests) batched)
      else those (map (split_one batched batch_sizes) [0..<length source_requests]))"

section \<open>Lemmas on compatibility\<close>

lemma shapesMatch_refl [simp]: "shapesMatchExceptBatch s s"
  by (simp add: shapesMatchExceptBatch_def)

lemma shapesMatch_sym: "shapesMatchExceptBatch s t \<Longrightarrow> shapesMatchExceptBatch t s"
  by (simp add: shapesMatchExceptBatch_def)

lemma shapesMatch_trans:
  "shapesMatchExceptBatch s t \<Longrightarrow> shapesMatchExceptBatch t u \<Longrightarrow> shapesMatchExceptBatch s u"
  by (simp add: shapesMatchExceptBatch_def)

lemma shapesMatch_tl: "shapesMatchExceptBatch s t \<longleftrightarrow> length s = length t \<and> tl s = tl t"
proof
  assume match: "shapesMatchExceptBatch s t"
  have "tl s = tl t"
  proof (rule nth_equalityI)
    show "length (tl s) = length (tl t)" using match by (simp add: shapesMatchExceptBatch_def)
  next
    fix i assume "i < length (tl s)"
    then show "tl s ! i = tl t ! i"
      using match by (auto simp: shapesMatchExceptBatch_def nth_tl)
  qed
  with match show "length s = length t \<and> tl s = tl t" by (simp add: shapesMatchExceptBatch_def)
next
  assume eq: "length s = length t \<and> tl s = tl t"
  have "s ! i = t ! i" if "i \<in> {1..<length s}" for i
  proof -
    from that obtain j where "i = Suc j" and "j < length (tl s)" by (cases i) auto
    with eq show ?thesis by (metis nth_tl)
  qed
  with eq show "shapesMatchExceptBatch s t" by (simp add: shapesMatchExceptBatch_def)
qed

text \<open>What the compatibility of one input with the other request means.\<close>

definition compatible_inputs :: "InputTensor \<Rightarrow> InputTensor \<Rightarrow> bool" where
  "compatible_inputs a b \<longleftrightarrow>
     it_datatype a = it_datatype b \<and> it_shape a \<noteq> [] \<and> length (it_shape a) = length (it_shape b) \<and>
     tl (it_shape a) = tl (it_shape b)"

lemma inputCompatibilityError_None:
  "inputCompatibilityError right a = None \<longleftrightarrow>
     (\<exists>b. findInputByName right (it_name a) = Some b \<and> compatible_inputs a b)"
  by (auto simp: inputCompatibilityError_def compatible_inputs_def shapesMatch_tl
      split: option.splits if_splits)

lemma areBatchCompatible_iff:
  "areBatchCompatible left right \<longleftrightarrow>
     (\<forall>a \<in> set (er_inputs left). \<not> isBytesDatatype (it_datatype a)) \<and>
     (\<forall>b \<in> set (er_inputs right). \<not> isBytesDatatype (it_datatype b)) \<and>
     length (er_inputs left) = length (er_inputs right) \<and>
     er_requested_outputs left = er_requested_outputs right \<and>
     (\<forall>a \<in> set (er_inputs left).
        \<exists>b. findInputByName right (it_name a) = Some b \<and> compatible_inputs a b) \<and>
     (\<forall>b \<in> set (er_inputs right). findInputByName left (it_name b) \<noteq> None)"
proof -
  have "batchCompatibilityError left right = None \<longleftrightarrow>
     (\<forall>a \<in> set (er_inputs left). bytesInputError a = None) \<and>
     (\<forall>b \<in> set (er_inputs right). bytesInputError b = None) \<and>
     length (er_inputs left) = length (er_inputs right) \<and>
     er_requested_outputs left = er_requested_outputs right \<and>
     (\<forall>a \<in> set (er_inputs left). inputCompatibilityError right a = None) \<and>
     (\<forall>b \<in> set (er_inputs right). findInputByName left (it_name b) \<noteq> None)"
    unfolding batchCompatibilityError_def by (simp add: if_bool_eq_conj first_error_None)
  then show ?thesis
    by (simp add: areBatchCompatible_def bytesInputError_def inputCompatibilityError_None)
qed

lemma findInputByName_Some:
  "findInputByName r n = Some a \<Longrightarrow> a \<in> set (er_inputs r) \<and> it_name a = n"
  unfolding findInputByName_def by (rule find_first_Some)

text \<open>A request as the codec accepts it: no two inputs share a name.\<close>

definition distinct_inputs :: "ExecutionRequest \<Rightarrow> bool" where
  "distinct_inputs r \<longleftrightarrow> distinct (map it_name (er_inputs r))"

lemma findInputByName_distinct:
  assumes "distinct_inputs r" and "a \<in> set (er_inputs r)"
  shows "findInputByName r (it_name a) = Some a"
proof (cases "findInputByName r (it_name a)")
  case None
  with assms(2) show ?thesis by (auto simp: findInputByName_def)
next
  case (Some b)
  then have "b \<in> set (er_inputs r)" and "it_name b = it_name a"
    using findInputByName_Some by auto
  with assms Some show ?thesis
    by (auto simp: distinct_inputs_def distinct_map inj_on_def)
qed

lemma areBatchCompatible_sym:
  assumes "areBatchCompatible l r" and "distinct_inputs l" and "distinct_inputs r"
  shows "areBatchCompatible r l"
proof -
  have "\<exists>a. findInputByName l (it_name b) = Some a \<and> compatible_inputs b a"
    if b: "b \<in> set (er_inputs r)" for b
  proof -
    from assms(1) b obtain a where a: "findInputByName l (it_name b) = Some a"
      by (auto simp: areBatchCompatible_iff)
    then have a': "a \<in> set (er_inputs l)" "it_name a = it_name b"
      using findInputByName_Some by auto
    with assms(1) obtain c where "findInputByName r (it_name a) = Some c" "compatible_inputs a c"
      by (auto simp: areBatchCompatible_iff)
    moreover have "findInputByName r (it_name a) = Some b"
      using findInputByName_distinct [OF assms(3) b] a'(2) by simp
    ultimately have "compatible_inputs b a" by (auto simp: compatible_inputs_def)
    with a show ?thesis by blast
  qed
  moreover have "findInputByName r (it_name a) \<noteq> None" if "a \<in> set (er_inputs l)" for a
    using assms(1) that by (auto simp: areBatchCompatible_iff)
  ultimately show ?thesis using assms(1) by (auto simp: areBatchCompatible_iff)
qed

lemma areBatchCompatible_trans:
  assumes "areBatchCompatible l m" and "areBatchCompatible m r" and "distinct_inputs r"
  shows "areBatchCompatible l r"
proof -
  have "\<exists>c. findInputByName r (it_name a) = Some c \<and> compatible_inputs a c"
    if a: "a \<in> set (er_inputs l)" for a
  proof -
    from assms(1) a obtain b where b: "findInputByName m (it_name a) = Some b" "compatible_inputs a b"
      by (auto simp: areBatchCompatible_iff)
    then have b': "b \<in> set (er_inputs m)" "it_name b = it_name a" using findInputByName_Some by auto
    with assms(2) obtain c where "findInputByName r (it_name b) = Some c" "compatible_inputs b c"
      by (auto simp: areBatchCompatible_iff)
    with b b' show ?thesis by (auto simp: compatible_inputs_def)
  qed
  moreover have "findInputByName l (it_name c) \<noteq> None" if c: "c \<in> set (er_inputs r)" for c
  proof -
    from assms(2) c obtain b where "findInputByName m (it_name c) = Some b"
      by (auto simp: areBatchCompatible_iff)
    then have "b \<in> set (er_inputs m)" "it_name b = it_name c" using findInputByName_Some by auto
    with assms(1) show ?thesis by (auto simp: areBatchCompatible_iff)
  qed
  ultimately show ?thesis using assms(1,2) by (auto simp: areBatchCompatible_iff)
qed

section \<open>Lemmas on merging\<close>

lemma areBatchCompatible_error: "batchCompatibilityError l r = None \<longleftrightarrow> areBatchCompatible l r"
  by (simp add: areBatchCompatible_def)

lemma matching_inputs_Some:
  "matching_inputs n rs = Some xs \<longleftrightarrow>
     length xs = length rs \<and> (\<forall>i < length rs. findInputByName (rs ! i) n = Some (xs ! i))"
proof (induction rs arbitrary: xs)
  case (Cons r rs)
  show ?case
    by (cases xs) (auto simp: Cons.IH All_less_Suc2 split: option.splits)
qed auto

lemma matching_inputs_None:
  "matching_inputs n rs = None \<longleftrightarrow> (\<exists>r \<in> set rs. findInputByName r n = None)"
  by (induction rs) (auto split: option.splits)

text \<open>Every merged input: the front tensor, widened, with the payloads of all requests in order.\<close>

definition merged_from ::
  "ExecutionRequest list \<Rightarrow> size_t list \<Rightarrow> InputTensor \<Rightarrow> InputTensor \<Rightarrow> bool" where
  "merged_from requests batch_sizes reference m \<longleftrightarrow>
     (\<exists>xs front. matching_inputs (it_name reference) requests = Some xs \<and>
        xs \<noteq> [] \<and> front = hd xs \<and> it_shape front \<noteq> [] \<and>
        m = front\<lparr>it_shape := (it_shape front)[0 := int64_of_size (size_total batch_sizes)],
                  it_bytes := concat (map it_bytes xs)\<rparr>)"

lemma merge_inputs_Inr:
  "merge_inputs refs rs bs acc = Some (Inr out) \<Longrightarrow>
     \<exists>ms. out = acc @ ms \<and> list_all2 (merged_from rs bs) refs ms"
proof (induction refs arbitrary: acc)
  case (Cons a refs)
  from Cons.prems obtain xs m where xs: "matching_inputs (it_name a) rs = Some xs"
    and m: "mergeInputTensors xs bs = Some m" and rest: "merge_inputs refs rs bs (acc @ [m]) = Some (Inr out)"
    by (auto split: option.splits)
  from Cons.IH [OF rest] obtain ms where "out = acc @ m # ms" "list_all2 (merged_from rs bs) refs ms"
    by auto
  moreover have "merged_from rs bs a m"
    using xs m by (cases xs) (auto simp: merged_from_def mergeInputTensors_def split: if_splits)
  ultimately show ?case by auto
qed simp

lemma merge_inputs_defined:
  assumes "\<forall>a \<in> set refs. \<exists>xs. matching_inputs (it_name a) rs = Some xs \<and> xs \<noteq> [] \<and> it_shape (hd xs) \<noteq> []"
  shows "\<exists>out. merge_inputs refs rs bs acc = Some (Inr out)"
  using assms
proof (induction refs arbitrary: acc)
  case (Cons a refs)
  then obtain xs where xs: "matching_inputs (it_name a) rs = Some xs" "xs \<noteq> []" "it_shape (hd xs) \<noteq> []"
    by auto
  then obtain m where "mergeInputTensors xs bs = Some m"
    by (cases xs) (auto simp: mergeInputTensors_def)
  with xs Cons show ?case by simp
qed simp

text \<open>
  With a second request in the batch the compatibility check has already looked every input up in
  every request, so neither the undefined write nor the late name mismatch can happen.
\<close>

lemma merge_compatible:
  assumes len: "2 \<le> length rs"
    and compat: "\<forall>r \<in> set (tl rs). areBatchCompatible (hd rs) r"
  shows "\<exists>out. merge_inputs (er_inputs (hd rs)) rs bs [] = Some (Inr out)"
proof (rule merge_inputs_defined, intro ballI)
  fix a assume a: "a \<in> set (er_inputs (hd rs))"
  from len obtain f g rest where rs: "rs = f # g # rest"
    by (cases rs; cases "tl rs") auto
  have "findInputByName f (it_name a) \<noteq> None"
    using a rs by (auto simp: findInputByName_def)
  then obtain a' where a': "findInputByName f (it_name a) = Some a'" by blast
  then have in_f: "a' \<in> set (er_inputs f)" using findInputByName_Some by blast
  have lookup: "\<exists>b. findInputByName r (it_name c) = Some b \<and> compatible_inputs c b"
    if "r \<in> set (g # rest)" "c \<in> set (er_inputs f)" for r c
    using compat that rs by (auto simp: areBatchCompatible_iff)
  then have nz: "it_shape a' \<noteq> []" using in_f by (fastforce simp: compatible_inputs_def)
  have "\<forall>r \<in> set (g # rest). findInputByName r (it_name a) \<noteq> None" using lookup a rs by fastforce
  with a' have "matching_inputs (it_name a) rs \<noteq> None"
    by (simp add: rs matching_inputs_None del: matching_inputs.simps)
  then obtain xs where xs: "matching_inputs (it_name a) rs = Some xs" by blast
  then have "xs \<noteq> []" and "hd xs = a'"
    using a' by (auto simp: rs split: option.splits)
  with nz have "xs \<noteq> [] \<and> it_shape (hd xs) \<noteq> []" by simp
  with xs show "\<exists>xs. matching_inputs (it_name a) rs = Some xs \<and> xs \<noteq> [] \<and> it_shape (hd xs) \<noteq> []"
    by blast
qed

lemma merge_succeeds:
  assumes "2 \<le> length rs" and "\<forall>r \<in> set rs. er_inputs r \<noteq> []"
    and "\<forall>r \<in> set (tl rs). areBatchCompatible (hd rs) r"
  shows "\<exists>mb. mergeExecutionRequests rs = MergeOk mb"
proof -
  obtain f rest where rs: "rs = f # rest" using assms(1) by (cases rs) auto
  obtain out where "merge_inputs (er_inputs f) rs
      (map (\<lambda>r. size_of_int64 (requestBatchSize r)) rs) [] = Some (Inr out)"
    using merge_compatible [OF assms(1,3)] rs by auto
  moreover have "first_error (batchCompatibilityError f) rest = None"
    using assms(3) rs by (simp add: first_error_None areBatchCompatible_error)
  ultimately show ?thesis
    using assms(2) rs by (simp add: mergeExecutionRequests_def Let_def)
qed

lemma merge_ok:
  assumes "mergeExecutionRequests rs = MergeOk mb"
  shows "rs \<noteq> []" and "mb_batch_sizes mb = map (\<lambda>r. size_of_int64 (requestBatchSize r)) rs"
    and "list_all2 (merged_from rs (mb_batch_sizes mb)) (er_inputs (hd rs)) (er_inputs (mb_request mb))"
    and "er_requested_outputs (mb_request mb) = er_requested_outputs (hd rs)"
  using assms
  by (auto simp: mergeExecutionRequests_def Let_def empty_request_def
      split: list.splits if_splits option.splits sum.splits dest: merge_inputs_Inr)

text \<open>Undefined behaviour needs a batch of one request.\<close>

lemma merge_undefined:
  assumes "mergeExecutionRequests rs = MergeUndefined"
  shows "length rs = 1"
proof (rule ccontr)
  assume contra: "\<not> ?thesis"
  obtain f rest where rs: "rs = f # rest"
    using assms by (cases rs) (auto simp: mergeExecutionRequests_def)
  from assms rs have "\<forall>r \<in> set rest. areBatchCompatible f r" and "\<forall>r \<in> set rs. er_inputs r \<noteq> []"
    by (auto simp: mergeExecutionRequests_def Let_def areBatchCompatible_error first_error_None
        split: if_splits option.splits sum.splits)
  moreover have "2 \<le> length rs" using contra rs by (cases rest) auto
  ultimately obtain mb where "mergeExecutionRequests rs = MergeOk mb"
    using merge_succeeds [of rs] contra rs by auto
  with assms show False by simp
qed

section \<open>Lemmas on splitting\<close>

lemma foldl_size_mul:
  "a < size_limit \<Longrightarrow> foldl (\<lambda>c d. size_mul c (size_of_int64 d)) a ds =
     (a * prod_list (map size_of_int64 ds)) mod size_limit"
proof (induction ds arbitrary: a)
  case (Cons d ds)
  have "foldl (\<lambda>c d. size_mul c (size_of_int64 d)) a (d # ds) =
        (size_mul a (size_of_int64 d) * prod_list (map size_of_int64 ds)) mod size_limit"
    using Cons.IH [of "size_mul a (size_of_int64 d)"] by simp
  also have "\<dots> = (a * prod_list (map size_of_int64 (d # ds))) mod size_limit"
    by (simp add: size_mul_def mod_simps mult.assoc)
  finally show ?case .
qed simp

lemma one_lt_size_limit [simp]: "Suc 0 < size_limit"
  by (simp add: size_limit_def)

lemma dims_product_mod: "dims_product ds = prod_list (map size_of_int64 ds) mod size_limit"
  by (simp add: dims_product_def foldl_size_mul)

text \<open>
  A row-structured output: \<open>rows\<close> rows of \<open>row_bytes\<close> bytes each, all sizes inside the signed
  64-bit range the shape can express.
\<close>

definition row_elements :: "OutputTensor \<Rightarrow> nat" where
  "row_elements t = prod_list (map size_of_int64 (tl (ot_shape t)))"

definition row_bytes :: "OutputTensor \<Rightarrow> nat" where
  "row_bytes t = row_elements t * tensorElementSize (ot_datatype t)"

definition row_output :: "size_t \<Rightarrow> OutputTensor \<Rightarrow> bool" where
  "row_output rows t \<longleftrightarrow>
     ot_shape t \<noteq> [] \<and> hd (ot_shape t) = int rows \<and> rows < 2 ^ 63 \<and> 0 < row_bytes t \<and>
     (rows + 1) * row_bytes t < 2 ^ 63 \<and> length (ot_bytes t) = rows * row_bytes t"

lemma limit_63: "n < 2 ^ 63 \<Longrightarrow> n < size_limit"
  by (simp add: size_limit_def)

lemma shapeElementCount_rows:
  assumes "0 < es" and "m * (row * es) < 2 ^ 63" and "m < 2 ^ 63"
    and "row = prod_list (map size_of_int64 (tl sh))" and "sh \<noteq> []" and "hd sh = int m"
  shows "size_mul (shapeElementCount sh) es = m * (row * es)"
proof -
  have "size_of_int64 (int m) = m" using assms(3) by (simp add: size_of_int64_nonneg)
  moreover obtain ds where sh: "sh = int m # ds" using assms(5,6) by (cases sh) auto
  moreover have "m * row \<le> m * (row * es)" using assms(1) by (cases es) auto
  then have "m * row < size_limit" using assms(2) by (intro limit_63) (rule le_less_trans)
  ultimately have "shapeElementCount sh = m * row"
    using assms(4) by (simp add: shapeElementCount_def dims_product_mod)
  moreover have "m * (row * es) < size_limit" using assms(2) by (rule limit_63)
  ultimately show ?thesis by (simp add: size_mul_def mult.assoc)
qed

lemma sliceElementCount_rows:
  assumes "row_output rows t"
  shows "sliceElementCount (ot_shape t) = row_elements t"
proof -
  have "0 < tensorElementSize (ot_datatype t)" using assms by (auto simp: row_output_def row_bytes_def)
  then have "row_elements t \<le> row_bytes t" by (simp add: row_bytes_def)
  moreover have "row_bytes t \<le> (rows + 1) * row_bytes t" by simp
  ultimately have "row_elements t < size_limit"
    using assms by (intro limit_63) (simp only: row_output_def, linarith)
  then show ?thesis
    by (cases "ot_shape t"; cases "tl (ot_shape t)")
      (auto simp: sliceElementCount_def row_elements_def dims_product_mod)
qed

lemma split_output_window:
  assumes out: "row_output (sum_list ns) t" and k: "k < length ns"
  shows "split_output ns (size_total (take k ns)) (ns ! k) t =
     Inr \<lparr>ot_name = ot_name t, ot_datatype = ot_datatype t, ot_shape = (ot_shape t)[0 := int (ns ! k)],
          ot_bytes = take (ns ! k * row_bytes t) (drop (sum_list (take k ns) * row_bytes t) (ot_bytes t)),
          ot_string_data = []\<rparr>"
proof -
  let ?w = "row_bytes t" and ?es = "tensorElementSize (ot_datatype t)" and ?off = "sum_list (take k ns)"
  let ?n = "sum_list ns"
  from out have sh: "ot_shape t \<noteq> []" "hd (ot_shape t) = int ?n" and lt: "?n < 2 ^ 63" and w: "0 < ?w"
    and total: "(?n + 1) * ?w < 2 ^ 63" and len: "length (ot_bytes t) = ?n * ?w"
    by (auto simp: row_output_def)
  have es: "0 < ?es" and re: "0 < row_elements t" using w by (auto simp: row_bytes_def)
  have part: "?off + ns ! k \<le> ?n" using k by (rule sum_list_take_nth_le)
  then have fits: "?off * ?w + ns ! k * ?w \<le> ?n * ?w"
    by (metis distrib_right mult_le_mono1)
  have small: "?off < size_limit" "ns ! k < 2 ^ 63" "?n < size_limit"
    using part lt by (auto intro: limit_63)
  have bound: "x * row_elements t * ?es = x * ?w" for x by (simp add: row_bytes_def mult.assoc)
  have mul: "size_mul (size_mul x (row_elements t)) ?es = x * ?w" if "x \<le> ?n" for x
  proof -
    have le: "x * ?w \<le> ?n * ?w" using that by simp
    have sub: "x * row_elements t \<le> x * ?w" using es by (simp add: row_bytes_def)
    have "x * ?w < 2 ^ 63" using le total by (simp only: distrib_right)
    then have "x * ?w < size_limit" by (rule limit_63)
    moreover from this sub have "x * row_elements t < size_limit" by (rule le_less_trans [rotated])
    ultimately show ?thesis by (simp add: size_mul_def bound)
  qed
  have start: "size_mul (size_mul ?off (row_elements t)) ?es = ?off * ?w"
    and step: "size_mul (size_mul (ns ! k) (row_elements t)) ?es = ns ! k * ?w"
    using part by (auto intro: mul)
  have end_eq: "size_add (?off * ?w) (ns ! k * ?w) = ?off * ?w + ns ! k * ?w"
    using fits total by (intro size_add_exact limit_63) auto
  have whole: "size_mul (shapeElementCount (ot_shape t)) ?es = ?n * ?w"
    using es total lt sh unfolding row_bytes_def
    by (intro shapeElementCount_rows) (auto simp: row_elements_def)
  have piece: "size_mul (shapeElementCount ((ot_shape t)[0 := int (ns ! k)])) ?es = ns ! k * ?w"
    using es total small(2) sh fits unfolding row_bytes_def
    by (intro shapeElementCount_rows) (cases "ot_shape t"; auto simp: row_elements_def)+
  have hd_eq: "size_of_int64 (hd (ot_shape t)) = ?n"
    using sh lt by (simp add: size_of_int64_nonneg)
  have int_eq: "int64_of_size (ns ! k) = int (ns ! k)" using small(2) by (rule int64_of_size_exact)
  show ?thesis
    using sh(1) es re len fits small part
    by (simp add: split_output_def Let_def hd_eq size_total_exact sliceElementCount_rows [OF out]
        start step end_eq whole piece int_eq)
qed

lemma split_outputs_all:
  assumes "\<forall>t \<in> set ts. split_output ns off m t = Inr (f t)"
  shows "split_outputs ns off m ts acc = empty_response\<lparr>rs_outputs := acc @ map f ts\<rparr>"
  using assms by (induction ts arbitrary: acc) auto

definition window_output :: "size_t list \<Rightarrow> nat \<Rightarrow> OutputTensor \<Rightarrow> OutputTensor" where
  "window_output ns k t =
     \<lparr>ot_name = ot_name t, ot_datatype = ot_datatype t, ot_shape = (ot_shape t)[0 := int (ns ! k)],
      ot_bytes = take (ns ! k * row_bytes t) (drop (sum_list (take k ns) * row_bytes t) (ot_bytes t)),
      ot_string_data = []\<rparr>"

lemma split_response_windows:
  assumes "rs_ok resp" and "length ns = length reqs"
    and "\<forall>t \<in> set (rs_outputs resp). row_output (sum_list ns) t"
  shows "splitExecutionResponse resp ns reqs =
     Some (map (\<lambda>k. empty_response\<lparr>rs_outputs := map (window_output ns k) (rs_outputs resp)\<rparr>) [0..<length reqs])"
proof -
  have "split_one resp ns k = Some (empty_response\<lparr>rs_outputs := map (window_output ns k) (rs_outputs resp)\<rparr>)"
    if "k < length reqs" for k
  proof -
    have "\<forall>t \<in> set (rs_outputs resp).
        split_output ns (size_total (take k ns)) (ns ! k) t = Inr (window_output ns k t)"
      using assms that by (simp add: split_output_window window_output_def)
    from split_outputs_all [OF this] show ?thesis using assms(2) that by (simp add: split_one_def)
  qed
  then have "those (map (split_one resp ns) [0..<length reqs]) =
      Some (map (\<lambda>k. empty_response\<lparr>rs_outputs := map (window_output ns k) (rs_outputs resp)\<rparr>) [0..<length reqs])"
    by (intro those_map_Some) simp
  then show ?thesis using assms(1) by (simp add: splitExecutionResponse_def)
qed

lemma split_response_length:
  "splitExecutionResponse resp ns reqs = Some rs \<Longrightarrow> length rs = length reqs"
proof -
  have "length ys = length xs" if "those (map f xs) = Some ys" for f :: "nat \<Rightarrow> ExecutionResponse option" and xs ys
    using that by (induction xs arbitrary: ys) (auto split: option.splits)
  then show "splitExecutionResponse resp ns reqs = Some rs \<Longrightarrow> length rs = length reqs"
    by (auto simp: splitExecutionResponse_def split: if_splits)
qed

lemma split_response_defined:
  assumes "length ns = length reqs"
  shows "\<exists>rs. splitExecutionResponse resp ns reqs = Some rs"
proof (cases "rs_ok resp")
  case True
  have "those (map (split_one resp ns) [0..<length reqs]) =
      Some (map (\<lambda>k. the (split_one resp ns k)) [0..<length reqs])"
    using assms by (intro those_map_Some) (simp add: split_one_def)
  with True show ?thesis by (simp add: splitExecutionResponse_def)
qed (simp add: splitExecutionResponse_def)

lemma those_Some_nth:
  "those (map f xs) = Some ys \<Longrightarrow> k < length xs \<Longrightarrow> f (xs ! k) = Some (ys ! k)"
proof (induction xs arbitrary: ys k)
  case (Cons x xs)
  then show ?case by (cases k) (auto split: option.splits)
qed simp

text \<open>
  A request whose inputs all have the request's batch size as leading dimension and exactly the bytes
  their shape asks for.
\<close>

definition input_row_bytes :: "InputTensor \<Rightarrow> nat" where
  "input_row_bytes t = prod_list (map size_of_int64 (tl (it_shape t))) * tensorElementSize (it_datatype t)"

definition batch_consistent :: "ExecutionRequest \<Rightarrow> bool" where
  "batch_consistent r \<longleftrightarrow> 0 \<le> requestBatchSize r \<and> requestBatchSize r < 2 ^ 63 \<and>
     (\<forall>t \<in> set (er_inputs r). it_shape t \<noteq> [] \<and> hd (it_shape t) = requestBatchSize r \<and>
        length (it_bytes t) = nat (requestBatchSize r) * input_row_bytes t)"

text \<open>An executor that hands an input tensor back as an output.\<close>

definition echo_tensor :: "InputTensor \<Rightarrow> OutputTensor" where
  "echo_tensor t = \<lparr>ot_name = it_name t, ot_datatype = it_datatype t, ot_shape = it_shape t,
                    ot_bytes = it_bytes t, ot_string_data = []\<rparr>"

lemma row_bytes_echo: "row_bytes (echo_tensor t) = input_row_bytes t"
  by (simp add: row_bytes_def row_elements_def echo_tensor_def input_row_bytes_def)

lemma merged_pieces:
  assumes merge: "merged_from rs ns a m" and compat: "\<forall>r \<in> set (tl rs). areBatchCompatible (hd rs) r"
    and dist: "distinct_inputs (hd rs)" and a: "a \<in> set (er_inputs (hd rs))"
    and cons: "\<forall>r \<in> set rs. batch_consistent r"
    and ns: "ns = map (\<lambda>r. size_of_int64 (requestBatchSize r)) rs"
    and total: "sum_list ns < 2 ^ 63"
  shows "\<exists>xs. matching_inputs (it_name a) rs = Some xs \<and> length xs = length ns \<and>
      it_bytes m = concat (map it_bytes xs) \<and> it_shape m = int (sum_list ns) # tl (it_shape m) \<and>
      (\<forall>i < length xs. length (it_bytes (xs ! i)) = ns ! i * input_row_bytes m)"
proof -
  from merge obtain xs where xs: "matching_inputs (it_name a) rs = Some xs" "xs \<noteq> []" "it_shape (hd xs) \<noteq> []"
    and m: "m = (hd xs)\<lparr>it_shape := (it_shape (hd xs))[0 := int64_of_size (size_total ns)],
                        it_bytes := concat (map it_bytes xs)\<rparr>"
    by (auto simp: merged_from_def)
  from xs(1) have len: "length xs = length rs"
    and found: "\<And>i. i < length rs \<Longrightarrow> findInputByName (rs ! i) (it_name a) = Some (xs ! i)"
    by (auto simp: matching_inputs_Some)
  have "rs \<noteq> []" using xs(2) len by auto
  then have hd_a: "hd xs = a"
    using found [of 0] findInputByName_distinct [OF dist a] xs(2) by (simp add: hd_conv_nth)
  have same: "input_row_bytes (xs ! i) = input_row_bytes m" if i: "i < length rs" for i
  proof (cases i)
    case 0
    with hd_a xs(2) have "xs ! i = a" by (simp add: hd_conv_nth)
    then show ?thesis using hd_a xs(3) by (cases "it_shape a") (auto simp: m input_row_bytes_def)
  next
    case (Suc j)
    then have "rs ! i \<in> set (tl rs)" using i by (cases rs) auto
    with compat have "areBatchCompatible (hd rs) (rs ! i)" by blast
    with a obtain b where "findInputByName (rs ! i) (it_name a) = Some b" "compatible_inputs a b"
      by (auto simp: areBatchCompatible_iff)
    with found [OF i] have "compatible_inputs a (xs ! i)" by simp
    then show ?thesis using hd_a xs(3)
      by (cases "it_shape a") (auto simp: m input_row_bytes_def compatible_inputs_def)
  qed
  have "length (it_bytes (xs ! i)) = ns ! i * input_row_bytes m" if i: "i < length xs" for i
  proof -
    from i len have i': "i < length rs" by simp
    have "xs ! i \<in> set (er_inputs (rs ! i))" using found [OF i'] findInputByName_Some by blast
    with cons i' have "length (it_bytes (xs ! i)) = nat (requestBatchSize (rs ! i)) * input_row_bytes (xs ! i)"
      and "0 \<le> requestBatchSize (rs ! i)" "requestBatchSize (rs ! i) < 2 ^ 63"
      by (auto simp: batch_consistent_def)
    then show ?thesis using same [OF i'] i' ns by (simp add: size_of_int64_nonneg)
  qed
  moreover have "it_shape m = int (sum_list ns) # tl (it_shape m)"
    using xs(3) total by (cases "it_shape (hd xs)")
      (simp_all add: m size_total_exact limit_63 int64_of_size_exact)
  ultimately show ?thesis using xs(1) len ns by (auto simp: m)
qed

lemma echo_row_output:
  assumes "it_shape m = int (sum_list ns) # tl (it_shape m)" and "sum_list ns < 2 ^ 63"
    and "0 < input_row_bytes m" and "(sum_list ns + 1) * input_row_bytes m < 2 ^ 63"
    and "it_bytes m = concat (map it_bytes xs)" and "length xs = length ns"
    and "\<forall>i < length xs. length (it_bytes (xs ! i)) = ns ! i * input_row_bytes m"
  shows "row_output (sum_list ns) (echo_tensor m)"
proof -
  have "length (concat (map it_bytes xs)) = sum_list ns * input_row_bytes m"
    using assms(6,7) by (intro length_concat_widths) auto
  moreover have "hd (it_shape m) = int (sum_list ns)" and "it_shape m \<noteq> []"
    using assms(1) by (metis list.sel(1), metis list.discI)
  ultimately show ?thesis
    using assms(2-5) by (simp add: row_output_def row_bytes_echo) (simp add: echo_tensor_def)
qed

text \<open>The definitions that evaluate a merge or a split on concrete requests.\<close>

lemmas batching_eval =
  empty_request_def empty_response_def mergeExecutionRequests_def Let_def batchCompatibilityError_def
  bytesInputError_def isBytesDatatype_def inputCompatibilityError_def findInputByName_def
  shapesMatch_tl mergeInputTensors_def requestBatchSize_def

definition sample_request :: "size_t \<Rightarrow> byte list \<Rightarrow> ExecutionRequest" where
  "sample_request n bytes = empty_request\<lparr>er_inputs := [\<lparr>it_name = ''x'', it_datatype = ''UINT8'',
     it_shape = [int n, 2], it_bytes = bytes, it_string_data = []\<rparr>]\<rparr>"

definition two_row_request :: ExecutionRequest where
  "two_row_request = empty_request\<lparr>er_inputs :=
     [\<lparr>it_name = ''a'', it_datatype = ''UINT8'', it_shape = [1], it_bytes = [1], it_string_data = []\<rparr>,
      \<lparr>it_name = ''b'', it_datatype = ''UINT8'', it_shape = [2], it_bytes = [2, 3], it_string_data = []\<rparr>]\<rparr>"

text \<open>Splitting is defined whenever there is one size per request.\<close>

lemma split_defined:
  assumes "length batch_sizes = length requests"
  shows "\<exists>rs. splitExecutionResponse b batch_sizes requests = Some rs \<and> length rs = length requests"
proof (cases "rs_ok b")
  case True
  have "those (map (split_one b batch_sizes) [0..<length requests]) =
      Some (map (\<lambda>i. the (split_one b batch_sizes i)) [0..<length requests])"
    by (rule those_map_Some) (simp add: split_one_def assms)
  with True show ?thesis by (simp add: splitExecutionResponse_def)
qed (simp add: splitExecutionResponse_def)

text \<open>
  The range of a slice never runs backwards as long as the rows up to its end times the bytes of the buffer stay below
  2 ^ 64: an end that wraps around to below the start would need more.
\<close>

lemma split_range_forward:
  assumes "start = size_mul (size_mul off elements) es" "stop = size_add start (size_mul (size_mul rows elements) es)"
    and "start \<le> bytes" "stop \<le> bytes" "(off + rows) * bytes < size_limit"
  shows "start \<le> stop"
proof (rule ccontr)
  assume "\<not> start \<le> stop"
  then have less: "stop < start" by simp
  define w where "w = int elements * int es"
  let ?M = "int size_limit"
  have "int start = (int off * w) mod ?M"
    by (simp add: assms(1) size_mul_def w_def zmod_int mod_simps mult.assoc)
  then obtain a where a: "int start = int off * w - ?M * a" by (metis minus_mult_div_eq_mod)
  have "int stop = (int start + int rows * w) mod ?M"
    by (simp add: assms(2) size_add_def size_mul_def w_def zmod_int mod_simps mult.assoc)
  then obtain b where b: "int stop = int start + int rows * w - ?M * b" by (metis minus_mult_div_eq_mod)
  let ?y = "int start - int stop"
  let ?z = "int rows * int start + int off * ?y"
  have "?z = ?M * (int off * b - int rows * a)" unfolding b by (simp add: a algebra_simps)
  then have dvd: "?M dvd ?z" by simp
  have "?z \<le> int rows * int bytes + int off * int bytes"
    using assms(3,4) by (intro add_mono mult_left_mono) auto
  also have "\<dots> < ?M" using assms(5) by (simp add: algebra_simps flip: of_nat_mult of_nat_add)
  finally have "?z < ?M" .
  moreover have "0 \<le> ?z" using less by simp
  ultimately have "?z = 0" using dvd zdvd_imp_le by (metis le_less not_le)
  moreover have "0 \<le> int rows * int start" "0 \<le> int off * ?y" using less by simp_all
  ultimately have "int off * ?y = 0" by linarith
  then have "off = 0" using less by simp
  then have "start = 0" by (simp add: assms(1) size_mul_def)
  with less show False by simp
qed

section \<open>Properties\<close>

text \<open>
  (C3) A batched response is split back without mixing rows: when every batched output is
  row-structured over the summed batch sizes and output \<open>j\<close> is the concatenation of one piece per
  request, each of the request's batch size times the row width, the split succeeds with one response
  per request, and response \<open>k\<close> is ok and carries for output \<open>j\<close> exactly piece \<open>k\<close>, under the
  output's own name and datatype and with the request's batch size as leading dimension.
\<close>

theorem split_returns_own_rows:
  assumes "rs_ok resp" and "length ns = length reqs"
    and "\<forall>t \<in> set (rs_outputs resp). row_output (sum_list ns) t"
    and "j < length (rs_outputs resp)" and "ot_bytes (rs_outputs resp ! j) = concat pieces"
    and "length pieces = length ns"
    and "\<forall>i < length pieces. length (pieces ! i) = ns ! i * row_bytes (rs_outputs resp ! j)"
    and "k < length reqs"
  shows "\<exists>rs. splitExecutionResponse resp ns reqs = Some rs \<and> length rs = length reqs \<and> rs_ok (rs ! k) \<and>
     ot_bytes (rs_outputs (rs ! k) ! j) = pieces ! k \<and>
     ot_name (rs_outputs (rs ! k) ! j) = ot_name (rs_outputs resp ! j) \<and>
     ot_datatype (rs_outputs (rs ! k) ! j) = ot_datatype (rs_outputs resp ! j) \<and>
     hd (ot_shape (rs_outputs (rs ! k) ! j)) = int (ns ! k)"
proof -
  let ?t = "rs_outputs resp ! j"
  have "ot_shape ?t \<noteq> []" using assms(3,4) by (auto simp: row_output_def)
  then have "hd ((ot_shape ?t)[0 := int (ns ! k)]) = int (ns ! k)" by (cases "ot_shape ?t") auto
  moreover have "ot_bytes (window_output ns k ?t) = pieces ! k"
    using concat_window [OF assms(6,7), of k] assms(2,5,6,8) by (simp add: window_output_def)
  ultimately show ?thesis
    using split_response_windows [OF assms(1-3)] assms(4,8)
    by (simp add: window_output_def empty_response_def)
qed

theorem split_returns_own_rows_witness:
  "let t = \<lparr>ot_name = ''y'', ot_datatype = ''UINT8'', ot_shape = [3, 2],
            ot_bytes = [1, 2, 3, 4, 5, 6], ot_string_data = []\<rparr>;
       resp = empty_response\<lparr>rs_outputs := [t]\<rparr>
   in \<exists>rs. splitExecutionResponse resp [1, 2] [empty_request, empty_request] = Some rs \<and>
         ot_bytes (rs_outputs (rs ! 1) ! 0) = [3, 4, 5, 6]"
proof -
  define t where "t = \<lparr>ot_name = ''y'', ot_datatype = ''UINT8'', ot_shape = [3, 2],
            ot_bytes = [1, 2, 3, 4, 5, 6 :: byte], ot_string_data = []\<rparr>"
  define resp where "resp = empty_response\<lparr>rs_outputs := [t]\<rparr>"
  have out: "rs_outputs resp = [t]" and ok: "rs_ok resp"
    by (simp_all add: resp_def empty_response_def)
  have es: "tensorElementSize ''UINT8'' = 1" by (simp add: tensorElementSize_def)
  have w: "row_bytes t = 2"
    by (simp add: t_def row_bytes_def row_elements_def es size_of_int64_def)
  have "row_output (sum_list [1, 2]) t"
    unfolding row_output_def w by (simp add: t_def)
  then have "\<exists>rs. splitExecutionResponse resp [1, 2] [empty_request, empty_request] = Some rs \<and>
      length rs = length [empty_request, empty_request] \<and> rs_ok (rs ! 1) \<and>
      ot_bytes (rs_outputs (rs ! 1) ! 0) = [[1, 2], [3, 4, 5, 6]] ! 1 \<and>
      ot_name (rs_outputs (rs ! 1) ! 0) = ot_name (rs_outputs resp ! 0) \<and>
      ot_datatype (rs_outputs (rs ! 1) ! 0) = ot_datatype (rs_outputs resp ! 0) \<and>
      hd (ot_shape (rs_outputs (rs ! 1) ! 0)) = int ([1, 2] ! 1)"
    using ok by (intro split_returns_own_rows) (auto simp: out w less_Suc_eq, simp add: t_def)
  then show ?thesis by (auto simp: Let_def resp_def t_def)
qed



text \<open>
  Merging never fails on a batch the scheduler forms: two or more requests, each with inputs,
  all compatible with the first (whose input names are distinct), merge to a batch with one size per
  request; every merged input is the first request's tensor with the summed batch size as leading
  dimension and the payloads of all requests concatenated in batch order.
\<close>

theorem merge_of_compatible_batch:
  assumes "2 \<le> length rs" and "\<forall>r \<in> set rs. er_inputs r \<noteq> []"
    and "\<forall>r \<in> set (tl rs). areBatchCompatible (hd rs) r" and "distinct_inputs (hd rs)"
  shows "\<exists>mb. mergeExecutionRequests rs = MergeOk mb \<and>
     mb_batch_sizes mb = map (\<lambda>r. size_of_int64 (requestBatchSize r)) rs \<and>
     list_all2 (\<lambda>a m. \<exists>xs. length xs = length rs \<and> hd xs = a \<and>
         (\<forall>i < length rs. findInputByName (rs ! i) (it_name a) = Some (xs ! i)) \<and>
         m = a\<lparr>it_shape := (it_shape a)[0 := int64_of_size (size_total (mb_batch_sizes mb))],
               it_bytes := concat (map it_bytes xs)\<rparr>)
       (er_inputs (hd rs)) (er_inputs (mb_request mb))"
proof -
  obtain mb where mb: "mergeExecutionRequests rs = MergeOk mb" using merge_succeeds [OF assms(1-3)] by blast
  have "\<exists>xs. length xs = length rs \<and> hd xs = a \<and>
         (\<forall>i < length rs. findInputByName (rs ! i) (it_name a) = Some (xs ! i)) \<and>
         m = a\<lparr>it_shape := (it_shape a)[0 := int64_of_size (size_total (mb_batch_sizes mb))],
               it_bytes := concat (map it_bytes xs)\<rparr>"
    if "a \<in> set (er_inputs (hd rs))" "merged_from rs (mb_batch_sizes mb) a m" for a m
  proof -
    from that(2) obtain xs where xs: "matching_inputs (it_name a) rs = Some xs" "xs \<noteq> []"
      and m: "m = (hd xs)\<lparr>it_shape := (it_shape (hd xs))[0 := int64_of_size (size_total (mb_batch_sizes mb))],
          it_bytes := concat (map it_bytes xs)\<rparr>"
      by (auto simp: merged_from_def)
    from xs have len: "length xs = length rs"
      and all: "\<forall>i < length rs. findInputByName (rs ! i) (it_name a) = Some (xs ! i)"
      by (auto simp: matching_inputs_Some)
    have "0 < length rs" using assms(1) by linarith
    with all have "findInputByName (rs ! 0) (it_name a) = Some (xs ! 0)" by blast
    then have "hd xs = a"
      using findInputByName_distinct [OF assms(4) that(1)] xs(2) assms(1) by (cases rs; cases xs) auto
    with xs m len show ?thesis by (auto simp: matching_inputs_Some)
  qed
  then have "list_all2 (\<lambda>a m. \<exists>xs. length xs = length rs \<and> hd xs = a \<and>
         (\<forall>i < length rs. findInputByName (rs ! i) (it_name a) = Some (xs ! i)) \<and>
         m = a\<lparr>it_shape := (it_shape a)[0 := int64_of_size (size_total (mb_batch_sizes mb))],
               it_bytes := concat (map it_bytes xs)\<rparr>)
       (er_inputs (hd rs)) (er_inputs (mb_request mb))"
    using merge_ok(3) [OF mb] by (rule list.rel_mono_strong [rotated]) auto
  with mb merge_ok(2) [OF mb] show ?thesis by blast
qed

theorem merge_of_compatible_batch_witness:
  "\<exists>mb. mergeExecutionRequests [sample_request 1 [1, 2], sample_request 2 [3, 4, 5, 6]] = MergeOk mb \<and>
     mb_batch_sizes mb = [1, 2]"
proof -
  let ?rs = "[sample_request 1 [1, 2], sample_request 2 [3, 4, 5, 6]]"
  have "2 \<le> length ?rs" "\<forall>r \<in> set ?rs. er_inputs r \<noteq> []"
    "\<forall>r \<in> set (tl ?rs). areBatchCompatible (hd ?rs) r" "distinct_inputs (hd ?rs)"
    by (simp_all add: areBatchCompatible_def sample_request_def batching_eval distinct_inputs_def)
  note result = merge_of_compatible_batch [OF this]
  have "map (\<lambda>r. size_of_int64 (requestBatchSize r)) ?rs = [1, 2]"
    by (simp add: sample_request_def requestBatchSize_def empty_request_def size_of_int64_def)
  with result show ?thesis by (elim exE conjE) (intro exI conjI, assumption, simp only:)
qed

text \<open>
  On requests without duplicate input names, batch compatibility is symmetric and transitive, so
  checking each candidate against the first request of the batch makes every two members compatible.
\<close>

theorem batch_members_pairwise_compatible:
  assumes "\<forall>r \<in> set (front # rest). distinct_inputs r"
    and "\<forall>r \<in> set rest. areBatchCompatible front r"
    and "a \<in> set rest" and "b \<in> set rest"
  shows "areBatchCompatible a b \<and> areBatchCompatible a front"
proof -
  have fa: "areBatchCompatible front a" and fb: "areBatchCompatible front b"
    and dist: "distinct_inputs front" "distinct_inputs a" "distinct_inputs b"
    using assms by simp_all
  from areBatchCompatible_sym [OF fa dist(1,2)] have af: "areBatchCompatible a front" .
  from areBatchCompatible_trans [OF af fb dist(3)] af show ?thesis by blast
qed

theorem batch_members_pairwise_compatible_witness:
  "areBatchCompatible (sample_request 2 []) (sample_request 3 []) \<and>
   areBatchCompatible (sample_request 2 []) (sample_request 1 [])"
proof -
  have "\<forall>r \<in> set (sample_request 1 [] # [sample_request 2 [], sample_request 3 []]). distinct_inputs r"
    "\<forall>r \<in> set [sample_request 2 [], sample_request 3 []]. areBatchCompatible (sample_request 1 []) r"
    by (simp_all add: areBatchCompatible_def sample_request_def batching_eval distinct_inputs_def)
  from batch_members_pairwise_compatible [OF this, of "sample_request 2 []" "sample_request 3 []"]
  show ?thesis by simp
qed

text \<open>
  The batch size of a request is read off its first input only. Two requests whose second input
  has a different leading dimension are each well formed and pass the compatibility check, yet the
  merged second input declares two rows and carries four.
\<close>

theorem merge_uses_first_input_batch:
  "areBatchCompatible two_row_request two_row_request \<and>
   list_all (\<lambda>t. input_elementCount t = shapeElementCount (it_shape t)) (er_inputs two_row_request) \<and>
   (\<exists>mb m. mergeExecutionRequests [two_row_request, two_row_request] = MergeOk mb \<and>
      m = er_inputs (mb_request mb) ! 1 \<and>
      shapeElementCount (it_shape m) = 2 \<and> input_elementCount m = 4)"
  by (simp add: two_row_request_def areBatchCompatible_def batching_eval input_elementCount_def
      tensorElementCount_def tensorElementSize_def shapeElementCount_def dims_product_def size_mul_def
      size_of_int64_def size_total_mod size_limit_def int64_of_size_def)

end
