(* ===== verification/Scheduler_Core.thy ===== *)
theory Scheduler_Core
  imports Batching
begin

text \<open>
  What the two schedulers share: \<open>Scheduler.hpp\<close> (configuration, results and the \<open>Scheduler\<close>
  interface), \<open>SchedulerMetrics.hpp\<close>, and the parts \<open>ModelScheduler.cpp\<close> and \<open>LlmScheduler.cpp\<close> both
  contain: pending requests and their promises, the admission of a request to the bounded queue, the
  waiting submitter, the draining flag, and the choice of the least loaded executor.

  The shared state is one record. A \<open>shared_ptr<PendingRequest>\<close> is the number of the request, in
  admission order; \<open>sc_pending\<close> is the heap those numbers point into. A promise is \<open>None\<close> until
  \<open>set_value\<close>; a second \<open>set_value\<close> throws \<open>std::future_error\<close> in the source and is recorded as a
  fault. \<open>steady_clock\<close> is \<open>sc_now\<close>, which only moves forward. Metrics counters are \<open>64 word\<close>s.
\<close>

section \<open>Scheduler.hpp\<close>

datatype SchedulerError = NoError | Overloaded | Timeout | Draining | SchedulerUnavailable

record SchedulerConfig =
  cf_max_queue_size :: size_t
  cf_request_timeout_ms :: int64_t
  cf_instances :: size_t
  cf_dynamic_batching :: DynamicBatchingConfig

record LlmSchedulerConfig =
  lc_max_queue_size :: size_t
  lc_request_timeout_ms :: int64_t
  lc_instances :: size_t
  lc_context_length :: size_t
  lc_kv_cache_slots :: size_t
  lc_max_tokens :: size_t
  lc_tokens_per_char :: double
  lc_memory_budget_bytes :: size_t

record SchedulerResult =
  sr_ok :: bool
  sr_scheduler_error :: SchedulerError
  sr_error_code :: string
  sr_error_message :: string
  sr_response :: ExecutionResponse
  sr_queue_latency_ns :: uint64_t
  sr_execution_latency_ns :: uint64_t
  sr_total_latency_ns :: uint64_t
  sr_batch_size :: uint64_t

definition new_result :: SchedulerResult where
  "new_result = \<lparr>sr_ok = True, sr_scheduler_error = NoError, sr_error_code = [], sr_error_message = [],
     sr_response = empty_response, sr_queue_latency_ns = 0, sr_execution_latency_ns = 0,
     sr_total_latency_ns = 0, sr_batch_size = 0\<rparr>"

definition adopt :: "ExecutionResponse \<Rightarrow> SchedulerResult \<Rightarrow> SchedulerResult" where
  "adopt executor_response r =
     (let r' = r\<lparr>sr_response := executor_response\<rparr>
      in if \<not> rs_ok executor_response
         then r'\<lparr>sr_ok := False, sr_error_code := rs_error_code executor_response,
                 sr_error_message := rs_error_message executor_response\<rparr>
         else r')"

section \<open>Results, metrics and the executor pool (ModelScheduler.cpp)\<close>

definition makeSchedulerError :: "SchedulerError \<Rightarrow> string \<Rightarrow> string \<Rightarrow> SchedulerResult" where
  "makeSchedulerError error code message =
     new_result\<lparr>sr_ok := False, sr_scheduler_error := error, sr_error_code := code,
                sr_error_message := message\<rparr>"

definition makeTimeoutResult :: SchedulerResult where
  "makeTimeoutResult = makeSchedulerError Timeout ''DEADLINE_EXCEEDED'' ''request exceeded deadline''"

definition makeDrainingResult :: SchedulerResult where
  "makeDrainingResult = makeSchedulerError Draining ''UNAVAILABLE'' ''model is draining''"

definition makeOverloadedResult :: SchedulerResult where
  "makeOverloadedResult = makeSchedulerError Overloaded ''QUEUE_FULL'' ''request queue is full''"

definition makeExecutorFailureResult :: "string \<Rightarrow> SchedulerResult" where
  "makeExecutorFailureResult message =
     adopt (empty_response\<lparr>rs_ok := False, rs_error_code := ''BACKEND_ERROR'',
              rs_error_message := (if message = [] then ''executor inference failed'' else message)\<rparr>)
       new_result"

definition elapsedNs :: "time_point \<Rightarrow> time_point \<Rightarrow> uint64_t" where
  "elapsedNs start finish = word_of_int (finish - start)"

record SchedulerMetricsSnapshot =
  mt_queue_depth :: size_t
  mt_in_flight :: size_t
  mt_requests_accepted :: uint64_t
  mt_requests_rejected :: uint64_t
  mt_requests_timed_out :: uint64_t
  mt_requests_memory_pressure_rejected :: uint64_t
  mt_queue_wait_ns_total :: uint64_t
  mt_execution_ns_total :: uint64_t
  mt_total_ns_total :: uint64_t
  mt_completed_requests :: uint64_t
  mt_batches_formed :: uint64_t
  mt_batched_requests_total :: uint64_t
  mt_batch_formation_ns_total :: uint64_t
  mt_batch_execution_ns_total :: uint64_t
  mt_kv_cache_slots_total :: size_t
  mt_kv_cache_slots_active :: size_t

definition zero_metrics :: SchedulerMetricsSnapshot where
  "zero_metrics = \<lparr>mt_queue_depth = 0, mt_in_flight = 0, mt_requests_accepted = 0,
     mt_requests_rejected = 0, mt_requests_timed_out = 0, mt_requests_memory_pressure_rejected = 0,
     mt_queue_wait_ns_total = 0, mt_execution_ns_total = 0, mt_total_ns_total = 0,
     mt_completed_requests = 0, mt_batches_formed = 0, mt_batched_requests_total = 0,
     mt_batch_formation_ns_total = 0, mt_batch_execution_ns_total = 0, mt_kv_cache_slots_total = 0,
     mt_kv_cache_slots_active = 0\<rparr>"

text \<open>The pointer to a member that \<open>increment\<close> takes is the field's update function.\<close>

definition increment ::
  "((uint64_t \<Rightarrow> uint64_t) \<Rightarrow> SchedulerMetricsSnapshot \<Rightarrow> SchedulerMetricsSnapshot) \<Rightarrow>
     SchedulerMetricsSnapshot \<Rightarrow> SchedulerMetricsSnapshot" where
  "increment field_update m = field_update (\<lambda>n. n + 1) m"

definition recordBatch ::
  "size_t \<Rightarrow> uint64_t \<Rightarrow> uint64_t \<Rightarrow> SchedulerMetricsSnapshot \<Rightarrow> SchedulerMetricsSnapshot" where
  "recordBatch batch_size formation_ns execution_ns m =
     m\<lparr>mt_batches_formed := mt_batches_formed m + 1,
       mt_batched_requests_total := mt_batched_requests_total m + of_nat batch_size,
       mt_batch_formation_ns_total := mt_batch_formation_ns_total m + formation_ns,
       mt_batch_execution_ns_total := mt_batch_execution_ns_total m + execution_ns\<rparr>"

definition recordBatchExecution ::
  "uint64_t \<Rightarrow> SchedulerMetricsSnapshot \<Rightarrow> SchedulerMetricsSnapshot" where
  "recordBatchExecution execution_ns m =
     m\<lparr>mt_batch_execution_ns_total := mt_batch_execution_ns_total m + execution_ns\<rparr>"

definition recordLatencies ::
  "time_point \<Rightarrow> time_point \<Rightarrow> time_point \<Rightarrow> SchedulerMetricsSnapshot \<Rightarrow> SchedulerMetricsSnapshot" where
  "recordLatencies enqueued_at execution_started execution_finished m =
     m\<lparr>mt_queue_wait_ns_total := mt_queue_wait_ns_total m + elapsedNs enqueued_at execution_started,
       mt_execution_ns_total := mt_execution_ns_total m + elapsedNs execution_started execution_finished,
       mt_total_ns_total := mt_total_ns_total m + elapsedNs enqueued_at execution_finished,
       mt_completed_requests := mt_completed_requests m + 1\<rparr>"

definition snapshot ::
  "size_t \<Rightarrow> size_t \<Rightarrow> SchedulerMetricsSnapshot \<Rightarrow> SchedulerMetricsSnapshot" where
  "snapshot queue_depth in_flight m = m\<lparr>mt_queue_depth := queue_depth, mt_in_flight := in_flight\<rparr>"

fun select_scan :: "size_t list \<Rightarrow> nat \<Rightarrow> nat \<Rightarrow> size_t \<Rightarrow> nat" where
  "select_scan [] index best_index best_inflight = best_index"
| "select_scan (n # ns) index best_index best_inflight =
     (if n < best_inflight then select_scan ns (index + 1) index n
      else select_scan ns (index + 1) best_index best_inflight)"

text \<open>The constructors reject an empty executor list, so \<open>inflight_[0]\<close> exists.\<close>

definition select :: "size_t list \<Rightarrow> nat \<times> size_t list" where
  "select inflight =
     (let best_index = select_scan (tl inflight) 1 0 (hd inflight)
      in (best_index, inflight[best_index := inflight ! best_index + 1]))"

definition release :: "nat \<Rightarrow> size_t list \<Rightarrow> size_t list" where
  "release executor_index inflight =
     (if inflight ! executor_index > 0
      then inflight[executor_index := inflight ! executor_index - 1] else inflight)"

definition currentInFlight :: "size_t list \<Rightarrow> size_t" where
  "currentInFlight inflight = size_total inflight"

section \<open>Pending requests and the shared state\<close>

record PendingRequest =
  pr_request :: ExecutionRequest
  pr_enqueued_at :: time_point
  pr_deadline :: time_point
  pr_promise :: "SchedulerResult option"
  pr_cancelled :: bool

definition no_pending :: PendingRequest where
  "no_pending = \<lparr>pr_request = empty_request, pr_enqueued_at = 0, pr_deadline = 0, pr_promise = None,
     pr_cancelled = False\<rparr>"

text \<open>Where the thread that called \<open>submit\<close> is: waiting on the future, past the wait, or returned.\<close>

datatype Submitter = NotSubmitted | Waiting | Expiring | Returned SchedulerResult

text \<open>
  Behaviour the C++ standard leaves undefined, or an exception that leaves a worker thread: nothing
  is modelled after one.
\<close>

datatype Fault = PromiseAlreadySatisfied | IteratorInvalidated | UndefinedMerge | IndexOutOfRange

record SchedulerCore =
  sc_now :: time_point
  sc_queue :: "nat list"
  sc_pending :: "nat \<Rightarrow> PendingRequest"
  sc_next :: nat
  sc_submitter :: "nat \<Rightarrow> Submitter"
  sc_tokens :: "CancelToken \<Rightarrow> bool"
  sc_next_token :: nat
  sc_draining :: bool
  sc_inflight :: "size_t list"
  sc_metrics :: SchedulerMetricsSnapshot
  sc_fault :: "Fault option"

definition set_value :: "nat \<Rightarrow> SchedulerResult \<Rightarrow> 'a SchedulerCore_scheme \<Rightarrow> 'a SchedulerCore_scheme" where
  "set_value x result s =
     (case pr_promise (sc_pending s x) of
        None \<Rightarrow> s\<lparr>sc_pending := (sc_pending s)(x := (sc_pending s x)\<lparr>pr_promise := Some result\<rparr>)\<rparr>
      | Some _ \<Rightarrow> s\<lparr>sc_fault := Some PromiseAlreadySatisfied\<rparr>)"

definition fulfillResult :: "nat \<Rightarrow> SchedulerResult \<Rightarrow> 'a SchedulerCore_scheme \<Rightarrow> 'a SchedulerCore_scheme" where
  "fulfillResult x result s = (if pr_cancelled (sc_pending s x) then s else set_value x result s)"

text \<open>\<open>if (pending->request.cancel_token) cancel_token->store(true)\<close>.\<close>

definition store_cancel_token :: "nat \<Rightarrow> 'a SchedulerCore_scheme \<Rightarrow> 'a SchedulerCore_scheme" where
  "store_cancel_token x s =
     (case er_cancel_token (pr_request (sc_pending s x)) of
        None \<Rightarrow> s
      | Some token \<Rightarrow> s\<lparr>sc_tokens := (sc_tokens s)(token := True)\<rparr>)"

definition count_metric ::
  "((uint64_t \<Rightarrow> uint64_t) \<Rightarrow> SchedulerMetricsSnapshot \<Rightarrow> SchedulerMetricsSnapshot) \<Rightarrow>
     'a SchedulerCore_scheme \<Rightarrow> 'a SchedulerCore_scheme" where
  "count_metric field_update s = s\<lparr>sc_metrics := increment field_update (sc_metrics s)\<rparr>"

definition fulfillExpiredRequest :: "nat \<Rightarrow> 'a SchedulerCore_scheme \<Rightarrow> 'a SchedulerCore_scheme" where
  "fulfillExpiredRequest x s =
     fulfillResult x makeTimeoutResult
       (count_metric mt_requests_timed_out_update (store_cancel_token x s))"

section \<open>submit\<close>

text \<open>
  The part of \<open>submit\<close> up to the wait, which both schedulers contain: a fresh or given cancel token,
  the pending record, and under the queue lock the draining check, the capacity check and the push.
  \<open>enqueued_at\<close> is the clock reading taken before the lock. \<open>Inl\<close> is an immediate result, \<open>Inr\<close> the
  number of the queued request.
\<close>

definition submit_enqueue ::
  "size_t \<Rightarrow> int64_t \<Rightarrow> time_point \<Rightarrow> ExecutionRequest \<Rightarrow> 'a SchedulerCore_scheme \<Rightarrow>
     (SchedulerResult + nat) \<times> 'a SchedulerCore_scheme" where
  "submit_enqueue max_queue_size request_timeout_ms enqueued_at request s =
     (if sc_draining s then (Inl makeDrainingResult, s)
      else
        let deadline = enqueued_at + request_timeout_ms * 1000000;
            (cancel_token, s1) =
              (case er_cancel_token request of
                 Some token \<Rightarrow> (token, s)
               | None \<Rightarrow> (SchedulerToken (sc_next_token s),
                          s\<lparr>sc_tokens := (sc_tokens s)(SchedulerToken (sc_next_token s) := False),
                            sc_next_token := sc_next_token s + 1\<rparr>));
            pending = \<lparr>pr_request = request\<lparr>er_cancel_token := Some cancel_token\<rparr>,
                       pr_enqueued_at = enqueued_at, pr_deadline = deadline, pr_promise = None,
                       pr_cancelled = False\<rparr>
        in if sc_draining s1 then (Inl makeDrainingResult, s1)
           else if length (sc_queue s1) \<ge> max_queue_size
             then (Inl makeOverloadedResult, count_metric mt_requests_rejected_update s1)
           else (Inr (sc_next s1),
                 count_metric mt_requests_accepted_update
                   (s1\<lparr>sc_pending := (sc_pending s1)(sc_next s1 := pending),
                       sc_queue := sc_queue s1 @ [sc_next s1],
                       sc_submitter := (sc_submitter s1)(sc_next s1 := Waiting),
                       sc_next := sc_next s1 + 1\<rparr>)))"

text \<open>
  \<open>future.wait_until(deadline)\<close> becoming ready, its timing out, and what \<open>submit\<close> does after the
  timeout. The two halves of the timeout are separate steps, so a worker can still set the promise
  in between.
\<close>

definition submit_ready :: "nat \<Rightarrow> 'a SchedulerCore_scheme \<Rightarrow> 'a SchedulerCore_scheme option" where
  "submit_ready x s =
     (case (sc_submitter s x, pr_promise (sc_pending s x)) of
        (Waiting, Some result) \<Rightarrow> Some (s\<lparr>sc_submitter := (sc_submitter s)(x := Returned result)\<rparr>)
      | _ \<Rightarrow> None)"

definition submit_wait_timeout :: "nat \<Rightarrow> 'a SchedulerCore_scheme \<Rightarrow> 'a SchedulerCore_scheme option" where
  "submit_wait_timeout x s =
     (if sc_submitter s x = Waiting \<and> pr_promise (sc_pending s x) = None \<and>
         pr_deadline (sc_pending s x) \<le> sc_now s
      then Some (s\<lparr>sc_submitter := (sc_submitter s)(x := Expiring)\<rparr>) else None)"

definition submit_cancel :: "nat \<Rightarrow> 'a SchedulerCore_scheme \<Rightarrow> 'a SchedulerCore_scheme option" where
  "submit_cancel x s =
     (if sc_submitter s x = Expiring
      then let s1 = store_cancel_token x s;
               s2 = s1\<lparr>sc_pending := (sc_pending s1)(x := (sc_pending s1 x)\<lparr>pr_cancelled := True\<rparr>)\<rparr>;
               s3 = count_metric mt_requests_timed_out_update s2
           in Some (s3\<lparr>sc_submitter := (sc_submitter s3)(x := Returned makeTimeoutResult)\<rparr>)
      else None)"

section \<open>Draining\<close>

definition core_isReady :: "'a SchedulerCore_scheme \<Rightarrow> bool" where
  "core_isReady s \<longleftrightarrow> \<not> sc_draining s"

definition core_isDraining :: "'a SchedulerCore_scheme \<Rightarrow> bool" where
  "core_isDraining s \<longleftrightarrow> sc_draining s"

definition core_stopAccepting :: "'a SchedulerCore_scheme \<Rightarrow> 'a SchedulerCore_scheme" where
  "core_stopAccepting s = s\<lparr>sc_draining := True\<rparr>"

definition rejectQueuedRequests :: "'a SchedulerCore_scheme \<Rightarrow> 'a SchedulerCore_scheme" where
  "rejectQueuedRequests s =
     fold (\<lambda>x. set_value x makeDrainingResult) (sc_queue s) (s\<lparr>sc_queue := []\<rparr>)"

text \<open>
  \<open>popNextPending\<close>: \<open>None\<close> while the condition variable waits, otherwise the request taken, where
  \<open>None\<close> stands for the null pointer of a drained queue.
\<close>

definition popNextPending ::
  "'a SchedulerCore_scheme \<Rightarrow> (nat option \<times> 'a SchedulerCore_scheme) option" where
  "popNextPending s =
     (if \<not> (sc_draining s \<or> sc_queue s \<noteq> []) then None
      else if sc_draining s \<and> sc_queue s = [] then Some (None, s)
      else Some (Some (hd (sc_queue s)), s\<lparr>sc_queue := tl (sc_queue s)\<rparr>))"

text \<open>The response \<open>runInference\<close> leaves, from what the executor did.\<close>

definition inference_response :: "InferOutcome \<Rightarrow> ExecutionResponse" where
  "inference_response outcome =
     (case outcome of
        InferReturns response \<Rightarrow> response
      | InferThrows message \<Rightarrow> empty_response\<lparr>rs_ok := False, rs_error_code := ''BACKEND_ERROR'',
                                  rs_error_message := message\<rparr>
      | InferThrowsOther \<Rightarrow> empty_response\<lparr>rs_ok := False, rs_error_code := ''BACKEND_ERROR'',
                               rs_error_message := ''executor inference failed''\<rparr>)"

text \<open>The result a finished execution gives a request that is still in time.\<close>

definition completed_result ::
  "PendingRequest \<Rightarrow> time_point \<Rightarrow> time_point \<Rightarrow> size_t \<Rightarrow> ExecutionResponse \<Rightarrow> SchedulerResult" where
  "completed_result pending execution_started execution_finished batch_size response =
     adopt response
       (new_result\<lparr>sr_queue_latency_ns := elapsedNs (pr_enqueued_at pending) execution_started,
                   sr_execution_latency_ns := elapsedNs execution_started execution_finished,
                   sr_total_latency_ns := elapsedNs (pr_enqueued_at pending) execution_finished,
                   sr_batch_size := of_nat batch_size\<rparr>)"

definition new_core :: "time_point \<Rightarrow> size_t \<Rightarrow> SchedulerCore" where
  "new_core now executors =
     \<lparr>sc_now = now, sc_queue = [], sc_pending = (\<lambda>_. no_pending), sc_next = 0,
      sc_submitter = (\<lambda>_. NotSubmitted), sc_tokens = (\<lambda>_. False), sc_next_token = 0,
      sc_draining = False, sc_inflight = replicate executors 0, sc_metrics = zero_metrics,
      sc_fault = None\<rparr>"

section \<open>Answering requests\<close>

text \<open>
  \<open>answers A s t\<close>: from \<open>s\<close> to \<open>t\<close> only requests in \<open>A\<close> are answered. Every request of \<open>A\<close> ends
  with a promise or was cancelled; nothing else of the shared state changes apart from tokens and
  metrics. All the fulfilment paths of the schedulers are instances, and compose.
\<close>

definition answers :: "nat set \<Rightarrow> 'a SchedulerCore_scheme \<Rightarrow> 'a SchedulerCore_scheme \<Rightarrow> bool" where
  "answers A s t \<longleftrightarrow>
     sc_queue t = sc_queue s \<and> sc_next t = sc_next s \<and> sc_now t = sc_now s \<and>
     sc_draining t = sc_draining s \<and> sc_inflight t = sc_inflight s \<and> sc_fault t = sc_fault s \<and>
     sc_submitter t = sc_submitter s \<and>
     mt_requests_accepted (sc_metrics t) = mt_requests_accepted (sc_metrics s) \<and>
     SchedulerCore.more t = SchedulerCore.more s \<and>
     (\<forall>x. pr_request (sc_pending t x) = pr_request (sc_pending s x) \<and>
          pr_deadline (sc_pending t x) = pr_deadline (sc_pending s x) \<and>
          pr_enqueued_at (sc_pending t x) = pr_enqueued_at (sc_pending s x) \<and>
          pr_cancelled (sc_pending t x) = pr_cancelled (sc_pending s x)) \<and>
     (\<forall>x. x \<notin> A \<longrightarrow> pr_promise (sc_pending t x) = pr_promise (sc_pending s x)) \<and>
     (\<forall>x \<in> A. pr_promise (sc_pending t x) \<noteq> None \<or> pr_cancelled (sc_pending t x))"

named_theorems answering \<open>the fulfilment paths as instances of answers\<close>

lemma answers_refl [simp]: "answers {} s s"
  by (simp add: answers_def)

lemma answers_cancelled: "pr_cancelled (sc_pending s x) \<Longrightarrow> answers {x} s s"
  by (simp add: answers_def)

lemma answers_trans:
  assumes "answers A s t" and "answers B t u" and "A \<inter> B = {}"
  shows "answers (A \<union> B) s u"
  unfolding answers_def
proof (intro conjI allI ballI impI)
  fix x assume "x \<in> A \<union> B"
  moreover have "x \<in> A \<Longrightarrow> pr_promise (sc_pending u x) \<noteq> None \<or> pr_cancelled (sc_pending u x)"
    using assms unfolding answers_def by (metis disjoint_iff)
  ultimately show "pr_promise (sc_pending u x) \<noteq> None \<or> pr_cancelled (sc_pending u x)"
    using assms(2) unfolding answers_def by auto
qed (use assms(1,2) in \<open>simp_all add: answers_def\<close>)

lemma answers_fulfillResult [answering]:
  "pr_promise (sc_pending s x) = None \<Longrightarrow> answers {x} s (fulfillResult x r s)"
  by (simp add: answers_def fulfillResult_def set_value_def)

lemma answers_set_value [answering]:
  "pr_promise (sc_pending s x) = None \<Longrightarrow> answers {x} s (set_value x r s)"
  by (simp add: answers_def set_value_def)

lemma answers_token [answering]: "answers {} s (store_cancel_token x s)"
  by (simp add: answers_def store_cancel_token_def split: option.split)

lemma answers_timed_out [answering]: "answers {} s (count_metric mt_requests_timed_out_update s)"
  by (simp add: answers_def count_metric_def increment_def)

lemma answers_latencies [answering]: "answers {} s (s\<lparr>sc_metrics := recordLatencies a b c (sc_metrics s)\<rparr>)"
  by (simp add: answers_def recordLatencies_def)

lemma answers_promise: "answers A s t \<Longrightarrow> x \<notin> A \<Longrightarrow> pr_promise (sc_pending t x) = pr_promise (sc_pending s x)"
  by (simp add: answers_def)

lemma answers_static:
  assumes "answers A s t"
  shows "pr_request (sc_pending t x) = pr_request (sc_pending s x)"
    "pr_deadline (sc_pending t x) = pr_deadline (sc_pending s x)"
    "pr_enqueued_at (sc_pending t x) = pr_enqueued_at (sc_pending s x)"
    "pr_cancelled (sc_pending t x) = pr_cancelled (sc_pending s x)"
  using assms by (simp_all add: answers_def)

lemma answers_frame:
  assumes "answers A s t"
  shows "sc_queue t = sc_queue s" "sc_next t = sc_next s" "sc_now t = sc_now s"
    "sc_draining t = sc_draining s" "sc_inflight t = sc_inflight s" "sc_fault t = sc_fault s"
    "sc_submitter t = sc_submitter s"
    "mt_requests_accepted (sc_metrics t) = mt_requests_accepted (sc_metrics s)"
    "SchedulerCore.more t = SchedulerCore.more s"
  using assms by (simp_all add: answers_def)

lemma answers_then:
  "answers {} s t \<Longrightarrow> answers A t u \<Longrightarrow> answers A s u"
  using answers_trans [of "{}" s t A u] by simp

lemma answers_fulfillExpired [answering]:
  assumes "pr_promise (sc_pending s x) = None"
  shows "answers {x} s (fulfillExpiredRequest x s)"
proof -
  let ?t = "count_metric mt_requests_timed_out_update (store_cancel_token x s)"
  have t: "answers {} s ?t" by (rule answers_then [OF answers_token answers_timed_out])
  then have "pr_promise (sc_pending ?t x) = None" using assms by (simp add: answers_promise)
  with t show ?thesis
    unfolding fulfillExpiredRequest_def by (intro answers_then [OF t] answers_fulfillResult)
qed

text \<open>A loop that answers the members of a list one by one answers them all.\<close>

lemma answers_fold:
  assumes "distinct (map key ys)" and "\<And>y. y \<in> set ys \<Longrightarrow> pr_promise (sc_pending s (key y)) = None"
    and step: "\<And>y t. y \<in> set ys \<Longrightarrow> pr_promise (sc_pending t (key y)) = None \<Longrightarrow>
        (\<And>z. pr_deadline (sc_pending t z) = pr_deadline (sc_pending s z) \<and>
             pr_cancelled (sc_pending t z) = pr_cancelled (sc_pending s z)) \<Longrightarrow> answers (F y) t (f y t)"
    and F: "\<And>y. F y \<subseteq> {key y}"
  shows "answers (\<Union>y \<in> set ys. F y) s (fold f ys s)"
  using assms(1,2) step
proof (induction ys arbitrary: s)
  case (Cons y ys)
  have 1: "answers (F y) s (f y s)" using Cons.prems by simp
  have apart: "key z \<notin> F y" if "z \<in> set ys" for z
  proof -
    have "key z \<noteq> key y" using that Cons.prems(1) by (metis distinct.simps(2) image_eqI list.set_map list.simps(9))
    then show ?thesis using F [of y] by blast
  qed
  have "answers (\<Union>z \<in> set ys. F z) (f y s) (fold f ys (f y s))"
  proof (rule Cons.IH)
    show "distinct (map key ys)" using Cons.prems by simp
    show "pr_promise (sc_pending (f y s) (key z)) = None" if "z \<in> set ys" for z
      using answers_promise [OF 1 apart [OF that]] that Cons.prems(2) by simp
    show "answers (F z) t (f z t)" if "z \<in> set ys" "pr_promise (sc_pending t (key z)) = None"
      "\<And>v. pr_deadline (sc_pending t v) = pr_deadline (sc_pending (f y s) v) \<and>
             pr_cancelled (sc_pending t v) = pr_cancelled (sc_pending (f y s) v)" for z t
      using that Cons.prems(3) [of z t] answers_static [OF 1] by simp
  qed
  moreover have "F y \<inter> (\<Union>z \<in> set ys. F z) = {}"
  proof (rule equals0I)
    fix v assume "v \<in> F y \<inter> (\<Union>z \<in> set ys. F z)"
    then obtain z where z: "z \<in> set ys" and v: "v \<in> F y" "v \<in> F z" by blast
    from v(2) F [of z] have "v = key z" by blast
    with v(1) apart [OF z] show False by simp
  qed
  ultimately have "answers (F y \<union> (\<Union>z \<in> set ys. F z)) s (fold f ys (f y s))"
    using 1 by (intro answers_trans)
  then show ?case by simp
qed simp

section \<open>The executor pool\<close>

lemma select_scan_least:
  assumes "best_index < index" and "index + length ns = length infl" and "drop index infl = ns"
    and "\<forall>i < index. infl ! best_index \<le> infl ! i" and "b = infl ! best_index"
  shows "select_scan ns index best_index b < length infl \<and>
     (\<forall>i < length infl. infl ! select_scan ns index best_index b \<le> infl ! i)"
  using assms
proof (induction ns index best_index b rule: select_scan.induct)
  case (2 n ns index bi b)
  have n: "infl ! index = n" and len: "index < length infl"
    using 2(4,5) by (simp_all add: nth_via_drop)
  have d: "drop (index + 1) infl = ns"
    using 2(5) by (metis Suc_eq_plus1 drop_Suc list.sel(3) tl_drop)
  show ?case
  proof (cases "n < b")
    case True
    have "infl ! index \<le> infl ! i" if "i < index + 1" for i
    proof (cases "i = index")
      case False
      with that 2(6) have "infl ! bi \<le> infl ! i" by simp
      with True 2(7) n show ?thesis by simp
    qed simp
    then have all: "\<forall>i < index + 1. infl ! index \<le> infl ! i" by blast
    have "index < index + 1" and "index + 1 + length ns = length infl" using 2(4) by simp_all
    from 2(1) [OF True this d all n [symmetric]] True show ?thesis unfolding select_scan.simps if_P [OF True] by blast
  next
    case False
    have all: "\<forall>i < index + 1. infl ! bi \<le> infl ! i" using False 2(6,7) n by (auto simp: less_Suc_eq)
    have "bi < index + 1" and "index + 1 + length ns = length infl" using 2(3,4) by simp_all
    from 2(2) [OF False this d all 2(7)] False show ?thesis unfolding select_scan.simps if_not_P [OF False] by blast
  qed
qed simp

lemma select_least:
  assumes "inflight \<noteq> []" and "select inflight = (i, inflight')"
  shows "i < length inflight" "\<forall>j < length inflight. inflight ! i \<le> inflight ! j"
    "inflight' = inflight[i := inflight ! i + 1]"
proof -
  have "select_scan (tl inflight) 1 0 (hd inflight) < length inflight \<and>
     (\<forall>j < length inflight. inflight ! select_scan (tl inflight) 1 0 (hd inflight) \<le> inflight ! j)"
    using assms(1) by (intro select_scan_least) (auto simp: hd_conv_nth drop_Suc)
  with assms(2) show "i < length inflight" "\<forall>j < length inflight. inflight ! i \<le> inflight ! j"
    "inflight' = inflight[i := inflight ! i + 1]"
    by (auto simp: select_def Let_def)
qed

lemma release_select: "select infl = (i, infl') \<Longrightarrow> infl \<noteq> [] \<Longrightarrow> release i infl' = infl"
  using select_least [of infl i infl'] by (auto simp: release_def)

text \<open>
  The in-flight counters are exact: \<open>rs\<close> lists, for each worker, the executor it is running on.
\<close>

definition executor_pool_ok :: "size_t list \<Rightarrow> nat option list \<Rightarrow> bool" where
  "executor_pool_ok inflight rs \<longleftrightarrow>
     inflight \<noteq> [] \<and> (\<forall>e < length inflight. inflight ! e = count_list rs (Some e)) \<and>
     (\<forall>e. Some e \<in> set rs \<longrightarrow> e < length inflight)"

lemma count_list_update:
  assumes "w < length rs"
  shows "count_list (rs[w := r]) x + (if rs ! w = x then 1 else 0) = count_list rs x + (if r = x then 1 else 0)"
proof -
  have "count_list rs x = count_list (take w rs @ rs ! w # drop (Suc w) rs) x"
    using assms by (simp flip: id_take_nth_drop)
  with assms show ?thesis by (simp add: upd_conv_take_nth_drop)
qed

lemma executor_pool_same:
  assumes "executor_pool_ok infl rs" and "w < length rs" and "r = rs ! w"
  shows "executor_pool_ok infl (rs[w := r])"
  using assms by simp

lemma executor_pool_select:
  assumes "executor_pool_ok infl rs" and "w < length rs" and "select infl = (e, infl')" and "rs ! w = None"
  shows "executor_pool_ok infl' (rs[w := Some e])"
proof -
  have ne: "infl \<noteq> []" using assms(1) by (simp add: executor_pool_ok_def)
  note sel = select_least [OF ne assms(3)]
  have "count_list (rs[w := Some e]) (Some i) = count_list rs (Some i) + (if i = e then 1 else 0)" for i
    using count_list_update [OF assms(2), of "Some e" "Some i"] assms(4) by auto
  with assms(1) sel show ?thesis unfolding executor_pool_ok_def
    by (auto simp: nth_list_update dest!: set_update_subset_insert [THEN subsetD])
qed

lemma executor_pool_release:
  assumes "executor_pool_ok infl rs" and "w < length rs" and "rs ! w = Some e"
  shows "executor_pool_ok (release e infl) (rs[w := None])"
proof -
  have "Some e \<in> set rs" using assms(2,3) by (metis nth_mem)
  then have e: "e < length infl" using assms(1) by (simp add: executor_pool_ok_def)
  have counts: "release e infl ! i = count_list (rs[w := None]) (Some i)" if "i < length infl" for i
    using assms(1,3) that e count_list_update [OF assms(2), of None "Some i"]
    by (auto simp: executor_pool_ok_def release_def nth_list_update)
  have "length (release e infl) = length infl" by (simp add: release_def)
  with counts assms(1) show ?thesis
    unfolding executor_pool_ok_def by (auto dest!: set_update_subset_insert [THEN subsetD])
qed

section \<open>Ownership of requests\<close>

text \<open>
  Every admitted request is in exactly one place: the queue, the hands of a worker (\<open>held\<close>, its
  promise still open), or settled: answered, cancelled by its submitter, or past its deadline, when
  the submitter's own wait times out. The queue is in admission order.
\<close>

definition settled :: "'a SchedulerCore_scheme \<Rightarrow> nat \<Rightarrow> bool" where
  "settled s x \<longleftrightarrow> pr_promise (sc_pending s x) \<noteq> None \<or> pr_cancelled (sc_pending s x) \<or>
     pr_deadline (sc_pending s x) \<le> sc_now s"

definition owned :: "'a SchedulerCore_scheme \<Rightarrow> nat list \<Rightarrow> bool" where
  "owned s held \<longleftrightarrow>
     sorted_wrt (<) (sc_queue s) \<and> distinct (sc_queue s @ held) \<and>
     (\<forall>x \<in> set (sc_queue s @ held). x < sc_next s \<and> pr_promise (sc_pending s x) = None) \<and>
     (\<forall>x < sc_next s. x \<notin> set (sc_queue s @ held) \<longrightarrow> settled s x) \<and>
     sc_fault s \<noteq> Some PromiseAlreadySatisfied \<and>
     mt_requests_accepted (sc_metrics s) = of_nat (sc_next s)"

lemma owned_perm: "owned s held \<Longrightarrow> mset held = mset held' \<Longrightarrow> owned s held'"
  unfolding owned_def
  by (metis (no_types, lifting) distinct_append mset_eq_imp_distinct_iff set_append set_mset_mset)

lemma owned_open: "owned s held \<Longrightarrow> x \<in> set held \<Longrightarrow> pr_promise (sc_pending s x) = None"
  by (simp add: owned_def)

lemma owned_distinct: "owned s held \<Longrightarrow> distinct held"
  by (simp add: owned_def)

lemma owned_cong:
  assumes "owned s held" and "sc_queue t = sc_queue s" "sc_pending t = sc_pending s" "sc_next t = sc_next s"
    "sc_now s \<le> sc_now t" "mt_requests_accepted (sc_metrics t) = mt_requests_accepted (sc_metrics s)"
    "sc_fault t \<noteq> Some PromiseAlreadySatisfied"
  shows "owned t held"
  using assms by (fastforce simp: owned_def settled_def)

lemma owned_answers:
  assumes own: "owned s held" and ans: "answers A s t"
  shows "owned t (filter (\<lambda>x. x \<notin> A) held) \<or> \<not> A \<subseteq> set held"
proof (rule disjCI)
  assume "\<not> \<not> A \<subseteq> set held"
  then have A: "A \<subseteq> set held" by simp
  note fr = answers_frame [OF ans] and st = answers_static [OF ans] and pr = answers_promise [OF ans]
  have "settled t x" if x: "x < sc_next t" "x \<notin> set (sc_queue t @ filter (\<lambda>x. x \<notin> A) held)" for x
  proof (cases "x \<in> A")
    case True
    with ans show ?thesis by (auto simp: answers_def settled_def)
  next
    case False
    with x own have "settled s x" by (auto simp: owned_def fr)
    with False show ?thesis by (simp add: settled_def pr st fr)
  qed
  moreover have "pr_promise (sc_pending t x) = None" if "x \<in> set (sc_queue t @ filter (\<lambda>x. x \<notin> A) held)" for x
  proof -
    have "x \<notin> A" using that own A by (auto simp: owned_def fr)
    with that own show ?thesis by (auto simp: owned_def pr fr)
  qed
  moreover have "distinct (sc_queue t @ filter (\<lambda>x. x \<notin> A) held)" using own by (auto simp: owned_def fr)
  ultimately show "owned t (filter (\<lambda>x. x \<notin> A) held)" using own by (auto simp: owned_def fr)
qed

lemma owned_settle:
  assumes "owned s held" and "\<And>x. x \<in> D \<Longrightarrow> settled s x"
  shows "owned s (filter (\<lambda>x. x \<notin> D) held)"
  using assms by (auto simp: owned_def)

text \<open>A worker takes \<open>taken\<close> out of the queue and erases others, which are settled.\<close>

lemma owned_take:
  assumes own: "owned s held" and q: "subseq q (sc_queue s)" and T: "distinct taken"
    "set taken \<subseteq> set (sc_queue s) - set q"
    and gone: "\<And>x. x \<in> set (sc_queue s) - set q - set taken \<Longrightarrow> settled s x"
  shows "owned (s\<lparr>sc_queue := q\<rparr>) (taken @ held)"
proof -
  have sub: "set q \<subseteq> set (sc_queue s)" using q by (rule subseq_set)
  moreover have "sorted_wrt (<) q"
    using own q by (auto simp: owned_def intro: subseq_sorted)
  moreover have "distinct q" using own q by (auto simp: owned_def intro: subseq_distinct_list)
  moreover have "settled (s\<lparr>sc_queue := q\<rparr>) x" if "x < sc_next s" "x \<notin> set (q @ taken @ held)" for x
  proof -
    have "settled s x"
    proof (cases "x \<in> set (sc_queue s)")
      case True
      then show ?thesis using that(2) by (intro gone) auto
    next
      case False
      then show ?thesis using that own by (auto simp: owned_def)
    qed
    then show ?thesis by (simp add: settled_def)
  qed
  ultimately show ?thesis using own T unfolding owned_def by auto
qed

lemma owned_enqueue:
  assumes own: "owned s held"
    and t: "sc_queue t = sc_queue s @ [sc_next s]" "sc_next t = sc_next s + 1" "sc_now t = sc_now s"
      "sc_pending t = (sc_pending s)(sc_next s := p)" "pr_promise p = None" "sc_fault t = sc_fault s"
      "mt_requests_accepted (sc_metrics t) = mt_requests_accepted (sc_metrics s) + 1"
  shows "owned t held"
proof -
  have lt: "\<forall>x \<in> set (sc_queue s @ held). x < sc_next s" using own by (simp add: owned_def)
  then have "sc_next s \<notin> set (sc_queue s @ held)" by blast
  moreover have "sorted_wrt (<) (sc_queue t)" using own lt by (auto simp: owned_def t(1) sorted_wrt_append)
  ultimately show ?thesis
    using own t by (auto simp: owned_def settled_def less_Suc_eq)
qed

text \<open>
  A worker lets go of requests it held: those in \<open>A\<close> are answered, those it does not keep are
  cancelled or expired by the time the step ends.
\<close>

lemma owned_let_go:
  assumes own: "owned s (batch @ R)" and ans: "answers A s t" and A: "A \<subseteq> set batch"
    and keep: "distinct keep" "set keep \<subseteq> set batch - A" and now: "sc_now s \<le> now"
    and gone: "\<And>x. x \<in> set batch - set keep - A \<Longrightarrow>
        pr_cancelled (sc_pending s x) \<or> pr_deadline (sc_pending s x) \<le> now"
  shows "owned (t\<lparr>sc_now := now\<rparr>) (keep @ R)"
proof -
  let ?t = "t\<lparr>sc_now := now\<rparr>" and ?D = "set batch - set keep - A"
  note fr = answers_frame [OF ans] and st = answers_static [OF ans]
  have "owned t (filter (\<lambda>x. x \<notin> A) (batch @ R))"
    using owned_answers [OF own ans] A by auto
  then have "owned ?t (filter (\<lambda>x. x \<notin> A) (batch @ R))"
    by (rule owned_cong) (use now fr own in \<open>simp_all add: owned_def\<close>)
  then have rest: "owned ?t (filter (\<lambda>x. x \<notin> ?D) (filter (\<lambda>x. x \<notin> A) (batch @ R)))"
    by (rule owned_settle) (use gone st in \<open>auto simp: settled_def\<close>)
  have d: "distinct (batch @ R)" using own by (rule owned_distinct)
  have "set (filter (\<lambda>x. x \<notin> ?D) (filter (\<lambda>x. x \<notin> A) (batch @ R))) = set (keep @ R)"
    using keep(2) A d by auto
  moreover have "distinct (filter (\<lambda>x. x \<notin> ?D) (filter (\<lambda>x. x \<notin> A) (batch @ R)))" using d by auto
  moreover have "distinct (keep @ R)" using keep d by auto
  ultimately show ?thesis using rest by (metis owned_perm set_eq_iff_mset_eq_distinct)
qed

lemma store_cancel_token_shape: "\<exists>tk. store_cancel_token x s = s\<lparr>sc_tokens := tk\<rparr>"
proof (cases "er_cancel_token (pr_request (sc_pending s x))")
  case None
  then have "store_cancel_token x s = s\<lparr>sc_tokens := sc_tokens s\<rparr>" by (simp add: store_cancel_token_def)
  then show ?thesis by blast
qed (auto simp: store_cancel_token_def)

lemma answers_pending: "answers A s t \<Longrightarrow> x \<notin> A \<Longrightarrow> sc_pending t x = sc_pending s x"
  by (rule PendingRequest.equality) (simp_all add: answers_static answers_promise)

lemma rejectQueued_answers:
  assumes own: "owned s R"
  shows "answers (set (sc_queue s)) (s\<lparr>sc_queue := []\<rparr>) (rejectQueuedRequests s)"
proof -
  have "answers (\<Union>x \<in> set (sc_queue s). {x}) (s\<lparr>sc_queue := []\<rparr>) (rejectQueuedRequests s)"
    unfolding rejectQueuedRequests_def
    by (rule answers_fold [where key = "\<lambda>x. x"])
      (use own in \<open>auto simp: owned_def intro: answers_set_value\<close>)
  then show ?thesis by simp
qed

lemma rejectQueued_owned:
  assumes own: "owned s R"
  shows "owned (rejectQueuedRequests s) R"
proof -
  have "owned (s\<lparr>sc_queue := []\<rparr>) (sc_queue s @ R)"
    by (rule owned_take [OF own]) (use own in \<open>auto simp: owned_def\<close>)
  from owned_let_go [OF this rejectQueued_answers [OF own], of "[]" "sc_now s"]
  have "owned ((rejectQueuedRequests s)\<lparr>sc_now := sc_now s\<rparr>) R" by simp
  then show ?thesis
    by (rule owned_cong) (use own answers_frame [OF rejectQueued_answers [OF own]] in \<open>simp_all add: owned_def\<close>)
qed

section \<open>Admission\<close>

lemma submit_enqueue_cases:
  assumes "submit_enqueue q ms e r s = (res, t)"
  obtains (draining) "sc_draining s" "res = Inl makeDrainingResult" "t = s"
  | (full) tk n where "\<not> sc_draining s" "q \<le> length (sc_queue s)" "res = Inl makeOverloadedResult"
      "t = s\<lparr>sc_tokens := tk, sc_next_token := n,
             sc_metrics := increment mt_requests_rejected_update (sc_metrics s)\<rparr>"
  | (accepted) tk n p where "\<not> sc_draining s" "length (sc_queue s) < q"
      "res = Inr (sc_next s)" "pr_promise p = None" "\<not> pr_cancelled p" "pr_deadline p = e + ms * 1000000"
      "er_inputs (pr_request p) = er_inputs r"
      "t = s\<lparr>sc_tokens := tk, sc_next_token := n,
             sc_metrics := increment mt_requests_accepted_update (sc_metrics s),
             sc_pending := (sc_pending s)(sc_next s := p), sc_queue := sc_queue s @ [sc_next s],
             sc_submitter := (sc_submitter s)(sc_next s := Waiting), sc_next := sc_next s + 1\<rparr>"
proof (cases "sc_draining s")
  case True
  with assms show ?thesis by (intro draining) (simp_all add: submit_enqueue_def)
next
  case False
  define tk n c where "tk = (case er_cancel_token r of Some _ \<Rightarrow> sc_tokens s
      | None \<Rightarrow> (sc_tokens s)(SchedulerToken (sc_next_token s) := False))"
    and "n = (case er_cancel_token r of Some _ \<Rightarrow> sc_next_token s | None \<Rightarrow> sc_next_token s + 1)"
    and "c = (case er_cancel_token r of Some token \<Rightarrow> token | None \<Rightarrow> SchedulerToken (sc_next_token s))"
  note defs = submit_enqueue_def count_metric_def Let_def tk_def n_def c_def
  show ?thesis
  proof (cases "q \<le> length (sc_queue s)")
    case True
    show ?thesis
      by (rule full [where tk = tk and n = n]) (use assms False True in \<open>auto simp: defs split: option.splits\<close>)
  next
    case fits: False
    show ?thesis
      by (rule accepted [where p = "\<lparr>pr_request = r\<lparr>er_cancel_token := Some c\<rparr>, pr_enqueued_at = e,
            pr_deadline = e + ms * 1000000, pr_promise = None, pr_cancelled = False\<rparr>" and tk = tk and n = n])
        (use assms False fits in \<open>auto simp: defs split: option.splits\<close>)
  qed
qed

section \<open>The Scheduler interface\<close>

text \<open>
  What callers of \<open>Scheduler\<close> rely on when a model is retired: once \<open>stopAccepting\<close> was called the
  scheduler stays draining, and a draining scheduler refuses every \<open>submit\<close> without touching its state.
\<close>

locale scheduler_interface =
  fixes draining :: "'s \<Rightarrow> bool"
    and stop_accepting :: "'s \<Rightarrow> 's"
    and admit :: "time_point \<Rightarrow> ExecutionRequest \<Rightarrow> 's \<Rightarrow> (SchedulerResult + nat) \<times> 's"
    and step :: "'s \<Rightarrow> 's \<Rightarrow> bool"
  assumes stop_drains: "draining (stop_accepting s)"
    and draining_stays: "draining s \<Longrightarrow> step s t \<Longrightarrow> draining t"
    and draining_refuses: "draining s \<Longrightarrow> \<exists>res. admit e r s = (Inl res, s) \<and> \<not> sr_ok res"
begin

lemma draining_forever: "reach (\<lambda>s. s = s0) step t \<Longrightarrow> draining s0 \<Longrightarrow> draining t"
  by (induction rule: reach.induct) (auto intro: draining_stays)

lemma refused_forever:
  "reach (\<lambda>s. s = stop_accepting s0) step t \<Longrightarrow> \<exists>res. admit e r t = (Inl res, t) \<and> \<not> sr_ok res"
  using draining_forever draining_refuses stop_drains by blast

end

lemma makeDrainingResult_failed [simp]: "\<not> sr_ok makeDrainingResult"
  by (simp add: makeDrainingResult_def makeSchedulerError_def)

text \<open>No step of the scheduler clears the flag.\<close>

lemma fold_draining:
  "(\<And>x u. sc_draining (f x u) = sc_draining u) \<Longrightarrow> sc_draining (fold f xs s) = sc_draining s"
  by (induction xs arbitrary: s) auto

lemma core_draining [frame]:
  "sc_draining (set_value x r s) = sc_draining s"
  "sc_draining (fulfillResult x r s) = sc_draining s"
  "sc_draining (store_cancel_token x s) = sc_draining s"
  "sc_draining (count_metric f s) = sc_draining s"
  "sc_draining (fulfillExpiredRequest x s) = sc_draining s"
  by (simp_all add: fulfillExpiredRequest_def fulfillResult_def set_value_def store_cancel_token_def
      count_metric_def split: option.split)

lemma reject_draining [frame]: "sc_draining (rejectQueuedRequests s) = sc_draining s"
  by (simp add: rejectQueuedRequests_def fold_draining frame)

end
