(* ===== verification/Model_Scheduler.thy ===== *)
theory Model_Scheduler
  imports Scheduler_Core
begin

text \<open>
  \<open>ModelScheduler.cpp\<close>: the bounded queue, the worker threads that form, merge and execute batches,
  timeouts, cancellation and draining, as an interleaving of atomic steps.

  A worker thread is a program counter with its local variables. A step is a stretch of code between
  two points where another thread can interfere: a critical section of \<open>queue_mutex_\<close>, or a run of
  code whose shared accesses commute with every other thread's. Every clock reading of a step is
  an argument \<open>tick k\<close> (the \<open>k\<close>-th reading), and the step relation lets the readings be any
  non-decreasing values not before \<open>sc_now\<close>. Condition variables are not modelled: a waiting thread
  may wake at any time and re-check its predicate, which the standard allows. What the executor does
  is an argument of the step that returns from it.

  A \<open>std::deque\<close> iterator that a worker keeps across an unlock is its position, and \<open>None\<close> once
  another thread's push or erase has invalidated it.
\<close>

section \<open>Workers\<close>

datatype Worker =
  WIdle \<comment> \<open>in \<open>popNextPending\<close>\<close>
| WForming "nat list" time_point size_t \<comment> \<open>at the head of \<open>formBatch\<close>'s loop: batch, start, dimension\<close>
| WExpiring "nat list" time_point size_t bool nat "nat option"
    \<comment> \<open>unlocked to answer an expired request: \<open>delay_elapsed\<close>, the request, the iterator\<close>
| WResuming "nat list" time_point size_t bool "nat option" \<comment> \<open>about to lock again\<close>
| WFormed "nat list" \<comment> \<open>about to call \<open>processBatch\<close>\<close>
| WRunning nat "nat list" time_point "MergedBatch option"
    \<comment> \<open>in \<open>Executor::infer\<close>: executor, active batch, start; \<open>None\<close> in \<open>processSingle\<close>\<close>
| WExited

record ModelScheduler = SchedulerCore +
  ms_config :: SchedulerConfig
  ms_workers :: "Worker list"

abbreviation batching :: "ModelScheduler \<Rightarrow> DynamicBatchingConfig" where
  "batching s \<equiv> cf_dynamic_batching (ms_config s)"

text \<open>
  What a \<open>push_back\<close>, and an \<open>erase\<close> at position \<open>j\<close> of \<open>len\<close> elements, do to an iterator another
  thread holds at position \<open>i\<close>.
\<close>

definition iterator_after_erase :: "nat \<times> nat \<Rightarrow> nat \<Rightarrow> nat option" where
  "iterator_after_erase jl i =
     (let (j, len) = jl in
      if j + 1 = len then (if i < j then Some i else None)
      else if j = 0 then (if i = 0 then None else Some (i - 1))
      else None)"

fun worker_after_push :: "Worker \<Rightarrow> Worker" where
  "worker_after_push (WExpiring b t m d x i) = WExpiring b t m d x None"
| "worker_after_push (WResuming b t m d i) = WResuming b t m d None"
| "worker_after_push w = w"

fun worker_after_erase :: "nat \<times> nat \<Rightarrow> Worker \<Rightarrow> Worker" where
  "worker_after_erase e (WExpiring b t m d x i) =
     WExpiring b t m d x (Option.bind i (iterator_after_erase e))"
| "worker_after_erase e (WResuming b t m d i) =
     WResuming b t m d (Option.bind i (iterator_after_erase e))"
| "worker_after_erase e w = w"

section \<open>Construction, submit and draining\<close>

definition makeModelScheduler :: "time_point \<Rightarrow> size_t \<Rightarrow> SchedulerConfig \<Rightarrow> string + ModelScheduler" where
  "makeModelScheduler now executors config =
     (if executors = 0 then Inl ''scheduler requires at least one executor''
      else Inr (SchedulerCore.extend (new_core now executors)
             \<lparr>ms_config = config, ms_workers = replicate (cf_instances config) WIdle\<rparr>))"

text \<open>\<open>submit\<close> up to the wait; the rest is \<open>submit_ready\<close>, \<open>submit_wait_timeout\<close>, \<open>submit_cancel\<close>.\<close>

definition submit ::
  "time_point \<Rightarrow> ExecutionRequest \<Rightarrow> ModelScheduler \<Rightarrow> (SchedulerResult + nat) \<times> ModelScheduler" where
  "submit enqueued_at request s =
     (if core_isDraining s then (Inl makeDrainingResult, s)
      else
        (case submit_enqueue (cf_max_queue_size (ms_config s)) (cf_request_timeout_ms (ms_config s))
                enqueued_at request s of
           (Inl result, s1) \<Rightarrow> (Inl result, s1)
         | (Inr x, s1) \<Rightarrow> (Inr x, s1\<lparr>ms_workers := map worker_after_push (ms_workers s1)\<rparr>)))"

definition metrics :: "ModelScheduler \<Rightarrow> SchedulerMetricsSnapshot" where
  "metrics s = snapshot (length (sc_queue s)) (currentInFlight (sc_inflight s)) (sc_metrics s)"

text \<open>
  \<open>beginDrain\<close> sets the flag, waits in \<open>join\<close> until every worker has exited, and rejects what is
  left in the queue.
\<close>

definition beginDrain_flag :: "ModelScheduler \<Rightarrow> ModelScheduler" where
  "beginDrain_flag s = s\<lparr>sc_draining := True\<rparr>"

definition beginDrain_joined :: "ModelScheduler \<Rightarrow> ModelScheduler option" where
  "beginDrain_joined s =
     (if sc_draining s \<and> (\<forall>w \<in> set (ms_workers s). w = WExited)
      then Some (rejectQueuedRequests (s\<lparr>ms_workers := []\<rparr>)) else None)"

section \<open>formBatch\<close>

definition mergedBatchDimension :: "(nat \<Rightarrow> PendingRequest) \<Rightarrow> nat list \<Rightarrow> size_t" where
  "mergedBatchDimension pending batch =
     foldl (\<lambda>total x. size_add total (size_of_int64 (requestBatchSize (pr_request (pending x))))) 0 batch"

datatype ScanOutcome =
  ScanEnd bool \<comment> \<open>the end of the queue, with \<open>made_progress\<close>\<close>
| ScanExpired nat \<comment> \<open>erased an expired request\<close>
| ScanAdded nat size_t \<comment> \<open>took a request with its batch dimension\<close>

record Scan =
  sn_outcome :: ScanOutcome
  sn_passed :: "nat list" \<comment> \<open>the queue before the iterator\<close>
  sn_rest :: "nat list" \<comment> \<open>the queue from the iterator on\<close>
  sn_erased :: "(nat \<times> nat) list" \<comment> \<open>position and queue length of each erase, in order\<close>
  sn_readings :: nat \<comment> \<open>clock readings used so far\<close>

text \<open>The \<open>for\<close> loop over the queue, up to the next unlock or the end.\<close>

fun scan_queue ::
  "(nat \<Rightarrow> PendingRequest) \<Rightarrow> ExecutionRequest \<Rightarrow> size_t \<Rightarrow> size_t \<Rightarrow> (nat \<Rightarrow> time_point) \<Rightarrow> nat \<Rightarrow>
     bool \<Rightarrow> (nat \<times> nat) list \<Rightarrow> nat list \<Rightarrow> nat list \<Rightarrow> Scan" where
  "scan_queue pending front max_batch merged tick k made_progress erased passed [] =
     \<lparr>sn_outcome = ScanEnd made_progress, sn_passed = passed, sn_rest = [], sn_erased = erased,
      sn_readings = k\<rparr>"
| "scan_queue pending front max_batch merged tick k made_progress erased passed (next # rest) =
     (let erase = (length passed, length passed + length rest + 1) in
      if pr_cancelled (pending next)
        then scan_queue pending front max_batch merged tick k True (erased @ [erase]) passed rest
      else if tick k \<ge> pr_deadline (pending next)
        then \<lparr>sn_outcome = ScanExpired next, sn_passed = passed, sn_rest = rest,
              sn_erased = erased @ [erase], sn_readings = k + 1\<rparr>
      else if \<not> areBatchCompatible front (pr_request (pending next))
        then scan_queue pending front max_batch merged tick (k + 1) made_progress erased (passed @ [next]) rest
      else
        let next_batch_dimension = size_of_int64 (requestBatchSize (pr_request (pending next))) in
        if size_add merged next_batch_dimension > max_batch
          then scan_queue pending front max_batch merged tick (k + 1) made_progress erased (passed @ [next]) rest
        else \<lparr>sn_outcome = ScanAdded next next_batch_dimension, sn_passed = passed, sn_rest = rest,
               sn_erased = erased @ [erase], sn_readings = k + 1\<rparr>)"

definition formation_deadline :: "time_point \<Rightarrow> DynamicBatchingConfig \<Rightarrow> time_point" where
  "formation_deadline formation_started b = formation_started + db_max_queue_delay_us b * 1000"

text \<open>Up to the loop of \<open>formBatch\<close>; \<open>t\<close> is the reading \<open>formation_started\<close>.\<close>

definition formBatch_begin :: "time_point \<Rightarrow> nat \<Rightarrow> ModelScheduler \<Rightarrow> Worker" where
  "formBatch_begin t first s =
     (if \<not> db_enabled (batching s) \<or> db_max_batch_size (batching s) \<le> 1 then WFormed [first]
      else WForming [first] t (mergedBatchDimension (sc_pending s) [first]))"

text \<open>The return of \<open>formBatch\<close>, with the reading \<open>formation_finished\<close>.\<close>

definition formBatch_return ::
  "nat list \<Rightarrow> time_point \<Rightarrow> time_point \<Rightarrow> ModelScheduler \<Rightarrow> Worker \<times> ModelScheduler" where
  "formBatch_return batch formation_started formation_finished s =
     (WFormed batch,
      if length batch > 1
      then s\<lparr>sc_metrics := recordBatch (length batch) (elapsedNs formation_started formation_finished) 0
               (sc_metrics s)\<rparr>
      else s)"

text \<open>
  The loop body from the \<open>for\<close> loop on: the scan of \<open>rest\<close> (with \<open>passed\<close> before the iterator) and
  what follows each way it ends.
\<close>

definition formBatch_scan ::
  "(nat \<Rightarrow> time_point) \<Rightarrow> nat \<Rightarrow> nat list \<Rightarrow> time_point \<Rightarrow> size_t \<Rightarrow> bool \<Rightarrow> bool \<Rightarrow> nat list \<Rightarrow> nat list \<Rightarrow>
     ModelScheduler \<Rightarrow> Worker \<times> ModelScheduler" where
  "formBatch_scan tick k batch formation_started merged delay_elapsed made_progress passed rest s =
     (let sn = scan_queue (sc_pending s) (pr_request (sc_pending s (hd batch)))
                 (db_max_batch_size (batching s)) merged tick k made_progress [] passed rest;
          s1 = s\<lparr>sc_queue := sn_passed sn @ sn_rest sn,
                 ms_workers := map (fold worker_after_erase (sn_erased sn)) (ms_workers s)\<rparr>
      in case sn_outcome sn of
           ScanExpired x \<Rightarrow>
             (WExpiring batch formation_started merged delay_elapsed x (Some (length (sn_passed sn))), s1)
         | ScanAdded x d \<Rightarrow>
             (let batch' = batch @ [x]; merged' = size_add merged d in
              if shouldDispatchBatchSize merged' (batching s)
                   (tick (sn_readings sn) \<ge> formation_deadline formation_started (batching s))
                 \<and> length batch' > 1
              then formBatch_return batch' formation_started (tick (sn_readings sn + 1)) s1
              else (WForming batch' formation_started merged', s1))
         | ScanEnd progress \<Rightarrow>
             if \<not> progress \<and> delay_elapsed
             then formBatch_return batch formation_started (tick (sn_readings sn)) s1
             else (WForming batch formation_started merged, s1))"

text \<open>One iteration of the \<open>while\<close> loop.\<close>

definition formBatch_iterate ::
  "(nat \<Rightarrow> time_point) \<Rightarrow> nat list \<Rightarrow> time_point \<Rightarrow> size_t \<Rightarrow> ModelScheduler \<Rightarrow> Worker \<times> ModelScheduler" where
  "formBatch_iterate tick batch formation_started merged s =
     (let delay_elapsed = tick 0 \<ge> formation_deadline formation_started (batching s) in
      if (shouldDispatchBatchSize merged (batching s) delay_elapsed \<and> length batch > 1)
         \<or> merged \<ge> db_max_batch_size (batching s)
         \<or> sc_draining s
      then formBatch_return batch formation_started (tick 1) s
      else formBatch_scan tick 1 batch formation_started merged delay_elapsed False [] (sc_queue s) s)"

text \<open>Back in the loop after an expired request; an invalidated iterator is undefined behaviour.\<close>

definition formBatch_resume ::
  "(nat \<Rightarrow> time_point) \<Rightarrow> nat list \<Rightarrow> time_point \<Rightarrow> size_t \<Rightarrow> bool \<Rightarrow> nat option \<Rightarrow> ModelScheduler \<Rightarrow>
     Worker \<times> ModelScheduler" where
  "formBatch_resume tick batch formation_started merged delay_elapsed iterator s =
     (case iterator of
        None \<Rightarrow> (WResuming batch formation_started merged delay_elapsed None,
                 s\<lparr>sc_fault := Some IteratorInvalidated\<rparr>)
      | Some i \<Rightarrow>
          formBatch_scan tick 0 batch formation_started merged delay_elapsed True
            (take i (sc_queue s)) (drop i (sc_queue s)) s)"

section \<open>processBatch and processSingle\<close>

definition expire_batch :: "time_point \<Rightarrow> nat list \<Rightarrow> ModelScheduler \<Rightarrow> ModelScheduler" where
  "expire_batch now batch s =
     fold (\<lambda>x s. if pr_cancelled (sc_pending s x) then s
                 else if now \<ge> pr_deadline (sc_pending s x) then fulfillExpiredRequest x s
                 else s) batch s"

text \<open>The second loop of \<open>processBatch\<close>: member \<open>k\<close> is checked against reading \<open>k\<close> of the loop.\<close>

fun active_members ::
  "(nat \<Rightarrow> PendingRequest) \<Rightarrow> (nat \<Rightarrow> time_point) \<Rightarrow> nat \<Rightarrow> nat list \<Rightarrow> nat list" where
  "active_members pending tick k [] = []"
| "active_members pending tick k (x # batch) =
     (if pr_cancelled (pending x) then active_members pending tick (k + 1) batch
      else if tick k \<ge> pr_deadline (pending x) then active_members pending tick (k + 1) batch
      else x # active_members pending tick (k + 1) batch)"

text \<open>\<open>processSingle\<close> up to the call of the executor; \<open>now\<close> and \<open>started\<close> are its two readings.\<close>

definition processSingle_begin ::
  "time_point \<Rightarrow> time_point \<Rightarrow> nat \<Rightarrow> ModelScheduler \<Rightarrow> Worker \<times> ModelScheduler" where
  "processSingle_begin now started x s =
     (if pr_cancelled (sc_pending s x) then (WIdle, s)
      else if now \<ge> pr_deadline (sc_pending s x) then (WIdle, fulfillExpiredRequest x s)
      else let (executor_index, inflight) = select (sc_inflight s)
           in (WRunning executor_index [x] started None, s\<lparr>sc_inflight := inflight\<rparr>))"

definition processBatch_begin ::
  "(nat \<Rightarrow> time_point) \<Rightarrow> nat list \<Rightarrow> ModelScheduler \<Rightarrow> Worker \<times> ModelScheduler" where
  "processBatch_begin tick batch s =
     (let s1 = expire_batch (tick 0) batch s;
          active_batch = active_members (sc_pending s1) tick 1 batch;
          k = length batch + 1
      in if active_batch = [] then (WIdle, s1)
         else if length active_batch = 1
           then processSingle_begin (tick k) (tick (k + 1)) (hd active_batch) s1
         else
           (case mergeExecutionRequests (map (\<lambda>x. pr_request (sc_pending s1 x)) active_batch) of
              MergeError error \<Rightarrow>
                (WIdle, fold (\<lambda>x. fulfillResult x (makeExecutorFailureResult error)) active_batch s1)
            | MergeUndefined \<Rightarrow> (WIdle, s1\<lparr>sc_fault := Some UndefinedMerge\<rparr>)
            | MergeOk merged \<Rightarrow>
                (let (executor_index, inflight) = select (sc_inflight s1)
                 in (WRunning executor_index active_batch (tick k) (Some merged),
                     s1\<lparr>sc_inflight := inflight\<rparr>))))"

text \<open>What follows the executor's return; \<open>completed\<close> is always true in \<open>runInference\<close>.\<close>

definition processSingle_finish ::
  "nat \<Rightarrow> nat \<Rightarrow> time_point \<Rightarrow> InferOutcome \<Rightarrow> time_point \<Rightarrow> ModelScheduler \<Rightarrow> ModelScheduler" where
  "processSingle_finish executor_index x execution_started outcome execution_finished s =
     (let s1 = s\<lparr>sc_inflight := release executor_index (sc_inflight s)\<rparr>;
          pending = sc_pending s1 x
      in if pr_cancelled pending then s1
         else if execution_finished \<ge> pr_deadline pending then fulfillExpiredRequest x s1
         else fulfillResult x
                (completed_result pending execution_started execution_finished 1
                   (inference_response outcome))
                (s1\<lparr>sc_metrics := recordLatencies (pr_enqueued_at pending) execution_started
                       execution_finished (sc_metrics s1)\<rparr>))"

text \<open>One turn of the answering loop of \<open>processBatch\<close>, for member \<open>x\<close> and its split response.\<close>

definition answer_member ::
  "time_point \<Rightarrow> time_point \<Rightarrow> size_t \<Rightarrow> nat \<times> ExecutionResponse \<Rightarrow> ModelScheduler \<Rightarrow> ModelScheduler" where
  "answer_member execution_started execution_finished batch_size xr s =
     (let (x, response) = xr; pending = sc_pending s x in
      if execution_finished \<ge> pr_deadline pending then fulfillExpiredRequest x s
      else fulfillResult x
             (completed_result pending execution_started execution_finished batch_size response)
             (s\<lparr>sc_metrics := recordLatencies (pr_enqueued_at pending) execution_started
                    execution_finished (sc_metrics s)\<rparr>))"

definition processBatch_finish ::
  "nat \<Rightarrow> nat list \<Rightarrow> time_point \<Rightarrow> MergedBatch \<Rightarrow> InferOutcome \<Rightarrow> time_point \<Rightarrow> ModelScheduler \<Rightarrow>
     ModelScheduler" where
  "processBatch_finish executor_index active_batch execution_started merged outcome execution_finished s =
     (let s1 = s\<lparr>sc_inflight := release executor_index (sc_inflight s),
                 sc_metrics := recordBatchExecution (elapsedNs execution_started execution_finished)
                                 (sc_metrics s)\<rparr>
      in case splitExecutionResponse (inference_response outcome) (mb_batch_sizes merged)
                (map (\<lambda>x. pr_request (sc_pending s1 x)) active_batch) of
           None \<Rightarrow> s1\<lparr>sc_fault := Some IndexOutOfRange\<rparr>
         | Some split_responses \<Rightarrow>
             fold (answer_member execution_started execution_finished (length active_batch))
               (zip active_batch split_responses) s1)"

section \<open>The steps of a scheduler\<close>

definition set_worker :: "nat \<Rightarrow> Worker \<times> ModelScheduler \<Rightarrow> ModelScheduler" where
  "set_worker w ps = (snd ps)\<lparr>ms_workers := (ms_workers (snd ps))[w := fst ps]\<rparr>"

text \<open>One step of worker \<open>w\<close>, by its program counter; \<open>None\<close> where the thread waits or has ended.\<close>

definition worker_step ::
  "(nat \<Rightarrow> time_point) \<Rightarrow> InferOutcome \<Rightarrow> nat \<Rightarrow> ModelScheduler \<Rightarrow> ModelScheduler option" where
  "worker_step tick outcome w s =
     (case ms_workers s ! w of
        WIdle \<Rightarrow>
          (case popNextPending s of
             None \<Rightarrow> None
           | Some (None, s1) \<Rightarrow> Some (set_worker w (WExited, s1))
           | Some (Some x, s1) \<Rightarrow>
               let s2 = s1\<lparr>ms_workers := map (worker_after_erase (0, length (sc_queue s))) (ms_workers s1)\<rparr>
               in Some (set_worker w (formBatch_begin (tick 0) x s2, s2)))
      | WForming b t m \<Rightarrow> Some (set_worker w (formBatch_iterate tick b t m s))
      | WExpiring b t m d x i \<Rightarrow> Some (set_worker w (WResuming b t m d i, fulfillExpiredRequest x s))
      | WResuming b t m d i \<Rightarrow> Some (set_worker w (formBatch_resume tick b t m d i s))
      | WFormed b \<Rightarrow> Some (set_worker w (processBatch_begin tick b s))
      | WRunning e b t None \<Rightarrow> Some (set_worker w (WIdle, processSingle_finish e (hd b) t outcome (tick 0) s))
      | WRunning e b t (Some m) \<Rightarrow> Some (set_worker w (WIdle, processBatch_finish e b t m outcome (tick 0) s))
      | WExited \<Rightarrow> None)"

inductive ms_step :: "ModelScheduler \<Rightarrow> ModelScheduler \<Rightarrow> bool" where
  ms_clock: "sc_fault s = None \<Longrightarrow> sc_now s \<le> t \<Longrightarrow> ms_step s (s\<lparr>sc_now := t\<rparr>)"
| ms_submit: "sc_fault s = None \<Longrightarrow> enqueued_at \<le> sc_now s \<Longrightarrow> submit enqueued_at request s = (r, t) \<Longrightarrow>
     ms_step s t"
| ms_ready: "sc_fault s = None \<Longrightarrow> submit_ready x s = Some t \<Longrightarrow> ms_step s t"
| ms_wait_timeout: "sc_fault s = None \<Longrightarrow> submit_wait_timeout x s = Some t \<Longrightarrow> ms_step s t"
| ms_cancel: "sc_fault s = None \<Longrightarrow> submit_cancel x s = Some t \<Longrightarrow> ms_step s t"
| ms_stop: "sc_fault s = None \<Longrightarrow> ms_step s (core_stopAccepting s)"
| ms_drain: "sc_fault s = None \<Longrightarrow> ms_step s (beginDrain_flag s)"
| ms_joined: "sc_fault s = None \<Longrightarrow> beginDrain_joined s = Some t \<Longrightarrow> ms_step s t"
| ms_worker: "sc_fault s = None \<Longrightarrow> w < length (ms_workers s) \<Longrightarrow> mono tick \<Longrightarrow> sc_now s \<le> tick 0 \<Longrightarrow>
     (\<forall>k. tick k \<le> now) \<Longrightarrow> worker_step tick outcome w s = Some t \<Longrightarrow> ms_step s (t\<lparr>sc_now := now\<rparr>)"

definition ms_start :: "time_point \<Rightarrow> size_t \<Rightarrow> SchedulerConfig \<Rightarrow> ModelScheduler \<Rightarrow> bool" where
  "ms_start now executors config s \<longleftrightarrow> makeModelScheduler now executors config = Inr s"

inductive_cases ms_stepE: "ms_step s t"

end
