(* ===== verification/Model_Scheduler_Steps.thy ===== *)
theory Model_Scheduler_Steps
  imports Model_Scheduler
begin

text \<open>
  What each step of \<open>Model_Scheduler\<close> does to the requests: the scan of the queue and the steps of
  \<open>formBatch\<close> only move requests from the queue to the batch; \<open>processBatch\<close> and \<open>processSingle\<close>
  answer, drop or run each member; the return from the executor answers everything it ran.
\<close>

section \<open>What each step does to the ownership of requests\<close>

fun held_by :: "Worker \<Rightarrow> nat list" where
  "held_by (WForming b t m) = b"
| "held_by (WExpiring b t m d x i) = x # b"
| "held_by (WResuming b t m d i) = b"
| "held_by (WFormed b) = b"
| "held_by (WRunning e b t m) = b"
| "held_by WIdle = []"
| "held_by WExited = []"

text \<open>What a worker is doing, without the iterator, which other threads' queue operations touch.\<close>

fun strip :: "Worker \<Rightarrow> Worker" where
  "strip (WExpiring b t m d x i) = WExpiring b t m d x None"
| "strip (WResuming b t m d i) = WResuming b t m d None"
| "strip w = w"

definition tasks :: "ModelScheduler \<Rightarrow> Worker list" where
  "tasks s = map strip (ms_workers s)"

definition held :: "ModelScheduler \<Rightarrow> nat list" where
  "held s = concat (map held_by (tasks s))"

lemma strip_queue_ops [simp]:
  "strip (worker_after_push w) = strip w" "strip (worker_after_erase e w) = strip w"
  by (cases w; simp)+

lemma strip_erases [simp]: "strip (fold worker_after_erase es w) = strip w"
  by (induction es arbitrary: w) auto

lemma held_by_strip [simp]: "held_by (strip w) = held_by w"
  by (cases w) auto

lemma tasks_frame [simp]:
  "tasks (s\<lparr>ms_workers := map worker_after_push (ms_workers s')\<rparr>) = tasks s'"
  "tasks (s\<lparr>ms_workers := map (worker_after_erase e) (ms_workers s')\<rparr>) = tasks s'"
  "tasks (s\<lparr>ms_workers := map (fold worker_after_erase es) (ms_workers s')\<rparr>) = tasks s'"
  "tasks (s\<lparr>sc_queue := q\<rparr>) = tasks s" "tasks (s\<lparr>sc_metrics := m\<rparr>) = tasks s"
  "tasks (s\<lparr>sc_now := t\<rparr>) = tasks s" "tasks (s\<lparr>sc_inflight := infl\<rparr>) = tasks s"
  "tasks (s\<lparr>sc_fault := f\<rparr>) = tasks s"
  by (simp_all add: tasks_def comp_def)

lemma answers_tasks: "answers A s t \<Longrightarrow> tasks t = tasks s \<and> ms_config t = ms_config s"
  by (drule answers_frame(9)) (cases s; cases t; simp add: tasks_def)

lemma tasks_set_worker [simp]: "tasks (set_worker w (pc, s)) = (tasks s)[w := strip pc]"
  by (simp add: tasks_def set_worker_def map_update)

text \<open>The scan only removes cancelled requests and the one it stops at.\<close>

definition scan_taken :: "ScanOutcome \<Rightarrow> nat list" where
  "scan_taken out = (case out of ScanEnd p \<Rightarrow> [] | ScanExpired x \<Rightarrow> [x] | ScanAdded x d \<Rightarrow> [x])"

lemma scan_queue_sound:
  "\<exists>D. subseq (sn_passed sn @ sn_rest sn) (passed @ rest) \<and>
     mset (passed @ rest) = mset (sn_passed sn @ sn_rest sn) + mset (scan_taken (sn_outcome sn)) + D \<and>
     (\<forall>x \<in># D. pr_cancelled (pending x))"
  if "sn = scan_queue pending front max_batch merged tick k prog er passed rest"
  using that
proof (induction pending front max_batch merged tick k prog er passed rest arbitrary: sn rule: scan_queue.induct)
  case (2 pending front max_batch merged tick k prog er passed "next" rest)
  note defs = 2(4) [unfolded scan_queue.simps Let_def]
  have drop_one: "subseq (passed @ rest) (passed @ next # rest)"
    by (simp add: subseq_append' list_emb_Cons)
  consider (cancelled) "pr_cancelled (pending next)"
    | (incompatible) "\<not> pr_cancelled (pending next)" "\<not> pr_deadline (pending next) \<le> tick k"
        "\<not> areBatchCompatible front (pr_request (pending next))"
    | (too_large) "\<not> pr_cancelled (pending next)" "\<not> pr_deadline (pending next) \<le> tick k"
        "\<not> \<not> areBatchCompatible front (pr_request (pending next))"
        "max_batch < size_add merged (size_of_int64 (requestBatchSize (pr_request (pending next))))"
    | (stopped) "sn_passed sn = passed" "sn_rest sn = rest" "scan_taken (sn_outcome sn) = [next]"
    using defs by (auto simp: scan_taken_def split: if_splits)
  then show ?case
  proof cases
    case cancelled
    with defs have "sn = scan_queue pending front max_batch merged tick k True
        (er @ [(length passed, length passed + length rest + 1)]) passed rest" by simp
    from 2(1) [OF refl cancelled this] obtain D where
      "subseq (sn_passed sn @ sn_rest sn) (passed @ rest)"
      "mset (passed @ rest) = mset (sn_passed sn @ sn_rest sn) + mset (scan_taken (sn_outcome sn)) + D"
      "\<forall>x \<in># D. pr_cancelled (pending x)" by blast
    with cancelled drop_one show ?thesis
      by (intro exI [of _ "add_mset next D"]) (auto intro: subseq_order.trans)
  next
    case incompatible
    with defs show ?thesis using 2(2) [OF refl incompatible, of sn] by simp
  next
    case too_large
    with defs show ?thesis using 2(3) [OF refl too_large(1-3) refl too_large(4), of sn] by simp
  next
    case stopped
    then show ?thesis using drop_one by (intro exI [of _ "{#}"]) simp
  qed
qed (simp add: scan_taken_def)


text \<open>A step of \<open>formBatch\<close>: it moves requests from the queue into the batch, and nothing else.\<close>

definition form_step :: "nat list \<Rightarrow> ModelScheduler \<Rightarrow> Worker \<Rightarrow> ModelScheduler \<Rightarrow> bool" where
  "form_step batch s pc t \<longleftrightarrow>
     (\<exists>T D. subseq (sc_queue t) (sc_queue s) \<and> mset (sc_queue s) = mset (sc_queue t) + mset T + D \<and>
        (\<forall>x \<in># D. pr_cancelled (sc_pending s x)) \<and> mset (held_by pc) = mset (T @ batch)) \<and>
     tasks t = tasks s \<and> ms_config t = ms_config s \<and> sc_pending t = sc_pending s \<and> sc_next t = sc_next s \<and>
     sc_now t = sc_now s \<and> sc_draining t = sc_draining s \<and> sc_inflight t = sc_inflight s \<and>
     sc_submitter t = sc_submitter s \<and>
     mt_requests_accepted (sc_metrics t) = mt_requests_accepted (sc_metrics s)"

lemma formBatch_return_form_step:
  "formBatch_return batch t0 t1 s = (pc, t) \<Longrightarrow> form_step batch s pc t \<and> sc_fault t = sc_fault s"
  by (auto simp: formBatch_return_def form_step_def recordBatch_def split: if_splits)

lemma formBatch_scan_form_step:
  assumes q: "sc_queue s = passed @ rest"
    and f: "formBatch_scan tick k batch t0 merged delay prog passed rest s = (pc, t)"
  shows "form_step batch s pc t \<and> sc_fault t = sc_fault s"
proof -
  define sn where "sn = scan_queue (sc_pending s) (pr_request (sc_pending s (hd batch)))
      (db_max_batch_size (batching s)) merged tick k prog [] passed rest"
  from scan_queue_sound [OF sn_def] obtain D where
    "subseq (sn_passed sn @ sn_rest sn) (sc_queue s)"
    "mset (sc_queue s) = mset (sn_passed sn @ sn_rest sn) + mset (scan_taken (sn_outcome sn)) + D"
    "\<forall>x \<in># D. pr_cancelled (sc_pending s x)"
    unfolding q by blast
  then show ?thesis
    using f unfolding formBatch_scan_def sn_def [symmetric] Let_def
    by (cases "sn_outcome sn")
      (auto simp: form_step_def scan_taken_def formBatch_return_def recordBatch_def tasks_def
        split: if_splits intro!: exI [of _ "scan_taken (sn_outcome sn)"] exI [of _ D])
qed

lemma form_step_owned:
  assumes own: "owned s (batch @ R)" and st: "form_step batch s pc t"
    and fault: "sc_fault t \<noteq> Some PromiseAlreadySatisfied"
  shows "owned t (held_by pc @ R)"
proof -
  from st obtain T D where T: "subseq (sc_queue t) (sc_queue s)"
    "mset (sc_queue s) = mset (sc_queue t) + mset T + D" "\<forall>x \<in># D. pr_cancelled (sc_pending s x)"
    and pc: "mset (held_by pc) = mset (T @ batch)"
    unfolding form_step_def by blast
  have dq: "distinct (sc_queue s)" using own by (simp add: owned_def)
  have "owned (s\<lparr>sc_queue := sc_queue t\<rparr>) (T @ batch @ R)"
  proof (rule owned_take [OF own T(1)])
    have "mset (sc_queue t @ T) \<subseteq># mset (sc_queue s)" using T(2) by simp
    with dq have d: "distinct (sc_queue t @ T)" by (rule distinct_submset)
    then show "distinct T" by simp
    have "set T \<subseteq> set (sc_queue s)" using T(2) by (metis Un_iff set_mset_mset set_mset_union subsetI)
    with d show "set T \<subseteq> set (sc_queue s) - set (sc_queue t)" by auto
    show "settled s x" if "x \<in> set (sc_queue s) - set (sc_queue t) - set T" for x
    proof -
      have "x \<in># D" using that T(2) by (metis DiffE Un_iff set_mset_mset set_mset_union)
      with T(3) show ?thesis by (simp add: settled_def)
    qed
  qed
  then have "owned t (T @ batch @ R)"
    by (rule owned_cong) (use st fault in \<open>simp_all add: form_step_def\<close>)
  then show ?thesis by (rule owned_perm) (simp add: pc)
qed

text \<open>
  \<open>processBatch\<close> and \<open>processSingle\<close> up to the executor: some members are answered (\<open>A\<close>), the others are
  either run or were cancelled or expired; a run takes the executor \<open>select\<close> chose.
\<close>

definition started :: "ModelScheduler \<Rightarrow> Worker \<Rightarrow> ModelScheduler \<Rightarrow> bool" where
  "started s pc t \<longleftrightarrow>
     (pc = WIdle \<and> sc_inflight t = sc_inflight s) \<or>
     (\<exists>e b t0 m. pc = WRunning e b t0 m \<and> select (sc_inflight s) = (e, sc_inflight t) \<and>
        (case m of None \<Rightarrow> length b = 1
         | Some mb \<Rightarrow> 2 \<le> length b \<and>
             mergeExecutionRequests (map (\<lambda>x. pr_request (sc_pending s x)) b) = MergeOk mb))"

definition dispatched :: "time_point \<Rightarrow> nat list \<Rightarrow> ModelScheduler \<Rightarrow> Worker \<Rightarrow> ModelScheduler \<Rightarrow> bool" where
  "dispatched now batch s pc t \<longleftrightarrow>
     (\<exists>A u. answers A s u \<and> t = u\<lparr>sc_inflight := sc_inflight t\<rparr> \<and> A \<subseteq> set batch \<and>
        subseq (held_by pc) batch \<and> set (held_by pc) \<inter> A = {} \<and>
        (\<forall>x \<in> set batch - set (held_by pc) - A.
           pr_cancelled (sc_pending s x) \<or> pr_deadline (sc_pending s x) \<le> now)) \<and>
     started s pc t"

lemma expire_batch_answers:
  assumes "distinct batch" and "\<And>x. x \<in> set batch \<Longrightarrow> pr_promise (sc_pending s x) = None"
  shows "answers {x \<in> set batch. \<not> pr_cancelled (sc_pending s x) \<and> pr_deadline (sc_pending s x) \<le> now}
     s (expire_batch now batch s)"
proof -
  let ?F = "\<lambda>x. if \<not> pr_cancelled (sc_pending s x) \<and> pr_deadline (sc_pending s x) \<le> now then {x} else {}"
  have "answers (\<Union>x \<in> set batch. ?F x) s (expire_batch now batch s)"
    unfolding expire_batch_def
    by (rule answers_fold [where key = "\<lambda>x. x"]) (use assms in \<open>auto intro: answers_fulfillExpired\<close>)
  moreover have "(\<Union>x \<in> set batch. ?F x) =
      {x \<in> set batch. \<not> pr_cancelled (sc_pending s x) \<and> pr_deadline (sc_pending s x) \<le> now}"
    by auto
  ultimately show ?thesis by simp
qed

lemma active_members_subseq: "subseq (active_members pending tick k batch) batch"
  by (induction pending tick k batch rule: active_members.induct) auto

lemma active_members_alive:
  "mono tick \<Longrightarrow> x \<in> set (active_members pending tick k batch) \<Longrightarrow>
     \<not> pr_cancelled (pending x) \<and> tick k < pr_deadline (pending x)"
proof (induction pending tick k batch rule: active_members.induct)
  case (2 pending tick k y batch)
  have "tick k \<le> tick (k + 1)" using 2(4) by (simp add: monoD)
  with 2 show ?case by (auto split: if_splits)
qed simp

lemma active_members_gone:
  "\<forall>k. tick k \<le> now \<Longrightarrow> x \<in> set batch \<Longrightarrow> x \<notin> set (active_members pending tick k batch) \<Longrightarrow>
     pr_cancelled (pending x) \<or> pr_deadline (pending x) \<le> now"
proof (induction pending tick k batch rule: active_members.induct)
  case (2 pending tick k y batch)
  have "pr_deadline (pending y) \<le> now" if "pr_deadline (pending y) \<le> tick k"
    using that 2(4) order_trans by blast
  with 2 show ?case by (auto split: if_splits)
qed simp

lemma dispatched_idle:
  "answers A s t \<Longrightarrow> A \<subseteq> set batch \<Longrightarrow>
     (\<And>x. x \<in> set batch - A \<Longrightarrow> pr_cancelled (sc_pending s x) \<or> pr_deadline (sc_pending s x) \<le> now) \<Longrightarrow>
     dispatched now batch s WIdle t"
  unfolding dispatched_def started_def
  by (frule answers_frame(5)) (auto intro!: exI [of _ A] exI [of _ t])

lemma dispatched_run:
  assumes "select (sc_inflight s) = (e, infl)" and "case m of None \<Rightarrow> length b = 1
         | Some mb \<Rightarrow> 2 \<le> length b \<and> mergeExecutionRequests (map (\<lambda>x. pr_request (sc_pending s x)) b) = MergeOk mb"
  shows "dispatched now b s (WRunning e b t0 m) (s\<lparr>sc_inflight := infl\<rparr>)"
  unfolding dispatched_def started_def
  using assms by (auto intro!: exI [of _ "{}"] exI [of _ s])

lemma processSingle_begin_dispatched:
  assumes f: "processSingle_begin n0 n1 x s = (pc, t)" and "pr_promise (sc_pending s x) = None" and "n0 \<le> now"
  shows "dispatched now [x] s pc t"
proof (cases "pr_cancelled (sc_pending s x)")
  case True
  then show ?thesis using f by (auto simp: processSingle_begin_def intro: dispatched_idle [OF answers_refl])
next
  case alive: False
  show ?thesis
  proof (cases "pr_deadline (sc_pending s x) \<le> n0")
    case True
    with f alive have "pc = WIdle" "t = fulfillExpiredRequest x s" by (simp_all add: processSingle_begin_def)
    then show ?thesis by (auto intro: dispatched_idle [OF answers_fulfillExpired [OF assms(2)]])
  next
    case False
    obtain e infl where sel: "select (sc_inflight s) = (e, infl)" by (cases "select (sc_inflight s)")
    with f alive False have "pc = WRunning e [x] n1 None" "t = s\<lparr>sc_inflight := infl\<rparr>"
      by (simp_all add: processSingle_begin_def)
    then show ?thesis using dispatched_run [OF sel] by simp
  qed
qed

lemma dispatched_after:
  assumes ans: "answers E s s1" and E: "E \<subseteq> set batch" and sub: "subseq act batch" "set act \<inter> E = {}"
    and gone: "\<And>x. x \<in> set batch - set act - E \<Longrightarrow>
        pr_cancelled (sc_pending s x) \<or> pr_deadline (sc_pending s x) \<le> now"
    and d: "dispatched now act s1 pc t"
  shows "dispatched now batch s pc t"
proof -
  note fr = answers_frame [OF ans] and st = answers_static [OF ans]
  from d obtain A u where A: "answers A s1 u" "t = u\<lparr>sc_inflight := sc_inflight t\<rparr>" "A \<subseteq> set act"
    "subseq (held_by pc) act" "set (held_by pc) \<inter> A = {}"
    "\<forall>x \<in> set act - set (held_by pc) - A. pr_cancelled (sc_pending s1 x) \<or> pr_deadline (sc_pending s1 x) \<le> now"
    and start: "started s1 pc t"
    unfolding dispatched_def by blast
  have "E \<inter> A = {}" using A(3) sub(2) by blast
  with ans A(1) have "answers (E \<union> A) s u" by (rule answers_trans)
  moreover have "E \<union> A \<subseteq> set batch" using E A(3) subseq_set [OF sub(1)] by blast
  moreover have "subseq (held_by pc) batch" using A(4) sub(1) by (rule subseq_order.trans)
  moreover have "set (held_by pc) \<inter> (E \<union> A) = {}" using A(5) subseq_set [OF A(4)] sub(2) by blast
  moreover have "pr_cancelled (sc_pending s x) \<or> pr_deadline (sc_pending s x) \<le> now"
    if "x \<in> set batch - set (held_by pc) - (E \<union> A)" for x
    using that A(6) gone [of x] st by (cases "x \<in> set act") auto
  moreover have "(\<lambda>x. pr_request (sc_pending s1 x)) = (\<lambda>x. pr_request (sc_pending s x))" using st(1) by (rule ext)
  then have "started s pc t" using start by (simp only: started_def fr(5))
  ultimately show ?thesis unfolding dispatched_def using A(2) by blast
qed

lemma merge_dispatched:
  assumes two: "2 \<le> length act" and d: "distinct act" and unset: "\<And>x. x \<in> set act \<Longrightarrow> pr_promise (sc_pending s x) = None"
    and f: "(case mergeExecutionRequests (map (\<lambda>x. pr_request (sc_pending s x)) act) of
              MergeError error \<Rightarrow> (WIdle, fold (\<lambda>x. fulfillResult x (makeExecutorFailureResult error)) act s)
            | MergeUndefined \<Rightarrow> (WIdle, s\<lparr>sc_fault := Some UndefinedMerge\<rparr>)
            | MergeOk merged \<Rightarrow>
                (let (executor_index, inflight) = select (sc_inflight s)
                 in (WRunning executor_index act t0 (Some merged), s\<lparr>sc_inflight := inflight\<rparr>))) = (pc, t)"
  shows "dispatched now act s pc t"
proof (cases "mergeExecutionRequests (map (\<lambda>x. pr_request (sc_pending s x)) act)")
  case (MergeError e)
  have a: "answers (\<Union>x \<in> set act. {x}) s (fold (\<lambda>x. fulfillResult x (makeExecutorFailureResult e)) act s)"
    by (rule answers_fold [where key = "\<lambda>x. x"]) (use d unset in \<open>auto intro: answers_fulfillResult\<close>)
  have "pc = WIdle" "t = fold (\<lambda>x. fulfillResult x (makeExecutorFailureResult e)) act s"
    using MergeError f by simp_all
  then show ?thesis by (auto intro: dispatched_idle [OF a])
next
  case (MergeOk mb)
  obtain e infl where sel: "select (sc_inflight s) = (e, infl)" by (cases "select (sc_inflight s)")
  with f MergeOk have "pc = WRunning e act t0 (Some mb)" "t = s\<lparr>sc_inflight := infl\<rparr>" by simp_all
  then show ?thesis using dispatched_run [OF sel] MergeOk two by simp
next
  case MergeUndefined
  with merge_undefined two have False by fastforce
  then show ?thesis ..
qed

lemma processBatch_begin_dispatched:
  assumes f: "processBatch_begin tick batch s = (pc, t)" and d: "distinct batch"
    and unset: "\<And>x. x \<in> set batch \<Longrightarrow> pr_promise (sc_pending s x) = None"
    and tick: "mono tick" "\<forall>k. tick k \<le> now"
  shows "dispatched now batch s pc t"
proof -
  define E where "E = {x \<in> set batch. \<not> pr_cancelled (sc_pending s x) \<and> pr_deadline (sc_pending s x) \<le> tick 0}"
  define s1 where "s1 = expire_batch (tick 0) batch s"
  define act where "act = active_members (sc_pending s1) tick 1 batch"
  have ans: "answers E s s1" unfolding E_def s1_def by (rule expire_batch_answers) (use d unset in auto)
  note st = answers_static [OF ans]
  have sub: "subseq act batch" unfolding act_def by (rule active_members_subseq)
  have alive: "\<not> pr_cancelled (sc_pending s x) \<and> tick 1 < pr_deadline (sc_pending s x)" if "x \<in> set act" for x
    using active_members_alive [OF tick(1)] that st unfolding act_def by metis
  have "tick 0 \<le> tick 1" using tick(1) by (simp add: monoD)
  with alive have disj: "set act \<inter> E = {}" unfolding E_def by fastforce
  have gone: "pr_cancelled (sc_pending s x) \<or> pr_deadline (sc_pending s x) \<le> now"
    if "x \<in> set batch - set act - E" for x
    using active_members_gone [OF tick(2)] that st unfolding act_def by (metis DiffE)
  have open1: "pr_promise (sc_pending s1 x) = None" if "x \<in> set act" for x
    using answers_promise [OF ans] unset that disj subseq_set [OF sub] by (metis disjoint_iff subsetD)
  have dact: "distinct act" using sub d by (rule subseq_distinct_list)
  have f': "(if act = [] then (WIdle, s1)
         else if length act = 1 then processSingle_begin (tick (length batch + 1)) (tick (length batch + 1 + 1)) (hd act) s1
         else (case mergeExecutionRequests (map (\<lambda>x. pr_request (sc_pending s1 x)) act) of
              MergeError error \<Rightarrow> (WIdle, fold (\<lambda>x. fulfillResult x (makeExecutorFailureResult error)) act s1)
            | MergeUndefined \<Rightarrow> (WIdle, s1\<lparr>sc_fault := Some UndefinedMerge\<rparr>)
            | MergeOk merged \<Rightarrow>
                (let (executor_index, inflight) = select (sc_inflight s1)
                 in (WRunning executor_index act (tick (length batch + 1)) (Some merged), s1\<lparr>sc_inflight := inflight\<rparr>)))) = (pc, t)"
    using f unfolding processBatch_begin_def Let_def s1_def act_def by simp
  have "dispatched now act s1 pc t"
  proof -
    consider "act = []" | x where "act = [x]" | "2 \<le> length act" by (cases act; cases "tl act") auto
    then show ?thesis
    proof cases
      case 1
      with f' have "pc = WIdle" "t = s1" by simp_all
      with 1 show ?thesis by (auto intro: dispatched_idle [OF answers_refl])
    next
      case (2 x)
      with f' have "processSingle_begin (tick (length batch + 1)) (tick (length batch + 1 + 1)) x s1 = (pc, t)"
        by simp
      then have "dispatched now [x] s1 pc t"
        using 2 open1 tick(2) by (intro processSingle_begin_dispatched) auto
      with 2 show ?thesis by simp
    next
      case 3
      then have "act \<noteq> []" "length act \<noteq> 1" by auto
      with f' show ?thesis by (intro merge_dispatched [OF 3 dact open1]) simp_all
    qed
  qed
  moreover have "E \<subseteq> set batch" unfolding E_def by blast
  ultimately show ?thesis using dispatched_after [OF ans _ sub disj gone] by blast
qed

text \<open>The return from the executor answers every member that was not cancelled.\<close>

lemma completed_answers:
  assumes "pr_promise (sc_pending s x) = None" and "m = sc_metrics s"
  shows "answers {x} s (fulfillResult x r (s\<lparr>sc_metrics := recordLatencies a b c m\<rparr>))"
  unfolding assms(2)
  by (rule answers_then [OF answers_latencies answers_fulfillResult]) (simp add: assms(1))

lemma processSingle_finish_answers:
  assumes "pr_promise (sc_pending s x) = None"
  shows "answers {x} (s\<lparr>sc_inflight := release e (sc_inflight s)\<rparr>)
     (processSingle_finish e x t0 outcome t1 s)"
  unfolding processSingle_finish_def Let_def
  using assms by (auto intro: answers_cancelled answers_fulfillExpired completed_answers)

lemma answer_member_answers:
  assumes "pr_promise (sc_pending s (fst xr)) = None"
  shows "answers {fst xr} s (answer_member t0 t1 n xr s)"
  unfolding answer_member_def Let_def
  using assms by (auto intro: answers_fulfillExpired completed_answers split: prod.splits)

lemma processBatch_finish_answers:
  assumes d: "distinct b" and unset: "\<And>x. x \<in> set b \<Longrightarrow> pr_promise (sc_pending s x) = None"
    and m: "mergeExecutionRequests (map (\<lambda>x. pr_request (sc_pending s x)) b) = MergeOk mb"
  shows "answers (set b) (s\<lparr>sc_inflight := release e (sc_inflight s),
       sc_metrics := recordBatchExecution (elapsedNs t0 t1) (sc_metrics s)\<rparr>)
     (processBatch_finish e b t0 mb outcome t1 s)"
proof -
  let ?s = "s\<lparr>sc_inflight := release e (sc_inflight s),
       sc_metrics := recordBatchExecution (elapsedNs t0 t1) (sc_metrics s)\<rparr>"
  have "length (mb_batch_sizes mb) = length (map (\<lambda>x. pr_request (sc_pending s x)) b)"
    using merge_ok(2) [OF m] by simp
  from split_defined [OF this] obtain rs where
    rs: "splitExecutionResponse (inference_response outcome) (mb_batch_sizes mb)
      (map (\<lambda>x. pr_request (sc_pending s x)) b) = Some rs" "length rs = length b" by auto
  have "answers (\<Union>xr \<in> set (zip b rs). {fst xr}) ?s
      (fold (answer_member t0 t1 (length b)) (zip b rs) ?s)"
    by (rule answers_fold [where key = fst])
      (use d unset rs(2) in \<open>auto simp: map_fst_zip set_zip_leftD intro: answer_member_answers\<close>)
  moreover have "(\<Union>xr \<in> set (zip b rs). {fst xr}) = set b"
  proof -
    have "set (map fst (zip b rs)) = set b" by (simp only: map_fst_zip rs(2))
    then show ?thesis by auto
  qed
  ultimately show ?thesis using rs(1) unfolding processBatch_finish_def Let_def by simp
qed

end
