(* ===== verification/Model_Scheduler_Inv.thy ===== *)
theory Model_Scheduler_Inv
  imports Model_Scheduler_Steps
begin

text \<open>
  The invariant of \<open>Model_Scheduler\<close> and its preservation by every step: ownership of requests, the
  queue bound, exact in-flight counters, well-formed batches, and exit only from a drained queue.
\<close>

section \<open>The invariant\<close>

fun running_on :: "Worker \<Rightarrow> nat option" where
  "running_on (WRunning e b t m) = Some e"
| "running_on w = None"

definition count_on :: "nat \<Rightarrow> Worker list \<Rightarrow> nat" where
  "count_on e ws = count_list (map running_on ws) (Some e)"

text \<open>The in-flight counters are exact.\<close>

abbreviation pool_ok :: "size_t list \<Rightarrow> Worker list \<Rightarrow> bool" where
  "pool_ok inflight ws \<equiv> executor_pool_ok inflight (map running_on ws)"

text \<open>
  A batch is compatible with its first member, and one with two or more members keeps within the
  configured size.
\<close>

definition batch_ok :: "SchedulerConfig \<Rightarrow> (nat \<Rightarrow> PendingRequest) \<Rightarrow> nat list \<Rightarrow> bool" where
  "batch_ok config pending b \<longleftrightarrow>
     b \<noteq> [] \<and>
     (\<forall>x \<in> set (tl b). areBatchCompatible (pr_request (pending (hd b))) (pr_request (pending x))) \<and>
     (1 < length b \<longrightarrow> mergedBatchDimension pending b \<le> db_max_batch_size (cf_dynamic_batching config))"

fun task_ok :: "SchedulerConfig \<Rightarrow> (nat \<Rightarrow> PendingRequest) \<Rightarrow> Worker \<Rightarrow> bool" where
  "task_ok config pending (WForming b t m) = (batch_ok config pending b \<and> m = mergedBatchDimension pending b)"
| "task_ok config pending (WExpiring b t m d x i) = (batch_ok config pending b \<and> m = mergedBatchDimension pending b)"
| "task_ok config pending (WResuming b t m d i) = (batch_ok config pending b \<and> m = mergedBatchDimension pending b)"
| "task_ok config pending (WFormed b) = batch_ok config pending b"
| "task_ok config pending (WRunning e b t None) = (length b = 1)"
| "task_ok config pending (WRunning e b t (Some mb)) =
     (2 \<le> length b \<and> mergeExecutionRequests (map (\<lambda>x. pr_request (pending x)) b) = MergeOk mb)"
| "task_ok config pending WIdle = True"
| "task_ok config pending WExited = True"

definition ms_inv :: "SchedulerConfig \<Rightarrow> ModelScheduler \<Rightarrow> bool" where
  "ms_inv config s \<longleftrightarrow>
     owned s (held s) \<and> ms_config s = config \<and> length (sc_queue s) \<le> cf_max_queue_size config \<and>
     pool_ok (sc_inflight s) (tasks s) \<and>
     (WExited \<in> set (tasks s) \<longrightarrow> sc_draining s \<and> sc_queue s = []) \<and>
     (\<forall>w \<in> set (tasks s). task_ok config (sc_pending s) w) \<and>
     sc_fault s \<in> {None, Some IteratorInvalidated}"

lemma pool_same:
  assumes "pool_ok infl ws" and "w < length ws" and "running_on pc = running_on (ws ! w)"
  shows "pool_ok infl (ws[w := pc])"
  using executor_pool_same [OF assms(1), of w] assms(2,3) by (simp add: map_update)

lemma pool_select:
  assumes "pool_ok infl ws" and "w < length ws" and "select infl = (e, infl')"
    and "running_on (ws ! w) = None" and "running_on pc = Some e"
  shows "pool_ok infl' (ws[w := pc])"
  using executor_pool_select [OF assms(1) _ assms(3), of w] assms by (simp add: map_update)

lemma pool_release:
  assumes "pool_ok infl ws" and "w < length ws" and "running_on (ws ! w) = Some e" and "running_on pc = None"
  shows "pool_ok (release e infl) (ws[w := pc])"
  using executor_pool_release [OF assms(1), of w e] assms by (simp add: map_update)

lemma mergedBatchDimension_snoc:
  "mergedBatchDimension p (b @ [x]) =
     size_add (mergedBatchDimension p b) (size_of_int64 (requestBatchSize (pr_request (p x))))"
  by (simp add: mergedBatchDimension_def)

lemma mergedBatchDimension_cong:
  "(\<And>x. x \<in> set b \<Longrightarrow> pr_request (p x) = pr_request (q x)) \<Longrightarrow>
     mergedBatchDimension p b = mergedBatchDimension q b"
  unfolding mergedBatchDimension_def by (rule foldl_cong) auto

lemma task_ok_cong:
  assumes "\<And>x. x \<in> set (held_by w) \<Longrightarrow> pr_request (p x) = pr_request (q x)" and "task_ok config p w"
  shows "task_ok config q w"
proof -
  have batch: "batch_ok config q b" if "batch_ok config p b" "set b \<subseteq> set (held_by w)" for b
  proof -
    have "hd b \<in> set b" "\<forall>x \<in> set (tl b). x \<in> set b"
      using that(1) by (auto simp: batch_ok_def list.set_sel)
    with that assms(1) mergedBatchDimension_cong [of b p q] show ?thesis
      unfolding batch_ok_def by (metis subsetD)
  qed
  have dim: "mergedBatchDimension p b = mergedBatchDimension q b" if "set b \<subseteq> set (held_by w)" for b
    using assms(1) that by (intro mergedBatchDimension_cong) auto
  have req: "map (\<lambda>x. pr_request (p x)) (held_by w) = map (\<lambda>x. pr_request (q x)) (held_by w)"
    using assms(1) by simp
  show ?thesis
    using assms(2) batch dim req
    by (cases "(config, p, w)" rule: task_ok.cases) (auto cong: map_cong simp del: map_eq_conv)
qed

lemma task_ok_strip [simp]: "task_ok config p (strip w) = task_ok config p w"
  by (cases w) auto

lemma running_on_strip [simp]: "running_on (strip w) = running_on w"
  by (cases w) auto

lemma strip_exited [simp]: "strip w = WExited \<longleftrightarrow> w = WExited"
  by (cases w) auto

lemma held_update:
  assumes "w < length ws"
  shows "mset (concat (map held_by (ws[w := pc]))) =
     mset (held_by pc @ concat (map held_by (take w ws @ drop (Suc w) ws)))"
  using assms by (simp add: upd_conv_take_nth_drop)

lemma held_at:
  assumes "w < length ws"
  shows "mset (concat (map held_by ws)) = mset (held_by (ws ! w) @ concat (map held_by (take w ws @ drop (Suc w) ws)))"
  using held_update [OF assms, of "ws ! w"] by simp

text \<open>A step of worker \<open>w\<close> keeps the invariant when it does so for the worker itself.\<close>

lemma worker_move:
  assumes inv: "ms_inv config s" and w: "w < length (tasks s)"
    and t: "tasks t = tasks s" "ms_config t = ms_config s" "sc_next t = sc_next s" "sc_draining t = sc_draining s"
      "\<And>x. pr_request (sc_pending t x) = pr_request (sc_pending s x)" "length (sc_queue t) \<le> length (sc_queue s)"
    and own: "\<And>R. owned s (held_by (tasks s ! w) @ R) \<Longrightarrow> owned (t\<lparr>sc_now := now\<rparr>) (held_by pc @ R)"
    and pool: "pool_ok (sc_inflight t) ((tasks s)[w := strip pc])"
    and pc: "task_ok config (sc_pending t) pc" "pc = WExited \<Longrightarrow> sc_draining t \<and> sc_queue t = []"
    and fault: "sc_fault t \<in> {None, Some IteratorInvalidated}"
  shows "ms_inv config ((set_worker w (pc, t))\<lparr>sc_now := now\<rparr>)"
proof -
  let ?R = "concat (map held_by (take w (tasks s) @ drop (Suc w) (tasks s)))"
  let ?t = "(set_worker w (pc, t))\<lparr>sc_now := now\<rparr>"
  have "owned s (held_by (tasks s ! w) @ ?R)"
    using inv held_at [OF w] by (auto simp: ms_inv_def held_def elim: owned_perm)
  from own [OF this] have "owned (t\<lparr>sc_now := now\<rparr>) (held_by (strip pc) @ ?R)" by simp
  then have "owned (t\<lparr>sc_now := now\<rparr>) (held ?t)"
    by (rule owned_perm) (use held_update [OF w, of "strip pc"] t(1) in \<open>simp add: held_def\<close>)
  then have "owned ?t (held ?t)"
    by (rule owned_cong) (use fault in \<open>auto simp: set_worker_def\<close>)
  moreover have "task_ok config (sc_pending t) v" if "v \<in> set ((tasks s)[w := strip pc])" for v
  proof (cases "v = strip pc")
    case False
    with that have "v \<in> set (tasks s)" using set_update_subset_insert by fastforce
    then have "task_ok config (sc_pending s) v" using inv by (simp add: ms_inv_def)
    then show ?thesis by (rule task_ok_cong [rotated]) (simp add: t(5))
  qed (simp add: pc)
  moreover have "WExited \<in> set ((tasks s)[w := strip pc]) \<Longrightarrow> sc_draining t \<and> sc_queue t = []"
  proof -
    assume "WExited \<in> set ((tasks s)[w := strip pc])"
    then have "WExited = strip pc \<or> WExited \<in> set (tasks s)" using set_update_subset_insert by fastforce
    then show "sc_draining t \<and> sc_queue t = []"
      using pc(2) inv t(4,6) by (auto simp: ms_inv_def dest: sym)
  qed
  ultimately show ?thesis
    using inv pool fault t unfolding ms_inv_def by (auto simp: set_worker_def tasks_def map_update)
qed

lemma scan_queue_added:
  "sn_outcome (scan_queue pending front max_batch merged tick k prog er passed rest) = ScanAdded x d \<Longrightarrow>
     areBatchCompatible front (pr_request (pending x)) \<and>
     d = size_of_int64 (requestBatchSize (pr_request (pending x))) \<and> size_add merged d \<le> max_batch"
  by (induction pending front max_batch merged tick k prog er passed rest rule: scan_queue.induct)
    (auto simp: Let_def split: if_splits)

lemma batch_ok_snoc:
  assumes "batch_ok config p b" and "areBatchCompatible (pr_request (p (hd b))) (pr_request (p x))"
    and "size_add (mergedBatchDimension p b) (size_of_int64 (requestBatchSize (pr_request (p x))))
       \<le> db_max_batch_size (cf_dynamic_batching config)"
  shows "batch_ok config p (b @ [x])"
  using assms by (cases b) (auto simp: batch_ok_def mergedBatchDimension_snoc [of p "_ # _", simplified])

definition forming_ok :: "SchedulerConfig \<Rightarrow> (nat \<Rightarrow> PendingRequest) \<Rightarrow> Worker \<Rightarrow> bool" where
  "forming_ok config p pc \<longleftrightarrow> task_ok config p pc \<and> running_on pc = None \<and> pc \<noteq> WExited"

lemma formBatch_return_forming:
  "formBatch_return b t0 t1 s = (pc, t) \<Longrightarrow> batch_ok config (sc_pending s) b \<Longrightarrow>
     forming_ok config (sc_pending s) pc"
  by (auto simp: formBatch_return_def forming_ok_def)

lemma formBatch_scan_forming:
  assumes f: "formBatch_scan tick k b t0 m delay prog passed rest s = (pc, t)"
    and b: "batch_ok (ms_config s) (sc_pending s) b" and m: "m = mergedBatchDimension (sc_pending s) b"
  shows "forming_ok (ms_config s) (sc_pending s) pc"
proof -
  define sn where "sn = scan_queue (sc_pending s) (pr_request (sc_pending s (hd b)))
      (db_max_batch_size (batching s)) m tick k prog [] passed rest"
  note f' = f [unfolded formBatch_scan_def, folded sn_def, unfolded Let_def]
  show ?thesis
  proof (cases "sn_outcome sn")
    case (ScanAdded x d)
    with scan_queue_added [of "sc_pending s"] have "areBatchCompatible (pr_request (sc_pending s (hd b))) (pr_request (sc_pending s x))"
      and d: "d = size_of_int64 (requestBatchSize (pr_request (sc_pending s x)))"
      and le: "size_add m d \<le> db_max_batch_size (batching s)"
      unfolding sn_def by blast+
    with b m have "batch_ok (ms_config s) (sc_pending s) (b @ [x])" by (intro batch_ok_snoc) simp_all
    moreover have "b \<noteq> []" using b by (simp add: batch_ok_def)
    ultimately show ?thesis
      using ScanAdded f' d m
      by (auto simp: forming_ok_def formBatch_return_def mergedBatchDimension_snoc split: if_splits)
  qed (use f' b m in \<open>auto simp: forming_ok_def formBatch_return_def split: if_splits\<close>)
qed

text \<open>Every step inside \<open>formBatch\<close> keeps the invariant.\<close>

lemma form_move:
  assumes inv: "ms_inv config s" and w: "w < length (tasks s)" and now: "sc_now s \<le> now"
    and st: "form_step (held_by (tasks s ! w)) s pc t" and run: "running_on (tasks s ! w) = None"
    and ok: "forming_ok config (sc_pending s) pc" and fault: "sc_fault t \<in> {None, Some IteratorInvalidated}"
  shows "ms_inv config ((set_worker w (pc, t))\<lparr>sc_now := now\<rparr>)"
proof (rule worker_move [OF inv w])
  fix R assume "owned s (held_by (tasks s ! w) @ R)"
  then have "owned t (held_by pc @ R)" by (rule form_step_owned [OF _ st]) (use fault in auto)
  then show "owned (t\<lparr>sc_now := now\<rparr>) (held_by pc @ R)"
    by (rule owned_cong) (use now st fault in \<open>auto simp: form_step_def\<close>)
next
  show "length (sc_queue t) \<le> length (sc_queue s)"
    using st by (auto simp: form_step_def list_emb_length)
  show "pool_ok (sc_inflight t) ((tasks s)[w := strip pc])"
    using st ok run inv w by (auto simp: form_step_def forming_ok_def ms_inv_def intro!: pool_same)
qed (use st ok fault in \<open>auto simp: form_step_def forming_ok_def\<close>)

lemma dispatched_owned:
  assumes own: "owned s (batch @ R)" and d: "dispatched now batch s pc t" and now: "sc_now s \<le> now"
  shows "owned (t\<lparr>sc_now := now\<rparr>) (held_by pc @ R)"
proof -
  from d obtain A u where A: "answers A s u" "t = u\<lparr>sc_inflight := sc_inflight t\<rparr>" "A \<subseteq> set batch"
    "subseq (held_by pc) batch" "set (held_by pc) \<inter> A = {}"
    "\<And>x. x \<in> set batch - set (held_by pc) - A \<Longrightarrow>
       pr_cancelled (sc_pending s x) \<or> pr_deadline (sc_pending s x) \<le> now"
    unfolding dispatched_def by blast
  have "distinct batch" using owned_distinct [OF own] by simp
  then have "distinct (held_by pc)" using A(4) subseq_distinct_list by blast
  moreover have "set (held_by pc) \<subseteq> set batch - A" using subseq_set [OF A(4)] A(5) by blast
  ultimately have "owned (u\<lparr>sc_now := now\<rparr>) (held_by pc @ R)"
    by (rule owned_let_go [OF own A(1,3) _ _ now A(6)])
  then show ?thesis
    by (rule owned_cong) (subst A(2), simp, subst A(2), simp, subst A(2), simp, simp, subst A(2), simp,
        use own answers_frame(6) [OF A(1)] in \<open>subst A(2), simp add: owned_def\<close>)
qed


lemma dispatched_frame:
  assumes "dispatched now batch s pc t"
  shows "tasks t = tasks s" "ms_config t = ms_config s" "sc_next t = sc_next s" "sc_draining t = sc_draining s"
    "pr_request (sc_pending t x) = pr_request (sc_pending s x)" "sc_queue t = sc_queue s" "sc_fault t = sc_fault s"
proof -
  from assms obtain A u where A: "answers A s u" "t = u\<lparr>sc_inflight := sc_inflight t\<rparr>"
    unfolding dispatched_def by blast
  note fr = answers_frame [OF A(1)] answers_static [OF A(1)] answers_tasks [OF A(1)]
  show "tasks t = tasks s" "ms_config t = ms_config s" "sc_next t = sc_next s" "sc_draining t = sc_draining s"
    "pr_request (sc_pending t x) = pr_request (sc_pending s x)" "sc_queue t = sc_queue s" "sc_fault t = sc_fault s"
    by (subst A(2), simp add: fr)+
qed

lemma dispatch_move:
  assumes inv: "ms_inv config s" and w: "w < length (tasks s)" and now: "sc_now s \<le> now"
    and d: "dispatched now (held_by (tasks s ! w)) s pc t" and run: "running_on (tasks s ! w) = None"
  shows "ms_inv config ((set_worker w (pc, t))\<lparr>sc_now := now\<rparr>)"
proof (rule worker_move [OF inv w])
  note fr = dispatched_frame [OF d]
  have start: "started s pc t" using d by (simp add: dispatched_def)
  have pool: "pool_ok (sc_inflight s) (tasks s)" using inv by (simp add: ms_inv_def)
  show "pool_ok (sc_inflight t) ((tasks s)[w := strip pc])"
    using start unfolding started_def
  proof (elim disjE conjE exE)
    assume "pc = WIdle" "sc_inflight t = sc_inflight s"
    with pool w run show ?thesis by (simp add: pool_same)
  next
    fix e b t0 m assume "pc = WRunning e b t0 m" "select (sc_inflight s) = (e, sc_inflight t)"
    with pool w run show ?thesis by (intro pool_select) auto
  qed
  have "map (\<lambda>x. pr_request (sc_pending t x)) b = map (\<lambda>x. pr_request (sc_pending s x)) b" for b
    by (simp add: fr)
  with start show "task_ok config (sc_pending t) pc"
    unfolding started_def by (auto split: option.splits simp del: map_eq_conv)
  show "pc = WExited \<Longrightarrow> sc_draining t \<and> sc_queue t = []" using start by (auto simp: started_def)
  show "sc_fault t \<in> {None, Some IteratorInvalidated}" using inv by (simp add: fr ms_inv_def)
qed (use now d in \<open>simp_all add: dispatched_frame [OF d] dispatched_owned\<close>)

text \<open>The return from the executor.\<close>

lemma finish_move:
  assumes inv: "ms_inv config s" and w: "w < length (tasks s)" and now: "sc_now s \<le> now"
    and run: "running_on (tasks s ! w) = Some e"
    and u: "u = s\<lparr>sc_inflight := release e (sc_inflight s), sc_metrics := m\<rparr>"
      "mt_requests_accepted m = mt_requests_accepted (sc_metrics s)"
    and ans: "answers (set (held_by (tasks s ! w))) u t"
  shows "ms_inv config ((set_worker w (WIdle, t))\<lparr>sc_now := now\<rparr>)"
proof (rule worker_move [OF inv w])
  note fr = answers_frame [OF ans] answers_static [OF ans] answers_tasks [OF ans]
  show "tasks t = tasks s" "ms_config t = ms_config s" "sc_next t = sc_next s" "sc_draining t = sc_draining s"
    "pr_request (sc_pending t x) = pr_request (sc_pending s x)" "length (sc_queue t) \<le> length (sc_queue s)" for x
    by (simp_all add: fr u(1))
  show "pool_ok (sc_inflight t) ((tasks s)[w := strip WIdle])"
    using inv w run by (auto simp: fr u(1) ms_inv_def intro: pool_release)
  show "sc_fault t \<in> {None, Some IteratorInvalidated}" using inv by (simp add: fr u(1) ms_inv_def)
  fix R assume own: "owned s (held_by (tasks s ! w) @ R)"
  then have "owned u (held_by (tasks s ! w) @ R)"
    by (rule owned_cong) (use inv u(2) in \<open>auto simp: u(1) ms_inv_def\<close>)
  from owned_let_go [OF this ans, of "[]" now] now
  show "owned (t\<lparr>sc_now := now\<rparr>) (held_by WIdle @ R)" by (simp add: u(1))
qed simp_all


lemma pop_move:
  fixes e :: "nat \<times> nat"
  assumes inv: "ms_inv config s" and w: "w < length (tasks s)" and now: "sc_now s \<le> now"
    and idle: "tasks s ! w = WIdle" and q: "sc_queue s = x # rest"
  defines "t \<equiv> s\<lparr>sc_queue := rest, ms_workers := map (worker_after_erase e) (ms_workers s)\<rparr>"
  shows "ms_inv config ((set_worker w (formBatch_begin t0 x t, t))\<lparr>sc_now := now\<rparr>)"
proof (rule worker_move [OF inv w])
  have cfg: "ms_config s = config" and "pool_ok (sc_inflight s) (tasks s)" using inv by (simp_all add: ms_inv_def)
  then show "pool_ok (sc_inflight t) ((tasks s)[w := strip (formBatch_begin t0 x t)])"
    using w idle by (auto simp: t_def formBatch_begin_def intro!: pool_same)
  have "batch_ok config (sc_pending s) [x]" by (simp add: batch_ok_def)
  then show "task_ok config (sc_pending t) (formBatch_begin t0 x t)"
    by (simp add: formBatch_begin_def t_def)
  show "formBatch_begin t0 x t = WExited \<Longrightarrow> sc_draining t \<and> sc_queue t = []"
    by (simp add: formBatch_begin_def split: if_splits)
  show "sc_fault t \<in> {None, Some IteratorInvalidated}" using inv by (simp add: t_def ms_inv_def)
  fix R assume own: "owned s (held_by (tasks s ! w) @ R)"
  then have d: "distinct (x # rest)" using q by (simp add: owned_def)
  have "owned (s\<lparr>sc_queue := rest\<rparr>) ([x] @ held_by (tasks s ! w) @ R)"
    by (rule owned_take [OF own]) (use d q in \<open>auto simp: list_emb_Cons\<close>)
  then have "owned (s\<lparr>sc_queue := rest\<rparr>) ([x] @ R)" using idle by simp
  then have "owned t ([x] @ R)"
    by (rule owned_cong) (use inv in \<open>auto simp: t_def ms_inv_def\<close>)
  then have "owned (t\<lparr>sc_now := now\<rparr>) ([x] @ R)"
    by (rule owned_cong) (use now inv in \<open>auto simp: t_def ms_inv_def\<close>)
  then show "owned (t\<lparr>sc_now := now\<rparr>) (held_by (formBatch_begin t0 x t) @ R)"
    by (simp add: formBatch_begin_def)
qed (use q in \<open>simp_all add: t_def\<close>)

lemma exit_move:
  assumes inv: "ms_inv config s" and w: "w < length (tasks s)" and now: "sc_now s \<le> now"
    and idle: "tasks s ! w = WIdle" and q: "sc_queue s = []" "sc_draining s"
  shows "ms_inv config ((set_worker w (WExited, s))\<lparr>sc_now := now\<rparr>)"
proof (rule worker_move [OF inv w])
  show "pool_ok (sc_inflight s) ((tasks s)[w := strip WExited])"
    using inv w idle by (auto simp: ms_inv_def intro!: pool_same)
  show "sc_fault s \<in> {None, Some IteratorInvalidated}" using inv by (simp add: ms_inv_def)
  fix R assume "owned s (held_by (tasks s ! w) @ R)"
  then have "owned s R" using idle by simp
  then have "owned (s\<lparr>sc_now := now\<rparr>) R"
    by (rule owned_cong) (use now inv in \<open>auto simp: ms_inv_def\<close>)
  then show "owned (s\<lparr>sc_now := now\<rparr>) (held_by WExited @ R)" by simp
qed (use q in simp_all)

lemma expiring_move:
  assumes inv: "ms_inv config s" and w: "w < length (tasks s)" and now: "sc_now s \<le> now"
    and pc: "ms_workers s ! w = WExpiring b t0 m d x i"
  shows "ms_inv config ((set_worker w (WResuming b t0 m d i, fulfillExpiredRequest x s))\<lparr>sc_now := now\<rparr>)"
proof -
  have tw: "tasks s ! w = WExpiring b t0 m d x None" using w pc by (simp add: tasks_def)
  then have own: "owned s (x # b @ concat (map held_by (take w (tasks s) @ drop (Suc w) (tasks s))))"
    using inv held_at [OF w] by (auto simp: ms_inv_def held_def elim: owned_perm)
  have ans: "answers {x} s (fulfillExpiredRequest x s)"
    by (rule answers_fulfillExpired) (use owned_open [OF own] in simp)
  note fr = answers_frame [OF ans] answers_static [OF ans] answers_tasks [OF ans]
  have ok: "task_ok config (sc_pending s) (tasks s ! w)" using inv w by (simp add: ms_inv_def)
  show ?thesis
  proof (rule worker_move [OF inv w])
    show "pool_ok (sc_inflight (fulfillExpiredRequest x s)) ((tasks s)[w := strip (WResuming b t0 m d i)])"
      using inv w tw by (auto simp: fr ms_inv_def intro!: pool_same)
    have "task_ok config (sc_pending s) (WResuming b t0 m d i)" using ok tw by simp
    then show "task_ok config (sc_pending (fulfillExpiredRequest x s)) (WResuming b t0 m d i)"
      by (rule task_ok_cong [rotated]) (simp add: fr)
    show "sc_fault (fulfillExpiredRequest x s) \<in> {None, Some IteratorInvalidated}"
      using inv by (simp add: fr ms_inv_def)
    fix R assume "owned s (held_by (tasks s ! w) @ R)"
    then have own: "owned s ((x # b) @ R)" using tw by simp
    have "owned ((fulfillExpiredRequest x s)\<lparr>sc_now := now\<rparr>) (b @ R)"
      by (rule owned_let_go [OF own ans]) (use owned_distinct [OF own] now in auto)
    then show "owned ((fulfillExpiredRequest x s)\<lparr>sc_now := now\<rparr>) (held_by (WResuming b t0 m d i) @ R)"
      by simp
  qed (simp_all add: fr)
qed

lemma worker_facts:
  assumes inv: "ms_inv config s" and w: "w < length (ms_workers s)" and pc: "ms_workers s ! w = pc"
  shows "w < length (tasks s)" "tasks s ! w = strip pc" "task_ok config (sc_pending s) pc"
    "\<And>x. x \<in> set (held_by pc) \<Longrightarrow> pr_promise (sc_pending s x) = None" "distinct (held_by pc)"
proof -
  show w': "w < length (tasks s)" and tw: "tasks s ! w = strip pc" using w pc by (simp_all add: tasks_def)
  show "task_ok config (sc_pending s) pc"
    using inv w' tw by (metis ms_inv_def nth_mem task_ok_strip)
  have "owned s (held_by pc @ concat (map held_by (take w (tasks s) @ drop (Suc w) (tasks s))))"
    using inv held_at [OF w'] tw by (auto simp: ms_inv_def held_def elim: owned_perm)
  then show "\<And>x. x \<in> set (held_by pc) \<Longrightarrow> pr_promise (sc_pending s x) = None" "distinct (held_by pc)"
    using owned_open owned_distinct by fastforce+
qed

lemma idle_step_inv:
  assumes inv: "ms_inv config s" and w: "w < length (ms_workers s)" and now: "sc_now s \<le> now"
    and pc: "ms_workers s ! w = WIdle" and st: "worker_step tick outcome w s = Some t"
  shows "ms_inv config (t\<lparr>sc_now := now\<rparr>)"
proof (cases "sc_queue s")
  case Nil
  with st pc have "sc_draining s" "t = set_worker w (WExited, s)"
    by (auto simp: worker_step_def popNextPending_def split: if_splits)
  then show ?thesis
    using exit_move [OF inv worker_facts(1) [OF inv w pc] now _ Nil] worker_facts(2) [OF inv w pc] by simp
next
  case (Cons x rest)
  define e where "e = (0 :: nat, length (sc_queue s))"
  let ?t = "s\<lparr>sc_queue := rest, ms_workers := map (worker_after_erase e) (ms_workers s)\<rparr>"
  have "t = set_worker w (formBatch_begin (tick 0) x ?t, ?t)"
    using st pc Cons by (auto simp: worker_step_def popNextPending_def e_def Let_def)
  then show ?thesis
    using pop_move [OF inv worker_facts(1) [OF inv w pc] now _ Cons] worker_facts(2) [OF inv w pc] by simp
qed

lemma forming_step_inv:
  assumes inv: "ms_inv config s" and w: "w < length (ms_workers s)" and now: "sc_now s \<le> now"
    and pc: "ms_workers s ! w = WForming b t0 m" and st: "worker_step tick outcome w s = Some t"
    and nofault: "sc_fault s = None"
  shows "ms_inv config (t\<lparr>sc_now := now\<rparr>)"
proof -
  note facts = worker_facts [OF inv w pc]
  have cfg: "ms_config s = config" using inv by (simp add: ms_inv_def)
  have ok: "batch_ok (ms_config s) (sc_pending s) b" "m = mergedBatchDimension (sc_pending s) b"
    using facts(3) cfg by simp_all
  obtain pc' u where f: "formBatch_iterate tick b t0 m s = (pc', u)" by (cases "formBatch_iterate tick b t0 m s")
  consider "formBatch_return b t0 (tick 1) s = (pc', u)"
    | "formBatch_scan tick 1 b t0 m (tick 0 \<ge> formation_deadline t0 (batching s)) False [] (sc_queue s) s = (pc', u)"
    using f by (auto simp: formBatch_iterate_def Let_def split: if_splits)
  then have "form_step b s pc' u \<and> sc_fault u = sc_fault s \<and> forming_ok config (sc_pending s) pc'"
  proof cases
    case 1
    then show ?thesis using formBatch_return_form_step formBatch_return_forming ok cfg by simp
  next
    case 2
    then show ?thesis
      using formBatch_scan_form_step [OF _ 2] formBatch_scan_forming [OF 2 ok] cfg by simp
  qed
  moreover have "t = set_worker w (pc', u)" using st pc f by (simp add: worker_step_def)
  ultimately show ?thesis
    using form_move [OF inv facts(1) now] facts(2) nofault by simp
qed

lemma resuming_step_inv:
  assumes inv: "ms_inv config s" and w: "w < length (ms_workers s)" and now: "sc_now s \<le> now"
    and pc: "ms_workers s ! w = WResuming b t0 m d i" and st: "worker_step tick outcome w s = Some t"
    and nofault: "sc_fault s = None"
  shows "ms_inv config (t\<lparr>sc_now := now\<rparr>)"
proof -
  note facts = worker_facts [OF inv w pc]
  have cfg: "ms_config s = config" using inv by (simp add: ms_inv_def)
  have ok: "batch_ok (ms_config s) (sc_pending s) b" "m = mergedBatchDimension (sc_pending s) b"
    using facts(3) cfg by simp_all
  obtain pc' u where f: "formBatch_resume tick b t0 m d i s = (pc', u)" by (cases "formBatch_resume tick b t0 m d i s")
  have "form_step b s pc' u \<and> sc_fault u \<in> {None, Some IteratorInvalidated} \<and> forming_ok config (sc_pending s) pc'"
  proof (cases i)
    case None
    with f have "pc' = WResuming b t0 m d None" "u = s\<lparr>sc_fault := Some IteratorInvalidated\<rparr>"
      by (simp_all add: formBatch_resume_def)
    with ok cfg show ?thesis by (simp add: form_step_def forming_ok_def)
  next
    case (Some j)
    with f have g: "formBatch_scan tick 0 b t0 m d True (take j (sc_queue s)) (drop j (sc_queue s)) s = (pc', u)"
      by (simp add: formBatch_resume_def)
    show ?thesis
      using formBatch_scan_form_step [OF _ g] formBatch_scan_forming [OF g ok] cfg nofault by simp
  qed
  moreover have "t = set_worker w (pc', u)" using st pc f by (simp add: worker_step_def)
  ultimately show ?thesis
    using form_move [OF inv facts(1) now] facts(2) by simp
qed

lemma formed_step_inv:
  assumes inv: "ms_inv config s" and w: "w < length (ms_workers s)" and now: "sc_now s \<le> now"
    and tick: "mono tick" "\<forall>k. tick k \<le> now"
    and pc: "ms_workers s ! w = WFormed b" and st: "worker_step tick outcome w s = Some t"
  shows "ms_inv config (t\<lparr>sc_now := now\<rparr>)"
proof -
  note facts = worker_facts [OF inv w pc]
  obtain pc' u where f: "processBatch_begin tick b s = (pc', u)" by (cases "processBatch_begin tick b s")
  then have "dispatched now (held_by (tasks s ! w)) s pc' u"
    using processBatch_begin_dispatched [OF f _ _ tick] facts(2,4,5) by simp
  moreover have "t = set_worker w (pc', u)" using st pc f by (simp add: worker_step_def)
  ultimately show ?thesis using dispatch_move [OF inv facts(1) now] facts(2) by simp
qed

lemma running_step_inv:
  assumes inv: "ms_inv config s" and w: "w < length (ms_workers s)" and now: "sc_now s \<le> now"
    and pc: "ms_workers s ! w = WRunning e b t0 mo" and st: "worker_step tick outcome w s = Some t"
  shows "ms_inv config (t\<lparr>sc_now := now\<rparr>)"
proof -
  note facts = worker_facts [OF inv w pc]
  have run: "running_on (tasks s ! w) = Some e" using facts(2) by simp
  obtain u m where t: "t = set_worker w (WIdle, u)"
    and ans: "answers (set b) (s\<lparr>sc_inflight := release e (sc_inflight s), sc_metrics := m\<rparr>) u"
    and m: "mt_requests_accepted m = mt_requests_accepted (sc_metrics s)"
  proof (cases mo)
    case None
    then obtain x where x: "b = [x]" using facts(3) by (auto simp: length_Suc_conv)
    with st pc None have t: "t = set_worker w (WIdle, processSingle_finish e x t0 outcome (tick 0) s)"
      by (simp add: worker_step_def)
    show ?thesis
      by (rule that [OF t, of "sc_metrics s"]) (use processSingle_finish_answers [of s x] facts(4) x in simp_all)
  next
    case (Some mb)
    with st pc have t: "t = set_worker w (WIdle, processBatch_finish e b t0 mb outcome (tick 0) s)"
      by (simp add: worker_step_def)
    show ?thesis
      by (rule that [OF t processBatch_finish_answers])
        (use facts(3-5) Some in \<open>simp_all add: recordBatchExecution_def\<close>)
  qed
  show ?thesis unfolding t
    by (rule finish_move [OF inv facts(1) now run refl m]) (use ans facts(2) in simp)
qed

lemma worker_step_inv:
  assumes inv: "ms_inv config s" and w: "w < length (ms_workers s)" and tick: "mono tick" "\<forall>k. tick k \<le> now"
    and now0: "sc_now s \<le> tick 0" and st: "worker_step tick outcome w s = Some t" and nofault: "sc_fault s = None"
  shows "ms_inv config (t\<lparr>sc_now := now\<rparr>)"
proof -
  have now: "sc_now s \<le> now" using now0 tick(2) order_trans by blast
  show ?thesis
  proof (cases "ms_workers s ! w")
    case (WExpiring b t0 m d x i)
    with st have "t = set_worker w (WResuming b t0 m d i, fulfillExpiredRequest x s)"
      by (simp add: worker_step_def)
    with expiring_move [OF inv worker_facts(1) [OF inv w WExpiring] now WExpiring] show ?thesis by simp
  next
    case WExited
    with st show ?thesis by (simp add: worker_step_def)
  qed (use idle_step_inv [OF inv w now _ st] forming_step_inv [OF inv w now _ st nofault]
      resuming_step_inv [OF inv w now _ st nofault] formed_step_inv [OF inv w now tick _ st]
      running_step_inv [OF inv w now _ st] in blast)+
qed

lemma submit_cases:
  assumes "submit enqueued_at request s = (r, t)"
  obtains (draining) "sc_draining s" "r = Inl makeDrainingResult" "t = s"
  | (full) tk n where "\<not> sc_draining s" "cf_max_queue_size (ms_config s) \<le> length (sc_queue s)"
      "r = Inl makeOverloadedResult"
      "t = s\<lparr>sc_tokens := tk, sc_next_token := n,
             sc_metrics := increment mt_requests_rejected_update (sc_metrics s)\<rparr>"
  | (accepted) tk n p where "\<not> sc_draining s" "length (sc_queue s) < cf_max_queue_size (ms_config s)"
      "r = Inr (sc_next s)" "pr_promise p = None" "\<not> pr_cancelled p"
      "pr_deadline p = enqueued_at + cf_request_timeout_ms (ms_config s) * 1000000"
      "er_inputs (pr_request p) = er_inputs request"
      "t = s\<lparr>sc_tokens := tk, sc_next_token := n,
             sc_metrics := increment mt_requests_accepted_update (sc_metrics s),
             sc_pending := (sc_pending s)(sc_next s := p), sc_queue := sc_queue s @ [sc_next s],
             sc_submitter := (sc_submitter s)(sc_next s := Waiting), sc_next := sc_next s + 1,
             ms_workers := map worker_after_push (ms_workers s)\<rparr>"
proof (cases "sc_draining s")
  case True
  with assms show ?thesis by (intro draining) (simp_all add: submit_def core_isDraining_def)
next
  case False
  let ?enq = "submit_enqueue (cf_max_queue_size (ms_config s)) (cf_request_timeout_ms (ms_config s))
      enqueued_at request s"
  obtain r' u where u': "?enq = (r', u)" by (cases ?enq)
  have sub: "submit enqueued_at request s = (r', case r' of Inl _ \<Rightarrow> u
      | Inr _ \<Rightarrow> u\<lparr>ms_workers := map worker_after_push (ms_workers u)\<rparr>)"
    using False u' by (simp add: submit_def core_isDraining_def split: sum.split)
  have u: "?enq = (r, u)" and t: "t = (case r of Inl _ \<Rightarrow> u
      | Inr _ \<Rightarrow> u\<lparr>ms_workers := map worker_after_push (ms_workers u)\<rparr>)"
    using assms u' unfolding sub by auto
  from u show ?thesis
  proof (cases rule: submit_enqueue_cases)
    case draining
    with False show ?thesis by simp
  next
    case (full tk n)
    show ?thesis by (rule that(2) [OF full(1-3)]) (simp add: t full(3,4))
  next
    case (accepted tk n p)
    show ?thesis by (rule that(3) [OF accepted(1-7)]) (simp add: t accepted(3,8))
  qed
qed

lemma submit_inv:
  assumes inv: "ms_inv config s" and st: "submit enqueued_at request s = (r, t)"
  shows "ms_inv config t"
  using st
proof (cases rule: submit_cases)
  case draining
  with inv show ?thesis by simp
next
  case (full tk n)
  have "owned t (held s)"
    by (rule owned_cong [of s]) (use inv full in \<open>auto simp: ms_inv_def increment_def\<close>)
  with inv full show ?thesis by (simp add: ms_inv_def held_def tasks_def)
next
  case (accepted tk n p)
  have tasks: "tasks t = tasks s" by (simp add: accepted tasks_def comp_def)
  have own: "owned s (held s)" using inv by (simp add: ms_inv_def)
  have "owned t (held s)"
    by (rule owned_enqueue [OF own]) (use accepted in \<open>simp_all add: increment_def\<close>)
  moreover have "task_ok config (sc_pending t) w" if "w \<in> set (tasks s)" for w
  proof (rule task_ok_cong)
    show "task_ok config (sc_pending s) w" using inv that by (simp add: ms_inv_def)
    fix x assume "x \<in> set (held_by w)"
    with that have "x \<in> set (held s)" by (auto simp: held_def)
    with own have "x < sc_next s" by (simp add: owned_def)
    then show "pr_request (sc_pending s x) = pr_request (sc_pending t x)" by (simp add: accepted)
  qed
  ultimately show ?thesis
    using inv accepted tasks by (auto simp: ms_inv_def held_def)
qed

text \<open>A submitter's cancellation only settles its own request.\<close>

lemma cancel_inv:
  assumes inv: "ms_inv config s" and st: "submit_cancel x s = Some t"
  shows "ms_inv config t"
proof -
  obtain tk where t: "t = s\<lparr>sc_tokens := tk,
      sc_pending := (sc_pending s)(x := (sc_pending s x)\<lparr>pr_cancelled := True\<rparr>),
      sc_metrics := increment mt_requests_timed_out_update (sc_metrics s),
      sc_submitter := (sc_submitter s)(x := Returned makeTimeoutResult)\<rparr>"
    using st store_cancel_token_shape [of x s]
    by (auto simp: submit_cancel_def count_metric_def Let_def split: if_splits)
  have "owned t (held s)"
    using inv by (auto simp: ms_inv_def owned_def t increment_def settled_def)
  moreover have "task_ok config (sc_pending t) w" if "w \<in> set (tasks s)" for w
    by (rule task_ok_cong [of w "sc_pending s"]) (use inv that in \<open>auto simp: ms_inv_def t\<close>)
  ultimately show ?thesis using inv by (auto simp: ms_inv_def held_def tasks_def t)
qed

lemma submitter_inv:
  assumes inv: "ms_inv config s"
  shows "ms_inv config (s\<lparr>sc_submitter := f\<rparr>)"
proof -
  have "owned (s\<lparr>sc_submitter := f\<rparr>) (held s)"
    by (rule owned_cong [of s]) (use inv in \<open>auto simp: ms_inv_def\<close>)
  with inv show ?thesis by (simp add: ms_inv_def held_def tasks_def)
qed

lemma draining_inv:
  assumes inv: "ms_inv config s"
  shows "ms_inv config (s\<lparr>sc_draining := True\<rparr>)"
proof -
  have "owned (s\<lparr>sc_draining := True\<rparr>) (held s)"
    by (rule owned_cong [of s]) (use inv in \<open>auto simp: ms_inv_def\<close>)
  with inv show ?thesis by (simp add: ms_inv_def held_def tasks_def)
qed

lemma clock_inv:
  assumes inv: "ms_inv config s" and "sc_now s \<le> t"
  shows "ms_inv config (s\<lparr>sc_now := t\<rparr>)"
proof -
  have "owned (s\<lparr>sc_now := t\<rparr>) (held s)"
    by (rule owned_cong [of s]) (use assms in \<open>auto simp: ms_inv_def\<close>)
  with inv show ?thesis by (simp add: ms_inv_def held_def tasks_def)
qed

lemma joined_inv:
  assumes inv: "ms_inv config s" and st: "beginDrain_joined s = Some t"
  shows "ms_inv config t"
proof -
  let ?s = "s\<lparr>ms_workers := []\<rparr>"
  have exited: "\<forall>w \<in> set (tasks s). w = WExited" and t: "t = rejectQueuedRequests ?s"
    using st by (auto simp: beginDrain_joined_def tasks_def split: if_splits)
  then have none: "held s = []" "count_on e (tasks s) = 0" for e
    by (auto simp: held_def count_on_def count_list_0_iff)
  have own: "owned ?s []"
    by (rule owned_cong [of s]) (use inv none in \<open>auto simp: ms_inv_def\<close>)
  note ans = rejectQueued_answers [OF own]
  note fr = answers_frame [OF ans] answers_tasks [OF ans]
  have "tasks t = []" "sc_queue t = []" "sc_inflight t = sc_inflight s" "sc_fault t = sc_fault s" "ms_config t = ms_config s"
    unfolding t by (simp_all add: fr) (simp add: tasks_def)
  with rejectQueued_owned [OF own] inv none(2) t show ?thesis
    by (auto simp: ms_inv_def held_def executor_pool_ok_def count_on_def)
qed

lemma ms_step_inv:
  assumes inv: "ms_inv config s" and st: "ms_step s t"
  shows "ms_inv config t"
  using st
proof cases
  case (ms_submit enqueued_at request r)
  with inv show ?thesis using submit_inv by blast
next
  case (ms_ready x)
  then obtain f where "t = s\<lparr>sc_submitter := f\<rparr>"
    by (auto simp: submit_ready_def split: Submitter.splits option.splits)
  with submitter_inv [OF inv] show ?thesis by simp
next
  case (ms_wait_timeout x)
  then obtain f where "t = s\<lparr>sc_submitter := f\<rparr>"
    by (auto simp: submit_wait_timeout_def split: if_splits)
  with submitter_inv [OF inv] show ?thesis by simp
next
  case (ms_worker w tick now outcome u)
  with worker_step_inv [OF inv] show ?thesis by simp
qed (use inv in \<open>auto simp: core_stopAccepting_def beginDrain_flag_def intro: clock_inv cancel_inv draining_inv joined_inv\<close>)

lemma ms_start_inv:
  assumes "ms_start now executors config s"
  shows "ms_inv config s"
  using assms
  by (auto simp: ms_start_def makeModelScheduler_def new_core_def SchedulerCore.extend_def ms_inv_def
      owned_def held_def tasks_def executor_pool_ok_def count_list_0_iff zero_metrics_def split: if_splits)

interpretation model_scheduler: invariant_system "ms_start now executors config" ms_step "ms_inv config"
  for now executors config
  by unfold_locales (auto intro: ms_start_inv ms_step_inv)

end
