(* ===== verification/Model_Scheduler_Props.thy ===== *)
theory Model_Scheduler_Props
  imports Model_Scheduler_Inv
begin

text \<open>
  The properties of \<open>Model_Scheduler\<close>: what holds in every reachable state, what a finished batch
  tells its members, refusal while draining, and two reachable defects.
\<close>

lemma formBatch_return_draining [frame]: "sc_draining (snd (formBatch_return b t0 t1 s)) = sc_draining s"
  by (simp add: formBatch_return_def)

lemma formBatch_scan_draining [frame]:
  "sc_draining (snd (formBatch_scan tick k b t0 m d p passed rest s)) = sc_draining s"
  by (simp add: formBatch_scan_def Let_def frame split: ScanOutcome.split)

lemma formBatch_draining [frame]:
  "sc_draining (snd (formBatch_iterate tick b t0 m s)) = sc_draining s"
  "sc_draining (snd (formBatch_resume tick b t0 m d i s)) = sc_draining s"
  by (simp_all add: formBatch_iterate_def formBatch_resume_def Let_def frame split: option.split)

lemma processSingle_draining [frame]:
  "sc_draining (snd (processSingle_begin n0 n1 x s)) = sc_draining s"
  "sc_draining (processSingle_finish e x t0 outcome t1 s) = sc_draining s"
  by (simp_all add: processSingle_begin_def processSingle_finish_def Let_def frame split: prod.split)

lemma expire_batch_draining [frame]: "sc_draining (expire_batch now batch s) = sc_draining s"
  by (simp add: expire_batch_def fold_draining frame)

lemma answer_member_draining [frame]: "sc_draining (answer_member t0 t1 n xr s) = sc_draining s"
  by (simp add: answer_member_def Let_def frame split: prod.split)

lemma processBatch_draining [frame]:
  "sc_draining (snd (processBatch_begin tick batch s)) = sc_draining s"
  "sc_draining (processBatch_finish e b t0 m outcome t1 s) = sc_draining s"
  by (simp_all add: processBatch_begin_def processBatch_finish_def Let_def frame fold_draining
      split: prod.split MergeResult.split option.split)

lemma worker_step_draining:
  assumes "worker_step tick outcome w s = Some t"
  shows "sc_draining t = sc_draining s"
  using assms
  by (auto simp: worker_step_def popNextPending_def set_worker_def Let_def frame
      split: Worker.splits option.splits if_splits)

lemma ms_step_draining:
  assumes "sc_draining s" and "ms_step s t"
  shows "sc_draining t"
  using assms(2)
proof cases
  case (ms_submit enqueued_at request r)
  then show ?thesis using assms(1) by (cases rule: submit_cases [OF ms_submit(3)]) auto
next
  case (ms_worker w tick now outcome u)
  with worker_step_draining [OF ms_worker(7)] assms(1) show ?thesis by simp
qed (use assms(1) in \<open>auto simp: submit_ready_def submit_wait_timeout_def submit_cancel_def core_stopAccepting_def
    beginDrain_flag_def beginDrain_joined_def frame Let_def split: if_splits Submitter.splits option.splits\<close>)

lemma submit_draining: "sc_draining s \<Longrightarrow> submit e r s = (Inl makeDrainingResult, s)"
  by (simp add: submit_def core_isDraining_def)

interpretation model_drain: scheduler_interface sc_draining core_stopAccepting submit ms_step
  by unfold_locales (auto simp: core_stopAccepting_def submit_draining intro: ms_step_draining)

section \<open>What a finished batch tells its members\<close>

lemma answer_member_local:
  "sc_pending u x = sc_pending s x \<Longrightarrow>
     sc_pending (answer_member t0 t1 n (x, r) u) x = sc_pending (answer_member t0 t1 n (x, r) s) x"
  by (simp add: answer_member_def Let_def fulfillExpiredRequest_def fulfillResult_def set_value_def
      store_cancel_token_def count_metric_def split: option.split)

lemma fold_answer_member:
  assumes "distinct (map fst ps)" and "(x, r) \<in> set ps" and "\<And>y. y \<in> fst ` set ps \<Longrightarrow> pr_promise (sc_pending s y) = None"
  shows "sc_pending (fold (answer_member t0 t1 n) ps s) x = sc_pending (answer_member t0 t1 n (x, r) s) x"
  using assms
proof (induction ps arbitrary: s)
  case (Cons p ps)
  let ?s = "answer_member t0 t1 n p s"
  have ans: "answers {fst p} s ?s" by (rule answer_member_answers) (use Cons.prems in simp)
  have "fst p \<notin> fst ` set ps" using Cons.prems(1) by simp
  then have apart: "y \<noteq> fst p" if "y \<in> fst ` set ps" for y using that by metis
  have unset: "pr_promise (sc_pending ?s y) = None" if "y \<in> fst ` set ps" for y
    using answers_promise [OF ans, of y] apart [OF that] Cons.prems(3) [of y] that by simp
  show ?case
  proof (cases "p = (x, r)")
    case True
    then have notin: "x \<notin> fst ` set ps" using Cons.prems(1) by simp
    have "answers (\<Union>p \<in> set ps. {fst p}) ?s (fold (answer_member t0 t1 n) ps ?s)"
    proof (rule answers_fold [where key = fst])
      show "pr_promise (sc_pending ?s (fst q)) = None" if "q \<in> set ps" for q
        using unset that by blast
    qed (use Cons.prems in \<open>auto intro: answer_member_answers\<close>)
    then have "sc_pending (fold (answer_member t0 t1 n) ps ?s) x = sc_pending ?s x"
      by (rule answers_pending) (use notin in auto)
    with True show ?thesis by simp
  next
    case False
    with Cons.prems(2) have mem: "(x, r) \<in> set ps" by simp
    then have "x \<in> fst ` set ps" by (metis fst_conv image_eqI)
    then have "x \<noteq> fst p" by (rule apart)
    then have same: "sc_pending ?s x = sc_pending s x" using ans by (intro answers_pending) auto
    have "sc_pending (fold (answer_member t0 t1 n) ps ?s) x = sc_pending (answer_member t0 t1 n (x, r) ?s) x"
    proof (rule Cons.IH [OF _ mem])
      show "distinct (map fst ps)" using Cons.prems(1) by simp
    qed (rule unset)
    also have "\<dots> = sc_pending (answer_member t0 t1 n (x, r) s) x"
      using same by (rule answer_member_local)
    finally show ?thesis by simp
  qed
qed simp

lemma answer_member_in_time:
  assumes "pr_promise (sc_pending s x) = None" and "\<not> pr_cancelled (sc_pending s x)" and "t1 < pr_deadline (sc_pending s x)"
  shows "pr_promise (sc_pending (answer_member t0 t1 n (x, r) s) x) = Some (completed_result (sc_pending s x) t0 t1 n r)"
  using assms by (simp add: answer_member_def Let_def fulfillResult_def set_value_def)

lemma processBatch_finish_results:
  assumes d: "distinct b" and unset: "\<And>x. x \<in> set b \<Longrightarrow> pr_promise (sc_pending s x) = None"
    and split: "splitExecutionResponse (inference_response outcome) (mb_batch_sizes mb)
        (map (\<lambda>x. pr_request (sc_pending s x)) b) = Some rs" and len: "length rs = length b"
    and i: "i < length b" and alive: "\<not> pr_cancelled (sc_pending s (b ! i))" "t1 < pr_deadline (sc_pending s (b ! i))"
  shows "pr_promise (sc_pending (processBatch_finish e b t0 mb outcome t1 s) (b ! i)) =
     Some (completed_result (sc_pending s (b ! i)) t0 t1 (length b) (rs ! i))"
proof -
  let ?s = "s\<lparr>sc_inflight := release e (sc_inflight s),
       sc_metrics := recordBatchExecution (elapsedNs t0 t1) (sc_metrics s)\<rparr>"
  have "(b ! i, rs ! i) \<in> set (zip b rs)" using i len by (auto simp: set_zip)
  then have "sc_pending (fold (answer_member t0 t1 (length b)) (zip b rs) ?s) (b ! i) =
      sc_pending (answer_member t0 t1 (length b) (b ! i, rs ! i) ?s) (b ! i)"
    by (intro fold_answer_member) (use d len unset in \<open>auto simp: set_zip_leftD\<close>)
  moreover have "pr_promise (sc_pending (answer_member t0 t1 (length b) (b ! i, rs ! i) ?s) (b ! i)) =
      Some (completed_result (sc_pending ?s (b ! i)) t0 t1 (length b) (rs ! i))"
    by (rule answer_member_in_time) (use unset i alive in simp_all)
  ultimately show ?thesis
    using split by (simp add: processBatch_finish_def Let_def)
qed

section \<open>Two short runs\<close>

text \<open>One executor, one worker, a deadline of one millisecond.\<close>

definition run_config :: "bool \<Rightarrow> SchedulerConfig" where
  "run_config batches = \<lparr>cf_max_queue_size = 4, cf_request_timeout_ms = 1, cf_instances = 1,
     cf_dynamic_batching = \<lparr>db_enabled = batches, db_max_batch_size = 4, db_max_queue_delay_us = 1000,
       db_preferred_batch_sizes = [3]\<rparr>\<rparr>"

definition run_start :: "bool \<Rightarrow> ModelScheduler" where
  "run_start batches = SchedulerCore.extend (new_core 0 1)
     \<lparr>ms_config = run_config batches, ms_workers = [WIdle]\<rparr>"

abbreviation run_reach :: "bool \<Rightarrow> ModelScheduler \<Rightarrow> bool" where
  "run_reach batches \<equiv> reach (ms_start 0 1 (run_config batches)) ms_step"

lemma run_reach_start: "run_reach batches (run_start batches)"
  by (rule reach_start) (simp add: ms_start_def makeModelScheduler_def run_start_def run_config_def)

lemma reach_submit:
  "reach S ms_step s \<Longrightarrow> sc_fault s = None \<Longrightarrow> e \<le> sc_now s \<Longrightarrow> reach S ms_step (snd (submit e r s))"
  by (erule reach_step) (rule ms_submit, auto simp: prod_eq_iff)

lemma reach_worker:
  "reach S ms_step s \<Longrightarrow> sc_fault s = None \<Longrightarrow> w < length (ms_workers s) \<Longrightarrow> mono tick \<Longrightarrow> sc_now s \<le> tick 0 \<Longrightarrow>
     (\<forall>k. tick k \<le> now) \<Longrightarrow> worker_step tick outcome w s = Some t \<Longrightarrow> reach S ms_step (t\<lparr>sc_now := now\<rparr>)"
  by (erule reach_step) (rule ms_worker)

lemmas run_eval = submit_def core_isDraining_def submit_enqueue_def count_metric_def increment_def Let_def
  worker_step_def popNextPending_def set_worker_def formBatch_begin_def mergedBatchDimension_def
  run_config_def new_core_def SchedulerCore.extend_def empty_request_def requestBatchSize_def
  size_add_def size_of_int64_def size_limit_def zero_metrics_def

definition submitted_one :: "ModelScheduler \<Rightarrow> bool" where
  "submitted_one s \<longleftrightarrow> sc_fault s = None \<and> sc_now s = 0 \<and> ms_workers s = [WIdle] \<and> sc_queue s = [0] \<and>
     sc_next s = 1 \<and> \<not> sc_draining s \<and> sc_submitter s 0 = Waiting \<and>
     pr_deadline (sc_pending s 0) = 1000000 \<and> pr_promise (sc_pending s 0) = None \<and>
     \<not> pr_cancelled (sc_pending s 0) \<and> requestBatchSize (pr_request (sc_pending s 0)) = 1 \<and>
     mt_requests_timed_out (sc_metrics s) = 0 \<and> mt_requests_accepted (sc_metrics s) = 1"

lemma run_submitted:
  "\<exists>s. run_reach batches s \<and> submitted_one s \<and> ms_config s = run_config batches"
  using reach_submit [OF run_reach_start, of batches 0 empty_request]
  by (intro exI [of _ "snd (submit 0 empty_request (run_start batches))"])
    (simp add: submitted_one_def run_start_def run_eval)

lemma push_workers:
  assumes "\<not> sc_draining s" and "length (sc_queue s) < cf_max_queue_size (ms_config s)"
  shows "ms_workers (snd (submit e r s)) = map worker_after_push (ms_workers s)"
    "sc_queue (snd (submit e r s)) = sc_queue s @ [sc_next s]" "sc_fault (snd (submit e r s)) = sc_fault s"
    "sc_now (snd (submit e r s)) = sc_now s" "ms_config (snd (submit e r s)) = ms_config s"
    "sc_draining (snd (submit e r s)) = sc_draining s"
    "pr_deadline (sc_pending (snd (submit e r s)) (sc_next s)) = e + cf_request_timeout_ms (ms_config s) * 1000000"
    "\<not> pr_cancelled (sc_pending (snd (submit e r s)) (sc_next s))"
    "sc_next (snd (submit e r s)) = sc_next s + 1"
proof -
  obtain res t where st: "submit e r s = (res, t)" by (cases "submit e r s")
  from st assms show "ms_workers (snd (submit e r s)) = map worker_after_push (ms_workers s)"
    "sc_queue (snd (submit e r s)) = sc_queue s @ [sc_next s]" "sc_fault (snd (submit e r s)) = sc_fault s"
    "sc_now (snd (submit e r s)) = sc_now s" "ms_config (snd (submit e r s)) = ms_config s"
    "sc_draining (snd (submit e r s)) = sc_draining s"
    "pr_deadline (sc_pending (snd (submit e r s)) (sc_next s)) = e + cf_request_timeout_ms (ms_config s) * 1000000"
    "\<not> pr_cancelled (sc_pending (snd (submit e r s)) (sc_next s))"
    "sc_next (snd (submit e r s)) = sc_next s + 1"
    by (cases rule: submit_cases [OF st]; simp)+
qed

lemma run_forming:
  "\<exists>s. run_reach True s \<and> sc_fault s = None \<and> sc_now s = 0 \<and> ms_workers s = [WForming [0] 0 1] \<and>
     sc_queue s = [] \<and> sc_next s = 1 \<and> ms_config s = run_config True \<and> \<not> sc_draining s"
proof -
  obtain s1 where s1: "run_reach True s1" "submitted_one s1" "ms_config s1 = run_config True"
    using run_submitted by blast
  let ?s2 = "s1\<lparr>sc_queue := [], ms_workers := [WForming [0] 0 1], sc_now := 0\<rparr>"
  have "worker_step (\<lambda>_. 0) InferThrowsOther 0 s1 = Some (s1\<lparr>sc_queue := [], ms_workers := [WForming [0] 0 1]\<rparr>)"
    using s1 by (simp add: submitted_one_def run_eval)
  with s1 have "run_reach True ?s2"
    using reach_worker [of _ s1 0 "\<lambda>_. 0" 0] by (simp add: submitted_one_def monoI)
  with s1 show ?thesis by (intro exI [of _ ?s2]) (simp add: submitted_one_def)
qed

lemma run_expiring:
  "\<exists>s. run_reach True s \<and> sc_fault s = None \<and> sc_now s = 1000000 \<and> sc_queue s = [] \<and>
     ms_workers s = [WExpiring [0] 0 1 False 1 (Some 0)] \<and> ms_config s = run_config True \<and> \<not> sc_draining s"
proof -
  obtain s2 where s2: "run_reach True s2" "sc_fault s2 = None" "sc_now s2 = 0" "ms_workers s2 = [WForming [0] 0 1]"
    "sc_queue s2 = []" "sc_next s2 = 1" "ms_config s2 = run_config True" "\<not> sc_draining s2"
    using run_forming by blast
  let ?s3 = "snd (submit 0 empty_request s2)"
  have room: "length (sc_queue s2) < cf_max_queue_size (ms_config s2)" using s2 by (simp add: run_config_def)
  have r3: "run_reach True ?s3" by (rule reach_submit [OF s2(1,2)]) (simp add: s2)
  have f3: "sc_fault ?s3 = None" "sc_now ?s3 = 0" "ms_workers ?s3 = [WForming [0] 0 1]" "sc_queue ?s3 = [1]"
    "ms_config ?s3 = run_config True" "\<not> sc_draining ?s3" "pr_deadline (sc_pending ?s3 1) = 1000000"
    "\<not> pr_cancelled (sc_pending ?s3 1)"
    using s2 push_workers [OF s2(8) room, of 0 empty_request] by (simp_all add: run_config_def)
  let ?tick = "\<lambda>k :: nat. if k = 0 then 0 else (1000000 :: int)"
  let ?s4 = "?s3\<lparr>sc_queue := [], ms_workers := [WExpiring [0] 0 1 False 1 (Some 0)], sc_now := 1000000\<rparr>"
  have "worker_step ?tick InferThrowsOther 0 ?s3 =
      Some (?s3\<lparr>sc_queue := [], ms_workers := [WExpiring [0] 0 1 False 1 (Some 0)]\<rparr>)"
    using f3 by (simp add: worker_step_def formBatch_iterate_def formBatch_scan_def Let_def formation_deadline_def
        run_config_def set_worker_def shouldDispatchBatchSize_def)
  then have "run_reach True ?s4"
    using reach_worker [OF r3, of 0 ?tick 1000000 InferThrowsOther] f3 by (simp add: mono_def)
  with f3 show ?thesis by (intro exI [of _ ?s4]) simp
qed

lemma expired_workers [frame]: "ms_workers (fulfillExpiredRequest x s) = ms_workers s"
  by (simp add: fulfillExpiredRequest_def fulfillResult_def set_value_def store_cancel_token_def
      count_metric_def split: option.split)

lemma reach_no_other_fault:
  "reach (ms_start now n config) ms_step s \<Longrightarrow> sc_fault s = None \<or> sc_fault s = Some IteratorInvalidated"
  using model_scheduler.reach_inv [of now n config s] by (auto simp: ms_inv_def)


text \<open>A run in which two requests are merged and executed as one batch.\<close>

definition queued_two :: "ModelScheduler" where
  "queued_two = snd (submit 0 (sample_request 2 [3, 4, 5, 6])
     ((the (worker_step (\<lambda>_. 0) InferThrowsOther 0 (snd (submit 0 (sample_request 1 [1, 2]) (run_start True)))))\<lparr>sc_now := 0\<rparr>))"

lemma queued_two:
  "run_reach True queued_two" "sc_fault queued_two = None" "sc_now queued_two = 0"
  "ms_workers queued_two = [WForming [0] 0 1]" "sc_queue queued_two = [1]" "\<not> sc_draining queued_two"
  "ms_config queued_two = run_config True" "sc_inflight queued_two = [0]"
  "x < 2 \<Longrightarrow> pr_promise (sc_pending queued_two x) = None" "x < 2 \<Longrightarrow> \<not> pr_cancelled (sc_pending queued_two x)"
  "x < 2 \<Longrightarrow> pr_deadline (sc_pending queued_two x) = 1000000"
  "pr_request (sc_pending queued_two 0) = (sample_request 1 [1, 2])\<lparr>er_cancel_token := Some (SchedulerToken 0)\<rparr>"
  "pr_request (sc_pending queued_two 1) = (sample_request 2 [3, 4, 5, 6])\<lparr>er_cancel_token := Some (SchedulerToken 1)\<rparr>"
proof -
  let ?s1 = "snd (submit 0 (sample_request 1 [1, 2]) (run_start True))"
  let ?s2 = "?s1\<lparr>sc_queue := [], ms_workers := [WForming [0] 0 1], sc_now := 0\<rparr>"
  have r1: "run_reach True ?s1"
    by (rule reach_submit [OF run_reach_start]) (simp_all add: run_start_def run_eval)
  have w: "worker_step (\<lambda>_. 0) InferThrowsOther 0 ?s1 = Some (?s1\<lparr>sc_queue := [], ms_workers := [WForming [0] 0 1]\<rparr>)"
    by (simp add: run_start_def run_eval sample_request_def)
  then have r2: "run_reach True ?s2"
    using reach_worker [OF r1, of 0 "\<lambda>_. 0" 0]
    by (simp add: monoI run_start_def run_eval sample_request_def)
  have eq: "queued_two = snd (submit 0 (sample_request 2 [3, 4, 5, 6]) ?s2)" unfolding queued_two_def w by simp
  show "run_reach True queued_two"
    unfolding eq by (rule reach_submit [OF r2]) (simp_all add: run_start_def run_eval sample_request_def)
  show "sc_fault queued_two = None" "sc_now queued_two = 0"
  "ms_workers queued_two = [WForming [0] 0 1]" "sc_queue queued_two = [1]" "\<not> sc_draining queued_two"
  "ms_config queued_two = run_config True" "sc_inflight queued_two = [0]"
  "x < 2 \<Longrightarrow> pr_promise (sc_pending queued_two x) = None" "x < 2 \<Longrightarrow> \<not> pr_cancelled (sc_pending queued_two x)"
  "x < 2 \<Longrightarrow> pr_deadline (sc_pending queued_two x) = 1000000"
  "pr_request (sc_pending queued_two 0) = (sample_request 1 [1, 2])\<lparr>er_cancel_token := Some (SchedulerToken 0)\<rparr>"
  "pr_request (sc_pending queued_two 1) = (sample_request 2 [3, 4, 5, 6])\<lparr>er_cancel_token := Some (SchedulerToken 1)\<rparr>"
    unfolding eq by (simp_all add: run_start_def run_eval sample_request_def less_2_cases_iff) auto
qed

lemma queued_two_batch:
  "areBatchCompatible (pr_request (sc_pending queued_two 0)) (pr_request (sc_pending queued_two 1))"
  "requestBatchSize (pr_request (sc_pending queued_two 1)) = 2"
  "\<exists>mb. mergeExecutionRequests (map (\<lambda>x. pr_request (sc_pending queued_two x)) [0, 1]) = MergeOk mb"
proof -
  note r = queued_two(12,13)
  show c: "areBatchCompatible (pr_request (sc_pending queued_two 0)) (pr_request (sc_pending queued_two 1))"
    unfolding r by (simp add: areBatchCompatible_def sample_request_def batching_eval)
  show "requestBatchSize (pr_request (sc_pending queued_two 1)) = 2"
    unfolding r by (simp add: requestBatchSize_def sample_request_def empty_request_def)
  have "er_inputs (pr_request (sc_pending queued_two 0)) \<noteq> []" "er_inputs (pr_request (sc_pending queued_two 1)) \<noteq> []"
    unfolding r by (simp_all add: sample_request_def)
  with c show "\<exists>mb. mergeExecutionRequests (map (\<lambda>x. pr_request (sc_pending queued_two x)) [0, 1]) = MergeOk mb"
    by (intro merge_succeeds) auto
qed

lemma run_batch_formed:
  "\<exists>s. run_reach True s \<and> sc_fault s = None \<and> sc_now s = 0 \<and> ms_workers s = [WFormed [0, 1]] \<and>
     sc_pending s = sc_pending queued_two \<and> sc_inflight s = [0]"
proof -
  note q = queued_two(1-8) queued_two(10,11) [of 1, simplified]
  have w: "worker_step (\<lambda>_. 0) InferThrowsOther 0 queued_two = Some (queued_two\<lparr>sc_queue := [],
      ms_workers := [WFormed [0, 1]], sc_metrics := recordBatch (Suc (Suc 0)) 0 0 (sc_metrics queued_two)\<rparr>)"
    using q queued_two_batch(1,2)
    by (simp add: worker_step_def formBatch_iterate_def formBatch_scan_def formBatch_return_def Let_def
        formation_deadline_def run_config_def set_worker_def shouldDispatchBatchSize_def size_add_def
        size_of_int64_def size_limit_def elapsedNs_def)
  let ?s3 = "queued_two\<lparr>sc_queue := [], ms_workers := [WFormed [0, 1]],
      sc_metrics := recordBatch (Suc (Suc 0)) 0 0 (sc_metrics queued_two), sc_now := 0\<rparr>"
  have "run_reach True ?s3"
    using reach_worker [OF q(1,2) _ _ _ _ w, of 0] q by (simp add: monoI)
  with q show ?thesis by (intro exI [of _ ?s3]) simp
qed

lemma run_batch_running:
  "\<exists>s mb. run_reach True s \<and> ms_workers s = [WRunning 0 [0, 1] 0 (Some mb)] \<and>
     \<not> pr_cancelled (sc_pending s 1) \<and> pr_deadline (sc_pending s 1) = 1000000"
proof -
  obtain s where s: "run_reach True s" "sc_fault s = None" "sc_now s = 0" "ms_workers s = [WFormed [0, 1]]"
    "sc_pending s = sc_pending queued_two" "sc_inflight s = [0]"
    using run_batch_formed by blast
  obtain mb where mb: "mergeExecutionRequests (map (\<lambda>x. pr_request (sc_pending s x)) [0, 1]) = MergeOk mb"
    using queued_two_batch(3) s(5) by auto
  have p: "\<forall>x \<in> {0, 1}. pr_promise (sc_pending s x) = None \<and> \<not> pr_cancelled (sc_pending s x) \<and>
      pr_deadline (sc_pending s x) = 1000000"
    using queued_two(9-11) s(5) by auto
  let ?s4 = "s\<lparr>ms_workers := [WRunning 0 [0, 1] 0 (Some mb)], sc_inflight := [1], sc_now := 0\<rparr>"
  have "worker_step (\<lambda>_. 0) InferThrowsOther 0 s =
      Some (s\<lparr>ms_workers := [WRunning 0 [0, 1] 0 (Some mb)], sc_inflight := [1]\<rparr>)"
    using s(4,6) p mb by (simp add: worker_step_def processBatch_begin_def expire_batch_def Let_def select_def set_worker_def)
  then have "run_reach True ?s4"
    using reach_worker [OF s(1,2), of 0 "\<lambda>_. 0" 0] s(3,4) by (simp add: monoI)
  with p show ?thesis by (intro exI [of _ ?s4] exI [of _ mb]) simp
qed

section \<open>Properties\<close>

lemma count_list_distinct: "distinct xs \<Longrightarrow> count_list xs x = (if x \<in> set xs then 1 else 0)"
  by (induction xs) auto

text \<open>
  (C1) No accepted request is lost or answered by two parties. In every reachable state a request that was admitted,
  whose submitter has not given up and whose deadline has not passed, is in exactly one place: once in the queue,
  once with a worker, or answered. A request that was cancelled or is past its deadline is in at most one of them;
  nothing else is queued or held, and the accepted counter is the number of admitted requests.
\<close>

theorem no_request_lost:
  assumes "reach (ms_start now n config) ms_step s"
  shows "(\<forall>x < sc_next s.
       count_list (sc_queue s @ held s) x + (if pr_promise (sc_pending s x) = None then 0 else 1) \<le> 1 \<and>
       (\<not> pr_cancelled (sc_pending s x) \<and> sc_now s < pr_deadline (sc_pending s x) \<longrightarrow>
        count_list (sc_queue s @ held s) x + (if pr_promise (sc_pending s x) = None then 0 else 1) = 1)) \<and>
     (\<forall>x \<in> set (sc_queue s @ held s). x < sc_next s) \<and>
     mt_requests_accepted (sc_metrics s) = of_nat (sc_next s)"
proof -
  have own: "owned s (held s)" using model_scheduler.reach_inv [OF assms] by (simp add: ms_inv_def)
  have once: "count_list (sc_queue s @ held s) x = (if x \<in> set (sc_queue s @ held s) then 1 else 0)" for x
    using own by (simp add: owned_def count_list_distinct del: count_list_append)
  show ?thesis
    unfolding once using own by (auto simp: owned_def settled_def)
qed

theorem no_request_lost_witness:
  "\<exists>s. reach (ms_start 0 1 (run_config True)) ms_step s \<and> sc_next s = 1 \<and> pr_promise (sc_pending s 0) = None \<and>
     count_list (sc_queue s @ held s) 0 = 1"
proof -
  obtain s where s: "run_reach True s" "submitted_one s" using run_submitted by blast
  have open_0: "0 < sc_next s" "\<not> pr_cancelled (sc_pending s 0)" "sc_now s < pr_deadline (sc_pending s 0)"
    "pr_promise (sc_pending s 0) = None"
    using s(2) by (simp_all add: submitted_one_def)
  from conjunct1 [OF no_request_lost [OF s(1)], rule_format, OF open_0(1)] open_0(2-4)
  have "count_list (sc_queue s @ held s) 0 = 1" by simp
  with s show ?thesis by (intro exI [of _ s]) (simp add: submitted_one_def)
qed

text \<open>
  (C5) A worker never sets a promise twice, never merges undefined shapes and never reads a split
  response out of range. The fourth fault of the model, an invalidated queue iterator, is not excluded: see
  \<open>iterator_invalidated_reachable\<close> below.
\<close>

theorem no_promise_set_twice:
  assumes "reach (ms_start now n config) ms_step s"
  shows "sc_fault s \<notin> {Some PromiseAlreadySatisfied, Some UndefinedMerge, Some IndexOutOfRange}"
  using model_scheduler.reach_inv [OF assms] unfolding ms_inv_def by auto

theorem no_promise_set_twice_witness:
  "\<exists>s. reach (ms_start 0 1 (run_config True)) ms_step s \<and>
     sc_fault s \<notin> {Some PromiseAlreadySatisfied, Some UndefinedMerge, Some IndexOutOfRange}"
proof -
  obtain s where s: "run_reach True s" using run_submitted by blast
  with no_promise_set_twice [OF s] show ?thesis by blast
qed

text \<open>
  (C7) The queue never exceeds \<open>max_queue_size\<close> and stays in admission order, and \<open>popNextPending\<close>, which takes the
  first request of every batch, hands a worker the oldest queued request. (A worker that goes on to form a batch
  then passes over incompatible requests, which keep their places.)
\<close>

theorem queue_bounded_fifo:
  assumes "reach (ms_start now n config) ms_step s"
  shows "length (sc_queue s) \<le> cf_max_queue_size config \<and> sorted_wrt (<) (sc_queue s) \<and>
     (\<forall>x t. popNextPending s = Some (Some x, t) \<longrightarrow> (\<forall>y \<in> set (sc_queue t). x < y))"
proof -
  have inv: "ms_inv config s" using assms by (rule model_scheduler.reach_inv)
  then have "sorted_wrt (<) (sc_queue s)" "length (sc_queue s) \<le> cf_max_queue_size config"
    by (simp_all add: ms_inv_def owned_def)
  then show ?thesis by (cases "sc_queue s") (auto simp: popNextPending_def split: if_splits)
qed

theorem queue_bounded_fifo_witness:
  "\<exists>s. reach (ms_start 0 1 (run_config True)) ms_step s \<and> sc_queue s = [0] \<and> length (sc_queue s) \<le> 4"
proof -
  obtain s where s: "run_reach True s" "submitted_one s" using run_submitted by blast
  with queue_bounded_fifo [OF s(1)] show ?thesis
    by (intro exI [of _ s]) (simp add: submitted_one_def run_config_def)
qed

text \<open>
  Load balancing: in every reachable state the in-flight counter of each executor is the number of
  workers running on it, so the executor \<open>select\<close> picks for the next batch is a least loaded one.
\<close>

theorem select_is_least_loaded:
  assumes "reach (ms_start now n config) ms_step s" and "select (sc_inflight s) = (e, inflight)"
    and "j < length (sc_inflight s)"
  shows "e < length (sc_inflight s) \<and> sc_inflight s ! j = count_on j (tasks s) \<and>
     count_on e (tasks s) \<le> count_on j (tasks s)"
proof -
  have pool: "pool_ok (sc_inflight s) (tasks s)"
    using model_scheduler.reach_inv [OF assms(1)] by (simp add: ms_inv_def)
  then have "sc_inflight s \<noteq> []" by (simp add: executor_pool_ok_def)
  from select_least [OF this assms(2)] pool assms(3) show ?thesis
    by (auto simp: executor_pool_ok_def count_on_def)
qed

theorem select_is_least_loaded_witness:
  "\<exists>s. reach (ms_start 0 2 (run_config True)) ms_step s \<and> count_on 0 (tasks s) \<le> count_on 1 (tasks s)"
proof -
  let ?s = "SchedulerCore.extend (new_core 0 2) \<lparr>ms_config = run_config True, ms_workers = [WIdle]\<rparr>"
  have r: "reach (ms_start 0 2 (run_config True)) ms_step ?s"
    by (rule reach_start) (simp add: ms_start_def makeModelScheduler_def run_config_def)
  have "sc_inflight ?s = [0, 0]" by (simp add: SchedulerCore.extend_def new_core_def numeral_2_eq_2)
  then have "select (sc_inflight ?s) = (0, [1, 0])" "1 < length (sc_inflight ?s)" by (simp_all add: select_def)
  from select_is_least_loaded [OF r this] r show ?thesis by blast
qed

text \<open>
  (C20) Every batch a worker has formed is non-empty, each further member is batch-compatible with the
  first, and a batch of two or more requests keeps the merged batch dimension within
  \<open>max_batch_size\<close>.
\<close>

theorem formed_batches_well_formed:
  assumes "reach (ms_start now n config) ms_step s" and "WFormed b \<in> set (ms_workers s)"
  shows "b \<noteq> [] \<and> distinct b \<and>
     (\<forall>x \<in> set (tl b). areBatchCompatible (pr_request (sc_pending s (hd b))) (pr_request (sc_pending s x))) \<and>
     (1 < length b \<longrightarrow> mergedBatchDimension (sc_pending s) b \<le> db_max_batch_size (cf_dynamic_batching config))"
proof -
  have inv: "ms_inv config s" using assms(1) by (rule model_scheduler.reach_inv)
  obtain w where w: "w < length (ms_workers s)" "ms_workers s ! w = WFormed b"
    using assms(2) by (auto simp: in_set_conv_nth)
  from worker_facts [OF inv w] show ?thesis by (simp add: batch_ok_def)
qed

theorem formed_batches_well_formed_witness:
  "\<exists>s. reach (ms_start 0 1 (run_config True)) ms_step s \<and> WFormed [0, 1] \<in> set (ms_workers s) \<and>
     mergedBatchDimension (sc_pending s) [0, 1] \<le> 4"
proof -
  obtain s where s: "run_reach True s" "ms_workers s = [WFormed [0, 1]]" using run_batch_formed by blast
  then have "WFormed [0, 1] \<in> set (ms_workers s)" by simp
  with formed_batches_well_formed [OF s(1) this] s show ?thesis
    by (intro exI [of _ s]) (simp add: run_config_def)
qed

lemma fold_set_value:
  "sc_queue (fold (\<lambda>x. set_value x r) xs s) = sc_queue s" "ms_workers (fold (\<lambda>x. set_value x r) xs u) = ms_workers u"
  by (induction xs arbitrary: s u) (simp_all add: set_value_def split: option.split)

text \<open>
  (C9) Draining is graceful. When \<open>beginDrain\<close> has joined its workers, every request that was ever accepted has been
  answered, was cancelled by its submitter or is past its deadline, and the queue is empty. And when there was a
  worker to join, \<open>beginDrain\<close> itself has answered nobody with the draining result: its workers had served the
  queue before they exited.
\<close>

theorem drain_serves_queue_first:
  assumes "reach (ms_start now n config) ms_step s" and "sc_fault s = None" and "beginDrain_joined s = Some t"
  shows "sc_queue t = [] \<and> ms_workers t = [] \<and>
     (\<forall>x < sc_next t. pr_promise (sc_pending t x) \<noteq> None \<or> pr_cancelled (sc_pending t x) \<or>
        pr_deadline (sc_pending t x) \<le> sc_now t) \<and>
     (ms_workers s \<noteq> [] \<longrightarrow> sc_pending t = sc_pending s)"
proof -
  have "reach (ms_start now n config) ms_step t" by (rule reach_step [OF assms(1) ms_joined [OF assms(2,3)]])
  then have own: "owned t (held t)" using model_scheduler.reach_inv by (auto simp: ms_inv_def)
  have t: "t = rejectQueuedRequests (s\<lparr>ms_workers := []\<rparr>)" "\<forall>w \<in> set (ms_workers s). w = WExited"
    using assms(3) by (auto simp: beginDrain_joined_def split: if_splits)
  have none: "sc_queue t = []" "ms_workers t = []" by (simp_all add: t(1) rejectQueuedRequests_def fold_set_value)
  have "sc_pending t = sc_pending s" if "ms_workers s \<noteq> []"
  proof -
    have "WExited \<in> set (tasks s)" using t(2) that by (cases "ms_workers s") (simp_all add: tasks_def)
    with model_scheduler.reach_inv [OF assms(1)] have "sc_queue s = []" by (simp add: ms_inv_def)
    then show ?thesis by (simp add: t(1) rejectQueuedRequests_def)
  qed
  with own none show ?thesis by (simp add: owned_def held_def tasks_def settled_def)
qed

theorem drain_serves_queue_first_witness:
  "\<exists>s t. reach (ms_start 0 1 (run_config False)) ms_step s \<and> beginDrain_joined s = Some t \<and> sc_queue t = []"
proof -
  let ?s1 = "beginDrain_flag (run_start False)"
  have r1: "run_reach False ?s1"
    by (rule reach_step [OF run_reach_start ms_drain]) (simp add: run_start_def run_eval)
  let ?s2 = "?s1\<lparr>ms_workers := [WExited], sc_now := 0\<rparr>"
  have "worker_step (\<lambda>_. 0) InferThrowsOther 0 ?s1 = Some (?s1\<lparr>ms_workers := [WExited]\<rparr>)"
    by (simp add: beginDrain_flag_def run_start_def run_eval)
  then have r2: "run_reach False ?s2"
    using reach_worker [OF r1, of 0 "\<lambda>_. 0" 0]
    by (simp add: monoI beginDrain_flag_def run_start_def run_eval)
  have "sc_fault ?s2 = None" "\<exists>t. beginDrain_joined ?s2 = Some t"
    by (simp_all add: beginDrain_joined_def beginDrain_flag_def run_start_def run_eval)
  with drain_serves_queue_first [OF r2] r2 show ?thesis by blast
qed

text \<open>
  Once \<open>stopAccepting\<close> was called, whatever the scheduler does afterwards, every \<open>submit\<close> is
  refused with the draining result and changes nothing.
\<close>

theorem stopped_scheduler_refuses:
  assumes "reach (\<lambda>u. u = core_stopAccepting s) ms_step t"
  shows "submit e r t = (Inl makeDrainingResult, t)"
  using model_drain.draining_forever [OF assms] by (intro submit_draining) (simp add: core_stopAccepting_def)

theorem stopped_scheduler_refuses_witness:
  "submit 5 empty_request (core_stopAccepting (run_start True)) =
     (Inl makeDrainingResult, core_stopAccepting (run_start True))"
  by (rule stopped_scheduler_refuses) (rule reach_start, rule refl)

text \<open>
  Admission is exactly: refuse while draining, refuse with \<open>QUEUE_FULL\<close> at capacity, otherwise
  append the request to the queue under the next number.
\<close>

theorem submit_outcome:
  "fst (submit e r s) =
     (if sc_draining s then Inl makeDrainingResult
      else if cf_max_queue_size (ms_config s) \<le> length (sc_queue s) then Inl makeOverloadedResult
      else Inr (sc_next s)) \<and>
   sc_queue (snd (submit e r s)) =
     sc_queue s @ (case fst (submit e r s) of Inl _ \<Rightarrow> [] | Inr x \<Rightarrow> [x])"
proof -
  obtain res t where st: "submit e r s = (res, t)" by (cases "submit e r s")
  show ?thesis by (cases rule: submit_cases [OF st]) (auto simp: st)
qed

text \<open>
  (C21) A batch member in time is answered with its own part of the batched response: when a worker in a
  reachable state returns from executing batch \<open>b\<close>, the promise of member \<open>i\<close>, unless it was cancelled
  or is past its deadline, is set to the \<open>i\<close>-th split response.
\<close>

theorem batch_member_gets_own_response:
  assumes "reach (ms_start now n config) ms_step s" and "WRunning e b t0 (Some mb) \<in> set (ms_workers s)"
    and "i < length b" and "\<not> pr_cancelled (sc_pending s (b ! i))" and "t1 < pr_deadline (sc_pending s (b ! i))"
  shows "\<exists>rs. splitExecutionResponse (inference_response outcome) (mb_batch_sizes mb)
          (map (\<lambda>x. pr_request (sc_pending s x)) b) = Some rs \<and> length rs = length b \<and>
     pr_promise (sc_pending (processBatch_finish e b t0 mb outcome t1 s) (b ! i)) =
       Some (completed_result (sc_pending s (b ! i)) t0 t1 (length b) (rs ! i))"
proof -
  have inv: "ms_inv config s" using assms(1) by (rule model_scheduler.reach_inv)
  obtain w where w: "w < length (ms_workers s)" "ms_workers s ! w = WRunning e b t0 (Some mb)"
    using assms(2) by (auto simp: in_set_conv_nth)
  note facts = worker_facts [OF inv w]
  have "length (mb_batch_sizes mb) = length (map (\<lambda>x. pr_request (sc_pending s x)) b)"
    using facts(3) merge_ok(2) [of "map (\<lambda>x. pr_request (sc_pending s x)) b" mb] by simp
  from split_defined [OF this] obtain rs where
    rs: "splitExecutionResponse (inference_response outcome) (mb_batch_sizes mb)
      (map (\<lambda>x. pr_request (sc_pending s x)) b) = Some rs" "length rs = length b" by auto
  with processBatch_finish_results [OF _ _ rs assms(3-5)] facts(4,5) show ?thesis by simp
qed

theorem batch_member_gets_own_response_witness:
  "\<exists>s mb rs. reach (ms_start 0 1 (run_config True)) ms_step s \<and>
     ms_workers s = [WRunning 0 [0, 1] 0 (Some mb)] \<and>
     pr_promise (sc_pending (processBatch_finish 0 [0, 1] 0 mb InferThrowsOther 500 s) 1) =
       Some (completed_result (sc_pending s 1) 0 500 2 (rs ! 1))"
proof -
  obtain s mb where s: "run_reach True s" "ms_workers s = [WRunning 0 [0, 1] 0 (Some mb)]"
    "\<not> pr_cancelled (sc_pending s 1)" "pr_deadline (sc_pending s 1) = 1000000"
    using run_batch_running by blast
  have m: "WRunning 0 [0, 1] 0 (Some mb) \<in> set (ms_workers s)" using s(2) by simp
  from batch_member_gets_own_response [OF s(1) m, of 1 500 InferThrowsOther] s show ?thesis
    by (auto simp: numeral_2_eq_2)
qed

text \<open>
  Results are faithful to the executor: a completed request carries the executor's response, fails
  exactly when the executor failed and then with the executor's code and message, and its total
  latency is the sum of its queue and execution latencies.
\<close>

theorem completed_result_faithful:
  "sr_response (completed_result p t0 t1 k r) = r \<and>
   sr_ok (completed_result p t0 t1 k r) = rs_ok r \<and>
   (rs_ok r \<or> (sr_error_code (completed_result p t0 t1 k r) = rs_error_code r \<and>
               sr_error_message (completed_result p t0 t1 k r) = rs_error_message r)) \<and>
   sr_total_latency_ns (completed_result p t0 t1 k r) =
     sr_queue_latency_ns (completed_result p t0 t1 k r) + sr_execution_latency_ns (completed_result p t0 t1 k r)"
  by (simp add: completed_result_def adopt_def new_result_def elapsedNs_def Let_def flip: wi_hom_add)

text \<open>
  The loop of \<open>formBatch\<close> keeps its queue iterator across the unlock in the branch for expired
  requests; a \<open>submit\<close> in that window invalidates it, and a run exists that goes on to use it.
\<close>

theorem iterator_invalidated_reachable:
  "\<exists>s. reach (ms_start 0 1 (run_config True)) ms_step s \<and> sc_fault s = Some IteratorInvalidated"
proof -
  obtain s4 where s4: "run_reach True s4" "sc_fault s4 = None" "sc_now s4 = 1000000" "sc_queue s4 = []"
    "ms_workers s4 = [WExpiring [0] 0 1 False 1 (Some 0)]" "ms_config s4 = run_config True" "\<not> sc_draining s4"
    using run_expiring by blast
  let ?s5 = "snd (submit 0 empty_request s4)"
  have room: "length (sc_queue s4) < cf_max_queue_size (ms_config s4)" using s4 by (simp add: run_config_def)
  have r5: "run_reach True ?s5" by (rule reach_submit [OF s4(1,2)]) (simp add: s4)
  have f5: "sc_fault ?s5 = None" "sc_now ?s5 = 1000000" "ms_workers ?s5 = [WExpiring [0] 0 1 False 1 None]"
    using s4 push_workers [OF s4(7) room, of 0 empty_request] by simp_all
  define s6 where "s6 = (set_worker 0 (WResuming [0] 0 1 False None, fulfillExpiredRequest 1 ?s5))\<lparr>sc_now := 1000000\<rparr>"
  have "worker_step (\<lambda>_. 1000000) InferThrowsOther 0 ?s5 =
      Some (set_worker 0 (WResuming [0] 0 1 False None, fulfillExpiredRequest 1 ?s5))"
    using f5 by (simp add: worker_step_def)
  then have r6: "run_reach True s6"
    using reach_worker [OF r5, of 0 "\<lambda>_. 1000000" 1000000] f5 by (simp add: s6_def monoI)
  show ?thesis
  proof (cases "sc_fault s6 = None")
    case True
    have "ms_workers s6 = [WResuming [0] 0 1 False None]"
      using f5 by (simp add: s6_def set_worker_def expired_workers)
    then have "worker_step (\<lambda>_. 1000000) InferThrowsOther 0 s6 =
        Some (s6\<lparr>sc_fault := Some IteratorInvalidated, ms_workers := [WResuming [0] 0 1 False None]\<rparr>)"
      by (simp add: worker_step_def formBatch_resume_def set_worker_def)
    from reach_worker [OF r6 True _ _ _ _ this, of 1000000] show ?thesis
      using \<open>ms_workers s6 = _\<close> by (force simp: s6_def monoI)
  next
    case False
    with reach_no_other_fault [OF r6] have "sc_fault s6 = Some IteratorInvalidated" by simp
    with r6 show ?thesis by (intro exI [of _ s6]) simp
  qed
qed


text \<open>
  The timed-out counter can exceed the number of requests: a request that expires while its worker
  and its submitter both notice is counted by both. A run with one accepted request ends with
  \<open>requests_timed_out = 2\<close>.
\<close>

theorem timeout_counted_twice:
  "\<exists>s. reach (ms_start 0 1 (run_config False)) ms_step s \<and> sc_next s = 1 \<and>
     mt_requests_accepted (sc_metrics s) = 1 \<and> mt_requests_timed_out (sc_metrics s) = 2"
proof -
  obtain s1 where s1: "run_reach False s1" "submitted_one s1" "ms_config s1 = run_config False"
    using run_submitted by blast
  let ?s2 = "s1\<lparr>sc_queue := [], ms_workers := [WFormed [0]], sc_now := 1000000\<rparr>"
  have "worker_step (\<lambda>_. 1000000) InferThrowsOther 0 s1 = Some (s1\<lparr>sc_queue := [], ms_workers := [WFormed [0]]\<rparr>)"
    using s1 by (simp add: submitted_one_def run_eval)
  with s1 have r2: "run_reach False ?s2"
    using reach_worker [of _ s1 0 "\<lambda>_. 1000000" 1000000] by (simp add: submitted_one_def monoI)
  let ?s3 = "?s2\<lparr>sc_submitter := (sc_submitter s1)(0 := Expiring)\<rparr>"
  have "submit_wait_timeout 0 ?s2 = Some ?s3" using s1 by (simp add: submit_wait_timeout_def submitted_one_def)
  then have r3: "run_reach False ?s3"
    using s1 by (intro reach_step [OF r2 ms_wait_timeout]) (simp_all add: submitted_one_def)
  define s4 where "s4 = (set_worker 0 (WIdle, fulfillExpiredRequest 0 ?s3))\<lparr>sc_now := 1000000\<rparr>"
  have "worker_step (\<lambda>_. 1000000) InferThrowsOther 0 ?s3 = Some (set_worker 0 (WIdle, fulfillExpiredRequest 0 ?s3))"
    using s1 by (simp add: worker_step_def processBatch_begin_def Let_def expire_batch_def submitted_one_def
        fulfillExpiredRequest_def fulfillResult_def set_value_def store_cancel_token_def count_metric_def
        split: option.split)
  then have r4: "run_reach False s4"
    using s1 reach_worker [OF r3, of 0 "\<lambda>_. 1000000" 1000000] by (simp add: s4_def submitted_one_def monoI)
  have f4: "sc_fault s4 = None" "sc_submitter s4 0 = Expiring" "mt_requests_timed_out (sc_metrics s4) = 1"
    "mt_requests_accepted (sc_metrics s4) = 1" "sc_next s4 = 1"
    using s1 by (simp_all add: s4_def set_worker_def submitted_one_def fulfillExpiredRequest_def fulfillResult_def
        set_value_def store_cancel_token_def count_metric_def increment_def split: option.split)
  obtain s5 where s5: "submit_cancel 0 s4 = Some s5" using f4 by (simp add: submit_cancel_def Let_def)
  have "run_reach False s5" by (rule reach_step [OF r4 ms_cancel [OF f4(1) s5]])
  moreover have "mt_requests_timed_out (sc_metrics s5) = 2" "mt_requests_accepted (sc_metrics s5) = 1" "sc_next s5 = 1"
    using s5 f4 store_cancel_token_shape [of 0 s4]
    by (auto simp: submit_cancel_def Let_def count_metric_def increment_def split: if_splits)
  ultimately show ?thesis by blast
qed

end
