(* ===== verification/Llm_Scheduler.thy ===== *)
theory Llm_Scheduler
  imports Scheduler_Core
begin

text \<open>
  \<open>Tokenizer.hpp\<close> and \<open>LlmScheduler.cpp\<close>: token estimates, validation of generation requests, admission
  under a memory budget, and the decode slots that bound concurrent generations. Queue, promises,
  submitters, draining and the executor pool are those of \<open>Scheduler_Core\<close>; the conventions for steps
  and clock readings are those of \<open>Model_Scheduler\<close>.
\<close>

section \<open>Tokenizer.hpp\<close>

text \<open>
  \<open>rnd\<close> is the rounding of a rational to the nearest double, and a cast to \<open>size_t\<close> truncates.
\<close>

definition CharRatioTokenizer_countTokens :: "(double \<Rightarrow> double) \<Rightarrow> double \<Rightarrow> string \<Rightarrow> size_t" where
  "CharRatioTokenizer_countTokens rnd tokens_per_char text =
     nat \<lfloor>rnd (rnd (rnd (of_nat (length text)) * tokens_per_char) + 1 / 2)\<rfloor>"

definition is_separator :: "char \<Rightarrow> bool" where
  "is_separator c \<longleftrightarrow> c = CHR '' '' \<or> c = CHR 0x09 \<or> c = CHR 0x0A \<or> c = CHR 0x0D"

fun whitespace_count :: "size_t \<Rightarrow> bool \<Rightarrow> string \<Rightarrow> size_t" where
  "whitespace_count n in_word [] = n"
| "whitespace_count n in_word (c # text) =
     (if is_separator c then whitespace_count n False text
      else if \<not> in_word then whitespace_count (n + 1) True text
      else whitespace_count n in_word text)"

definition WhitespaceTokenizer_countTokens :: "string \<Rightarrow> size_t" where
  "WhitespaceTokenizer_countTokens text = (if text = [] then 0 else whitespace_count 0 False text)"

text \<open>Both tokenizers encode a text as the numbers below its count.\<close>

definition encode :: "(string \<Rightarrow> size_t) \<Rightarrow> string \<Rightarrow> size_t list" where
  "encode countTokens text = [0..<countTokens text]"

section \<open>Validation\<close>

definition makeInvalidArgumentResult :: "string \<Rightarrow> SchedulerResult" where
  "makeInvalidArgumentResult message =
     new_result\<lparr>sr_ok := False, sr_error_code := ''INVALID_ARGUMENT'', sr_error_message := message\<rparr>"

definition makeMemoryPressureResult :: SchedulerResult where
  "makeMemoryPressureResult =
     makeSchedulerError Overloaded ''QUEUE_FULL'' ''request rejected due to KV cache memory pressure''"

definition findBytesPrompt :: "ExecutionRequest \<Rightarrow> InputTensor option" where
  "findBytesPrompt request = find_first (\<lambda>input. isBytesDatatype (it_datatype input)) (er_inputs request)"

definition effectiveMaxTokens :: "ExecutionRequest \<Rightarrow> LlmSchedulerConfig \<Rightarrow> size_t" where
  "effectiveMaxTokens request config =
     (case er_llm_params request of
        Some params \<Rightarrow> (case lp_max_tokens params of Some n \<Rightarrow> n | None \<Rightarrow> lc_max_tokens config)
      | None \<Rightarrow> lc_max_tokens config)"

definition validateLlmRequest :: "ExecutionRequest \<Rightarrow> LlmSchedulerConfig \<Rightarrow> size_t \<Rightarrow> string option" where
  "validateLlmRequest request config estimated_tokens =
     (case findBytesPrompt request of
        None \<Rightarrow> Some ''LLM request requires a BYTES prompt input''
      | Some prompt \<Rightarrow>
        if it_string_data prompt = [] then Some ''LLM prompt must not be empty''
        else if estimated_tokens > lc_context_length config
          then Some (''prompt exceeds context length (estimated '' @ to_string estimated_tokens @ '' tokens)'')
        else
          let max_tokens = effectiveMaxTokens request config in
          if max_tokens = 0 \<or> max_tokens > lc_max_tokens config
            then Some ''max_tokens exceeds configured limit''
          else if size_add estimated_tokens max_tokens > lc_context_length config
            then Some ''prompt + max_tokens exceeds context length''
          else
            (case er_llm_params request of
               None \<Rightarrow> None
             | Some params \<Rightarrow>
                 if (case lp_temperature params of Some t \<Rightarrow> t < 0 | None \<Rightarrow> False)
                   then Some ''temperature must be greater than or equal to 0''
                 else if (case lp_top_p params of Some p \<Rightarrow> p \<le> 0 \<or> p > 1 | None \<Rightarrow> False)
                   then Some ''top_p must be in (0, 1]''
                 else None))"

section \<open>State, construction and submit\<close>

datatype LlmWorker =
  LIdle \<comment> \<open>in \<open>popNextPending\<close>\<close>
| LPopped nat \<comment> \<open>about to call \<open>processSingle\<close>\<close>
| LAcquiring nat \<comment> \<open>in \<open>acquireDecodeSlot\<close>\<close>
| LAcquired nat \<comment> \<open>holds a decode slot\<close>
| LRunning nat nat time_point \<comment> \<open>in the executor: executor, request, start\<close>
| LExited

record LlmScheduler = SchedulerCore +
  ls_config :: LlmSchedulerConfig
  ls_workers :: "LlmWorker list"
  ls_active_decodes :: size_t

definition makeLlmScheduler ::
  "time_point \<Rightarrow> size_t \<Rightarrow> LlmSchedulerConfig \<Rightarrow> string + LlmScheduler" where
  "makeLlmScheduler now executors config =
     (if executors = 0 then Inl ''scheduler requires at least one executor''
      else if lc_kv_cache_slots config = 0 then Inl ''kv cache slots must be greater than 0''
      else Inr (SchedulerCore.extend (new_core now executors)
             \<lparr>ls_config = config, ls_workers = replicate (lc_kv_cache_slots config) LIdle,
              ls_active_decodes = 0\<rparr>))"

definition memory_per_token_bytes :: size_t where
  "memory_per_token_bytes = 2"

definition prompt_text :: "ExecutionRequest \<Rightarrow> string" where
  "prompt_text request =
     (case findBytesPrompt request of
        Some prompt \<Rightarrow> (case it_string_data prompt of text # _ \<Rightarrow> text | [] \<Rightarrow> [])
      | None \<Rightarrow> [])"

definition memory_pressure :: "size_t \<Rightarrow> LlmScheduler \<Rightarrow> bool" where
  "memory_pressure estimated_tokens s \<longleftrightarrow>
     lc_memory_budget_bytes (ls_config s) > 0 \<and>
     (let estimated_context_bytes = size_mul estimated_tokens memory_per_token_bytes;
          active_context_bytes = size_mul (ls_active_decodes s) estimated_context_bytes
      in size_add active_context_bytes estimated_context_bytes > lc_memory_budget_bytes (ls_config s))"

text \<open>\<open>submit\<close> up to the wait; \<open>countTokens\<close> is the scheduler's tokenizer.\<close>

definition llm_submit ::
  "(string \<Rightarrow> size_t) \<Rightarrow> time_point \<Rightarrow> ExecutionRequest \<Rightarrow> LlmScheduler \<Rightarrow>
     (SchedulerResult + nat) \<times> LlmScheduler" where
  "llm_submit countTokens enqueued_at request s =
     (let estimated_tokens = countTokens (prompt_text request) in
      case validateLlmRequest request (ls_config s) estimated_tokens of
        Some error \<Rightarrow> (Inl (makeInvalidArgumentResult error), s)
      | None \<Rightarrow>
          if core_isDraining s then (Inl makeDrainingResult, s)
          else if memory_pressure estimated_tokens s
            then (Inl makeMemoryPressureResult, count_metric mt_requests_memory_pressure_rejected_update s)
          else submit_enqueue (lc_max_queue_size (ls_config s)) (lc_request_timeout_ms (ls_config s))
                 enqueued_at request s)"

definition llm_metrics :: "LlmScheduler \<Rightarrow> SchedulerMetricsSnapshot" where
  "llm_metrics s =
     (snapshot (length (sc_queue s)) (ls_active_decodes s) (sc_metrics s))
       \<lparr>mt_kv_cache_slots_total := lc_kv_cache_slots (ls_config s),
        mt_kv_cache_slots_active := ls_active_decodes s\<rparr>"

definition llm_beginDrain_flag :: "LlmScheduler \<Rightarrow> LlmScheduler" where
  "llm_beginDrain_flag s = s\<lparr>sc_draining := True\<rparr>"

definition llm_beginDrain_joined :: "LlmScheduler \<Rightarrow> LlmScheduler option" where
  "llm_beginDrain_joined s =
     (if sc_draining s \<and> (\<forall>w \<in> set (ls_workers s). w = LExited)
      then Some (rejectQueuedRequests (s\<lparr>ls_workers := []\<rparr>)) else None)"

section \<open>Decode slots and execution\<close>

text \<open>
  \<open>acquireDecodeSlot\<close> with the clock at \<open>now\<close>: \<open>None\<close> while the condition variable waits, otherwise the
  returned flag and the state.
\<close>

definition acquireDecodeSlot ::
  "time_point \<Rightarrow> time_point \<Rightarrow> LlmScheduler \<Rightarrow> (bool \<times> LlmScheduler) option" where
  "acquireDecodeSlot now deadline s =
     (let woke = sc_draining s \<or> ls_active_decodes s < lc_kv_cache_slots (ls_config s) in
      if \<not> woke \<and> now < deadline then None
      else if \<not> woke then Some (False, s)
      else if sc_draining s then Some (False, s)
      else if ls_active_decodes s \<ge> lc_kv_cache_slots (ls_config s) then Some (False, s)
      else Some (True, s\<lparr>ls_active_decodes := size_add (ls_active_decodes s) 1\<rparr>))"

text \<open>\<open>fetch_sub\<close> on a \<open>size_t\<close> wraps below zero.\<close>

definition releaseDecodeSlot :: "LlmScheduler \<Rightarrow> LlmScheduler" where
  "releaseDecodeSlot s =
     s\<lparr>ls_active_decodes := size_add (ls_active_decodes s) (size_limit - 1)\<rparr>"

text \<open>
  \<open>runInference\<close>: the streaming entry of the executor for a streaming request, and \<open>completed = false\<close>
  when the request's token was set while the executor ran and returned normally.
\<close>

definition llm_runInference ::
  "(ExecutionRequest \<Rightarrow> InferOutcome) \<Rightarrow> (ExecutionRequest \<Rightarrow> StreamingTokenCallback option \<Rightarrow> InferOutcome) \<Rightarrow>
     ExecutionRequest \<Rightarrow> bool \<Rightarrow> bool \<times> ExecutionResponse" where
  "llm_runInference infer inferStreaming request token_set =
     (let outcome = (if (case er_llm_params request of Some p \<Rightarrow> lp_streaming p | None \<Rightarrow> False)
                     then inferStreaming request (er_streaming_callback request)
                     else infer request)
      in case outcome of
           InferReturns response \<Rightarrow> (\<not> (er_cancel_token request \<noteq> None \<and> token_set), response)
         | _ \<Rightarrow> (True, inference_response outcome))"

text \<open>\<open>processSingle\<close> up to \<open>acquireDecodeSlot\<close>.\<close>

definition llm_processSingle_begin :: "time_point \<Rightarrow> nat \<Rightarrow> LlmScheduler \<Rightarrow> LlmWorker \<times> LlmScheduler" where
  "llm_processSingle_begin now x s =
     (if pr_cancelled (sc_pending s x) then (LIdle, s)
      else if now \<ge> pr_deadline (sc_pending s x) then (LIdle, fulfillExpiredRequest x s)
      else (LAcquiring x, s))"

text \<open>From \<open>acquireDecodeSlot\<close> on, when it did not get a slot.\<close>

definition llm_slot_refused :: "nat \<Rightarrow> LlmScheduler \<Rightarrow> LlmScheduler" where
  "llm_slot_refused x s = fulfillResult x makeTimeoutResult (count_metric mt_requests_timed_out_update s)"

text \<open>Between the slot and the executor; \<open>now\<close> and \<open>started\<close> are the two clock readings.\<close>

definition llm_dispatch ::
  "time_point \<Rightarrow> time_point \<Rightarrow> nat \<Rightarrow> LlmScheduler \<Rightarrow> LlmWorker \<times> LlmScheduler" where
  "llm_dispatch now started x s =
     (if sc_draining s then (LIdle, fulfillResult x makeDrainingResult (releaseDecodeSlot s))
      else if now \<ge> pr_deadline (sc_pending s x)
        then (LIdle, fulfillResult x makeTimeoutResult
                (count_metric mt_requests_timed_out_update (releaseDecodeSlot (store_cancel_token x s))))
      else let (executor_index, inflight) = select (sc_inflight s)
           in (LRunning executor_index x started, s\<lparr>sc_inflight := inflight\<rparr>))"

text \<open>What follows the executor's return.\<close>

definition llm_finish ::
  "nat \<Rightarrow> nat \<Rightarrow> time_point \<Rightarrow> bool \<times> ExecutionResponse \<Rightarrow> time_point \<Rightarrow> LlmScheduler \<Rightarrow> LlmScheduler" where
  "llm_finish executor_index x execution_started run execution_finished s =
     (let (completed, response) = run;
          s1 = releaseDecodeSlot (s\<lparr>sc_inflight := release executor_index (sc_inflight s)\<rparr>);
          pending = sc_pending s1 x
      in if \<not> completed then fulfillExpiredRequest x s1
         else if pr_cancelled pending then s1
         else if execution_finished \<ge> pr_deadline pending then fulfillExpiredRequest x s1
         else fulfillResult x
                (completed_result pending execution_started execution_finished 1 response)
                (s1\<lparr>sc_metrics := recordLatencies (pr_enqueued_at pending) execution_started
                       execution_finished (sc_metrics s1)\<rparr>))"

section \<open>The steps of a scheduler\<close>

definition set_llm_worker :: "nat \<Rightarrow> LlmWorker \<times> LlmScheduler \<Rightarrow> LlmScheduler" where
  "set_llm_worker w ps = (snd ps)\<lparr>ls_workers := (ls_workers (snd ps))[w := fst ps]\<rparr>"

definition token_is_set :: "nat \<Rightarrow> LlmScheduler \<Rightarrow> bool" where
  "token_is_set x s \<longleftrightarrow>
     (case er_cancel_token (pr_request (sc_pending s x)) of Some token \<Rightarrow> sc_tokens s token | None \<Rightarrow> False)"

definition llm_worker_step ::
  "(ExecutionRequest \<Rightarrow> InferOutcome) \<Rightarrow> (ExecutionRequest \<Rightarrow> StreamingTokenCallback option \<Rightarrow> InferOutcome) \<Rightarrow>
     (nat \<Rightarrow> time_point) \<Rightarrow> nat \<Rightarrow> LlmScheduler \<Rightarrow> LlmScheduler option" where
  "llm_worker_step infer inferStreaming tick w s =
     (case ls_workers s ! w of
        LIdle \<Rightarrow>
          (case popNextPending s of
             None \<Rightarrow> None
           | Some (None, s1) \<Rightarrow> Some (set_llm_worker w (LExited, s1))
           | Some (Some x, s1) \<Rightarrow> Some (set_llm_worker w (LPopped x, s1)))
      | LPopped x \<Rightarrow> Some (set_llm_worker w (llm_processSingle_begin (tick 0) x s))
      | LAcquiring x \<Rightarrow>
          (case acquireDecodeSlot (tick 0) (pr_deadline (sc_pending s x)) s of
             None \<Rightarrow> None
           | Some (True, s1) \<Rightarrow> Some (set_llm_worker w (LAcquired x, s1))
           | Some (False, s1) \<Rightarrow> Some (set_llm_worker w (LIdle, llm_slot_refused x s1)))
      | LAcquired x \<Rightarrow> Some (set_llm_worker w (llm_dispatch (tick 0) (tick 1) x s))
      | LRunning e x t \<Rightarrow>
          Some (set_llm_worker w (LIdle,
            llm_finish e x t
              (llm_runInference infer inferStreaming (pr_request (sc_pending s x)) (token_is_set x s))
              (tick 0) s))
      | LExited \<Rightarrow> None)"

inductive llm_step :: "(string \<Rightarrow> size_t) \<Rightarrow> LlmScheduler \<Rightarrow> LlmScheduler \<Rightarrow> bool"
  for countTokens :: "string \<Rightarrow> size_t" where
  llm_clock: "sc_fault s = None \<Longrightarrow> sc_now s \<le> t \<Longrightarrow> llm_step countTokens s (s\<lparr>sc_now := t\<rparr>)"
| llm_submits: "sc_fault s = None \<Longrightarrow> enqueued_at \<le> sc_now s \<Longrightarrow>
     llm_submit countTokens enqueued_at request s = (r, t) \<Longrightarrow> llm_step countTokens s t"
| llm_ready: "sc_fault s = None \<Longrightarrow> submit_ready x s = Some t \<Longrightarrow> llm_step countTokens s t"
| llm_wait_timeout: "sc_fault s = None \<Longrightarrow> submit_wait_timeout x s = Some t \<Longrightarrow> llm_step countTokens s t"
| llm_cancel: "sc_fault s = None \<Longrightarrow> submit_cancel x s = Some t \<Longrightarrow> llm_step countTokens s t"
| llm_token: "sc_fault s = None \<Longrightarrow> llm_step countTokens s (s\<lparr>sc_tokens := (sc_tokens s)(CallerToken n := True)\<rparr>)"
| llm_stop: "sc_fault s = None \<Longrightarrow> llm_step countTokens s (core_stopAccepting s)"
| llm_drain: "sc_fault s = None \<Longrightarrow> llm_step countTokens s (llm_beginDrain_flag s)"
| llm_joined: "sc_fault s = None \<Longrightarrow> llm_beginDrain_joined s = Some t \<Longrightarrow> llm_step countTokens s t"
| llm_worker: "sc_fault s = None \<Longrightarrow> w < length (ls_workers s) \<Longrightarrow> mono tick \<Longrightarrow> sc_now s \<le> tick 0 \<Longrightarrow>
     (\<forall>k. tick k \<le> now) \<Longrightarrow> llm_worker_step infer inferStreaming tick w s = Some t \<Longrightarrow>
     llm_step countTokens s (t\<lparr>sc_now := now\<rparr>)"

definition llm_start :: "time_point \<Rightarrow> size_t \<Rightarrow> LlmSchedulerConfig \<Rightarrow> LlmScheduler \<Rightarrow> bool" where
  "llm_start now executors config s \<longleftrightarrow> makeLlmScheduler now executors config = Inr s"

inductive_cases llm_stepE: "llm_step countTokens s t"

end
