(* ===== verification/Llm_Scheduler_Inv.thy ===== *)
theory Llm_Scheduler_Inv
  imports Llm_Scheduler
begin

text \<open>
  The invariant of \<open>Llm_Scheduler\<close> and its preservation by every step: ownership of requests, exact
  decode-slot and in-flight counters, the queue bound, and that no promise is set twice.
\<close>

section \<open>Counting words\<close>

lemma whitespace_count_shift: "whitespace_count n b cs = n + whitespace_count 0 b cs"
proof (induction cs arbitrary: n b)
  case (Cons c cs)
  show ?case
    using Cons [of n] Cons [of "n + 1"] Cons [of 1] Cons [of 0] by simp
qed simp

lemma whitespace_count_append:
  "is_separator c \<Longrightarrow> whitespace_count n b (xs @ c # ys) = whitespace_count (whitespace_count n b xs) False ys"
  by (induction xs arbitrary: n b) auto

lemma whitespace_count_word:
  "\<forall>c \<in> set cs. \<not> is_separator c \<Longrightarrow> whitespace_count n b cs = (if cs = [] \<or> b then n else n + 1)"
  by (induction cs arbitrary: n b) auto

section \<open>The invariant\<close>

fun llm_held_by :: "LlmWorker \<Rightarrow> nat list" where
  "llm_held_by (LPopped x) = [x]"
| "llm_held_by (LAcquiring x) = [x]"
| "llm_held_by (LAcquired x) = [x]"
| "llm_held_by (LRunning e x t) = [x]"
| "llm_held_by LIdle = []"
| "llm_held_by LExited = []"

fun holds_slot :: "LlmWorker \<Rightarrow> bool" where
  "holds_slot (LAcquired x) = True"
| "holds_slot (LRunning e x t) = True"
| "holds_slot w = False"

fun llm_running_on :: "LlmWorker \<Rightarrow> nat option" where
  "llm_running_on (LRunning e x t) = Some e"
| "llm_running_on w = None"

definition llm_held :: "LlmScheduler \<Rightarrow> nat list" where
  "llm_held s = concat (map llm_held_by (ls_workers s))"

definition slot_count :: "LlmWorker list \<Rightarrow> nat" where
  "slot_count ws = count_list (map holds_slot ws) True"

definition llm_inv :: "LlmSchedulerConfig \<Rightarrow> LlmScheduler \<Rightarrow> bool" where
  "llm_inv config s \<longleftrightarrow>
     owned s (llm_held s) \<and> ls_config s = config \<and> length (sc_queue s) \<le> lc_max_queue_size config \<and>
     executor_pool_ok (sc_inflight s) (map llm_running_on (ls_workers s)) \<and>
     ls_active_decodes s = slot_count (ls_workers s) \<and> length (ls_workers s) \<le> lc_kv_cache_slots config \<and>
     (LExited \<in> set (ls_workers s) \<longrightarrow> sc_draining s \<and> sc_queue s = []) \<and> sc_fault s = None"

lemma slot_count_update:
  "w < length ws \<Longrightarrow> slot_count (ws[w := pc]) + (if holds_slot (ws ! w) then 1 else 0) =
     slot_count ws + (if holds_slot pc then 1 else 0)"
  using count_list_update [of w "map holds_slot ws" "holds_slot pc" True]
  by (simp add: slot_count_def map_update)

lemma slot_count_le: "slot_count ws \<le> length ws"
  by (metis count_le_length length_map slot_count_def)

lemma slot_free:
  "w < length ws \<Longrightarrow> \<not> holds_slot (ws ! w) \<Longrightarrow> slot_count ws < length ws"
proof -
  assume w: "w < length ws" "\<not> holds_slot (ws ! w)"
  have "slot_count (ws[w := LAcquired 0]) = slot_count ws + 1"
    using slot_count_update [OF w(1), of "LAcquired 0"] w(2) by simp
  with slot_count_le [of "ws[w := LAcquired 0]"] show ?thesis by simp
qed

lemma slot_held: "w < length ws \<Longrightarrow> holds_slot (ws ! w) \<Longrightarrow> 0 < slot_count ws"
  using slot_count_update [of w ws LIdle] by simp

lemma llm_held_update:
  assumes "w < length ws"
  shows "mset (concat (map llm_held_by (ws[w := pc]))) =
     mset (llm_held_by pc @ concat (map llm_held_by (take w ws @ drop (Suc w) ws)))"
  using assms by (simp add: upd_conv_take_nth_drop)

text \<open>A step of worker \<open>w\<close> keeps the invariant when it does so for the worker itself.\<close>

lemma llm_move:
  assumes inv: "llm_inv config s" and w: "w < length (ls_workers s)"
    and t: "ls_workers t = ls_workers s" "ls_config t = ls_config s" "sc_draining t = sc_draining s"
      "length (sc_queue t) \<le> length (sc_queue s)"
    and own: "\<And>R. owned s (llm_held_by (ls_workers s ! w) @ R) \<Longrightarrow> owned (t\<lparr>sc_now := now\<rparr>) (llm_held_by pc @ R)"
    and pool: "executor_pool_ok (sc_inflight t) ((map llm_running_on (ls_workers s))[w := llm_running_on pc])"
    and active: "ls_active_decodes t + (if holds_slot (ls_workers s ! w) then 1 else 0) =
        ls_active_decodes s + (if holds_slot pc then 1 else 0)"
    and pc: "pc = LExited \<Longrightarrow> sc_draining t \<and> sc_queue t = []" and fault: "sc_fault t = None"
  shows "llm_inv config ((set_llm_worker w (pc, t))\<lparr>sc_now := now\<rparr>)"
proof -
  let ?ws = "ls_workers s"
  let ?R = "concat (map llm_held_by (take w ?ws @ drop (Suc w) ?ws))"
  let ?t = "(set_llm_worker w (pc, t))\<lparr>sc_now := now\<rparr>"
  have ws: "ls_workers ?t = ?ws[w := pc]" by (simp add: set_llm_worker_def t)
  have "owned s (llm_held_by (?ws ! w) @ ?R)"
    using inv llm_held_update [OF w, of "?ws ! w"] by (auto simp: llm_inv_def llm_held_def elim: owned_perm)
  from own [OF this] have "owned (t\<lparr>sc_now := now\<rparr>) (llm_held ?t)"
    by (rule owned_perm) (use llm_held_update [OF w, of pc] ws in \<open>simp add: llm_held_def\<close>)
  then have "owned ?t (llm_held ?t)"
    by (rule owned_cong) (use fault in \<open>auto simp: set_llm_worker_def\<close>)
  moreover have "LExited \<in> set (?ws[w := pc]) \<Longrightarrow> sc_draining t \<and> sc_queue t = []"
  proof -
    assume "LExited \<in> set (?ws[w := pc])"
    then have "LExited = pc \<or> LExited \<in> set ?ws" using set_update_subset_insert by fastforce
    then show "sc_draining t \<and> sc_queue t = []" using pc inv t(3,4) by (auto simp: llm_inv_def)
  qed
  ultimately show ?thesis
    using inv pool fault t active slot_count_update [OF w, of pc] unfolding llm_inv_def
    by (auto simp: set_llm_worker_def map_update split: if_splits)
qed

lemma answers_llm:
  "answers A s t \<Longrightarrow> ls_workers t = ls_workers s \<and> ls_config t = ls_config s \<and>
     ls_active_decodes t = ls_active_decodes s"
  by (drule answers_frame(9)) (cases s; cases t; simp)

lemma releaseDecodeSlot_exact:
  assumes "0 < ls_active_decodes s" and "ls_active_decodes s < size_limit"
  shows "ls_active_decodes (releaseDecodeSlot s) = ls_active_decodes s - 1"
proof -
  have "ls_active_decodes s + (size_limit - 1) = (ls_active_decodes s - 1) + size_limit"
    using assms by simp
  then have "size_add (ls_active_decodes s) (size_limit - 1) = (ls_active_decodes s - 1) mod size_limit"
    by (simp only: size_add_def mod_add_self2)
  then show ?thesis using assms by (simp add: releaseDecodeSlot_def)
qed

lemma releaseDecodeSlot_frame [frame]:
  "sc_queue (releaseDecodeSlot s) = sc_queue s" "sc_pending (releaseDecodeSlot s) = sc_pending s"
  "sc_next (releaseDecodeSlot s) = sc_next s" "sc_now (releaseDecodeSlot s) = sc_now s"
  "sc_draining (releaseDecodeSlot s) = sc_draining s" "sc_inflight (releaseDecodeSlot s) = sc_inflight s"
  "sc_metrics (releaseDecodeSlot s) = sc_metrics s" "sc_fault (releaseDecodeSlot s) = sc_fault s"
  "ls_workers (releaseDecodeSlot s) = ls_workers s" "ls_config (releaseDecodeSlot s) = ls_config s"
  by (simp_all add: releaseDecodeSlot_def)

text \<open>A worker that answers its request \<open>x\<close> goes back to the queue.\<close>

lemma llm_answered:
  assumes inv: "llm_inv config s" and w: "w < length (ls_workers s)" and now: "sc_now s \<le> now"
    and held: "llm_held_by (ls_workers s ! w) = [x]"
    and u: "sc_queue u = sc_queue s" "sc_pending u = sc_pending s" "sc_next u = sc_next s" "sc_now u = sc_now s"
      "sc_draining u = sc_draining s" "sc_fault u = sc_fault s"
      "mt_requests_accepted (sc_metrics u) = mt_requests_accepted (sc_metrics s)"
      "ls_workers u = ls_workers s" "ls_config u = ls_config s"
    and pool: "executor_pool_ok (sc_inflight u) ((map llm_running_on (ls_workers s))[w := None])"
    and active: "ls_active_decodes u + (if holds_slot (ls_workers s ! w) then 1 else 0) = ls_active_decodes s"
    and ans: "answers {x} u t"
  shows "llm_inv config ((set_llm_worker w (LIdle, t))\<lparr>sc_now := now\<rparr>)"
proof (rule llm_move [OF inv w])
  note fr = answers_frame [OF ans] answers_llm [OF ans]
  have fault: "sc_fault s = None" using inv by (simp add: llm_inv_def)
  show "ls_workers t = ls_workers s" "ls_config t = ls_config s" "sc_draining t = sc_draining s"
    "length (sc_queue t) \<le> length (sc_queue s)" "sc_fault t = None"
    by (simp_all add: fr u fault)
  show "executor_pool_ok (sc_inflight t) ((map llm_running_on (ls_workers s))[w := llm_running_on LIdle])"
    using pool by (simp add: fr)
  show "ls_active_decodes t + (if holds_slot (ls_workers s ! w) then 1 else 0) =
      ls_active_decodes s + (if holds_slot LIdle then 1 else 0)"
    using active by (simp add: fr)
  fix R assume "owned s (llm_held_by (ls_workers s ! w) @ R)"
  then have "owned s ([x] @ R)" using held by simp
  then have own: "owned u ([x] @ R)"
    by (rule owned_cong) (use u fault in simp_all)
  have "owned (t\<lparr>sc_now := now\<rparr>) ([] @ R)"
    by (rule owned_let_go [OF own ans]) (use now u in simp_all)
  then show "owned (t\<lparr>sc_now := now\<rparr>) (llm_held_by LIdle @ R)" by simp
qed simp

text \<open>A worker that keeps its request and moves on.\<close>

lemma llm_kept:
  assumes inv: "llm_inv config s" and w: "w < length (ls_workers s)" and now: "sc_now s \<le> now"
    and held: "llm_held_by (ls_workers s ! w) = llm_held_by pc" and pc: "pc \<noteq> LExited"
    and u: "sc_queue u = sc_queue s" "sc_pending u = sc_pending s" "sc_next u = sc_next s" "sc_now u = sc_now s"
      "sc_draining u = sc_draining s" "sc_fault u = sc_fault s" "sc_metrics u = sc_metrics s"
      "ls_workers u = ls_workers s" "ls_config u = ls_config s"
    and pool: "executor_pool_ok (sc_inflight u) ((map llm_running_on (ls_workers s))[w := llm_running_on pc])"
    and active: "ls_active_decodes u + (if holds_slot (ls_workers s ! w) then 1 else 0) =
        ls_active_decodes s + (if holds_slot pc then 1 else 0)"
  shows "llm_inv config ((set_llm_worker w (pc, u))\<lparr>sc_now := now\<rparr>)"
proof (rule llm_move [OF inv w u(8,9,5) _ _ pool active])
  have fault: "sc_fault s = None" using inv by (simp add: llm_inv_def)
  show "length (sc_queue u) \<le> length (sc_queue s)" "sc_fault u = None" using u fault by simp_all
  fix R assume "owned s (llm_held_by (ls_workers s ! w) @ R)"
  then have "owned s (llm_held_by pc @ R)" using held by simp
  then show "owned (u\<lparr>sc_now := now\<rparr>) (llm_held_by pc @ R)"
    by (rule owned_cong) (use u fault now in simp_all)
qed (use pc in simp_all)

lemma llm_worker_facts:
  assumes inv: "llm_inv config s" and w: "w < length (ls_workers s)" and held: "llm_held_by (ls_workers s ! w) = [x]"
  shows "pr_promise (sc_pending s x) = None"
proof -
  have "x \<in> set (llm_held s)" unfolding llm_held_def using w held by (auto intro!: bexI [of _ "ls_workers s ! w"])
  with inv show ?thesis using owned_open by (auto simp: llm_inv_def)
qed

lemma answers_refused: "pr_promise (sc_pending s x) = None \<Longrightarrow> answers {x} s (llm_slot_refused x s)"
  unfolding llm_slot_refused_def
  by (rule answers_then [OF answers_timed_out answers_fulfillResult]) (simp add: count_metric_def)


text \<open>One lemma per program counter.\<close>

lemma llm_idle_step_inv:
  assumes inv: "llm_inv config s" and w: "w < length (ls_workers s)" and now: "sc_now s \<le> now"
    and pc: "ls_workers s ! w = LIdle" and st: "llm_worker_step infer strm tick w s = Some t"
  shows "llm_inv config (t\<lparr>sc_now := now\<rparr>)"
proof -
  have pool: "executor_pool_ok (sc_inflight s) ((map llm_running_on (ls_workers s))[w := None])"
    using inv pc w executor_pool_same [of "sc_inflight s" "map llm_running_on (ls_workers s)" w None]
    by (simp add: llm_inv_def)
  have fault: "sc_fault s = None" using inv by (simp add: llm_inv_def)
  show ?thesis
  proof (cases "sc_queue s")
    case Nil
    with st pc have d: "sc_draining s" and t: "t = set_llm_worker w (LExited, s)"
      by (auto simp: llm_worker_step_def popNextPending_def split: if_splits)
    show ?thesis unfolding t
    proof (rule llm_move [OF inv w refl refl refl])
      fix R assume "owned s (llm_held_by (ls_workers s ! w) @ R)"
      then have "owned s R" using pc by simp
      then show "owned (s\<lparr>sc_now := now\<rparr>) (llm_held_by LExited @ R)"
        by (simp, rule_tac owned_cong) (use now fault in simp_all)
    qed (use d Nil pool pc fault in simp_all)
  next
    case (Cons x rest)
    have t: "t = set_llm_worker w (LPopped x, s\<lparr>sc_queue := rest\<rparr>)"
      using st pc Cons by (auto simp: llm_worker_step_def popNextPending_def)
    show ?thesis unfolding t
    proof (rule llm_move [OF inv w])
      fix R assume "owned s (llm_held_by (ls_workers s ! w) @ R)"
      then have own: "owned s R" using pc by simp
      have "owned (s\<lparr>sc_queue := rest\<rparr>) ([x] @ R)"
        by (rule owned_take [OF own]) (use own Cons in \<open>auto simp: owned_def list_emb_Cons\<close>)
      then have "owned (s\<lparr>sc_queue := rest, sc_now := now\<rparr>) ([x] @ R)"
        by (rule owned_cong) (use now fault in simp_all)
      then show "owned (s\<lparr>sc_queue := rest\<rparr>\<lparr>sc_now := now\<rparr>) (llm_held_by (LPopped x) @ R)" by simp
    qed (use pool pc fault Cons in simp_all)
  qed
qed

lemma llm_popped_step_inv:
  assumes inv: "llm_inv config s" and w: "w < length (ls_workers s)" and now: "sc_now s \<le> now"
    and pc: "ls_workers s ! w = LPopped x" and st: "llm_worker_step infer strm tick w s = Some t"
  shows "llm_inv config (t\<lparr>sc_now := now\<rparr>)"
proof -
  have held: "llm_held_by (ls_workers s ! w) = [x]" using pc by simp
  have pool: "executor_pool_ok (sc_inflight s) ((map llm_running_on (ls_workers s))[w := None])"
    using inv pc w executor_pool_same [of "sc_inflight s" "map llm_running_on (ls_workers s)" w None]
    by (simp add: llm_inv_def)
  have t: "t = set_llm_worker w (llm_processSingle_begin (tick 0) x s)"
    using st pc by (simp add: llm_worker_step_def)
  note answered = llm_answered [OF inv w now held refl refl refl refl refl refl refl refl refl pool]
  consider "pr_cancelled (sc_pending s x)" "t = set_llm_worker w (LIdle, s)"
    | "t = set_llm_worker w (LIdle, fulfillExpiredRequest x s)"
    | "t = set_llm_worker w (LAcquiring x, s)"
    using t by (auto simp: llm_processSingle_begin_def split: if_splits)
  then show ?thesis
  proof cases
    case 1
    then show ?thesis using answered [OF _ answers_cancelled] pc by simp
  next
    case 2
    then show ?thesis
      using answered [OF _ answers_fulfillExpired] llm_worker_facts [OF inv w held] pc by simp
  next
    case 3
    show ?thesis unfolding 3 by (rule llm_kept [OF inv w now]) (use pc pool in simp_all)
  qed
qed

lemma llm_acquiring_step_inv:
  assumes inv: "llm_inv config s" and w: "w < length (ls_workers s)" and now: "sc_now s \<le> now"
    and slots: "lc_kv_cache_slots config < size_limit"
    and pc: "ls_workers s ! w = LAcquiring x" and st: "llm_worker_step infer strm tick w s = Some t"
  shows "llm_inv config (t\<lparr>sc_now := now\<rparr>)"
proof -
  have held: "llm_held_by (ls_workers s ! w) = [x]" using pc by simp
  have pool: "executor_pool_ok (sc_inflight s) ((map llm_running_on (ls_workers s))[w := None])"
    using inv pc w executor_pool_same [of "sc_inflight s" "map llm_running_on (ls_workers s)" w None]
    by (simp add: llm_inv_def)
  consider "t = set_llm_worker w (LIdle, llm_slot_refused x s)"
    | "ls_active_decodes s < lc_kv_cache_slots config"
      "t = set_llm_worker w (LAcquired x, s\<lparr>ls_active_decodes := size_add (ls_active_decodes s) 1\<rparr>)"
    using st pc inv
    by (auto simp: llm_worker_step_def acquireDecodeSlot_def Let_def llm_inv_def split: if_splits)
  then show ?thesis
  proof cases
    case 1
    then show ?thesis
      using llm_answered [OF inv w now held refl refl refl refl refl refl refl refl refl pool _ answers_refused]
        llm_worker_facts [OF inv w held] pc by simp
  next
    case 2
    then have "size_add (ls_active_decodes s) 1 = ls_active_decodes s + 1" using slots by (simp add: size_arith)
    then show ?thesis unfolding 2(2) by (intro llm_kept [OF inv w now]) (use pc pool in simp_all)
  qed
qed

lemma llm_slot_released:
  assumes inv: "llm_inv config s" and w: "w < length (ls_workers s)" and slots: "lc_kv_cache_slots config < size_limit"
    and held: "holds_slot (ls_workers s ! w)" and u: "ls_active_decodes u = ls_active_decodes s"
  shows "ls_active_decodes (releaseDecodeSlot u) + 1 = ls_active_decodes s"
proof -
  have "0 < ls_active_decodes s" "ls_active_decodes s < size_limit"
    using slot_held [OF w held] slot_count_le [of "ls_workers s"] inv slots by (auto simp: llm_inv_def)
  with u show ?thesis by (simp add: releaseDecodeSlot_exact)
qed

lemma answers_release_token: "answers {} (releaseDecodeSlot s) (releaseDecodeSlot (store_cancel_token x s))"
proof -
  obtain tk where tk: "store_cancel_token x s = s\<lparr>sc_tokens := tk\<rparr>" using store_cancel_token_shape by blast
  have "releaseDecodeSlot (s\<lparr>sc_tokens := tk\<rparr>) = (releaseDecodeSlot s)\<lparr>sc_tokens := tk\<rparr>"
    by (cases s) (simp add: releaseDecodeSlot_def)
  then show ?thesis by (simp add: tk answers_def)
qed

lemma llm_acquired_step_inv:
  assumes inv: "llm_inv config s" and w: "w < length (ls_workers s)" and now: "sc_now s \<le> now"
    and slots: "lc_kv_cache_slots config < size_limit"
    and pc: "ls_workers s ! w = LAcquired x" and st: "llm_worker_step infer strm tick w s = Some t"
  shows "llm_inv config (t\<lparr>sc_now := now\<rparr>)"
proof -
  have held: "llm_held_by (ls_workers s ! w) = [x]" and slot: "holds_slot (ls_workers s ! w)" using pc by simp_all
  have pool: "executor_pool_ok (sc_inflight s) ((map llm_running_on (ls_workers s))[w := None])"
    using inv pc w executor_pool_same [of "sc_inflight s" "map llm_running_on (ls_workers s)" w None]
    by (simp add: llm_inv_def)
  note unset = llm_worker_facts [OF inv w held]
  have t: "t = set_llm_worker w (llm_dispatch (tick 0) (tick 1) x s)"
    using st pc by (simp add: llm_worker_step_def)
  let ?r = "releaseDecodeSlot s" and ?q = "releaseDecodeSlot (store_cancel_token x s)"
  have q: "answers {} ?r ?q" by (rule answers_release_token)
  have rel: "ls_active_decodes ?r + 1 = ls_active_decodes s"
    by (rule llm_slot_released [OF inv w slots slot refl])
  have answered: "llm_inv config ((set_llm_worker w (LIdle, u))\<lparr>sc_now := now\<rparr>)" if "answers {x} ?r u" for u
    by (rule llm_answered [OF inv w now held, where u = ?r])
      (use that pool rel slot in \<open>simp_all add: frame\<close>)
  have run: "llm_inv config ((set_llm_worker w (LRunning e x (tick 1), s\<lparr>sc_inflight := infl\<rparr>))\<lparr>sc_now := now\<rparr>)"
    if "select (sc_inflight s) = (e, infl)" for e infl
    by (rule llm_kept [OF inv w now])
      (use that inv pc w executor_pool_select [of "sc_inflight s" "map llm_running_on (ls_workers s)" w e infl]
        in \<open>simp_all add: llm_inv_def\<close>)
  have timed: "answers {x} ?r (fulfillResult x makeTimeoutResult (count_metric mt_requests_timed_out_update ?q))"
    using unset answers_promise [OF q]
    by (intro answers_then [OF q] answers_then [OF answers_timed_out answers_fulfillResult])
      (simp add: count_metric_def frame)
  have drained: "answers {x} ?r (fulfillResult x makeDrainingResult ?r)"
    by (rule answers_fulfillResult) (simp add: frame unset)
  show ?thesis
    unfolding t llm_dispatch_def
    using answered [OF timed] answered [OF drained] run by (auto split: prod.split)
qed

lemma llm_finish_answers:
  assumes "pr_promise (sc_pending s x) = None"
  shows "answers {x} (releaseDecodeSlot (s\<lparr>sc_inflight := release e (sc_inflight s)\<rparr>))
     (llm_finish e x t0 run t1 s)"
proof -
  let ?s = "releaseDecodeSlot (s\<lparr>sc_inflight := release e (sc_inflight s)\<rparr>)"
  have unset: "pr_promise (sc_pending ?s x) = None" using assms by (simp add: frame)
  show ?thesis
    unfolding llm_finish_def Let_def
    by (cases run) (auto intro: answers_cancelled answers_fulfillExpired [OF unset]
        answers_then [OF answers_latencies answers_fulfillResult] simp: unset)
qed

lemma llm_running_step_inv:
  assumes inv: "llm_inv config s" and w: "w < length (ls_workers s)" and now: "sc_now s \<le> now"
    and slots: "lc_kv_cache_slots config < size_limit"
    and pc: "ls_workers s ! w = LRunning e x t0" and st: "llm_worker_step infer strm tick w s = Some t"
  shows "llm_inv config (t\<lparr>sc_now := now\<rparr>)"
proof -
  have held: "llm_held_by (ls_workers s ! w) = [x]" and slot: "holds_slot (ls_workers s ! w)" using pc by simp_all
  let ?run = "llm_runInference infer strm (pr_request (sc_pending s x)) (token_is_set x s)"
  let ?u = "releaseDecodeSlot (s\<lparr>sc_inflight := release e (sc_inflight s)\<rparr>)"
  have t: "t = set_llm_worker w (LIdle, llm_finish e x t0 ?run (tick 0) s)"
    using st pc by (simp add: llm_worker_step_def)
  have rel: "ls_active_decodes ?u + 1 = ls_active_decodes s"
    by (rule llm_slot_released [OF inv w slots slot]) simp
  have pool: "executor_pool_ok (sc_inflight ?u) ((map llm_running_on (ls_workers s))[w := None])"
    using inv pc w executor_pool_release [of "sc_inflight s" "map llm_running_on (ls_workers s)" w e]
    by (simp add: llm_inv_def frame)
  show ?thesis unfolding t
    by (rule llm_answered [OF inv w now held, where u = ?u])
      (use pool rel slot llm_finish_answers [OF llm_worker_facts [OF inv w held]] in \<open>simp_all add: frame\<close>)
qed

lemma llm_worker_step_inv:
  assumes inv: "llm_inv config s" and w: "w < length (ls_workers s)" and now: "sc_now s \<le> now"
    and slots: "lc_kv_cache_slots config < size_limit"
    and st: "llm_worker_step infer strm tick w s = Some t"
  shows "llm_inv config (t\<lparr>sc_now := now\<rparr>)"
proof (cases "ls_workers s ! w")
  case LExited
  with st show ?thesis by (simp add: llm_worker_step_def)
qed (use llm_idle_step_inv [OF inv w now _ st] llm_popped_step_inv [OF inv w now _ st]
    llm_acquiring_step_inv [OF inv w now slots _ st] llm_acquired_step_inv [OF inv w now slots _ st]
    llm_running_step_inv [OF inv w now slots _ st] in blast)+

section \<open>The other steps\<close>

lemma llm_frame_inv:
  assumes inv: "llm_inv config s"
    and t: "sc_queue t = sc_queue s" "sc_pending t = sc_pending s" "sc_next t = sc_next s" "sc_now s \<le> sc_now t"
      "sc_draining s \<Longrightarrow> sc_draining t" "sc_fault t = sc_fault s" "sc_inflight t = sc_inflight s"
      "mt_requests_accepted (sc_metrics t) = mt_requests_accepted (sc_metrics s)"
      "ls_workers t = ls_workers s" "ls_config t = ls_config s" "ls_active_decodes t = ls_active_decodes s"
  shows "llm_inv config t"
proof -
  have "owned t (llm_held s)" by (rule owned_cong [of s]) (use inv t in \<open>simp_all add: llm_inv_def\<close>)
  with inv t show ?thesis by (auto simp: llm_inv_def llm_held_def)
qed

lemma llm_submit_inv:
  assumes inv: "llm_inv config s" and st: "llm_submit countTokens e r s = (res, t)"
  shows "llm_inv config t"
proof -
  consider "t = s" | "t = count_metric mt_requests_memory_pressure_rejected_update s"
    | "submit_enqueue (lc_max_queue_size (ls_config s)) (lc_request_timeout_ms (ls_config s)) e r s = (res, t)"
    using st by (auto simp: llm_submit_def Let_def split: option.splits if_splits)
  then show ?thesis
  proof cases
    case 1
    with inv show ?thesis by simp
  next
    case 2
    then show ?thesis by (intro llm_frame_inv [OF inv]) (simp_all add: count_metric_def increment_def)
  next
    case 3
    then show ?thesis
    proof (cases rule: submit_enqueue_cases)
      case draining
      with inv show ?thesis by simp
    next
      case (full tk n)
      then show ?thesis by (intro llm_frame_inv [OF inv]) (simp_all add: increment_def)
    next
      case (accepted tk n p)
      have "owned t (llm_held s)"
        by (rule owned_enqueue [of s]) (use inv accepted in \<open>simp_all add: llm_inv_def increment_def\<close>)
      with inv accepted show ?thesis by (auto simp: llm_inv_def llm_held_def)
    qed
  qed
qed

lemma llm_cancel_inv:
  assumes inv: "llm_inv config s" and st: "submit_cancel x s = Some t"
  shows "llm_inv config t"
proof -
  obtain tk where t: "t = s\<lparr>sc_tokens := tk,
      sc_pending := (sc_pending s)(x := (sc_pending s x)\<lparr>pr_cancelled := True\<rparr>),
      sc_metrics := increment mt_requests_timed_out_update (sc_metrics s),
      sc_submitter := (sc_submitter s)(x := Returned makeTimeoutResult)\<rparr>"
    using st store_cancel_token_shape [of x s]
    by (auto simp: submit_cancel_def count_metric_def Let_def split: if_splits)
  have "owned t (llm_held s)"
    using inv by (auto simp: llm_inv_def owned_def t increment_def settled_def)
  then show ?thesis using inv by (auto simp: llm_inv_def llm_held_def t)
qed

lemma llm_joined_inv:
  assumes inv: "llm_inv config s" and st: "llm_beginDrain_joined s = Some t"
  shows "llm_inv config t"
proof -
  let ?s = "s\<lparr>ls_workers := []\<rparr>"
  have exited: "\<forall>w \<in> set (ls_workers s). w = LExited" and t: "t = rejectQueuedRequests ?s"
    using st by (auto simp: llm_beginDrain_joined_def split: if_splits)
  then have none: "llm_held s = []" "slot_count (ls_workers s) = 0"
    "count_list (map llm_running_on (ls_workers s)) (Some e) = 0" for e
    by (auto simp: llm_held_def slot_count_def count_list_0_iff)
  have own: "owned ?s []" by (rule owned_cong [of s]) (use inv none in \<open>auto simp: llm_inv_def\<close>)
  note ans = rejectQueued_answers [OF own]
  have t': "ls_workers t = []" "sc_queue t = []" "sc_inflight t = sc_inflight s" "sc_fault t = sc_fault s"
    "ls_config t = ls_config s" "ls_active_decodes t = ls_active_decodes s"
    unfolding t by (simp_all add: answers_frame [OF ans] answers_llm [OF ans])
  show ?thesis
    using rejectQueued_owned [OF own] inv none(2,3) t t'
    by (auto simp: llm_inv_def llm_held_def executor_pool_ok_def slot_count_def)
qed

lemma llm_step_inv:
  assumes inv: "llm_inv config s" and st: "llm_step countTokens s t" and slots: "lc_kv_cache_slots config < size_limit"
  shows "llm_inv config t"
  using st
proof cases
  case (llm_submits enqueued_at request r)
  with inv show ?thesis using llm_submit_inv by blast
next
  case (llm_worker w tick now infer strm u)
  have "sc_now s \<le> now" using llm_worker(5,6) order_trans by blast
  with llm_worker show ?thesis using llm_worker_step_inv [OF inv _ _ slots] by simp
next
  case (llm_cancel x)
  with inv show ?thesis using llm_cancel_inv by blast
next
  case (llm_joined)
  with inv show ?thesis using llm_joined_inv by blast
qed (intro llm_frame_inv [OF inv]; auto simp: core_stopAccepting_def llm_beginDrain_flag_def submit_ready_def
    submit_wait_timeout_def split: Submitter.splits option.splits if_splits)+

lemma llm_start_inv:
  assumes "llm_start now executors config s"
  shows "llm_inv config s"
  using assms
  by (auto simp: llm_start_def makeLlmScheduler_def new_core_def SchedulerCore.extend_def llm_inv_def
      owned_def llm_held_def executor_pool_ok_def slot_count_def count_list_0_iff zero_metrics_def split: if_splits)

text \<open>A slot count is a \<open>size_t\<close>, hence below \<open>2 ^ 64\<close>.\<close>

interpretation llm_scheduler: invariant_system "llm_start now executors config" "llm_step countTokens"
  "\<lambda>s. lc_kv_cache_slots config < size_limit \<longrightarrow> llm_inv config s"
  for now executors config countTokens
  by unfold_locales (auto intro: llm_start_inv llm_step_inv)

lemma llm_dispatch_draining [frame]:
  "sc_draining (snd (llm_processSingle_begin now x s)) = sc_draining s"
  "sc_draining (llm_slot_refused x s) = sc_draining s"
  "sc_draining (snd (llm_dispatch now t x s)) = sc_draining s"
  "sc_draining (llm_finish e x t0 run t1 s) = sc_draining s"
  by (auto simp: llm_processSingle_begin_def llm_slot_refused_def llm_dispatch_def llm_finish_def frame Let_def
      split: prod.split)

lemma llm_worker_step_draining:
  assumes "llm_worker_step infer strm tick w s = Some t"
  shows "sc_draining t = sc_draining s"
  using assms
  by (auto simp: llm_worker_step_def popNextPending_def acquireDecodeSlot_def set_llm_worker_def Let_def frame
      split: LlmWorker.splits option.splits if_splits)

lemma llm_submit_refused:
  assumes "sc_draining s"
  shows "\<exists>res. llm_submit countTokens e r s = (Inl res, s) \<and> \<not> sr_ok res"
  using assms by (auto simp: llm_submit_def Let_def core_isDraining_def makeInvalidArgumentResult_def split: option.split)

lemma llm_step_draining:
  assumes "sc_draining s" and "llm_step countTokens s t"
  shows "sc_draining t"
  using assms(2)
proof cases
  case (llm_submits enqueued_at request r)
  then show ?thesis using llm_submit_refused [OF assms(1), of countTokens enqueued_at request] assms(1) by auto
next
  case (llm_worker w tick now infer strm u)
  with llm_worker_step_draining [OF llm_worker(7)] assms(1) show ?thesis by simp
qed (use assms(1) in \<open>auto simp: submit_ready_def submit_wait_timeout_def submit_cancel_def core_stopAccepting_def
    llm_beginDrain_flag_def llm_beginDrain_joined_def frame Let_def split: if_splits Submitter.splits option.splits\<close>)

interpretation llm_drain: scheduler_interface sc_draining core_stopAccepting "llm_submit countTokens" "llm_step countTokens"
  for countTokens
  by unfold_locales (auto simp: core_stopAccepting_def llm_submit_refused intro: llm_step_draining)

end
