(* ===== verification/Llm_Scheduler_Props.thy ===== *)
theory Llm_Scheduler_Props
  imports Llm_Scheduler_Inv
begin

text \<open>
  The properties of \<open>Llm_Scheduler\<close> and of the tokenizers, with a short run that serves as witness.
\<close>

section \<open>A short run\<close>

definition chat_config :: LlmSchedulerConfig where
  "chat_config = \<lparr>lc_max_queue_size = 4, lc_request_timeout_ms = 1000, lc_instances = 1, lc_context_length = 100,
     lc_kv_cache_slots = 1, lc_max_tokens = 10, lc_tokens_per_char = 1 / 4, lc_memory_budget_bytes = 64\<rparr>"

definition chat_request :: ExecutionRequest where
  "chat_request = empty_request\<lparr>er_inputs := [\<lparr>it_name = ''prompt'', it_datatype = ''BYTES'', it_shape = [1],
     it_bytes = [], it_string_data = [''hello world'']\<rparr>]\<rparr>"

definition chat_start :: LlmScheduler where
  "chat_start = SchedulerCore.extend (new_core 0 1)
     \<lparr>ls_config = chat_config, ls_workers = [LIdle], ls_active_decodes = 0\<rparr>"

abbreviation chat_reach :: "LlmScheduler \<Rightarrow> bool" where
  "chat_reach \<equiv> reach (llm_start 0 1 chat_config) (llm_step WhitespaceTokenizer_countTokens)"

lemma chat_tokens: "WhitespaceTokenizer_countTokens (prompt_text chat_request) = 2"
  by (simp add: WhitespaceTokenizer_countTokens_def prompt_text_def findBytesPrompt_def chat_request_def
      empty_request_def isBytesDatatype_def is_separator_def)

lemma chat_valid: "validateLlmRequest chat_request chat_config 2 = None"
  by (simp add: validateLlmRequest_def findBytesPrompt_def chat_request_def empty_request_def isBytesDatatype_def
      chat_config_def effectiveMaxTokens_def size_add_def size_limit_def)

lemma chat_admitted:
  "\<exists>t. llm_submit WhitespaceTokenizer_countTokens 0 chat_request chat_start = (Inr 0, t) \<and> chat_reach t \<and>
     sc_fault t = None \<and> sc_now t = 0 \<and> ls_workers t = [LIdle] \<and> sc_queue t = [0] \<and> \<not> sc_draining t \<and>
     pr_deadline (sc_pending t 0) = 1000000000 \<and> pr_promise (sc_pending t 0) = None \<and>
     \<not> pr_cancelled (sc_pending t 0) \<and> ls_config t = chat_config \<and> ls_active_decodes t = 0"
proof -
  let ?r = "llm_submit WhitespaceTokenizer_countTokens 0 chat_request chat_start"
  have cfg: "ls_config chat_start = chat_config" by (simp add: chat_start_def SchedulerCore.extend_def)
  have eq: "?r = submit_enqueue 4 1000 0 chat_request chat_start"
    unfolding llm_submit_def chat_tokens cfg chat_valid Let_def
    by (simp add: chat_start_def SchedulerCore.extend_def new_core_def core_isDraining_def memory_pressure_def
        chat_config_def memory_per_token_bytes_def size_mul_def size_add_def size_limit_def)
  have "chat_reach chat_start"
    by (rule reach_start) (simp add: llm_start_def makeLlmScheduler_def chat_start_def chat_config_def)
  then have "chat_reach (snd ?r)"
    by (rule reach_step) (rule llm_submits, auto simp: prod_eq_iff chat_start_def SchedulerCore.extend_def new_core_def)
  then show ?thesis
    unfolding eq by (intro exI [of _ "snd (submit_enqueue 4 1000 0 chat_request chat_start)"])
      (simp add: submit_enqueue_def Let_def chat_start_def SchedulerCore.extend_def new_core_def chat_request_def
        empty_request_def count_metric_def)
qed

lemma llm_reach_worker:
  "reach S (llm_step c) s \<Longrightarrow> sc_fault s = None \<Longrightarrow> w < length (ls_workers s) \<Longrightarrow> mono tick \<Longrightarrow> sc_now s \<le> tick 0 \<Longrightarrow>
     (\<forall>k. tick k \<le> now) \<Longrightarrow> llm_worker_step infer strm tick w s = Some t \<Longrightarrow> reach S (llm_step c) (t\<lparr>sc_now := now\<rparr>)"
  by (erule reach_step) (rule llm_worker)

text \<open>The worker has taken the request and is about to ask for a decode slot.\<close>

lemma chat_acquiring:
  "\<exists>s. chat_reach s \<and> sc_fault s = None \<and> sc_now s = 0 \<and> ls_workers s = [LAcquiring 0] \<and> \<not> sc_draining s \<and>
     pr_deadline (sc_pending s 0) = 1000000000 \<and> pr_promise (sc_pending s 0) = None \<and>
     \<not> pr_cancelled (sc_pending s 0) \<and> ls_config s = chat_config \<and> ls_active_decodes s = 0"
proof -
  obtain s where s: "chat_reach s" "sc_fault s = None" "sc_now s = 0" "ls_workers s = [LIdle]" "sc_queue s = [0]"
    "\<not> sc_draining s" "pr_deadline (sc_pending s 0) = 1000000000" "pr_promise (sc_pending s 0) = None"
    "\<not> pr_cancelled (sc_pending s 0)" "ls_config s = chat_config" "ls_active_decodes s = 0"
    using chat_admitted by blast
  let ?s1 = "s\<lparr>sc_queue := [], ls_workers := [LPopped 0], sc_now := 0\<rparr>"
  have "llm_worker_step f g (\<lambda>_. 0) 0 s = Some (s\<lparr>sc_queue := [], ls_workers := [LPopped 0]\<rparr>)" for f g
    using s by (simp add: llm_worker_step_def popNextPending_def set_llm_worker_def)
  then have r1: "chat_reach ?s1" using llm_reach_worker [OF s(1,2), of 0 "\<lambda>_. 0" 0] s by (simp add: monoI)
  let ?s2 = "?s1\<lparr>ls_workers := [LAcquiring 0], sc_now := 0\<rparr>"
  have "llm_worker_step f g (\<lambda>_. 0) 0 ?s1 = Some (?s1\<lparr>ls_workers := [LAcquiring 0]\<rparr>)" for f g
    using s by (simp add: llm_worker_step_def llm_processSingle_begin_def set_llm_worker_def)
  then have "chat_reach ?s2" using llm_reach_worker [OF r1, of 0 "\<lambda>_. 0" 0] s by (simp add: monoI)
  with s show ?thesis by (intro exI [of _ ?s2]) simp
qed

section \<open>Properties\<close>

text \<open>
  (C12) Decode slots: in every reachable state the number of active decodes is the number of workers
  holding a slot and never exceeds \<open>kv_cache_slots\<close>; no promise is ever set twice.
\<close>

theorem decode_slots_bounded:
  assumes "reach (llm_start now n config) (llm_step countTokens) s" and "lc_kv_cache_slots config < size_limit"
  shows "ls_active_decodes s = slot_count (ls_workers s) \<and> ls_active_decodes s \<le> lc_kv_cache_slots config \<and>
     sc_fault s = None"
  using llm_scheduler.reach_inv [OF assms(1)] assms(2) slot_count_le [of "ls_workers s"] by (auto simp: llm_inv_def)

theorem decode_slots_bounded_witness:
  "\<exists>s. reach (llm_start 0 1 chat_config) (llm_step WhitespaceTokenizer_countTokens) s \<and> ls_active_decodes s \<le> 1"
proof -
  obtain s where s: "chat_reach s" using chat_acquiring by blast
  have "lc_kv_cache_slots chat_config < size_limit" by (simp add: chat_config_def size_limit_def)
  from decode_slots_bounded [OF s this] s show ?thesis by (auto simp: chat_config_def)
qed

text \<open>
  There are as many workers as slots, so a worker that asks for a slot while the scheduler is not
  draining always gets one at once: it never waits and never times out there.
\<close>

theorem decode_slot_always_free:
  assumes "reach (llm_start now n config) (llm_step countTokens) s" and "lc_kv_cache_slots config < size_limit"
    and "LAcquiring x \<in> set (ls_workers s)" and "\<not> sc_draining s"
  shows "\<exists>t. acquireDecodeSlot clock deadline s = Some (True, t)"
proof -
  have inv: "llm_inv config s" using llm_scheduler.reach_inv [OF assms(1)] assms(2) by simp
  obtain w where w: "w < length (ls_workers s)" "ls_workers s ! w = LAcquiring x"
    using assms(3) by (auto simp: in_set_conv_nth)
  then have "slot_count (ls_workers s) < length (ls_workers s)" by (intro slot_free [OF w(1)]) simp
  with inv have "ls_active_decodes s < lc_kv_cache_slots (ls_config s)" by (auto simp: llm_inv_def)
  with assms(4) show ?thesis by (simp add: acquireDecodeSlot_def)
qed

theorem decode_slot_always_free_witness:
  "\<exists>s t. reach (llm_start 0 1 chat_config) (llm_step WhitespaceTokenizer_countTokens) s \<and>
     acquireDecodeSlot 5 9 s = Some (True, t)"
proof -
  obtain s where s: "chat_reach s" "ls_workers s = [LAcquiring 0]" "\<not> sc_draining s" using chat_acquiring by blast
  have "lc_kv_cache_slots chat_config < size_limit" by (simp add: chat_config_def size_limit_def)
  from decode_slot_always_free [OF s(1) this, of 0 5 9] s show ?thesis by auto
qed

text \<open>
  (C34) The generation scheduler loses no request either: each admitted request is queued, held by exactly
  one worker, or settled; the queue keeps within its bound and in admission order.
\<close>

theorem llm_no_request_lost:
  assumes "reach (llm_start now n config) (llm_step countTokens) s" and "lc_kv_cache_slots config < size_limit"
  shows "distinct (sc_queue s @ llm_held s) \<and>
     (\<forall>x < sc_next s. x \<in> set (sc_queue s) \<or> x \<in> set (llm_held s) \<or> settled s x) \<and>
     length (sc_queue s) \<le> lc_max_queue_size config \<and> sorted_wrt (<) (sc_queue s)"
  using llm_scheduler.reach_inv [OF assms(1)] assms(2) by (auto simp: llm_inv_def owned_def)

theorem llm_no_request_lost_witness:
  "\<exists>s. reach (llm_start 0 1 chat_config) (llm_step WhitespaceTokenizer_countTokens) s \<and>
     length (sc_queue s) \<le> 4 \<and> llm_held s = [0]"
proof -
  obtain s where s: "chat_reach s" "ls_workers s = [LAcquiring 0]" using chat_acquiring by blast
  have "lc_kv_cache_slots chat_config < size_limit" by (simp add: chat_config_def size_limit_def)
  from llm_no_request_lost [OF s(1) this] s show ?thesis
    by (intro exI [of _ s]) (simp add: chat_config_def llm_held_def)
qed



text \<open>
  Whitespace counting is word counting: a separator splits the count, a text without separators
  counts as one word, and the empty text as none.
\<close>

theorem whitespace_counts_words:
  "WhitespaceTokenizer_countTokens [] = 0 \<and>
   (is_separator c \<longrightarrow> WhitespaceTokenizer_countTokens (xs @ c # ys) =
      WhitespaceTokenizer_countTokens xs + WhitespaceTokenizer_countTokens ys) \<and>
   (ys \<noteq> [] \<and> (\<forall>d \<in> set ys. \<not> is_separator d) \<longrightarrow> WhitespaceTokenizer_countTokens ys = 1)"
proof -
  have eq: "WhitespaceTokenizer_countTokens zs = whitespace_count 0 False zs" for zs
    by (simp add: WhitespaceTokenizer_countTokens_def)
  show ?thesis
    unfolding eq using whitespace_count_shift [of "whitespace_count 0 False xs" False ys]
    by (auto simp: whitespace_count_append whitespace_count_word)
qed

theorem whitespace_counts_words_witness:
  "WhitespaceTokenizer_countTokens ''ab c'' =
     WhitespaceTokenizer_countTokens ''ab'' + WhitespaceTokenizer_countTokens ''c'' \<and>
   WhitespaceTokenizer_countTokens ''c'' = 1"
  using whitespace_counts_words [of "CHR '' ''" "''ab''" "''c''"] by (simp add: is_separator_def)

text \<open>
  A stopped generation scheduler refuses every later \<open>submit\<close> and leaves its state alone.
\<close>

theorem stopped_llm_scheduler_refuses:
  assumes "reach (\<lambda>u. u = core_stopAccepting s) (llm_step countTokens) t"
  shows "\<exists>res. llm_submit countTokens e r t = (Inl res, t) \<and> \<not> sr_ok res"
  using assms by (rule llm_drain.refused_forever)

theorem stopped_llm_scheduler_refuses_witness:
  "\<exists>res. llm_submit WhitespaceTokenizer_countTokens 5 chat_request (core_stopAccepting chat_start) =
     (Inl res, core_stopAccepting chat_start) \<and> \<not> sr_ok res"
  by (rule stopped_llm_scheduler_refuses) (rule reach_start, rule refl)

text \<open>
  Draining is reported as a timeout: a request already taken by a worker when the scheduler starts to
  drain is answered \<open>DEADLINE_EXCEEDED\<close> and counted as timed out, although its deadline is far away.
\<close>

theorem draining_reported_as_timeout:
  "\<exists>s. reach (llm_start 0 1 chat_config) (llm_step WhitespaceTokenizer_countTokens) s \<and> sc_draining s \<and>
     sc_now s < pr_deadline (sc_pending s 0) \<and> pr_promise (sc_pending s 0) = Some makeTimeoutResult"
proof -
  obtain s where s: "chat_reach s" "sc_fault s = None" "sc_now s = 0" "ls_workers s = [LAcquiring 0]"
    "pr_deadline (sc_pending s 0) = 1000000000" "pr_promise (sc_pending s 0) = None" "\<not> pr_cancelled (sc_pending s 0)"
    using chat_acquiring by blast
  let ?s1 = "core_stopAccepting s"
  have r1: "chat_reach ?s1" by (rule reach_step [OF s(1) llm_stop [OF s(2)]])
  let ?s2 = "(set_llm_worker 0 (LIdle, llm_slot_refused 0 ?s1))\<lparr>sc_now := 0\<rparr>"
  have "llm_worker_step f g (\<lambda>_. 0) 0 ?s1 = Some (set_llm_worker 0 (LIdle, llm_slot_refused 0 ?s1))" for f g
    using s by (simp add: llm_worker_step_def acquireDecodeSlot_def core_stopAccepting_def)
  then have "chat_reach ?s2"
    using llm_reach_worker [OF r1, of 0 "\<lambda>_. 0" 0] s by (simp add: monoI core_stopAccepting_def)
  with s show ?thesis
    by (intro exI [of _ ?s2]) (simp add: set_llm_worker_def llm_slot_refused_def fulfillResult_def set_value_def
        count_metric_def core_stopAccepting_def)
qed

end
