(* ===== verification/Runtime_Config.thy ===== *)
theory Runtime_Config
  imports Prelude
begin

text \<open>
  \<open>RuntimeConfig.hpp\<close> and \<open>RuntimeConfig.cpp\<close>: the configuration record, environment defaults, the
  command line and the final checks. An \<open>std::invalid_argument\<close> or \<open>std::out_of_range\<close> is \<open>Inl\<close> with
  its message. The number conversions of the standard library are written out; \<open>stod\<close>, whose result
  depends on the rounding of the platform, is an argument, as are the environment and the file system.
\<close>

section \<open>RuntimeConfig.hpp\<close>

record RuntimeConfig =
  rc_host :: string
  rc_port :: int
  rc_grpc_port :: int
  rc_max_request_bytes :: size_t
  rc_model_name :: string
  rc_model_version :: string
  rc_model_version_explicit :: bool
  rc_model_path :: string
  rc_model_repository :: string
  rc_model_control_mode :: string
  rc_backend :: string
  rc_use_gpu :: bool
  rc_plugin_dir :: string
  rc_input_sizes :: "int64_t list list"
  rc_pipeline_graph :: string
  rc_storage_uri :: string
  rc_deployment :: string
  rc_max_queue_size :: size_t
  rc_request_timeout_ms :: int64_t
  rc_instances :: size_t
  rc_dynamic_batching_enabled :: bool
  rc_max_batch_size :: size_t
  rc_max_queue_delay_us :: int64_t
  rc_preferred_batch_sizes :: "size_t list"
  rc_log_payloads :: bool
  rc_scheduler_strategy :: string
  rc_context_length :: size_t
  rc_kv_cache_slots :: size_t
  rc_max_tokens :: size_t
  rc_tokens_per_char :: double
  rc_temperature :: double
  rc_top_p :: double
  rc_top_k :: size_t
  rc_streaming_enabled :: bool
  rc_memory_budget_bytes :: size_t

definition default_config :: RuntimeConfig where
  "default_config = \<lparr>rc_host = ''0.0.0.0'', rc_port = 8080, rc_grpc_port = 0,
     rc_max_request_bytes = 67108864, rc_model_name = ''demo'', rc_model_version = ''1'',
     rc_model_version_explicit = False, rc_model_path = [], rc_model_repository = [],
     rc_model_control_mode = ''none'', rc_backend = ''stub'', rc_use_gpu = False, rc_plugin_dir = [],
     rc_input_sizes = [], rc_pipeline_graph = [], rc_storage_uri = [], rc_deployment = [],
     rc_max_queue_size = 64, rc_request_timeout_ms = 30000, rc_instances = 1,
     rc_dynamic_batching_enabled = False, rc_max_batch_size = 1, rc_max_queue_delay_us = 0,
     rc_preferred_batch_sizes = [], rc_log_payloads = False, rc_scheduler_strategy = ''tensor'',
     rc_context_length = 4096, rc_kv_cache_slots = 1, rc_max_tokens = 256, rc_tokens_per_char = 1 / 4,
     rc_temperature = 4 / 5, rc_top_p = 19 / 20, rc_top_k = 40, rc_streaming_enabled = False,
     rc_memory_budget_bytes = 0\<rparr>"

record RuntimeEnvironment =
  env_get :: "string \<Rightarrow> string option"
  env_pathExists :: "string \<Rightarrow> bool"

section \<open>Numbers of the standard library\<close>

definition is_space :: "char \<Rightarrow> bool" where
  "is_space c \<longleftrightarrow> c \<in> {CHR '' '', CHR 0x09, CHR 0x0A, CHR 0x0B, CHR 0x0C, CHR 0x0D}"

definition is_digit :: "char \<Rightarrow> bool" where
  "is_digit c \<longleftrightarrow> 48 \<le> (of_char c :: nat) \<and> (of_char c :: nat) \<le> 57"

definition digits_value :: "string \<Rightarrow> nat" where
  "digits_value ds = foldl (\<lambda>n c. 10 * n + (of_char c - 48)) 0 ds"

text \<open>
  The longest numeric prefix, as \<open>strtol\<close> and its relatives read it: white space, an optional sign,
  decimal digits. \<open>None\<close> when there are no digits; anything after the digits is ignored.
\<close>

definition numeric_prefix :: "string \<Rightarrow> (bool \<times> nat) option" where
  "numeric_prefix s =
     (let t = dropWhile is_space s;
          (negative, u) = (case t of
             c # rest \<Rightarrow> if c = CHR ''-'' then (True, rest) else if c = CHR ''+'' then (False, rest) else (False, t)
           | [] \<Rightarrow> (False, []));
          digits = takeWhile is_digit u
      in if digits = [] then None else Some (negative, digits_value digits))"

definition stoull :: "string \<Rightarrow> string + size_t" where
  "stoull s =
     (case numeric_prefix s of
        None \<Rightarrow> Inl ''stoull''
      | Some (negative, n) \<Rightarrow>
          if n \<ge> 2 ^ 64 then Inl ''stoull''
          else Inr (if negative then (2 ^ 64 - n) mod 2 ^ 64 else n))"

definition signed_of :: "string \<Rightarrow> nat \<Rightarrow> string \<Rightarrow> string + int" where
  "signed_of name bits s =
     (case numeric_prefix s of
        None \<Rightarrow> Inl name
      | Some (negative, n) \<Rightarrow>
          let v = (if negative then - int n else int n)
          in if v < - (2 ^ (bits - 1)) \<or> v \<ge> 2 ^ (bits - 1) then Inl name else Inr v)"

definition stoll :: "string \<Rightarrow> string + int64_t" where
  "stoll s = signed_of ''stoll'' 64 s"

definition stoi :: "string \<Rightarrow> string + int" where
  "stoi s = signed_of ''stoi'' 32 s"

section \<open>Helpers of RuntimeConfig.cpp\<close>

text \<open>Continue with the value, or stop with the exception.\<close>

definition and_then :: "string + 'a \<Rightarrow> ('a \<Rightarrow> string + 'b) \<Rightarrow> string + 'b" where
  "and_then r f = (case r of Inl e \<Rightarrow> Inl e | Inr v \<Rightarrow> f v)"

fun normalizeArguments :: "string list \<Rightarrow> string list" where
  "normalizeArguments [] = []"
| "normalizeArguments (arg # args) =
     (case find_char (CHR ''='') arg of
        Some equals \<Rightarrow>
          if startsWith arg ''--'' \<and> equals > 2
          then take equals arg # drop (equals + 1) arg # normalizeArguments args
          else arg # normalizeArguments args
      | None \<Rightarrow> arg # normalizeArguments args)"

definition parseBoolFlag :: "string \<Rightarrow> string \<Rightarrow> string + bool" where
  "parseBoolFlag value flag =
     (if value = ''true'' \<or> value = ''1'' then Inr True
      else if value = ''false'' \<or> value = ''0'' then Inr False
      else Inl (flag @ '' must be true or false''))"

definition parseSchedulerStrategy :: "string \<Rightarrow> string + unit" where
  "parseSchedulerStrategy value =
     (if value \<noteq> ''tensor'' \<and> value \<noteq> ''llm'' then Inl ''scheduler-strategy must be tensor or llm'' else Inr ())"

definition parseTemperature :: "(string \<Rightarrow> string + double) \<Rightarrow> string \<Rightarrow> string + double" where
  "parseTemperature stod value =
     and_then (stod value) (\<lambda>parsed.
       if parsed < 0 then Inl ''temperature must be greater than or equal to 0'' else Inr parsed)"

definition parseTopP :: "(string \<Rightarrow> string + double) \<Rightarrow> string \<Rightarrow> string + double" where
  "parseTopP stod value =
     and_then (stod value) (\<lambda>parsed.
       if parsed \<le> 0 \<or> parsed > 1 then Inl ''top-p must be in (0, 1]'' else Inr parsed)"

definition parsePositiveSize :: "string \<Rightarrow> string \<Rightarrow> string + size_t" where
  "parsePositiveSize value flag =
     and_then (stoull value) (\<lambda>parsed.
       if parsed = 0 then Inl (flag @ '' must be greater than 0'') else Inr parsed)"

definition parseNonNegativeSize :: "string \<Rightarrow> string \<Rightarrow> string + size_t" where
  "parseNonNegativeSize value flag = stoull value"

text \<open>The tokens \<open>std::getline\<close> reads up to each separator; no token after a final separator.\<close>

fun getline_tokens :: "char \<Rightarrow> string \<Rightarrow> string \<Rightarrow> string list" where
  "getline_tokens sep acc [] = (if acc = [] then [] else [acc])"
| "getline_tokens sep acc (c # cs) =
     (if c = sep then acc # getline_tokens sep [] cs else getline_tokens sep (acc @ [c]) cs)"

fun parse_sizes :: "string list \<Rightarrow> string + size_t list" where
  "parse_sizes [] = Inr []"
| "parse_sizes (token # tokens) =
     (if token = [] then Inl ''preferred batch sizes must not contain empty entries''
      else and_then (stoull token) (\<lambda>parsed.
        if parsed = 0 then Inl ''preferred batch sizes must be greater than 0''
        else and_then (parse_sizes tokens) (\<lambda>sizes. Inr (parsed # sizes))))"

definition parsePreferredBatchSizes :: "string \<Rightarrow> string + size_t list" where
  "parsePreferredBatchSizes value =
     (if value = [] then Inr []
      else and_then (parse_sizes (getline_tokens (CHR '','') [] value)) (\<lambda>sizes. Inr (remdups_adj (sort sizes))))"

definition parseTokensPerChar :: "(string \<Rightarrow> string + double) \<Rightarrow> string \<Rightarrow> string + double" where
  "parseTokensPerChar stod value =
     and_then (stod value) (\<lambda>parsed.
       if parsed \<le> 0 \<or> parsed > 1 then Inl ''tokens-per-char must be in (0, 1]'' else Inr parsed)"

section \<open>parseRuntimeConfig\<close>

text \<open>The configuration with the flags that record which options the command line gave.\<close>

record ParseState =
  ps_config :: RuntimeConfig
  ps_model_name_explicit :: bool
  ps_model_path_explicit :: bool
  ps_backend_explicit :: bool
  ps_model_version_cli :: bool

definition env_string :: "RuntimeEnvironment \<Rightarrow> string \<Rightarrow> string \<Rightarrow> string" where
  "env_string env name target =
     (case env_get env name of Some v \<Rightarrow> if v = [] then target else v | None \<Rightarrow> target)"

definition applySizeEnvironmentDefault :: "RuntimeEnvironment \<Rightarrow> string \<Rightarrow> size_t \<Rightarrow> string + size_t" where
  "applySizeEnvironmentDefault env name target =
     (case env_get env name of Some v \<Rightarrow> if v = [] then Inr target else stoull v | None \<Rightarrow> Inr target)"

definition applyDoubleEnvironmentDefault ::
  "(string \<Rightarrow> string + double) \<Rightarrow> RuntimeEnvironment \<Rightarrow> string \<Rightarrow> double \<Rightarrow> string + double" where
  "applyDoubleEnvironmentDefault stod env name target =
     (case env_get env name of Some v \<Rightarrow> if v = [] then Inr target else stod v | None \<Rightarrow> Inr target)"

definition apply_environment ::
  "(string \<Rightarrow> string + double) \<Rightarrow> RuntimeEnvironment \<Rightarrow> RuntimeConfig \<Rightarrow> string + RuntimeConfig" where
  "apply_environment stod env c0 =
     (let c1 = c0\<lparr>rc_model_name := env_string env ''MODEL_NAME'' (rc_model_name c0)\<rparr>;
          c2 = (case env_get env ''MODEL_VERSION'' of
                  Some v \<Rightarrow> if v = [] then c1
                            else c1\<lparr>rc_model_version := v, rc_model_version_explicit := True\<rparr>
                | None \<Rightarrow> c1);
          c3 = c2\<lparr>rc_model_path := env_string env ''MODEL_PATH'' (rc_model_path c2),
                  rc_model_repository := env_string env ''MODEL_REPOSITORY'' (rc_model_repository c2),
                  rc_model_control_mode := env_string env ''MODEL_CONTROL_MODE'' (rc_model_control_mode c2),
                  rc_backend := env_string env ''BACKEND'' (rc_backend c2),
                  rc_plugin_dir := env_string env ''NEURIPLO_PLUGIN_DIR'' (rc_plugin_dir c2),
                  rc_storage_uri := env_string env ''STORAGE_URI'' (rc_storage_uri c2),
                  rc_deployment := env_string env ''DEPLOYMENT'' (rc_deployment c2)\<rparr>
      in and_then (applySizeEnvironmentDefault env ''MAX_REQUEST_BYTES'' (rc_max_request_bytes c3)) (\<lambda>bytes.
         and_then (applyDoubleEnvironmentDefault stod env ''TOKENS_PER_CHAR'' (rc_tokens_per_char c3)) (\<lambda>ratio.
           let c4 = c3\<lparr>rc_max_request_bytes := bytes, rc_tokens_per_char := ratio\<rparr>
           in Inr (if rc_model_path c4 = [] \<and> rc_model_repository c4 = [] \<and> env_pathExists env ''/mnt/models''
                   then c4\<lparr>rc_model_path := ''/mnt/models''\<rparr> else c4))))"

definition on_config ::
  "ParseState \<Rightarrow> string + 'a \<Rightarrow> ('a \<Rightarrow> RuntimeConfig \<Rightarrow> RuntimeConfig) \<Rightarrow> string + ParseState" where
  "on_config ps r upd = and_then r (\<lambda>v. Inr (ps\<lparr>ps_config := upd v (ps_config ps)\<rparr>))"

text \<open>
  The options, one entry per branch of the argument loop: the option and what it does with its value.
  \<open>--help\<close> and \<open>-h\<close> take no value and end in the usage message.
\<close>

definition option_table ::
  "(string \<Rightarrow> string + double) \<Rightarrow> (string \<times> (string \<Rightarrow> ParseState \<Rightarrow> string + ParseState)) list" where
  "option_table stod =
     [(''--host'', \<lambda>v ps. on_config ps (Inr v) (\<lambda>v c. c\<lparr>rc_host := v\<rparr>)),
      (''--port'', \<lambda>v ps. on_config ps (stoi v) (\<lambda>n c. c\<lparr>rc_port := n\<rparr>)),
      (''--grpc-port'', \<lambda>v ps. on_config ps (stoi v) (\<lambda>n c. c\<lparr>rc_grpc_port := n\<rparr>)),
      (''--max-request-bytes'', \<lambda>v ps. on_config ps (stoull v) (\<lambda>n c. c\<lparr>rc_max_request_bytes := n\<rparr>)),
      (''--model-name'', \<lambda>v ps. on_config (ps\<lparr>ps_model_name_explicit := True\<rparr>) (Inr v)
         (\<lambda>v c. c\<lparr>rc_model_name := v\<rparr>)),
      (''--model-version'', \<lambda>v ps. on_config (ps\<lparr>ps_model_version_cli := True\<rparr>) (Inr v)
         (\<lambda>v c. c\<lparr>rc_model_version := v, rc_model_version_explicit := True\<rparr>)),
      (''--model-path'', \<lambda>v ps. on_config (ps\<lparr>ps_model_path_explicit := True\<rparr>) (Inr v)
         (\<lambda>v c. c\<lparr>rc_model_path := v\<rparr>)),
      (''--model-repository'', \<lambda>v ps. on_config ps (Inr v) (\<lambda>v c. c\<lparr>rc_model_repository := v\<rparr>)),
      (''--models'', \<lambda>v ps. on_config ps (Inr v) (\<lambda>v c. c\<lparr>rc_model_repository := v\<rparr>)),
      (''--model-control-mode'', \<lambda>v ps. on_config ps (Inr v) (\<lambda>v c. c\<lparr>rc_model_control_mode := v\<rparr>)),
      (''--backend'', \<lambda>v ps. on_config (ps\<lparr>ps_backend_explicit := True\<rparr>) (Inr v)
         (\<lambda>v c. c\<lparr>rc_backend := v\<rparr>)),
      (''--plugin-dir'', \<lambda>v ps. on_config ps (Inr v) (\<lambda>v c. c\<lparr>rc_plugin_dir := v\<rparr>)),
      (''--deployment'', \<lambda>v ps. on_config ps (Inr v) (\<lambda>v c. c\<lparr>rc_deployment := v\<rparr>)),
      (''--max-queue-size'', \<lambda>v ps. on_config ps (stoull v) (\<lambda>n c. c\<lparr>rc_max_queue_size := n\<rparr>)),
      (''--request-timeout-ms'', \<lambda>v ps. on_config ps (stoll v) (\<lambda>n c. c\<lparr>rc_request_timeout_ms := n\<rparr>)),
      (''--instances'', \<lambda>v ps. on_config ps (stoull v) (\<lambda>n c. c\<lparr>rc_instances := n\<rparr>)),
      (''--dynamic-batching-enabled'', \<lambda>v ps. on_config ps (parseBoolFlag v ''--dynamic-batching-enabled'')
         (\<lambda>b c. c\<lparr>rc_dynamic_batching_enabled := b\<rparr>)),
      (''--max-batch-size'', \<lambda>v ps. on_config ps (stoull v) (\<lambda>n c. c\<lparr>rc_max_batch_size := n\<rparr>)),
      (''--max-queue-delay-us'', \<lambda>v ps. on_config ps (stoll v) (\<lambda>n c. c\<lparr>rc_max_queue_delay_us := n\<rparr>)),
      (''--preferred-batch-sizes'', \<lambda>v ps. on_config ps (parsePreferredBatchSizes v)
         (\<lambda>ns c. c\<lparr>rc_preferred_batch_sizes := ns\<rparr>)),
      (''--use-gpu'', \<lambda>v ps. on_config ps (parseBoolFlag v ''--use-gpu'') (\<lambda>b c. c\<lparr>rc_use_gpu := b\<rparr>)),
      (''--log-payloads'', \<lambda>v ps. on_config ps (parseBoolFlag v ''--log-payloads'')
         (\<lambda>b c. c\<lparr>rc_log_payloads := b\<rparr>)),
      (''--scheduler-strategy'', \<lambda>v ps. on_config ps (parseSchedulerStrategy v)
         (\<lambda>_ c. c\<lparr>rc_scheduler_strategy := v\<rparr>)),
      (''--context-length'', \<lambda>v ps. on_config ps (parsePositiveSize v ''context-length'')
         (\<lambda>n c. c\<lparr>rc_context_length := n\<rparr>)),
      (''--kv-cache-slots'', \<lambda>v ps. on_config ps (parsePositiveSize v ''kv-cache-slots'')
         (\<lambda>n c. c\<lparr>rc_kv_cache_slots := n\<rparr>)),
      (''--max-tokens'', \<lambda>v ps. on_config ps (parsePositiveSize v ''max-tokens'') (\<lambda>n c. c\<lparr>rc_max_tokens := n\<rparr>)),
      (''--temperature'', \<lambda>v ps. on_config ps (parseTemperature stod v) (\<lambda>d c. c\<lparr>rc_temperature := d\<rparr>)),
      (''--top-p'', \<lambda>v ps. on_config ps (parseTopP stod v) (\<lambda>d c. c\<lparr>rc_top_p := d\<rparr>)),
      (''--top-k'', \<lambda>v ps. on_config ps (parseNonNegativeSize v ''top-k'') (\<lambda>n c. c\<lparr>rc_top_k := n\<rparr>)),
      (''--streaming-enabled'', \<lambda>v ps. on_config ps (parseBoolFlag v ''--streaming-enabled'')
         (\<lambda>b c. c\<lparr>rc_streaming_enabled := b\<rparr>)),
      (''--memory-budget-bytes'', \<lambda>v ps. on_config ps (stoull v) (\<lambda>n c. c\<lparr>rc_memory_budget_bytes := n\<rparr>)),
      (''--tokens-per-char'', \<lambda>v ps. on_config ps (parseTokensPerChar stod v)
         (\<lambda>d c. c\<lparr>rc_tokens_per_char := d\<rparr>))]"

definition usage_message :: string where
  "usage_message = ''usage: neuriplo-kserve-runtime [--host 0.0.0.0] [--port 8080] [--grpc-port 9000] [--max-request-bytes 67108864] [--model-name demo] [--model-version 1] [--model-path path] [--models path | --model-repository path] [--model-control-mode none] [--backend stub] [--use-gpu false] [--plugin-dir path] [--deployment stable] [--max-queue-size 64] [--request-timeout-ms 30000] [--instances 1] [--dynamic-batching-enabled false] [--max-batch-size 1] [--max-queue-delay-us 0] [--preferred-batch-sizes 2,4,8] [--log-payloads false] [--scheduler-strategy tensor] [--context-length 4096] [--kv-cache-slots 1] [--max-tokens 256] [--temperature 0.8] [--top-p 0.95] [--top-k 40] [--streaming-enabled false] [--tokens-per-char 0.25] [--memory-budget-bytes 0]''"

fun parse_arguments ::
  "(string \<Rightarrow> string + double) \<Rightarrow> string list \<Rightarrow> ParseState \<Rightarrow> string + ParseState" where
  "parse_arguments stod [] ps = Inr ps"
| "parse_arguments stod (arg # args) ps =
     (case map_of (option_table stod) arg of
        Some action \<Rightarrow>
          (case args of
             [] \<Rightarrow> Inl (''missing value for '' @ arg)
           | v # rest \<Rightarrow> and_then (action v ps) (parse_arguments stod rest))
      | None \<Rightarrow>
          if arg = ''--help'' \<or> arg = ''-h'' then Inl usage_message
          else Inl (''unknown argument: '' @ arg))"

fun join_comma :: "string list \<Rightarrow> string" where
  "join_comma [] = []"
| "join_comma [s] = s"
| "join_comma (s # ss) = s @ '', '' @ join_comma ss"

definition conflicting_flags :: "ParseState \<Rightarrow> string list" where
  "conflicting_flags ps =
     (if ps_model_name_explicit ps then [''--model-name''] else []) @
     (if ps_model_path_explicit ps then [''--model-path''] else []) @
     (if ps_backend_explicit ps then [''--backend''] else []) @
     (if ps_model_version_cli ps then [''--model-version''] else [])"

definition quoted :: "string \<Rightarrow> string" where
  "quoted s = [CHR 0x27] @ s @ [CHR 0x27]"

text \<open>The checks after the loop, in order; the first that fails is the exception.\<close>

definition config_error :: "ParseState \<Rightarrow> string option" where
  "config_error ps =
     (let c = ps_config ps in
      if rc_port c \<le> 0 \<or> rc_port c > 65535 then Some ''port must be in range 1..65535''
      else if rc_grpc_port c < 0 \<or> rc_grpc_port c > 65535 then Some ''gRPC port must be in range 0..65535''
      else if rc_model_name c = [] then Some ''model name must not be empty''
      else if rc_model_control_mode c \<noteq> ''none'' \<and> rc_model_control_mode c \<noteq> ''explicit''
        then Some (''model control mode must be '' @ quoted ''none'' @ '' or '' @ quoted ''explicit'' @ '', got: '' @ rc_model_control_mode c)
      else if rc_model_control_mode c = ''explicit'' \<and> rc_model_repository c = []
        then Some ''explicit model control mode requires --models/--model-repository''
      else if rc_model_repository c \<noteq> [] \<and> conflicting_flags ps \<noteq> []
        then Some (join_comma (conflicting_flags ps) @ '' cannot be combined with --models/--model-repository (MODEL_REPOSITORY): the repository tree supplies these per model'')
      else if rc_max_request_bytes c = 0 \<or> rc_max_request_bytes c > 2 ^ 63 - 1
        then Some ''max request bytes must be greater than 0''
      else if rc_max_queue_size c = 0 then Some ''max queue size must be greater than 0''
      else if rc_request_timeout_ms c \<le> 0 then Some ''request timeout must be greater than 0''
      else if rc_instances c = 0 then Some ''instances must be greater than 0''
      else if rc_max_batch_size c = 0 then Some ''max batch size must be greater than 0''
      else if rc_max_queue_delay_us c < 0 then Some ''max queue delay must be greater than or equal to 0''
      else if rc_dynamic_batching_enabled c \<and> rc_max_batch_size c < 2
        then Some ''max batch size must be at least 2 when dynamic batching is enabled''
      else (case parseSchedulerStrategy (rc_scheduler_strategy c) of Inl e \<Rightarrow> Some e | Inr _ \<Rightarrow> None))"

text \<open>\<open>argv\<close> with the program name first.\<close>

definition parseRuntimeConfig ::
  "(string \<Rightarrow> string + double) \<Rightarrow> string list \<Rightarrow> RuntimeEnvironment \<Rightarrow> string + RuntimeConfig" where
  "parseRuntimeConfig stod argv env =
     and_then (apply_environment stod env default_config) (\<lambda>c.
     and_then (parse_arguments stod (drop 1 (normalizeArguments argv))
                 \<lparr>ps_config = c, ps_model_name_explicit = False, ps_model_path_explicit = False,
                  ps_backend_explicit = False, ps_model_version_cli = False\<rparr>) (\<lambda>ps.
       case config_error ps of Some e \<Rightarrow> Inl e | None \<Rightarrow> Inr (ps_config ps)))"


section \<open>Lemmas\<close>

lemma and_then_Inr: "and_then r f = Inr y \<longleftrightarrow> (\<exists>v. r = Inr v \<and> f v = Inr y)"
  by (cases r) (auto simp: and_then_def)

lemma on_config_Inr:
  "on_config ps r upd = Inr ps' \<longleftrightarrow> (\<exists>v. r = Inr v \<and> ps' = ps\<lparr>ps_config := upd v (ps_config ps)\<rparr>)"
  by (auto simp: on_config_def and_then_Inr)

lemmas parse_results = on_config_Inr and_then_Inr

lemma stoull_bounded: "stoull s = Inr n \<Longrightarrow> n < 2 ^ 64"
  by (auto simp: stoull_def split: option.splits if_splits prod.splits)

lemma signed_of_bounded:
  "signed_of name bits s = Inr v \<Longrightarrow> - (2 ^ (bits - 1)) \<le> v \<and> v < 2 ^ (bits - 1)"
  by (auto simp: signed_of_def Let_def split: option.splits if_splits prod.splits)

lemma parse_sizes_positive: "parse_sizes ts = Inr ns \<Longrightarrow> 0 \<notin> set ns"
  by (induction ts arbitrary: ns) (auto simp: parse_results split: if_splits)

lemma distinct_remdups_adj_sorted: "sorted (xs :: nat list) \<Longrightarrow> distinct (remdups_adj xs)"
  by (induction xs rule: remdups_adj.induct) (auto simp: le_less)

lemma preferred_sizes_normal:
  assumes "parsePreferredBatchSizes s = Inr ns"
  shows "sorted ns" "distinct ns" "0 \<notin> set ns"
  using assms parse_sizes_positive
  by (auto simp: parsePreferredBatchSizes_def parse_results distinct_remdups_adj_sorted split: if_splits)

subsection \<open>What every option keeps\<close>

text \<open>
  The ranges an option enforces when it is read, which the final checks do not look at again. They hold
  of the defaults; the environment touches none of these fields.
\<close>

definition options_ok :: "RuntimeConfig \<Rightarrow> bool" where
  "options_ok c \<longleftrightarrow> rc_context_length c > 0 \<and> rc_kv_cache_slots c > 0 \<and> rc_max_tokens c > 0 \<and>
     rc_temperature c \<ge> 0 \<and> 0 < rc_top_p c \<and> rc_top_p c \<le> 1 \<and>
     sorted (rc_preferred_batch_sizes c) \<and> distinct (rc_preferred_batch_sizes c) \<and>
     0 \<notin> set (rc_preferred_batch_sizes c)"

text \<open>The fields a model repository supplies keep the values of the environment unless an option set them.\<close>

definition explicit_ok :: "RuntimeConfig \<Rightarrow> ParseState \<Rightarrow> bool" where
  "explicit_ok c0 ps \<longleftrightarrow>
     (\<not> ps_model_name_explicit ps \<longrightarrow> rc_model_name (ps_config ps) = rc_model_name c0) \<and>
     (\<not> ps_model_path_explicit ps \<longrightarrow> rc_model_path (ps_config ps) = rc_model_path c0) \<and>
     (\<not> ps_backend_explicit ps \<longrightarrow> rc_backend (ps_config ps) = rc_backend c0) \<and>
     (\<not> ps_model_version_cli ps \<longrightarrow> rc_model_version (ps_config ps) = rc_model_version c0)"

lemma option_in_table:
  "map_of (option_table stod) arg = Some action \<Longrightarrow> (arg, action) \<in> set (option_table stod)"
  by (rule map_of_SomeD)

lemma option_keeps_ranges:
  assumes "map_of (option_table stod) arg = Some action" "action v ps = Inr ps'" "options_ok (ps_config ps)"
  shows "options_ok (ps_config ps')"
  using option_in_table [OF assms(1)] assms(2,3)
  unfolding option_table_def list.set insert_iff empty_iff prod.inject
  by (elim disjE conjE)
    (auto simp: options_ok_def parse_results preferred_sizes_normal parsePositiveSize_def parseTemperature_def
       parseTopP_def split: if_splits)

lemma explicit_ok_config:
  assumes "explicit_ok c0 ps"
    and "rc_model_name c = rc_model_name (ps_config ps) \<or> ps_model_name_explicit ps"
    and "rc_model_path c = rc_model_path (ps_config ps) \<or> ps_model_path_explicit ps"
    and "rc_backend c = rc_backend (ps_config ps) \<or> ps_backend_explicit ps"
    and "rc_model_version c = rc_model_version (ps_config ps) \<or> ps_model_version_cli ps"
  shows "explicit_ok c0 (ps\<lparr>ps_config := c\<rparr>)"
  using assms by (auto simp: explicit_ok_def)

lemma explicit_ok_flag:
  assumes "explicit_ok c0 ps"
  shows "explicit_ok c0 (ps\<lparr>ps_model_name_explicit := True\<rparr>)"
    "explicit_ok c0 (ps\<lparr>ps_model_path_explicit := True\<rparr>)"
    "explicit_ok c0 (ps\<lparr>ps_backend_explicit := True\<rparr>)"
    "explicit_ok c0 (ps\<lparr>ps_model_version_cli := True\<rparr>)"
  using assms by (auto simp: explicit_ok_def)

lemma option_keeps_explicit:
  assumes "map_of (option_table stod) arg = Some action" "action v ps = Inr ps'" "explicit_ok c0 ps"
  shows "explicit_ok c0 ps'"
  using option_in_table [OF assms(1)] assms(2,3)
  unfolding option_table_def list.set insert_iff empty_iff prod.inject
  by (elim disjE conjE) (auto simp: parse_results intro!: explicit_ok_config explicit_ok_flag)

lemma parse_arguments_keeps:
  assumes step: "\<And>arg action v ps ps'. map_of (option_table stod) arg = Some action \<Longrightarrow> action v ps = Inr ps' \<Longrightarrow> P ps \<Longrightarrow> P ps'"
  shows "parse_arguments stod args ps = Inr ps' \<Longrightarrow> P ps \<Longrightarrow> P ps'"
proof (induction args arbitrary: ps rule: length_induct)
  case (1 args)
  show ?case
  proof (cases args)
    case Nil
    then show ?thesis using 1(2,3) by simp
  next
    case (Cons arg rest)
    with 1(2) obtain action v rest' ps1 where "map_of (option_table stod) arg = Some action"
      "rest = v # rest'" "action v ps = Inr ps1" "parse_arguments stod rest' ps1 = Inr ps'"
      by (auto simp: parse_results split: option.splits if_splits list.splits)
    with 1 step Cons show ?thesis by (metis length_Cons less_Suc_eq)
  qed
qed

lemma parse_arguments_ranges:
  "parse_arguments stod args ps = Inr ps' \<Longrightarrow> options_ok (ps_config ps) \<Longrightarrow> options_ok (ps_config ps')"
  by (rule parse_arguments_keeps [where P = "\<lambda>ps. options_ok (ps_config ps)"]) (rule option_keeps_ranges)

text \<open>The token ratio: in range, or still the value \<open>d\<close> it had before the options.\<close>

definition ratio_ok :: "RuntimeConfig \<Rightarrow> bool" where
  "ratio_ok c \<longleftrightarrow> 0 < rc_tokens_per_char c \<and> rc_tokens_per_char c \<le> 1"

lemma option_keeps_ratio:
  assumes "map_of (option_table stod) arg = Some action" "action v ps = Inr ps'"
    "ratio_ok (ps_config ps) \<or> rc_tokens_per_char (ps_config ps) = d"
  shows "ratio_ok (ps_config ps') \<or> rc_tokens_per_char (ps_config ps') = d"
  using option_in_table [OF assms(1)] assms(2,3)
  unfolding option_table_def list.set insert_iff empty_iff prod.inject
  by (elim disjE conjE) (auto simp: ratio_ok_def parse_results parseTokensPerChar_def split: if_splits)

lemma parse_arguments_ratio:
  "parse_arguments stod args ps = Inr ps' \<Longrightarrow> rc_tokens_per_char (ps_config ps) = d \<Longrightarrow>
     ratio_ok (ps_config ps') \<or> rc_tokens_per_char (ps_config ps') = d"
  by (erule parse_arguments_keeps [where P = "\<lambda>ps. ratio_ok (ps_config ps) \<or> rc_tokens_per_char (ps_config ps) = d", rotated])
    (simp, blast dest: option_keeps_ratio)

lemma parse_arguments_explicit:
  "parse_arguments stod args ps = Inr ps' \<Longrightarrow> explicit_ok c0 ps \<Longrightarrow> explicit_ok c0 ps'"
  by (rule parse_arguments_keeps [where P = "explicit_ok c0"]) (rule option_keeps_explicit)

lemma options_ok_update:
  "options_ok (c\<lparr>rc_model_name := s\<rparr>) = options_ok c"
  "options_ok (c\<lparr>rc_model_version := s\<rparr>) = options_ok c"
  "options_ok (c\<lparr>rc_model_version_explicit := b\<rparr>) = options_ok c"
  "options_ok (c\<lparr>rc_model_path := s\<rparr>) = options_ok c"
  "options_ok (c\<lparr>rc_model_repository := s\<rparr>) = options_ok c"
  "options_ok (c\<lparr>rc_model_control_mode := s\<rparr>) = options_ok c"
  "options_ok (c\<lparr>rc_backend := s\<rparr>) = options_ok c"
  "options_ok (c\<lparr>rc_plugin_dir := s\<rparr>) = options_ok c"
  "options_ok (c\<lparr>rc_storage_uri := s\<rparr>) = options_ok c"
  "options_ok (c\<lparr>rc_deployment := s\<rparr>) = options_ok c"
  "options_ok (c\<lparr>rc_max_request_bytes := n\<rparr>) = options_ok c"
  "options_ok (c\<lparr>rc_tokens_per_char := d\<rparr>) = options_ok c"
  by (simp_all add: options_ok_def)

lemma apply_environment_keeps:
  assumes "apply_environment stod env c = Inr c'" "options_ok c"
  shows "options_ok c'"
  using assms by (auto simp: apply_environment_def parse_results Let_def options_ok_update split: option.split if_split)

lemma apply_environment_ratio:
  assumes "apply_environment stod env c = Inr c'"
  shows "rc_tokens_per_char c' = rc_tokens_per_char c \<or>
     (\<exists>v. env_get env ''TOKENS_PER_CHAR'' = Some v \<and> v \<noteq> [] \<and> stod v = Inr (rc_tokens_per_char c'))"
proof -
  have same: "rc_tokens_per_char (case env_get env ''MODEL_VERSION'' of
      Some v \<Rightarrow> if v = [] then c1 else c1\<lparr>rc_model_version := v, rc_model_version_explicit := True\<rparr> | None \<Rightarrow> c1) =
      rc_tokens_per_char c1" for c1 :: RuntimeConfig
    by (simp split: option.split)
  have "applyDoubleEnvironmentDefault stod env ''TOKENS_PER_CHAR'' (rc_tokens_per_char c) = Inr (rc_tokens_per_char c')"
    using assms by (simp add: apply_environment_def and_then_Inr Let_def same) (elim exE conjE, drule sym, simp)
  then show ?thesis by (simp add: applyDoubleEnvironmentDefault_def split: option.splits if_splits)
qed

lemma default_options_ok: "options_ok default_config"
  by (simp add: options_ok_def default_config_def)

lemma parseRuntimeConfig_Inr:
  assumes "parseRuntimeConfig stod argv env = Inr c"
  obtains c0 ps where "apply_environment stod env default_config = Inr c0"
    "parse_arguments stod (drop 1 (normalizeArguments argv))
       \<lparr>ps_config = c0, ps_model_name_explicit = False, ps_model_path_explicit = False,
        ps_backend_explicit = False, ps_model_version_cli = False\<rparr> = Inr ps"
    "config_error ps = None" "c = ps_config ps"
  using assms by (auto simp: parseRuntimeConfig_def parse_results split: option.splits)

lemma normalizeArguments_append: "normalizeArguments (xs @ ys) = normalizeArguments xs @ normalizeArguments ys"
  by (induction xs) (simp_all del: find_char_None split: option.split)

lemma find_char_append:
  "c \<notin> set xs \<Longrightarrow> find_char c (xs @ c # ys) = Some (length xs)"
  by (induction xs) auto

lemma normalize_plain:
  "\<not> startsWith v ''--'' \<Longrightarrow> normalizeArguments (v # args) = v # normalizeArguments args"
  by (simp del: find_char_None split: option.split)

lemma normalize_no_equals:
  "CHR ''='' \<notin> set v \<Longrightarrow> normalizeArguments (v # args) = v # normalizeArguments args"
  using find_char_None [of "CHR ''=''" v] by (simp del: find_char_None)

lemma normalize_equals:
  assumes "startsWith flag ''--''" "length flag > 2" "CHR ''='' \<notin> set flag"
  shows "normalizeArguments ((flag @ CHR ''='' # v) # args) = flag # v # normalizeArguments args"
proof -
  have "startsWith (flag @ CHR ''='' # v) ''--''"
    using assms(1) by (auto simp: startsWith_iff)
  then show ?thesis using assms(2,3) by (simp add: find_char_append)
qed

section \<open>Properties\<close>

text \<open>What the rest of the program may assume of a configuration that came out of the parser.\<close>

definition config_valid :: "RuntimeConfig \<Rightarrow> bool" where
  "config_valid c \<longleftrightarrow> options_ok c \<and>
     1 \<le> rc_port c \<and> rc_port c \<le> 65535 \<and> 0 \<le> rc_grpc_port c \<and> rc_grpc_port c \<le> 65535 \<and>
     rc_model_name c \<noteq> [] \<and> rc_model_control_mode c \<in> {''none'', ''explicit''} \<and>
     (rc_model_control_mode c = ''explicit'' \<longrightarrow> rc_model_repository c \<noteq> []) \<and>
     0 < rc_max_request_bytes c \<and> rc_max_request_bytes c < 2 ^ 63 \<and>
     0 < rc_max_queue_size c \<and> 0 < rc_request_timeout_ms c \<and> 0 < rc_instances c \<and>
     0 < rc_max_batch_size c \<and> 0 \<le> rc_max_queue_delay_us c \<and>
     (rc_dynamic_batching_enabled c \<longrightarrow> 2 \<le> rc_max_batch_size c) \<and>
     rc_scheduler_strategy c \<in> {''tensor'', ''llm''}"

lemma config_error_None:
  "config_error ps = None \<Longrightarrow> options_ok (ps_config ps) \<Longrightarrow> config_valid (ps_config ps)"
  by (simp add: config_error_def config_valid_def parseSchedulerStrategy_def Let_def not_less not_le split: if_splits)

lemma config_error_conflict:
  "config_error ps = None \<Longrightarrow> rc_model_repository (ps_config ps) \<noteq> [] \<Longrightarrow> conflicting_flags ps = []"
  by (simp add: config_error_def Let_def split: if_splits)

lemma conflicting_flags_Nil:
  "conflicting_flags ps = [] \<longleftrightarrow> \<not> ps_model_name_explicit ps \<and> \<not> ps_model_path_explicit ps \<and>
     \<not> ps_backend_explicit ps \<and> \<not> ps_model_version_cli ps"
  by (auto simp: conflicting_flags_def)


definition demo_environment :: "(string \<times> string) list \<Rightarrow> RuntimeEnvironment" where
  "demo_environment vars = \<lparr>env_get = map_of vars, env_pathExists = (\<lambda>_. False)\<rparr>"

lemma lookup_options:
  "map_of (option_table stod) ''--port'' = Some (\<lambda>v ps. on_config ps (stoi v) (\<lambda>n c. c\<lparr>rc_port := n\<rparr>))"
  "map_of (option_table stod) ''--preferred-batch-sizes'' =
     Some (\<lambda>v ps. on_config ps (parsePreferredBatchSizes v) (\<lambda>ns c. c\<lparr>rc_preferred_batch_sizes := ns\<rparr>))"
  "map_of (option_table stod) ''--models'' = Some (\<lambda>v ps. on_config ps (Inr v) (\<lambda>v c. c\<lparr>rc_model_repository := v\<rparr>))"
  "map_of (option_table stod) ''--instances'' = Some (\<lambda>v ps. on_config ps (stoull v) (\<lambda>n c. c\<lparr>rc_instances := n\<rparr>))"
  by (simp_all add: option_table_def)

lemma read_numbers:
  "stoi ''9000'' = Inr 9000" "stoull ''2'' = Inr 2" "stoull ''8'' = Inr 8" "stoull ''-1'' = Inr (2 ^ 64 - 1)"
  by (simp_all add: stoi_def stoull_def signed_of_def numeric_prefix_def is_space_def is_digit_def digits_value_def)

lemmas run_parser = parseRuntimeConfig_def apply_environment_def env_string_def applySizeEnvironmentDefault_def
  applyDoubleEnvironmentDefault_def and_then_def on_config_def lookup_options read_numbers startsWith_def
  parsePreferredBatchSizes_def config_error_def conflicting_flags_def parseSchedulerStrategy_def

lemma demo_command_line:
  "parseRuntimeConfig (\<lambda>_. Inr 1) [''server'', ''--port=9000'', ''--preferred-batch-sizes'', ''8,2,8'']
     (demo_environment [(''MODEL_NAME'', ''resnet'')]) =
   Inr (default_config\<lparr>rc_model_name := ''resnet'', rc_port := 9000, rc_preferred_batch_sizes := [2, 8]\<rparr>)"
  by (simp add: run_parser demo_environment_def default_config_def)


text \<open>
  A model repository and the single-model options exclude each other: when the parser returns a
  configuration with a repository, then name, path, backend and version are those of the environment,
  so no option of the command line was silently dropped.
\<close>

theorem repository_excludes_model_flags:
  assumes "parseRuntimeConfig stod argv env = Inr c" "rc_model_repository c \<noteq> []"
    and "apply_environment stod env default_config = Inr c0"
  shows "rc_model_name c = rc_model_name c0 \<and> rc_model_path c = rc_model_path c0 \<and>
    rc_backend c = rc_backend c0 \<and> rc_model_version c = rc_model_version c0"
proof -
  from assms(1) obtain c1 ps where c1: "apply_environment stod env default_config = Inr c1"
    and parsed: "parse_arguments stod (drop 1 (normalizeArguments argv))
       \<lparr>ps_config = c1, ps_model_name_explicit = False, ps_model_path_explicit = False,
        ps_backend_explicit = False, ps_model_version_cli = False\<rparr> = Inr ps"
    and "config_error ps = None" and c: "c = ps_config ps"
    by (rule parseRuntimeConfig_Inr)
  with assms(2) have "conflicting_flags ps = []" by (simp add: config_error_conflict)
  moreover have "c1 = c0" using c1 assms(3) by simp
  then have "explicit_ok c0 \<lparr>ps_config = c1, ps_model_name_explicit = False, ps_model_path_explicit = False,
        ps_backend_explicit = False, ps_model_version_cli = False\<rparr>" by (simp add: explicit_ok_def)
  then have "explicit_ok c0 ps"
    by (rule parse_arguments_explicit [OF parsed])
  ultimately show ?thesis by (simp add: conflicting_flags_Nil explicit_ok_def c)
qed

theorem repository_excludes_model_flags_witness:
  "rc_model_name (default_config\<lparr>rc_model_repository := ''/models''\<rparr>) = ''demo''"
  using repository_excludes_model_flags [of "\<lambda>_. Inr 1" "[''server'', ''--models'', ''/models'']"
      "demo_environment []" "default_config\<lparr>rc_model_repository := ''/models''\<rparr>" default_config]
  by (simp add: run_parser demo_environment_def default_config_def)

text \<open>
  \<open>--flag=value\<close> means what \<open>--flag value\<close> means, anywhere on the command line, as long as the
  value is not itself written with leading dashes.
\<close>

theorem equals_form_equivalent:
  assumes "startsWith flag ''--''" "length flag > 2" "CHR ''='' \<notin> set flag" "\<not> startsWith v ''--''"
  shows "parseRuntimeConfig stod (xs @ (flag @ ''='' @ v) # ys) env = parseRuntimeConfig stod (xs @ flag # v # ys) env"
proof -
  have "normalizeArguments ((flag @ ''='' @ v) # ys) = flag # v # normalizeArguments ys"
    using normalize_equals [OF assms(1-3)] by simp
  moreover have "normalizeArguments (flag # v # ys) = flag # v # normalizeArguments ys"
    by (simp only: normalize_no_equals [OF assms(3)] normalize_plain [OF assms(4)])
  ultimately show ?thesis by (simp add: parseRuntimeConfig_def normalizeArguments_append)
qed

theorem equals_form_equivalent_witness:
  "parseRuntimeConfig (\<lambda>_. Inr 1) [''server'', ''--port=80''] (demo_environment []) =
   parseRuntimeConfig (\<lambda>_. Inr 1) [''server'', ''--port'', ''80''] (demo_environment [])"
  using equals_form_equivalent [of "''--port''" "''80''" "\<lambda>_. Inr 1" "[''server'']" "[]" "demo_environment []"]
  by (simp add: startsWith_def)

text \<open>
  A negative count passes the positivity checks: \<open>std::stoull\<close> reads a leading minus sign and
  wraps, so \<open>--instances=-1\<close> asks for \<open>2 ^ 64 - 1\<close> instances instead of being refused.
\<close>

theorem negative_instances_accepted:
  "parseRuntimeConfig stod [''server'', ''--instances=-1''] (demo_environment []) =
     Inr (default_config\<lparr>rc_instances := 2 ^ 64 - 1\<rparr>)"
  by (simp add: run_parser demo_environment_def default_config_def)

end
