(* ===== verification/Executors.thy ===== *)
theory Executors
  imports Tensors Runtime_Config
begin

text \<open>
  The executors a scheduler runs: \<open>StubExecutor.cpp\<close> and \<open>NeuriploExecutor.cpp\<close> with the default of
  \<open>NeuriploAdapterDefault.cpp\<close>. The neuriplo library behind \<open>NeuriploAdapter\<close> is an argument: a record
  of its three calls, each of which may return or throw.

  A cancel token is read where the source reads it: \<open>cancelled\<close> says that the request has a token
  and the token is set.
\<close>

section \<open>Calls that may throw, executors and factories\<close>

datatype 'a Call = Returns 'a | Throws string | ThrowsOther

text \<open>
  An executor: its metadata and its two inference calls. \<open>ex_inferStreaming\<close> also gives the pieces of
  text it passes to the callback.
\<close>

record Executor =
  ex_metadata :: ModelMetadata
  ex_infer :: "bool \<Rightarrow> ExecutionRequest \<Rightarrow> ExecutionResponse Call"
  ex_inferStreaming :: "bool \<Rightarrow> ExecutionRequest \<Rightarrow> StreamingTokenCallback option \<Rightarrow> ExecutionResponse Call \<times> string list"

text \<open>
  What a factory call does: an executor, a null pointer, or an exception. The string is the value it
  leaves in the \<open>error\<close> reference, whose value before the call is its last argument.
\<close>

datatype FactoryOutcome = Built Executor string | NoExecutor string | FactoryThrows string | FactoryThrowsOther

datatype BackendKind = TensorKind | LlmKind

text \<open>\<open>backendKind\<close> of the registry is the first argument.\<close>

definition usesLlmScheduler :: "(string \<Rightarrow> BackendKind) \<Rightarrow> string \<Rightarrow> string \<Rightarrow> bool" where
  "usesLlmScheduler kind_of scheduler_strategy backend_id \<longleftrightarrow>
     (if scheduler_strategy = ''llm'' then True
      else if scheduler_strategy \<noteq> ''tensor'' then False
      else kind_of backend_id = LlmKind)"

section \<open>StubExecutor.cpp\<close>

record StubExecutor =
  st_metadata :: ModelMetadata
  st_llm_mode :: bool
  st_default_max_tokens :: size_t

definition failure :: "string \<Rightarrow> string \<Rightarrow> ExecutionResponse" where
  "failure code message = empty_response\<lparr>rs_ok := False, rs_error_code := code, rs_error_message := message\<rparr>"

definition cancelled_response :: ExecutionResponse where
  "cancelled_response = failure ''DEADLINE_EXCEEDED'' ''request cancelled before inference''"

definition findOutput :: "StubExecutor \<Rightarrow> string \<Rightarrow> TensorMetadata option" where
  "findOutput e name = find_first (\<lambda>t. tm_name t = name) (mm_outputs (st_metadata e))"

text \<open>
  \<open>makeOutput\<close>. A byte vector holds at most \<open>2 ^ 63 - 1\<close> elements; \<open>assign\<close> of more throws.
\<close>

definition makeOutput :: "TensorMetadata \<Rightarrow> int64_t \<Rightarrow> OutputTensor Call" where
  "makeOutput metadata batch_size =
     (let shape = (case tm_shape metadata of [] \<Rightarrow> [] | _ # dims \<Rightarrow> batch_size # dims);
          element_count = foldl (\<lambda>n d. size_mul n (size_of_int64 d)) 1 shape;
          length = size_mul element_count (tensorElementSize (tm_datatype metadata))
      in if length \<ge> 2 ^ 63 then Throws ''cannot create std::vector larger than max_size()''
         else Returns \<lparr>ot_name = tm_name metadata, ot_datatype = tm_datatype metadata, ot_shape = shape,
                ot_bytes = replicate length 0, ot_string_data = []\<rparr>)"

definition stub_output_names :: "StubExecutor \<Rightarrow> ExecutionRequest \<Rightarrow> string list" where
  "stub_output_names e request =
     (if er_requested_outputs request = [] then map tm_name (mm_outputs (st_metadata e))
      else er_requested_outputs request)"

fun stub_outputs :: "StubExecutor \<Rightarrow> int64_t \<Rightarrow> string list \<Rightarrow> OutputTensor list Call" where
  "stub_outputs e batch_size [] = Returns []"
| "stub_outputs e batch_size (name # names) =
     (case findOutput e name of
        None \<Rightarrow> stub_outputs e batch_size names
      | Some metadata \<Rightarrow>
          (case makeOutput metadata batch_size of
             Returns output \<Rightarrow>
               (case stub_outputs e batch_size names of
                  Returns outputs \<Rightarrow> Returns (output # outputs)
                | Throws m \<Rightarrow> Throws m | ThrowsOther \<Rightarrow> ThrowsOther)
           | Throws m \<Rightarrow> Throws m | ThrowsOther \<Rightarrow> ThrowsOther))"

definition inferLlm :: "StubExecutor \<Rightarrow> ExecutionRequest \<Rightarrow> ExecutionResponse" where
  "inferLlm e request =
     (case find_first (\<lambda>t. isBytesDatatype (it_datatype t)) (er_inputs request) of
        None \<Rightarrow> failure ''INVALID_ARGUMENT'' ''LLM request requires a BYTES prompt input''
      | Some prompt \<Rightarrow>
          (case it_string_data prompt of
             [] \<Rightarrow> failure ''INVALID_ARGUMENT'' ''LLM request requires a BYTES prompt input''
           | prompt_text # _ \<Rightarrow>
               (let max_tokens = (case er_llm_params request of
                                    Some params \<Rightarrow> (case lp_max_tokens params of Some n \<Rightarrow> n | None \<Rightarrow> st_default_max_tokens e)
                                  | None \<Rightarrow> st_default_max_tokens e);
                    append_chars = min max_tokens (length prompt_text);
                    generated = ''stub: '' @ take append_chars prompt_text;
                    metadata_of = List.map_filter (findOutput e) (stub_output_names e request)
                in empty_response\<lparr>
                     rs_outputs := map (\<lambda>t. \<lparr>ot_name = tm_name t, ot_datatype = tm_datatype t, ot_shape = tm_shape t,
                       ot_bytes = [], ot_string_data = [generated]\<rparr>) metadata_of,
                     rs_llm_metadata := Some \<lparr>lm_prompt_tokens = max 1 (length prompt_text div 4),
                       lm_completion_tokens = max 1 (append_chars div 4), lm_finish_reason = ''stop''\<rparr>\<rparr>)))"

definition stub_batch_size :: "ExecutionRequest \<Rightarrow> int64_t" where
  "stub_batch_size request =
     (case er_inputs request of
        [] \<Rightarrow> 1
      | t # _ \<Rightarrow> (case it_shape t of [] \<Rightarrow> 1 | d # _ \<Rightarrow> d))"

definition stub_infer :: "StubExecutor \<Rightarrow> bool \<Rightarrow> ExecutionRequest \<Rightarrow> ExecutionResponse Call" where
  "stub_infer e cancelled request =
     (if cancelled then Returns cancelled_response
      else if st_llm_mode e then Returns (inferLlm e request)
      else (case stub_outputs e (stub_batch_size request) (stub_output_names e request) of
              Returns outputs \<Rightarrow> Returns (empty_response\<lparr>rs_outputs := outputs\<rparr>)
            | Throws m \<Rightarrow> Throws m | ThrowsOther \<Rightarrow> ThrowsOther))"

text \<open>Consecutive pieces of a text, the last one possibly shorter.\<close>

fun chunks :: "nat \<Rightarrow> string \<Rightarrow> string list" where
  "chunks n [] = []"
| "chunks n (c # cs) = take (Suc n) (c # cs) # chunks n (drop n cs)"

definition stub_inferStreaming ::
  "StubExecutor \<Rightarrow> bool \<Rightarrow> ExecutionRequest \<Rightarrow> StreamingTokenCallback option \<Rightarrow> ExecutionResponse Call \<times> string list" where
  "stub_inferStreaming e cancelled request callback =
     (case stub_infer e cancelled request of
        Returns response \<Rightarrow>
          (Returns response,
           if rs_ok response \<and> st_llm_mode e \<and> callback \<noteq> None
           then concat (map (\<lambda>output. if ot_datatype output = ''BYTES'' \<and> ot_string_data output \<noteq> []
                                     then chunks 1 (hd (ot_string_data output)) else [])
                          (rs_outputs response))
           else [])
      | call \<Rightarrow> (call, []))"

definition tensorStubMetadata :: "RuntimeConfig \<Rightarrow> ModelMetadata" where
  "tensorStubMetadata config =
     \<lparr>mm_name = rc_model_name config, mm_versions = [''1''], mm_platform = ''neuriplo_'' @ rc_backend config,
      mm_inputs = [\<lparr>tm_name = ''input'', tm_datatype = ''FP32'', tm_shape = [1, 3, 224, 224]\<rparr>],
      mm_outputs = [\<lparr>tm_name = ''output'', tm_datatype = ''FP32'', tm_shape = [1, 1000]\<rparr>]\<rparr>"

definition llmStubMetadata :: "RuntimeConfig \<Rightarrow> ModelMetadata" where
  "llmStubMetadata config =
     \<lparr>mm_name = rc_model_name config, mm_versions = [''1''], mm_platform = ''neuriplo_'' @ rc_backend config,
      mm_inputs = [\<lparr>tm_name = ''prompt'', tm_datatype = ''BYTES'', tm_shape = [1]\<rparr>],
      mm_outputs = [\<lparr>tm_name = ''text'', tm_datatype = ''BYTES'', tm_shape = [1]\<rparr>]\<rparr>"

definition makeStubExecutor :: "(string \<Rightarrow> BackendKind) \<Rightarrow> RuntimeConfig \<Rightarrow> string \<Rightarrow> FactoryOutcome" where
  "makeStubExecutor kind_of config err =
     (let llm_mode = usesLlmScheduler kind_of (rc_scheduler_strategy config) (rc_backend config);
          e = \<lparr>st_metadata = if llm_mode then llmStubMetadata config else tensorStubMetadata config,
               st_llm_mode = llm_mode, st_default_max_tokens = rc_max_tokens config\<rparr>
      in Built \<lparr>ex_metadata = st_metadata e, ex_infer = stub_infer e, ex_inferStreaming = stub_inferStreaming e\<rparr> err)"

section \<open>NeuriploAdapter.hpp\<close>

record NeuriploInferenceResult =
  ni_ok :: bool
  ni_error_message :: string
  ni_outputs :: "OutputTensor list"

record LlmInferenceParams =
  np_prompt :: string
  np_max_tokens :: size_t
  np_temperature :: double
  np_top_p :: double
  np_top_k :: size_t
  np_cancel_token :: "CancelToken option"
  np_streaming_callback :: "StreamingTokenCallback option"

record LlmInferenceResult =
  nl_ok :: bool
  nl_error_message :: string
  nl_outputs :: "OutputTensor list"
  nl_prompt_tokens :: size_t
  nl_completion_tokens :: size_t
  nl_finish_reason :: string

text \<open>\<open>na_llmInfer\<close> also gives the pieces of text it passes to the callback.\<close>

record NeuriploAdapter =
  na_load :: "RuntimeConfig \<Rightarrow> ModelMetadata Call"
  na_infer :: "InputTensor list \<Rightarrow> NeuriploInferenceResult Call"
  na_llmInfer :: "LlmInferenceParams \<Rightarrow> LlmInferenceResult Call \<times> string list"

definition llmInfer_default ::
  "(InputTensor list \<Rightarrow> NeuriploInferenceResult Call) \<Rightarrow> LlmInferenceParams \<Rightarrow> LlmInferenceResult Call" where
  "llmInfer_default infer params =
     (case infer [] of
        Returns result \<Rightarrow>
          Returns (if ni_ok result
            then \<lparr>nl_ok = True, nl_error_message = [], nl_outputs = ni_outputs result, nl_prompt_tokens = 0,
                  nl_completion_tokens = 0, nl_finish_reason = ''stop''\<rparr>
            else \<lparr>nl_ok = False, nl_error_message = ni_error_message result, nl_outputs = [], nl_prompt_tokens = 0,
                  nl_completion_tokens = 0, nl_finish_reason = []\<rparr>)
      | Throws m \<Rightarrow> Throws m
      | ThrowsOther \<Rightarrow> ThrowsOther)"

section \<open>NeuriploExecutor.cpp\<close>

definition isSupportedInputDatatype :: "string \<Rightarrow> bool" where
  "isSupportedInputDatatype datatype \<longleftrightarrow>
     datatype \<in> set [''BOOL'', ''INT8'', ''INT16'', ''INT32'', ''INT64'', ''UINT8'', ''UINT16'', ''UINT32'',
                    ''UINT64'', ''FP16'', ''FP32'', ''FP64'']"

fun elementCount_from :: "size_t \<Rightarrow> int64_t list \<Rightarrow> size_t option" where
  "elementCount_from n [] = Some n"
| "elementCount_from n (dimension # shape) =
     (if dimension < 0 then None
      else let size_dimension = size_of_int64 dimension in
        if size_dimension \<noteq> 0 \<and> n > (2 ^ 64 - 1) div size_dimension then None
        else elementCount_from (size_mul n size_dimension) shape)"

definition elementCount :: "int64_t list \<Rightarrow> size_t option" where
  "elementCount shape = elementCount_from 1 shape"

definition selectedOutputNames :: "ModelMetadata \<Rightarrow> ExecutionRequest \<Rightarrow> string list" where
  "selectedOutputNames metadata request =
     (if er_requested_outputs request \<noteq> [] then er_requested_outputs request
      else map tm_name (mm_outputs metadata))"

definition findInput :: "InputTensor list \<Rightarrow> string \<Rightarrow> InputTensor option" where
  "findInput inputs name = find_first (\<lambda>t. it_name t = name) inputs"

definition findMetadataInput :: "ModelMetadata \<Rightarrow> string \<Rightarrow> TensorMetadata option" where
  "findMetadataInput metadata name = find_first (\<lambda>t. tm_name t = name) (mm_inputs metadata)"

definition invalidArgument :: "string \<Rightarrow> ExecutionResponse" where
  "invalidArgument message = failure ''INVALID_ARGUMENT'' message"

definition backendError :: "string \<Rightarrow> ExecutionResponse" where
  "backendError message = failure ''BACKEND_ERROR'' message"

definition shape_accepted :: "int64_t list \<Rightarrow> int64_t list \<Rightarrow> bool" where
  "shape_accepted shape expected \<longleftrightarrow>
     length shape = length expected \<and>
     list_all (\<lambda>(d, e). \<not> (d < 0 \<or> (e \<ge> 0 \<and> d \<noteq> e))) (zip shape expected)"

text \<open>The checks of one input, in order; \<open>seen\<close> holds the names of the inputs before it.\<close>

definition input_error :: "ModelMetadata \<Rightarrow> string list \<Rightarrow> InputTensor \<Rightarrow> string option" where
  "input_error metadata seen input =
     (if it_name input \<in> set seen then Some (''duplicate neuriplo input: '' @ it_name input)
      else (case findMetadataInput metadata (it_name input) of
              None \<Rightarrow> Some (''unknown neuriplo input: '' @ it_name input)
            | Some expected \<Rightarrow>
                if it_datatype input \<noteq> tm_datatype expected
                  then Some (''unsupported datatype for neuriplo input: '' @ it_name input)
                else if \<not> shape_accepted (it_shape input) (tm_shape expected)
                  then Some (''invalid shape for neuriplo input: '' @ it_name input)
                else if \<not> isSupportedInputDatatype (it_datatype input)
                  then Some (''unsupported datatype for neuriplo input: '' @ it_name input)
                else if elementCount (it_shape input) \<noteq> Some (input_elementCount input)
                  then Some (''input data length does not match shape for neuriplo input: '' @ it_name input)
                else None))"

fun inputs_error :: "ModelMetadata \<Rightarrow> string list \<Rightarrow> InputTensor list \<Rightarrow> string option" where
  "inputs_error metadata seen [] = None"
| "inputs_error metadata seen (input # inputs) =
     (case input_error metadata seen input of
        Some e \<Rightarrow> Some e
      | None \<Rightarrow> inputs_error metadata (seen @ [it_name input]) inputs)"

fun order_inputs :: "InputTensor list \<Rightarrow> TensorMetadata list \<Rightarrow> string + InputTensor list" where
  "order_inputs inputs [] = Inr []"
| "order_inputs inputs (m # ms) =
     (case findInput inputs (tm_name m) of
        None \<Rightarrow> Inl (''missing required neuriplo input: '' @ tm_name m)
      | Some input \<Rightarrow>
          (case order_inputs inputs ms of Inl e \<Rightarrow> Inl e | Inr ordered \<Rightarrow> Inr (input # ordered)))"

definition orderedInputs :: "ModelMetadata \<Rightarrow> ExecutionRequest \<Rightarrow> ExecutionResponse + InputTensor list" where
  "orderedInputs metadata request =
     (case inputs_error metadata [] (er_inputs request) of
        Some e \<Rightarrow> Inl (invalidArgument e)
      | None \<Rightarrow>
          (case order_inputs (er_inputs request) (mm_inputs metadata) of
             Inl e \<Rightarrow> Inl (invalidArgument e)
           | Inr ordered \<Rightarrow> Inr ordered))"

record NeuriploExecutor =
  ne_metadata :: ModelMetadata
  ne_adapter :: NeuriploAdapter

text \<open>The constructor; \<open>None\<close> is the null adapter.\<close>

definition newNeuriploExecutor :: "RuntimeConfig \<Rightarrow> NeuriploAdapter option \<Rightarrow> NeuriploExecutor Call" where
  "newNeuriploExecutor config adapter =
     (case adapter of
        None \<Rightarrow> Throws ''neuriplo adapter is required''
      | Some a \<Rightarrow>
          (case na_load a config of
             Returns m0 \<Rightarrow>
               (let m1 = (if mm_name m0 = [] then m0\<lparr>mm_name := rc_model_name config\<rparr> else m0);
                    m2 = (if mm_versions m1 = [] then m1\<lparr>mm_versions := [''1'']\<rparr> else m1);
                    m3 = (if mm_platform m2 = [] then m2\<lparr>mm_platform := ''neuriplo_'' @ rc_backend config\<rparr> else m2)
                in Returns \<lparr>ne_metadata = m3, ne_adapter = a\<rparr>)
           | Throws m \<Rightarrow> Throws m
           | ThrowsOther \<Rightarrow> ThrowsOther))"

definition extractPrompt :: "ExecutionRequest \<Rightarrow> string" where
  "extractPrompt request =
     (case find_first (\<lambda>t. isBytesDatatype (it_datatype t) \<and> it_string_data t \<noteq> []) (er_inputs request) of
        Some t \<Rightarrow> hd (it_string_data t)
      | None \<Rightarrow> [])"

text \<open>The generation branch, which \<open>infer\<close> and \<open>inferStreaming\<close> share.\<close>

definition neuriplo_generate ::
  "NeuriploExecutor \<Rightarrow> ExecutionRequest \<Rightarrow> LlmGenerationParams \<Rightarrow> StreamingTokenCallback option \<Rightarrow>
     ExecutionResponse Call \<times> string list" where
  "neuriplo_generate e request p callback =
     (let params = \<lparr>np_prompt = extractPrompt request,
            np_max_tokens = case_option 256 id (lp_max_tokens p),
            np_temperature = case_option (4 / 5) id (lp_temperature p),
            np_top_p = case_option (19 / 20) id (lp_top_p p),
            np_top_k = case_option 40 id (lp_top_k p),
            np_cancel_token = er_cancel_token request, np_streaming_callback = callback\<rparr>;
          (call, pieces) = na_llmInfer (ne_adapter e) params
      in (case call of
            Throws m \<Rightarrow> Returns (backendError m)
          | ThrowsOther \<Rightarrow> ThrowsOther
          | Returns result \<Rightarrow>
              Returns (if \<not> nl_ok result
                then backendError (if nl_error_message result = [] then ''neuriplo LLM inference failed''
                                   else nl_error_message result)
                else empty_response\<lparr>rs_outputs := nl_outputs result,
                       rs_llm_metadata := Some \<lparr>lm_prompt_tokens = nl_prompt_tokens result,
                         lm_completion_tokens = nl_completion_tokens result,
                         lm_finish_reason = nl_finish_reason result\<rparr>\<rparr>),
          pieces))"

definition neuriplo_infer :: "NeuriploExecutor \<Rightarrow> bool \<Rightarrow> ExecutionRequest \<Rightarrow> ExecutionResponse Call" where
  "neuriplo_infer e cancelled request =
     (case er_llm_params request of
        Some p \<Rightarrow> if cancelled then Returns cancelled_response else fst (neuriplo_generate e request p None)
      | None \<Rightarrow>
          (case orderedInputs (ne_metadata e) request of
             Inl error \<Rightarrow> Returns error
           | Inr inputs \<Rightarrow>
               if cancelled then Returns cancelled_response
               else (case na_infer (ne_adapter e) inputs of
                 Throws m \<Rightarrow> Returns (backendError m)
               | ThrowsOther \<Rightarrow> ThrowsOther
               | Returns result \<Rightarrow>
                   Returns (if \<not> ni_ok result
                     then backendError (if ni_error_message result = [] then ''neuriplo inference failed''
                                        else ni_error_message result)
                     else empty_response\<lparr>rs_outputs :=
                            filter (\<lambda>output. ot_name output \<in> set (selectedOutputNames (ne_metadata e) request))
                              (ni_outputs result)\<rparr>))))"

definition neuriplo_inferStreaming ::
  "NeuriploExecutor \<Rightarrow> bool \<Rightarrow> ExecutionRequest \<Rightarrow> StreamingTokenCallback option \<Rightarrow> ExecutionResponse Call \<times> string list" where
  "neuriplo_inferStreaming e cancelled request callback =
     (if cancelled then (Returns cancelled_response, [])
      else (case er_llm_params request of
              Some p \<Rightarrow> neuriplo_generate e request p callback
            | None \<Rightarrow> (neuriplo_infer e cancelled request, [])))"

text \<open>\<open>makeNeuriploExecutor\<close> with the adapter, or with what \<open>makeRealNeuriploAdapter\<close> did.\<close>

definition makeNeuriploExecutor ::
  "NeuriploAdapter option Call \<Rightarrow> RuntimeConfig \<Rightarrow> string \<Rightarrow> FactoryOutcome" where
  "makeNeuriploExecutor adapter config err =
     (case adapter of
        Throws m \<Rightarrow> NoExecutor m
      | ThrowsOther \<Rightarrow> FactoryThrowsOther
      | Returns a \<Rightarrow>
          (case newNeuriploExecutor config a of
             Returns e \<Rightarrow> Built \<lparr>ex_metadata = ne_metadata e, ex_infer = neuriplo_infer e,
                            ex_inferStreaming = neuriplo_inferStreaming e\<rparr> err
           | Throws m \<Rightarrow> NoExecutor m
           | ThrowsOther \<Rightarrow> FactoryThrowsOther))"

section \<open>Lemmas\<close>

lemma find_first_SomeD: "find_first p xs = Some x \<Longrightarrow> x \<in> set xs \<and> p x"
  by (induction xs) (auto split: if_splits)

lemma find_first_NoneD: "find_first p xs = None \<Longrightarrow> x \<in> set xs \<Longrightarrow> \<not> p x"
  by (induction xs) (auto split: if_splits)

lemma elementCount_from_exact:
  assumes "elementCount_from n shape = Some m" "n < 2 ^ 64" "\<forall>d \<in> set shape. d < 2 ^ 63"
  shows "m = n * prod_list (map nat shape) \<and> m < 2 ^ 64 \<and> (\<forall>d \<in> set shape. 0 \<le> d)"
  using assms
proof (induction n shape rule: elementCount_from.induct)
  case (1 n)
  then show ?case by simp
next
  case (2 n d shape)
  define k where "k = size_of_int64 d"
  from 2(2,4) have d: "0 \<le> d" "k = nat d"
    by (auto simp: k_def size_of_int64_nonneg split: if_splits)
  from 2(2) d have guard: "\<not> (k \<noteq> 0 \<and> n > (2 ^ 64 - 1) div k)"
    and rest: "elementCount_from (size_mul n k) shape = Some m"
    by (auto simp: k_def Let_def split: if_splits)
  have nk: "n * k < 2 ^ 64"
  proof (cases "k = 0")
    case False
    with guard have "n \<le> (2 ^ 64 - 1) div k" by simp
    then have "n * k \<le> (2 ^ 64 - 1) div k * k" by (rule mult_le_mono1)
    also have "\<dots> \<le> 2 ^ 64 - 1" by simp
    finally show ?thesis by simp
  qed simp
  then have "size_mul n k = n * k" by (simp add: size_mul_def size_limit_def)
  with 2(1) [of k] 2(2-) d guard rest nk show ?case
    by (simp add: k_def mult.assoc)
qed

lemma inputs_error_None:
  assumes "inputs_error md seen inputs = None"
  shows "distinct (map it_name inputs) \<and> set (map it_name inputs) \<inter> set seen = {} \<and>
    (\<forall>t \<in> set inputs. \<exists>seen'. input_error md seen' t = None)"
  using assms
proof (induction md seen inputs rule: inputs_error.induct)
  case (1 md seen)
  then show ?case by simp
next
  case (2 md seen t inputs)
  then have t: "input_error md seen t = None" and "inputs_error md (seen @ [it_name t]) inputs = None"
    by (auto split: option.splits)
  moreover from t have "it_name t \<notin> set seen" by (auto simp: input_error_def split: if_splits)
  ultimately show ?case using 2(1) by auto
qed

lemma input_error_None:
  assumes "input_error md seen t = None"
  shows "\<exists>m. findMetadataInput md (it_name t) = Some m \<and> it_datatype t = tm_datatype m \<and>
    shape_accepted (it_shape t) (tm_shape m) \<and> isSupportedInputDatatype (it_datatype t) \<and>
    elementCount (it_shape t) = Some (input_elementCount t)"
  using assms by (auto simp: input_error_def split: if_splits option.splits)

lemma order_inputs_Inr:
  "order_inputs inputs ms = Inr ordered \<Longrightarrow> map it_name ordered = map tm_name ms \<and> set ordered \<subseteq> set inputs"
  by (induction ms arbitrary: ordered)
    (auto simp: findInput_def split: option.splits sum.splits dest: find_first_SomeD)

text \<open>An input a model accepts: its description, a shape it allows, and as much data as the shape says.\<close>

definition accepted_input :: "ModelMetadata \<Rightarrow> InputTensor \<Rightarrow> bool" where
  "accepted_input md t \<longleftrightarrow>
     (\<exists>m \<in> set (mm_inputs md). tm_name m = it_name t \<and> tm_datatype m = it_datatype t \<and>
        shape_accepted (it_shape t) (tm_shape m)) \<and>
     input_elementCount t = prod_list (map nat (it_shape t))"

lemma accepted_inputI:
  assumes "input_error md seen t = None" "\<forall>d \<in> set (it_shape t). d < 2 ^ 63"
  shows "accepted_input md t"
proof -
  from input_error_None [OF assms(1)] obtain m where m: "findMetadataInput md (it_name t) = Some m"
    "it_datatype t = tm_datatype m" "shape_accepted (it_shape t) (tm_shape m)"
    "elementCount_from 1 (it_shape t) = Some (input_elementCount t)"
    by (auto simp: elementCount_def)
  from elementCount_from_exact [OF m(4)] assms(2)
  have "input_elementCount t = prod_list (map nat (it_shape t))" by simp
  moreover from m(1) have "m \<in> set (mm_inputs md)" "tm_name m = it_name t"
    by (auto simp: findMetadataInput_def dest: find_first_SomeD)
  ultimately show ?thesis using m(2,3) by (auto simp: accepted_input_def)
qed

section \<open>Properties\<close>

text \<open>
  What reaches the neuriplo library is complete and well formed: when the inputs of a request
  pass, they are exactly the inputs of the request, none dropped and none repeated, in the order of the
  model's description, and each carries as many elements as its shape multiplies out to, with no
  wrap-around in that product.
\<close>

theorem ordered_inputs_complete:
  assumes "orderedInputs md request = Inr ordered" "distinct (map tm_name (mm_inputs md))"
    and "\<forall>t \<in> set (er_inputs request). \<forall>d \<in> set (it_shape t). d < 2 ^ 63"
  shows "map it_name ordered = map tm_name (mm_inputs md) \<and> mset ordered = mset (er_inputs request) \<and>
    list_all (accepted_input md) ordered"
proof -
  from assms(1) have err: "inputs_error md [] (er_inputs request) = None"
    and ord: "order_inputs (er_inputs request) (mm_inputs md) = Inr ordered"
    by (auto simp: orderedInputs_def split: option.splits sum.splits)
  from order_inputs_Inr [OF ord] have names: "map it_name ordered = map tm_name (mm_inputs md)"
    and sub: "set ordered \<subseteq> set (er_inputs request)" by auto
  from inputs_error_None [OF err] have dist: "distinct (map it_name (er_inputs request))" by simp
  from inputs_error_None [OF err] have ok: "accepted_input md t" if "t \<in> set (er_inputs request)" for t
    using that assms(3) accepted_inputI by meson
  have "set (er_inputs request) \<subseteq> set ordered"
  proof
    fix t assume t: "t \<in> set (er_inputs request)"
    from ok [OF t] have "it_name t \<in> set (map tm_name (mm_inputs md))"
      unfolding accepted_input_def by (metis image_eqI list.set_map)
    with names have "it_name t \<in> set (map it_name ordered)" by simp
    then obtain u where "u \<in> set ordered" "it_name u = it_name t" by auto
    with t sub dist show "t \<in> set ordered" by (metis distinct_map inj_onD subsetD)
  qed
  moreover have "distinct ordered" using names assms(2) by (metis distinct_map)
  ultimately have "mset ordered = mset (er_inputs request)"
    using sub dist by (simp add: set_eq_iff_mset_eq_distinct distinct_map subset_antisym)
  with names ok sub show ?thesis by (auto simp: list_all_iff)
qed

definition two_input_model :: ModelMetadata where
  "two_input_model = empty_metadata\<lparr>mm_inputs :=
     [\<lparr>tm_name = ''a'', tm_datatype = ''UINT8'', tm_shape = [1, -1]\<rparr>,
      \<lparr>tm_name = ''b'', tm_datatype = ''BOOL'', tm_shape = [2]\<rparr>]\<rparr>"

definition two_input_tensors :: "InputTensor list" where
  "two_input_tensors =
     [\<lparr>it_name = ''a'', it_datatype = ''UINT8'', it_shape = [1, 3], it_bytes = [1, 2, 3], it_string_data = []\<rparr>,
      \<lparr>it_name = ''b'', it_datatype = ''BOOL'', it_shape = [2], it_bytes = [0, 1], it_string_data = []\<rparr>]"

theorem ordered_inputs_complete_witness:
  "mset two_input_tensors = mset (rev two_input_tensors) \<and> list_all (accepted_input two_input_model) two_input_tensors"
proof -
  have "orderedInputs two_input_model (empty_request\<lparr>er_inputs := rev two_input_tensors\<rparr>) = Inr two_input_tensors"
    by (simp add: orderedInputs_def two_input_model_def two_input_tensors_def input_error_def findMetadataInput_def
        findInput_def empty_request_def empty_metadata_def shape_accepted_def isSupportedInputDatatype_def
        elementCount_def size_of_int64_def size_mul_def size_limit_def input_elementCount_def
        tensorElementCount_def tensorElementSize_def)
  from ordered_inputs_complete [OF this] show ?thesis
    by (simp add: two_input_model_def two_input_tensors_def empty_request_def empty_metadata_def)
qed

end
