(* ===== verification/Backends.thy ===== *)
theory Backends
  imports Executors "HOL-Library.List_Lexorder" "HOL-Library.Char_ord"
begin

text \<open>
  \<open>BackendRegistry.cpp\<close>: the table of backends, the choice of scheduler and the creation of
  executors. \<open>realNeuriploSupportEnabled\<close> and \<open>realNeuriploAvailableBackends\<close>, which ask the neuriplo
  library, are the fields of an argument, as is what \<open>makeRealNeuriploAdapter\<close> does.
\<close>

record BackendCapability =
  bc_id :: string
  bc_kind :: BackendKind
  bc_uses_neuriplo :: bool
  bc_factory :: "((string \<Rightarrow> BackendKind) \<Rightarrow> RuntimeConfig \<Rightarrow> string \<Rightarrow> FactoryOutcome) option"

record NeuriploLibrary =
  nb_enabled :: bool
  nb_available :: "string \<Rightarrow> string list"
  nb_adapter :: "NeuriploAdapter option Call"

text \<open>The global table and the \<open>once_flag\<close>.\<close>

record BackendRegistry =
  br_capabilities :: "(string \<times> BackendCapability) list"
  br_initialised :: bool

definition new_backends :: BackendRegistry where
  "new_backends = \<lparr>br_capabilities = [], br_initialised = False\<rparr>"

text \<open>\<open>unordered_map::emplace\<close>: a key that is present keeps its value.\<close>

definition emplace :: "string \<Rightarrow> 'v \<Rightarrow> (string \<times> 'v) list \<Rightarrow> bool \<times> (string \<times> 'v) list" where
  "emplace k v m = (case map_of m k of Some _ \<Rightarrow> (False, m) | None \<Rightarrow> (True, m @ [(k, v)]))"

definition pipelineBackendId :: string where
  "pipelineBackendId = ''ensemble''"

definition default_backends :: "NeuriploLibrary \<Rightarrow> BackendCapability list" where
  "default_backends lib =
     (let neuriplo = (\<lambda>name kind. \<lparr>bc_id = name, bc_kind = kind, bc_uses_neuriplo = True,
                        bc_factory = Some (\<lambda>kind_of. makeNeuriploExecutor (nb_adapter lib))\<rparr>)
      in [\<lparr>bc_id = ''stub'', bc_kind = TensorKind, bc_uses_neuriplo = False, bc_factory = Some makeStubExecutor\<rparr>,
          \<lparr>bc_id = pipelineBackendId, bc_kind = TensorKind, bc_uses_neuriplo = False,
           bc_factory = Some (\<lambda>kind_of config err. NoExecutor
             ''pipeline models must be loaded through the model registry, which supplies the graph's model resolver'')\<rparr>]
         @ map (\<lambda>name. neuriplo name TensorKind)
             [''onnx_runtime'', ''opencv_dnn'', ''openvino'', ''tensorrt'', ''libtorch'', ''libtensorflow'',
              ''migraphx'', ''executorch'', ''litert'', ''dali'']
         @ map (\<lambda>name. neuriplo name LlmKind) [''ggml'', ''llamacpp'', ''cactus''])"

definition registerDefaultBackends :: "NeuriploLibrary \<Rightarrow> BackendRegistry \<Rightarrow> BackendRegistry" where
  "registerDefaultBackends lib b =
     (if br_initialised b then b
      else \<lparr>br_capabilities = fold (\<lambda>c m. snd (emplace (bc_id c) c m)) (default_backends lib) (br_capabilities b),
            br_initialised = True\<rparr>)"

definition registerBackend :: "NeuriploLibrary \<Rightarrow> BackendCapability \<Rightarrow> BackendRegistry \<Rightarrow> bool \<times> BackendRegistry" where
  "registerBackend lib capability b0 =
     (let b = registerDefaultBackends lib b0 in
      if bc_id capability = [] then (False, b)
      else let (inserted, m) = emplace (bc_id capability) capability (br_capabilities b)
           in (inserted, b\<lparr>br_capabilities := m\<rparr>))"

text \<open>
  The queries also register the defaults first; they return the value only, the table after them is
  \<open>registerDefaultBackends lib b\<close>.
\<close>

definition findBackendCapability :: "NeuriploLibrary \<Rightarrow> BackendRegistry \<Rightarrow> string \<Rightarrow> BackendCapability option" where
  "findBackendCapability lib b backend_id = map_of (br_capabilities (registerDefaultBackends lib b)) backend_id"

definition backendKind :: "NeuriploLibrary \<Rightarrow> BackendRegistry \<Rightarrow> string \<Rightarrow> BackendKind" where
  "backendKind lib b backend_id =
     (case findBackendCapability lib b backend_id of None \<Rightarrow> TensorKind | Some c \<Rightarrow> bc_kind c)"

definition isKnownBackend :: "NeuriploLibrary \<Rightarrow> BackendRegistry \<Rightarrow> string \<Rightarrow> bool" where
  "isKnownBackend lib b backend_id \<longleftrightarrow> findBackendCapability lib b backend_id \<noteq> None"

definition availableBackendIds :: "NeuriploLibrary \<Rightarrow> BackendRegistry \<Rightarrow> string \<Rightarrow> string list" where
  "availableBackendIds lib b plugin_dir =
     (let ids = map fst (filter (\<lambda>e. \<not> bc_uses_neuriplo (snd e)) (br_capabilities (registerDefaultBackends lib b)))
      in sort (fold (\<lambda>name ids. if name \<in> set ids then ids else ids @ [name]) (nb_available lib plugin_dir) ids))"

definition createExecutorFor ::
  "NeuriploLibrary \<Rightarrow> BackendRegistry \<Rightarrow> string \<Rightarrow> RuntimeConfig \<Rightarrow> string \<Rightarrow> FactoryOutcome" where
  "createExecutorFor lib b backend_id config err =
     (case findBackendCapability lib b backend_id of
        None \<Rightarrow> NoExecutor (''unsupported backend: '' @ backend_id)
      | Some c \<Rightarrow>
          (case bc_factory c of
             None \<Rightarrow> NoExecutor (''no executor factory registered for backend: '' @ backend_id)
           | Some factory \<Rightarrow>
               if bc_uses_neuriplo c \<and> nb_enabled lib \<and> backend_id \<notin> set (nb_available lib (rc_plugin_dir config))
               then NoExecutor (''backend '' @ quoted backend_id @
                      '' is not available in this binary; available backends: '' @
                      join_comma (availableBackendIds lib b (rc_plugin_dir config)))
               else factory (backendKind lib b) config err))"

definition defaultExecutorFactory :: "NeuriploLibrary \<Rightarrow> BackendRegistry \<Rightarrow> RuntimeConfig \<Rightarrow> string \<Rightarrow> FactoryOutcome" where
  "defaultExecutorFactory lib b config err = createExecutorFor lib b (rc_backend config) config err"

section \<open>Lemmas\<close>

lemma emplace_distinct: "distinct (map fst m) \<Longrightarrow> distinct (map fst (snd (emplace k v m)))"
  by (auto simp: emplace_def map_of_eq_None_iff split: option.splits)

lemma registered_distinct:
  assumes "distinct (map fst (br_capabilities b))"
  shows "distinct (map fst (br_capabilities (registerDefaultBackends lib b)))"
proof -
  have "distinct (map fst (fold (\<lambda>c m. snd (emplace (bc_id c) c m)) cs m))" if "distinct (map fst m)" for cs m
    using that by (induction cs arbitrary: m) (auto intro: emplace_distinct)
  from this [OF assms] assms show ?thesis by (simp add: registerDefaultBackends_def)
qed

lemma register_defaults_idem:
  "registerDefaultBackends lib (registerDefaultBackends lib b) = registerDefaultBackends lib b"
  by (simp add: registerDefaultBackends_def)

lemma add_missing:
  "set (fold (\<lambda>x ys. if x \<in> set ys then ys else ys @ [x]) xs ys) = set xs \<union> set ys"
  "distinct ys \<Longrightarrow> distinct (fold (\<lambda>x ys. if x \<in> set ys then ys else ys @ [x]) xs ys)"
  by (induction xs arbitrary: ys) auto

section \<open>Properties\<close>

text \<open>
  A backend once registered is never replaced: a later registration under the same name is
  refused and changes no lookup, and a registration under a new name is accepted and found. This also
  protects the built-in backends, which are registered first.
\<close>

theorem first_registration_wins:
  "findBackendCapability lib (snd (registerBackend lib c b)) name =
     (if name = bc_id c \<and> name \<noteq> [] \<and> findBackendCapability lib b name = None then Some c
      else findBackendCapability lib b name) \<and>
   fst (registerBackend lib c b) = (bc_id c \<noteq> [] \<and> findBackendCapability lib b (bc_id c) = None)"
proof -
  define d where "d = registerDefaultBackends lib b"
  have d: "br_initialised d" "registerDefaultBackends lib (d\<lparr>br_capabilities := m\<rparr>) = d\<lparr>br_capabilities := m\<rparr>" for m
    by (simp_all add: d_def registerDefaultBackends_def)
  have "snd (registerBackend lib c b) =
      (if bc_id c = [] then d else d\<lparr>br_capabilities := snd (emplace (bc_id c) c (br_capabilities d))\<rparr>)"
    by (simp add: registerBackend_def d_def Let_def split: prod.splits)
  moreover have "map_of (snd (emplace (bc_id c) c (br_capabilities d))) name =
      (if name = bc_id c \<and> map_of (br_capabilities d) name = None then Some c else map_of (br_capabilities d) name)"
    by (auto simp: emplace_def map_add_def split: option.splits)
  ultimately show ?thesis
    using d register_defaults_idem [of lib b]
    by (auto simp: findBackendCapability_def registerBackend_def emplace_def Let_def simp flip: d_def split: option.splits)
qed

text \<open>
  The list of available backends is sorted, without repetition, and holds exactly the backends
  that do not need neuriplo and those the library reports.
\<close>

theorem available_backends_exact:
  assumes "distinct (map fst (br_capabilities b))"
  shows "sorted (availableBackendIds lib b dir) \<and> distinct (availableBackendIds lib b dir) \<and>
    set (availableBackendIds lib b dir) =
      {name. \<exists>c. findBackendCapability lib b name = Some c \<and> \<not> bc_uses_neuriplo c} \<union> set (nb_available lib dir)"
proof -
  define m where "m = br_capabilities (registerDefaultBackends lib b)"
  have dist: "distinct (map fst m)" using registered_distinct [OF assms] by (simp add: m_def)
  then have "distinct (map fst (filter (\<lambda>e. \<not> bc_uses_neuriplo (snd e)) m))" by (simp add: distinct_map_filter)
  moreover have "set (map fst (filter (\<lambda>e. \<not> bc_uses_neuriplo (snd e)) m)) =
      {name. \<exists>c. map_of m name = Some c \<and> \<not> bc_uses_neuriplo c}"
    using dist by (force simp: image_iff)
  ultimately show ?thesis
    by (auto simp: availableBackendIds_def findBackendCapability_def add_missing Let_def simp flip: m_def)
qed

definition demo_library :: NeuriploLibrary where
  "demo_library = \<lparr>nb_enabled = True, nb_available = (\<lambda>_. [''openvino'', ''ggml'']), nb_adapter = Returns None\<rparr>"

theorem available_backends_exact_witness:
  "sorted (availableBackendIds demo_library new_backends []) \<and>
   ''ggml'' \<in> set (availableBackendIds demo_library new_backends [])"
  using available_backends_exact [of new_backends demo_library "[]"]
  by (simp add: new_backends_def demo_library_def)

end
