(* ===== verification/Lifecycle.thy ===== *)
theory Lifecycle
  imports Model_State Model_Scheduler Llm_Scheduler Backends
begin

text \<open>
  \<open>ModelHandle.hpp\<close>, \<open>InferSnapshot.hpp\<close> and \<open>ModelLifecycle.cpp\<close>: one model from loading to unloading.

  A \<open>std::shared_ptr<Scheduler>\<close> is the index of a scheduler in a store, the list of every scheduler
  made so far; a null pointer is \<open>None\<close>. Copies of a pointer are copies of the index, so that a snapshot
  taken earlier and the handle see the same scheduler. An entry stays in the store when the last
  pointer to it goes; nothing reads it then.
\<close>

section \<open>Schedulers behind a pointer\<close>

datatype SchedulerObject = TensorScheduler ModelScheduler | GenerationScheduler LlmScheduler

fun sched_isReady :: "SchedulerObject \<Rightarrow> bool" where
  "sched_isReady (TensorScheduler s) = core_isReady s"
| "sched_isReady (GenerationScheduler s) = core_isReady s"

fun sched_stopAccepting :: "SchedulerObject \<Rightarrow> SchedulerObject" where
  "sched_stopAccepting (TensorScheduler s) = TensorScheduler (core_stopAccepting s)"
| "sched_stopAccepting (GenerationScheduler s) = GenerationScheduler (core_stopAccepting s)"

fun sched_metrics :: "SchedulerObject \<Rightarrow> SchedulerMetricsSnapshot" where
  "sched_metrics (TensorScheduler s) = metrics s"
| "sched_metrics (GenerationScheduler s) = llm_metrics s"

fun sched_beginDrain_flag :: "SchedulerObject \<Rightarrow> SchedulerObject" where
  "sched_beginDrain_flag (TensorScheduler s) = TensorScheduler (beginDrain_flag s)"
| "sched_beginDrain_flag (GenerationScheduler s) = GenerationScheduler (llm_beginDrain_flag s)"

fun sched_beginDrain_joined :: "SchedulerObject \<Rightarrow> SchedulerObject option" where
  "sched_beginDrain_joined (TensorScheduler s) = map_option TensorScheduler (beginDrain_joined s)"
| "sched_beginDrain_joined (GenerationScheduler s) = map_option GenerationScheduler (llm_beginDrain_joined s)"

type_synonym SchedulerStore = "SchedulerObject list"

section \<open>ModelHandle.hpp, InferSnapshot.hpp\<close>

record ModelHandle =
  mh_name :: string
  mh_versions :: "string list"
  mh_state :: ModelStateMachine
  mh_metadata :: ModelMetadata
  mh_scheduler :: "nat option"
  mh_load_error :: "string option"

abbreviation current :: "ModelHandle \<Rightarrow> ModelState" where
  "current h \<equiv> sm_state (mh_state h)"

definition new_handle :: ModelHandle where
  "new_handle = \<lparr>mh_name = [], mh_versions = [], mh_state = newStateMachine, mh_metadata = empty_metadata,
     mh_scheduler = None, mh_load_error = None\<rparr>"

definition handle_isReady :: "SchedulerStore \<Rightarrow> ModelHandle \<Rightarrow> bool" where
  "handle_isReady st h \<longleftrightarrow> current h = Ready \<and>
     (case mh_scheduler h of None \<Rightarrow> False | Some p \<Rightarrow> sched_isReady (st ! p))"

record InferSnapshot =
  sn_name :: string
  sn_versions :: "string list"
  sn_state :: ModelState
  sn_metadata :: ModelMetadata
  sn_scheduler :: "nat option"
  sn_load_error :: "string option"

definition snapshot_isReady :: "SchedulerStore \<Rightarrow> InferSnapshot \<Rightarrow> bool" where
  "snapshot_isReady st n \<longleftrightarrow> sn_state n = Ready \<and>
     (case sn_scheduler n of None \<Rightarrow> False | Some p \<Rightarrow> sched_isReady (st ! p))"

definition fromHandle :: "ModelHandle \<Rightarrow> InferSnapshot" where
  "fromHandle h = \<lparr>sn_name = mh_name h, sn_versions = mh_versions h, sn_state = current h,
     sn_metadata = mh_metadata h, sn_scheduler = mh_scheduler h, sn_load_error = mh_load_error h\<rparr>"

section \<open>ModelLifecycle.cpp\<close>

text \<open>A transition of the handle's machine whose result the caller ignores.\<close>

definition on_state :: "(ModelStateMachine \<Rightarrow> bool \<times> ModelStateMachine) \<Rightarrow> ModelHandle \<Rightarrow> ModelHandle" where
  "on_state f h = h\<lparr>mh_state := snd (f (mh_state h))\<rparr>"

definition markLoadFailed :: "RuntimeConfig \<Rightarrow> string \<Rightarrow> ModelHandle \<Rightarrow> ModelHandle" where
  "markLoadFailed config message h0 =
     (let h = on_state markFailed h0 in
      h\<lparr>mh_load_error := Some message,
        mh_metadata := (mh_metadata h)\<lparr>mm_name := rc_model_name config, mm_versions := mh_versions h,
                          mm_platform := ''neuriplo_'' @ rc_backend config\<rparr>,
        mh_scheduler := None\<rparr>)"

text \<open>
  The factory a load is called with: its first argument counts the calls within the load, for a factory
  with a state of its own.
\<close>

type_synonym ExecutorFactory = "nat \<Rightarrow> RuntimeConfig \<Rightarrow> string \<Rightarrow> FactoryOutcome"

datatype BuildResult = Executors "Executor list" | BuildNull string | BuildThrew string

text \<open>The loop over the instances; \<open>n\<close> are left, \<open>executors\<close> are built, \<open>err\<close> is the error string.\<close>

fun build_executors ::
  "ExecutorFactory \<Rightarrow> RuntimeConfig \<Rightarrow> nat \<Rightarrow> Executor list \<Rightarrow> string \<Rightarrow> BuildResult" where
  "build_executors factory config 0 executors err = Executors executors"
| "build_executors factory config (Suc n) executors err =
     (case factory (length executors) config err of
        Built executor err' \<Rightarrow> build_executors factory config n (executors @ [executor]) err'
      | NoExecutor err' \<Rightarrow> BuildNull (if err' = [] then ''failed to create executor'' else err')
      | FactoryThrows message \<Rightarrow> BuildThrew message
      | FactoryThrowsOther \<Rightarrow> BuildThrew ''executor build threw'')"

definition llm_scheduler_config :: "RuntimeConfig \<Rightarrow> LlmSchedulerConfig" where
  "llm_scheduler_config config =
     \<lparr>lc_max_queue_size = rc_max_queue_size config, lc_request_timeout_ms = rc_request_timeout_ms config,
      lc_instances = rc_instances config, lc_context_length = rc_context_length config,
      lc_kv_cache_slots = rc_kv_cache_slots config, lc_max_tokens = rc_max_tokens config,
      lc_tokens_per_char = rc_tokens_per_char config, lc_memory_budget_bytes = rc_memory_budget_bytes config\<rparr>"

definition tensor_scheduler_config :: "RuntimeConfig \<Rightarrow> SchedulerConfig" where
  "tensor_scheduler_config config =
     \<lparr>cf_max_queue_size = rc_max_queue_size config, cf_request_timeout_ms = rc_request_timeout_ms config,
      cf_instances = rc_instances config,
      cf_dynamic_batching = \<lparr>db_enabled = rc_dynamic_batching_enabled config,
        db_max_batch_size = rc_max_batch_size config, db_max_queue_delay_us = rc_max_queue_delay_us config,
        db_preferred_batch_sizes = rc_preferred_batch_sizes config\<rparr>\<rparr>"

text \<open>The scheduler the configuration asks for, or the exception of its constructor.\<close>

definition make_scheduler ::
  "(string \<Rightarrow> BackendKind) \<Rightarrow> time_point \<Rightarrow> size_t \<Rightarrow> RuntimeConfig \<Rightarrow> string + SchedulerObject" where
  "make_scheduler kind_of now executors config =
     (if usesLlmScheduler kind_of (rc_scheduler_strategy config) (rc_backend config)
      then map_sum id GenerationScheduler (makeLlmScheduler now executors (llm_scheduler_config config))
      else map_sum id TensorScheduler (makeModelScheduler now executors (tensor_scheduler_config config)))"

text \<open>
  \<open>load\<close>. \<open>reserve\<close> throws beyond \<open>max_size\<close>, which for a vector of pointers is \<open>2 ^ 60 - 1\<close>; the
  exceptions of the constructors are caught as those of the factory are.
\<close>

definition vector_max_size :: size_t where
  "vector_max_size = 2 ^ 60 - 1"

definition load ::
  "(string \<Rightarrow> BackendKind) \<Rightarrow> time_point \<Rightarrow> RuntimeConfig \<Rightarrow> ExecutorFactory \<Rightarrow> string option \<Rightarrow>
     ModelHandle \<Rightarrow> SchedulerStore \<Rightarrow> ModelHandle \<times> SchedulerStore" where
  "load kind_of now config factory version_override h0 st =
     (if current h0 \<noteq> Unloaded then (h0, st)
      else
        let h1 = on_state startLoad (h0\<lparr>mh_name := rc_model_name config,
                   mh_versions := [case version_override of Some v \<Rightarrow> v | None \<Rightarrow> ''1''], mh_load_error := None\<rparr>)
        in if rc_instances config > vector_max_size then (markLoadFailed config ''vector::reserve'' h1, st)
           else (case build_executors factory config (rc_instances config) [] [] of
             BuildNull message \<Rightarrow> (markLoadFailed config message h1, st)
           | BuildThrew message \<Rightarrow> (markLoadFailed config message h1, st)
           | Executors [] \<Rightarrow> (markLoadFailed config ''no executor instances configured'' h1, st)
           | Executors (front # rest) \<Rightarrow>
               let md = (case version_override of
                           Some v \<Rightarrow> (ex_metadata front)\<lparr>mm_versions := [v]\<rparr>
                         | None \<Rightarrow> ex_metadata front);
                   h2 = h1\<lparr>mh_metadata := md, mh_name := mm_name md, mh_versions := mm_versions md\<rparr>
               in (case make_scheduler kind_of now (length (front # rest)) config of
                     Inl message \<Rightarrow> (markLoadFailed config message h2, st)
                   | Inr s \<Rightarrow> (on_state markReady (h2\<lparr>mh_scheduler := Some (length st)\<rparr>), st @ [s]))))"

text \<open>A call on the scheduler behind a pointer.\<close>

definition at_scheduler :: "(SchedulerObject \<Rightarrow> SchedulerObject) \<Rightarrow> nat \<Rightarrow> SchedulerStore \<Rightarrow> SchedulerStore" where
  "at_scheduler f p st = st[p := f (st ! p)]"

definition lifecycle_beginDrain :: "ModelHandle \<Rightarrow> SchedulerStore \<Rightarrow> bool \<times> ModelHandle \<times> SchedulerStore" where
  "lifecycle_beginDrain h st =
     (case mh_scheduler h of
        None \<Rightarrow> (False, h, st)
      | Some p \<Rightarrow> (True, if current h = Ready then on_state beginUnload h else h,
                    at_scheduler sched_stopAccepting p st))"

text \<open>The second component is the scheduler for the \<open>retired_scheduler\<close> pointer.\<close>

definition lifecycle_completeUnload ::
  "ModelHandle \<Rightarrow> SchedulerStore \<Rightarrow> bool \<times> nat option \<times> ModelHandle \<times> SchedulerStore" where
  "lifecycle_completeUnload h st =
     (if current h \<noteq> Unloading then (False, None, h, st)
      else
        let st1 = (case mh_scheduler h of None \<Rightarrow> st | Some p \<Rightarrow> at_scheduler sched_stopAccepting p st);
            (ok, m) = completeUnload_sm (mh_state h)
        in (ok, mh_scheduler h,
            h\<lparr>mh_scheduler := None, mh_metadata := empty_metadata, mh_versions := [], mh_load_error := None,
              mh_state := m\<rparr>, st1))"

definition beginReload :: "ModelHandle \<Rightarrow> SchedulerStore \<Rightarrow> bool \<times> ModelHandle \<times> SchedulerStore" where
  "beginReload h st =
     (case current h of
        Loading \<Rightarrow> (False, h, st)
      | Ready \<Rightarrow> (True, h, st)
      | Unloading \<Rightarrow> (let (ok, _, h', st') = lifecycle_completeUnload h st in (ok, h', st'))
      | Failed \<Rightarrow> (True, on_state reset h, st)
      | Unavailable \<Rightarrow> (True, on_state reset h, st)
      | Unloaded \<Rightarrow> (True, h, st))"

definition finishReload :: "ModelHandle \<Rightarrow> ModelHandle \<Rightarrow> bool \<times> ModelHandle" where
  "finishReload h nxt =
     (if current nxt \<noteq> Ready then
        let h1 = h\<lparr>mh_load_error := mh_load_error nxt\<rparr>
        in (False, if current h1 = Unloaded then on_state markFailed (on_state startLoad h1) else h1)
      else
        let h1 = h\<lparr>mh_name := mh_name nxt, mh_versions := mh_versions nxt, mh_metadata := mh_metadata nxt,
                   mh_scheduler := mh_scheduler nxt, mh_load_error := None\<rparr>
        in (True,
            if current h1 \<noteq> Ready
            then on_state markReady (on_state startLoad
                   (if current h1 \<noteq> Unloaded then on_state reset h1 else h1))
            else h1))"

definition lifecycle_reload ::
  "(string \<Rightarrow> BackendKind) \<Rightarrow> time_point \<Rightarrow> RuntimeConfig \<Rightarrow> ExecutorFactory \<Rightarrow> string option \<Rightarrow>
     ModelHandle \<Rightarrow> SchedulerStore \<Rightarrow> bool \<times> ModelHandle \<times> SchedulerStore" where
  "lifecycle_reload kind_of now config factory version_override h st =
     (let (ok, h1, st1) = beginReload h st in
      if \<not> ok then (False, h1, st1)
      else let (nxt, st2) = load kind_of now config factory version_override new_handle st1;
               (ok2, h2) = finishReload h1 nxt
           in (ok2, h2, st2))"

section \<open>Lemmas\<close>

lemma on_state_frame [simp]:
  "mh_name (on_state f h) = mh_name h" "mh_versions (on_state f h) = mh_versions h"
  "mh_metadata (on_state f h) = mh_metadata h" "mh_scheduler (on_state f h) = mh_scheduler h"
  "mh_load_error (on_state f h) = mh_load_error h"
  by (simp_all add: on_state_def)

lemma current_transition: "sm_state (snd (transitionTo t m)) = (if isValidTransition (sm_state m) t then t else sm_state m)"
  by (simp add: transitionTo_def notify_def Let_def)

lemma current_on_state [simp]:
  "current (on_state startLoad h) = (if current h = Unloaded then Loading else current h)"
  "current (on_state markReady h) = (if current h \<in> {Loading, Unavailable} then Ready else current h)"
  "current (on_state markFailed h) = (if current h = Loading then Failed else current h)"
  "current (on_state beginUnload h) = (if current h = Ready then Unloading else current h)"
  "current (on_state reset h) = (if current h \<in> {Unloading, Failed, Unavailable} then Unloaded else current h)"
  by (cases "current h"; simp add: on_state_def startLoad_def markReady_def markFailed_def beginUnload_def
      reset_def current_transition)+

lemma completeUnload_sm_Unloading:
  "sm_state m = Unloading \<Longrightarrow> \<exists>m'. completeUnload_sm m = (True, m') \<and> sm_state m' = Unloaded"
  by (simp add: completeUnload_sm_def transitionTo_def notify_def Let_def)

lemma markLoadFailed_simps [simp]:
  "mh_scheduler (markLoadFailed config message h) = None"
  "mh_load_error (markLoadFailed config message h) = Some message"
  "current (markLoadFailed config message h) = (if current h = Loading then Failed else current h)"
  by (simp_all add: markLoadFailed_def Let_def)

lemma make_scheduler_ready: "make_scheduler kind_of now n config = Inr s \<Longrightarrow> sched_isReady s"
  by (auto simp: make_scheduler_def makeLlmScheduler_def makeModelScheduler_def core_isReady_def new_core_def
      SchedulerCore.extend_def split: if_splits)

lemma make_scheduler_total:
  "0 < n \<Longrightarrow> 0 < rc_kv_cache_slots config \<Longrightarrow> \<exists>s. make_scheduler kind_of now n config = Inr s"
  by (simp add: make_scheduler_def makeLlmScheduler_def makeModelScheduler_def llm_scheduler_config_def)

lemma build_executors_length:
  "build_executors factory config n es err = Executors es' \<Longrightarrow> length es' = length es + n"
  by (induction factory config n es err rule: build_executors.induct) (auto split: FactoryOutcome.splits)

text \<open>
  A load ends in one of two ways: failed, with a reason and without a scheduler, or ready, with a fresh
  scheduler at the end of the store. It never stays in \<open>Loading\<close> and never lets an exception through.
\<close>

lemma load_cases:
  assumes "load kind_of now config factory v h st = (h', st')" "current h = Unloaded"
  shows "current h' = Failed \<and> mh_scheduler h' = None \<and> mh_load_error h' \<noteq> None \<and> st' = st \<or>
    current h' = Ready \<and> mh_scheduler h' = Some (length st) \<and> mh_load_error h' = None \<and>
    (\<exists>s. st' = st @ [s] \<and> sched_isReady s)"
  using assms
  by (auto simp: load_def Let_def make_scheduler_ready split: if_splits BuildResult.splits list.splits sum.splits)

lemma new_handle_simps [simp]: "current new_handle = Unloaded" "mh_scheduler new_handle = None"
  by (simp_all add: new_handle_def newStateMachine_def)

lemmas load_new = load_cases [where h = new_handle, simplified]

lemma isReady_stopAccepting [simp]: "\<not> sched_isReady (sched_stopAccepting s)"
  by (cases s) (simp_all add: core_isReady_def core_stopAccepting_def)

lemma length_at_scheduler [simp]: "length (at_scheduler f p st) = length st"
  by (simp add: at_scheduler_def)

lemma at_scheduler_nth: "q < length st \<Longrightarrow> at_scheduler f p st ! q = (if q = p then f (st ! p) else st ! q)"
  by (simp add: at_scheduler_def nth_list_update)

subsection \<open>Well-formed handles\<close>

text \<open>
  A handle has a scheduler exactly while it is \<open>Ready\<close> or \<open>Unloading\<close>, the pointer is valid, the state
  \<open>Unavailable\<close> does not occur, and a failed handle says why.
\<close>

definition handle_ok :: "nat \<Rightarrow> ModelHandle \<Rightarrow> bool" where
  "handle_ok n h \<longleftrightarrow>
     (mh_scheduler h \<noteq> None \<longleftrightarrow> current h = Ready \<or> current h = Unloading) \<and>
     (\<forall>p. mh_scheduler h = Some p \<longrightarrow> p < n) \<and> current h \<noteq> Unavailable \<and>
     (current h = Failed \<longrightarrow> mh_load_error h \<noteq> None)"

lemma handle_ok_mono: "handle_ok n h \<Longrightarrow> n \<le> m \<Longrightarrow> handle_ok m h"
  by (auto simp: handle_ok_def)

lemma handle_ok_load:
  assumes "load kind_of now config factory v new_handle st = (h, st')"
  shows "handle_ok (length st') h" "length st \<le> length st'" "current h \<noteq> Loading" "current h \<noteq> Unloaded"
  using load_new [OF assms] by (auto simp: handle_ok_def)

lemma handle_ok_beginDrain:
  assumes "lifecycle_beginDrain h st = (b, h', st')" "handle_ok n h"
  shows "handle_ok n h'" "length st' = length st" "mh_scheduler h' = mh_scheduler h"
    "b \<longleftrightarrow> mh_scheduler h \<noteq> None" "b \<Longrightarrow> current h' = Unloading"
  using assms by (auto simp: lifecycle_beginDrain_def handle_ok_def split: option.splits if_splits)

lemma completeUnload_cases:
  assumes "lifecycle_completeUnload h st = (b, retired, h', st')"
  shows "\<not> b \<and> current h \<noteq> Unloading \<and> retired = None \<and> h' = h \<and> st' = st \<or>
    b \<and> current h = Unloading \<and> retired = mh_scheduler h \<and> current h' = Unloaded \<and> mh_scheduler h' = None \<and>
    mh_load_error h' = None \<and>
    st' = (case mh_scheduler h of None \<Rightarrow> st | Some p \<Rightarrow> at_scheduler sched_stopAccepting p st)"
proof (cases "current h = Unloading")
  case True
  from completeUnload_sm_Unloading [OF True] obtain m where "completeUnload_sm (mh_state h) = (True, m)"
    "sm_state m = Unloaded" by auto
  with assms True show ?thesis by (auto simp: lifecycle_completeUnload_def Let_def)
next
  case False
  with assms show ?thesis by (auto simp: lifecycle_completeUnload_def)
qed

lemma beginReload_cases:
  assumes "beginReload h st = (b, h', st')" "handle_ok n h"
  shows "handle_ok n h'" "length st' = length st" "b \<longleftrightarrow> current h \<noteq> Loading" "\<not> b \<Longrightarrow> h' = h \<and> st' = st"
    "b \<Longrightarrow> current h' = Ready \<or> current h' = Unloaded"
    "current h = Ready \<Longrightarrow> h' = h \<and> st' = st"
    "mh_scheduler h' = None \<or> mh_scheduler h' = mh_scheduler h"
proof -
  show "handle_ok n h'" "length st' = length st" "b \<longleftrightarrow> current h \<noteq> Loading" "\<not> b \<Longrightarrow> h' = h \<and> st' = st"
    "b \<Longrightarrow> current h' = Ready \<or> current h' = Unloaded" "current h = Ready \<Longrightarrow> h' = h \<and> st' = st"
    "mh_scheduler h' = None \<or> mh_scheduler h' = mh_scheduler h"
    using assms completeUnload_cases [of h st]
    by (cases "current h"; auto simp: beginReload_def handle_ok_def split: prod.splits option.splits)+
qed

lemma beginReload_store:
  assumes "beginReload h st = (b, h', st')"
  shows "st' = st \<or> (\<exists>p. mh_scheduler h = Some p \<and> st' = at_scheduler sched_stopAccepting p st)"
    "current h' = Ready \<Longrightarrow> current h = Ready"
  using assms completeUnload_cases [of h st]
  by (cases "current h"; auto simp: beginReload_def split: prod.splits option.splits)+

lemma finishReload_failed:
  assumes "finishReload h nxt = (b, h')" "current nxt \<noteq> Ready"
  shows "\<not> b" "mh_load_error h' = mh_load_error nxt" "mh_scheduler h' = mh_scheduler h"
    "mh_name h' = mh_name h" "mh_versions h' = mh_versions h" "mh_metadata h' = mh_metadata h"
    "current h' = (if current h = Unloaded then Failed else current h)"
  using assms by (auto simp: finishReload_def Let_def)

lemma finishReload_ready:
  assumes "finishReload h nxt = (b, h')" "current nxt = Ready" "current h = Ready \<or> current h = Unloaded"
  shows "b" "mh_load_error h' = None" "mh_scheduler h' = mh_scheduler nxt" "current h' = Ready"
    "mh_name h' = mh_name nxt" "mh_versions h' = mh_versions nxt" "mh_metadata h' = mh_metadata nxt"
  using assms by (auto simp: finishReload_def Let_def)

section \<open>Properties\<close>

text \<open>
  (C37) Loading is total: whatever the factory does (build, return null, throw), a load of an unloaded
  handle ends either ready, with a scheduler that accepts requests, or failed, with a reason recorded and
  no scheduler. It never stays in the loading state.
\<close>

theorem load_settles:
  assumes "load kind_of now config factory v h st = (h', st')" "current h = Unloaded"
  shows "handle_isReady st' h' \<and> mh_load_error h' = None \<or>
    current h' = Failed \<and> mh_scheduler h' = None \<and> mh_load_error h' \<noteq> None \<and> st' = st"
  using load_cases [OF assms] by (auto simp: handle_isReady_def)

definition stub_factory :: ExecutorFactory where
  "stub_factory i config err = makeStubExecutor (\<lambda>_. TensorKind) config err"

definition broken_factory :: ExecutorFactory where
  "broken_factory i config err = FactoryThrows ''bad model''"

theorem load_settles_witness:
  "current (fst (load (\<lambda>_. TensorKind) 0 default_config broken_factory None new_handle [])) = Failed"
  using load_settles [of "\<lambda>_. TensorKind" 0 default_config broken_factory None new_handle "[]"]
  by (simp add: load_def broken_factory_def default_config_def vector_max_size_def handle_isReady_def Let_def)

text \<open>
  A configuration the parser accepts always gives a working scheduler: with a factory that builds
  an executor for every instance, loading ends ready, unless the configuration asks for more instances
  than a vector can hold.
\<close>

theorem valid_config_loads:
  assumes "config_valid config" "rc_instances config \<le> vector_max_size"
    and "\<And>i err. \<exists>e err'. factory i config err = Built e err'"
    and "load kind_of now config factory v new_handle st = (h, st')"
  shows "handle_isReady st' h"
proof -
  have "\<exists>es. build_executors factory config n es0 err = Executors es" for n es0 err
  proof (induction n arbitrary: es0 err)
    case 0
    then show ?case by simp
  next
    case (Suc n)
    from assms(3) [of "length es0" err] obtain e err' where "factory (length es0) config err = Built e err'" by blast
    with Suc show ?case by simp
  qed
  then obtain es where es: "build_executors factory config (rc_instances config) [] [] = Executors es" by blast
  from build_executors_length [OF es] assms(1) obtain front rest where "es = front # rest"
    by (cases es) (auto simp: config_valid_def)
  moreover from assms(1) have "0 < rc_kv_cache_slots config" by (simp add: config_valid_def options_ok_def)
  then obtain s where "make_scheduler kind_of now (length (front # rest)) config = Inr s"
    using make_scheduler_total [of "length (front # rest)" config kind_of now] by auto
  ultimately have "current h = Ready" using assms(2,4) es by (auto simp: load_def Let_def split: option.splits)
  with load_new [OF assms(4)] show ?thesis by (auto simp: handle_isReady_def)
qed

theorem valid_config_loads_witness:
  "handle_isReady (snd (load (\<lambda>_. TensorKind) 0 default_config stub_factory None new_handle []))
     (fst (load (\<lambda>_. TensorKind) 0 default_config stub_factory None new_handle []))"
proof -
  have "config_valid default_config"
    by (simp add: config_valid_def options_ok_def default_config_def)
  moreover have "rc_instances default_config \<le> vector_max_size"
    by (simp add: default_config_def vector_max_size_def)
  moreover have "\<exists>e err'. stub_factory i default_config err = Built e err'" for i err
    by (simp add: stub_factory_def makeStubExecutor_def Let_def)
  ultimately show ?thesis by (rule valid_config_loads) simp
qed

end
