(* ===== verification/Registry.thy ===== *)
theory Registry
  imports Lifecycle
begin

text \<open>
  \<open>ModelRegistry.cpp\<close> and \<open>SchedulerRetireQueue.cpp\<close>: the models of the server and the calls that load,
  reload, switch and unload them.

  A call that builds executors with the registry lock released is two definitions, one for each of its
  critical sections: \<open>loadModel_begin\<close>/\<open>loadModel_finish\<close> and so on. The first decides what the call does:
  return, join another caller's load, wait for a reload and retry, or build. The calls as a whole, as a
  single thread makes them, are \<open>loadModel\<close>, \<open>reload\<close>, \<open>switchVersion\<close> and \<open>unloadModel\<close>.
\<close>

section \<open>State\<close>

record ModelSlot =
  sl_handle :: ModelHandle
  sl_config :: RuntimeConfig
  sl_active_snapshot :: "InferSnapshot option"
  sl_version_snapshots :: "(string \<times> InferSnapshot) list"
  sl_reload_pending :: bool

text \<open>
  \<open>rg_schedulers\<close> is the store behind the scheduler pointers; \<open>rg_retiring\<close> holds the tasks of the retire
  queue, each with its scheduler and whether it has completed.
\<close>

record ModelRegistry =
  rg_models :: "(string \<times> ModelSlot) list"
  rg_catalog :: "(string \<times> RuntimeConfig) list"
  rg_retiring :: "(nat \<times> bool) list"
  rg_schedulers :: SchedulerStore
  rg_log_payloads :: bool
  rg_tokens_per_char :: double
  rg_repository_mode :: bool
  rg_explicit_control_mode :: bool

definition empty_registry :: "bool \<Rightarrow> bool \<Rightarrow> bool \<Rightarrow> double \<Rightarrow> ModelRegistry" where
  "empty_registry repository explicit_control log_payloads ratio =
     \<lparr>rg_models = [], rg_catalog = [], rg_retiring = [], rg_schedulers = [], rg_log_payloads = log_payloads,
      rg_tokens_per_char = ratio, rg_repository_mode = repository, rg_explicit_control_mode = explicit_control\<rparr>"

definition findSlot :: "'a ModelRegistry_scheme \<Rightarrow> string \<Rightarrow> ModelSlot option" where
  "findSlot r model_name = map_of (rg_models r) model_name"

definition set_slot :: "string \<Rightarrow> ModelSlot \<Rightarrow> 'a ModelRegistry_scheme \<Rightarrow> 'a ModelRegistry_scheme" where
  "set_slot model_name slot r = r\<lparr>rg_models := AList.update model_name slot (rg_models r)\<rparr>"

definition erase_slot :: "string \<Rightarrow> 'a ModelRegistry_scheme \<Rightarrow> 'a ModelRegistry_scheme" where
  "erase_slot model_name r = r\<lparr>rg_models := AList.delete model_name (rg_models r)\<rparr>"

definition publishSnapshot :: "ModelSlot \<Rightarrow> ModelSlot" where
  "publishSnapshot slot = slot\<lparr>sl_active_snapshot := Some (fromHandle (sl_handle slot))\<rparr>"

definition versionFromSnapshot :: "InferSnapshot option \<Rightarrow> string" where
  "versionFromSnapshot snap =
     (case snap of
        None \<Rightarrow> []
      | Some n \<Rightarrow> (case mm_versions (sn_metadata n) of
                     v # _ \<Rightarrow> v
                   | [] \<Rightarrow> (case sn_versions n of v # _ \<Rightarrow> v | [] \<Rightarrow> [])))"

definition isPipelineConfig :: "RuntimeConfig \<Rightarrow> bool" where
  "isPipelineConfig config \<longleftrightarrow> rc_backend config = pipelineBackendId"

section \<open>SchedulerRetireQueue.cpp\<close>

definition pruneCompleted :: "(nat \<times> bool) list \<Rightarrow> (nat \<times> bool) list" where
  "pruneCompleted pending = filter (\<lambda>t. \<not> snd t) pending"

definition retire :: "nat option \<Rightarrow> 'a ModelRegistry_scheme \<Rightarrow> 'a ModelRegistry_scheme" where
  "retire scheduler r =
     (case scheduler of
        None \<Rightarrow> r
      | Some p \<Rightarrow> r\<lparr>rg_retiring := pruneCompleted (rg_retiring r @ [(p, False)])\<rparr>)"

definition pendingCount :: "'a ModelRegistry_scheme \<Rightarrow> nat" where
  "pendingCount r = length (pruneCompleted (rg_retiring r))"

definition retireSnapshot :: "InferSnapshot option \<Rightarrow> 'a ModelRegistry_scheme \<Rightarrow> 'a ModelRegistry_scheme" where
  "retireSnapshot snap r = (case snap of None \<Rightarrow> r | Some n \<Rightarrow> retire (sn_scheduler n) r)"

section \<open>Lookups\<close>

definition findHandle :: "'a ModelRegistry_scheme \<Rightarrow> string \<Rightarrow> InferSnapshot option" where
  "findHandle r model_name = Option.bind (findSlot r model_name) sl_active_snapshot"

definition findHandleVersion :: "'a ModelRegistry_scheme \<Rightarrow> string \<Rightarrow> string \<Rightarrow> InferSnapshot option" where
  "findHandleVersion r model_name version =
     (case findSlot r model_name of
        None \<Rightarrow> None
      | Some slot \<Rightarrow>
          (case map_of (sl_version_snapshots slot) version of
             Some n \<Rightarrow> Some n
           | None \<Rightarrow>
               (case sl_active_snapshot slot of
                  None \<Rightarrow> None
                | Some n \<Rightarrow>
                    let known_versions = (if mm_versions (sn_metadata n) = [] then sn_versions n
                                          else mm_versions (sn_metadata n))
                    in if version \<in> set known_versions then Some n else None)))"

definition find_model :: "'a ModelRegistry_scheme \<Rightarrow> string \<Rightarrow> ModelMetadata option" where
  "find_model r model_name = map_option sn_metadata (findHandle r model_name)"

definition findVersion :: "'a ModelRegistry_scheme \<Rightarrow> string \<Rightarrow> string \<Rightarrow> ModelMetadata option" where
  "findVersion r model_name version = map_option sn_metadata (findHandleVersion r model_name version)"

definition ready :: "'a ModelRegistry_scheme \<Rightarrow> string \<Rightarrow> bool" where
  "ready r model_name \<longleftrightarrow>
     (case findHandle r model_name of None \<Rightarrow> False | Some n \<Rightarrow> snapshot_isReady (rg_schedulers r) n)"

definition readyVersion :: "'a ModelRegistry_scheme \<Rightarrow> string \<Rightarrow> string \<Rightarrow> bool" where
  "readyVersion r model_name version \<longleftrightarrow>
     (case findHandleVersion r model_name version of None \<Rightarrow> False | Some n \<Rightarrow> snapshot_isReady (rg_schedulers r) n)"

text \<open>The loop of \<open>allReady\<close>; the first argument is \<open>any_counted\<close>.\<close>

fun all_ready_scan :: "bool \<Rightarrow> 'a ModelRegistry_scheme \<Rightarrow> (string \<times> ModelSlot) list \<Rightarrow> bool" where
  "all_ready_scan any_counted r [] = (any_counted \<or> rg_explicit_control_mode r)"
| "all_ready_scan any_counted r ((name, slot) # rest) =
     (case sl_active_snapshot slot of
        None \<Rightarrow> False
      | Some n \<Rightarrow>
          if sn_state n = Loading then all_ready_scan any_counted r rest
          else if rg_repository_mode r \<and> sn_state n = Failed then all_ready_scan any_counted r rest
          else if \<not> snapshot_isReady (rg_schedulers r) n then False
          else all_ready_scan True r rest)"

definition allReady :: "'a ModelRegistry_scheme \<Rightarrow> bool" where
  "allReady r \<longleftrightarrow>
     (if rg_models r = [] then rg_explicit_control_mode r else all_ready_scan False r (rg_models r))"

definition loadOrReloadInProgress :: "'a ModelRegistry_scheme \<Rightarrow> string \<Rightarrow> bool" where
  "loadOrReloadInProgress r model_name \<longleftrightarrow>
     (case findSlot r model_name of
        None \<Rightarrow> False
      | Some slot \<Rightarrow> sl_reload_pending slot \<or> current (sl_handle slot) = Loading)"

definition modelConfig :: "'a ModelRegistry_scheme \<Rightarrow> string \<Rightarrow> RuntimeConfig option" where
  "modelConfig r model_name = map_option sl_config (findSlot r model_name)"

definition defaultVersion :: "'a ModelRegistry_scheme \<Rightarrow> string \<Rightarrow> string option" where
  "defaultVersion r model_name =
     (case findHandle r model_name of
        None \<Rightarrow> None
      | Some n \<Rightarrow> (case mm_versions (sn_metadata n) of
                     v # _ \<Rightarrow> Some v
                   | [] \<Rightarrow> (case sn_versions n of v # _ \<Rightarrow> Some v | [] \<Rightarrow> None)))"

definition schedulerMetrics :: "'a ModelRegistry_scheme \<Rightarrow> string \<Rightarrow> SchedulerMetricsSnapshot" where
  "schedulerMetrics r model_name =
     (case Option.bind (findHandle r model_name) sn_scheduler of
        None \<Rightarrow> zero_metrics
      | Some p \<Rightarrow> sched_metrics (rg_schedulers r ! p))"

definition listModels :: "'a ModelRegistry_scheme \<Rightarrow> string list" where
  "listModels r = map fst (rg_models r)"

definition modelName :: "'a ModelRegistry_scheme \<Rightarrow> string" where
  "modelName r = (case rg_models r of [] \<Rightarrow> [] | (name, _) # _ \<Rightarrow> name)"

definition setRepositoryCatalog :: "RuntimeConfig list \<Rightarrow> 'a ModelRegistry_scheme \<Rightarrow> 'a ModelRegistry_scheme" where
  "setRepositoryCatalog configs r =
     r\<lparr>rg_catalog := fold (\<lambda>config m. snd (emplace (rc_model_name config) config m)) configs []\<rparr>"

definition catalogModels :: "'a ModelRegistry_scheme \<Rightarrow> string list" where
  "catalogModels r = map fst (rg_catalog r)"

definition catalogConfig :: "'a ModelRegistry_scheme \<Rightarrow> string \<Rightarrow> RuntimeConfig option" where
  "catalogConfig r model_name = map_of (rg_catalog r) model_name"

section \<open>Loading\<close>

datatype Decision = Return bool | JoinLoad | AwaitReload | Build

text \<open>The version a configuration pins.\<close>

definition pinned_version :: "RuntimeConfig \<Rightarrow> string option" where
  "pinned_version config =
     (if rc_model_version_explicit config \<and> rc_model_version config \<noteq> [] then Some (rc_model_version config) else None)"

definition placeholder :: "RuntimeConfig \<Rightarrow> ModelSlot" where
  "placeholder config =
     \<lparr>sl_handle = on_state startLoad (new_handle\<lparr>mh_name := rc_model_name config\<rparr>), sl_config = config,
      sl_active_snapshot = None, sl_version_snapshots = [], sl_reload_pending = False\<rparr>"

definition loadModel_begin :: "RuntimeConfig \<Rightarrow> 'a ModelRegistry_scheme \<Rightarrow> Decision \<times> 'a ModelRegistry_scheme" where
  "loadModel_begin config r =
     (case findSlot r (rc_model_name config) of
        Some existing \<Rightarrow> (if current (sl_handle existing) \<noteq> Loading then Return False else JoinLoad, r)
      | None \<Rightarrow> (Build, set_slot (rc_model_name config) (publishSnapshot (placeholder config)) r))"

text \<open>The end of a call that joined a load: \<open>None\<close> while it waits.\<close>

definition join_result :: "string \<Rightarrow> 'a ModelRegistry_scheme \<Rightarrow> bool option" where
  "join_result model_name r =
     (case findSlot r model_name of
        None \<Rightarrow> Some False
      | Some slot \<Rightarrow> if current (sl_handle slot) = Loading then None
                     else Some (handle_isReady (rg_schedulers r) (sl_handle slot)))"

definition loadModel_finish ::
  "(string \<Rightarrow> BackendKind) \<Rightarrow> time_point \<Rightarrow> ExecutorFactory \<Rightarrow> RuntimeConfig \<Rightarrow>
     'a ModelRegistry_scheme \<Rightarrow> bool \<times> 'a ModelRegistry_scheme" where
  "loadModel_finish kind_of now factory config r =
     (let (built, st) = load kind_of now config factory (pinned_version config) new_handle (rg_schedulers r);
          r1 = r\<lparr>rg_schedulers := st\<rparr>
      in case findSlot r1 (rc_model_name config) of
           None \<Rightarrow> (False, r1)
         | Some slot \<Rightarrow>
             (True, set_slot (rc_model_name config)
                      (publishSnapshot (slot\<lparr>sl_config := config, sl_handle := built\<rparr>)) r1))"

text \<open>The destructor of a \<open>PendingLoadGuard\<close> that was not committed.\<close>

definition guard_release :: "string \<Rightarrow> 'a ModelRegistry_scheme \<Rightarrow> 'a ModelRegistry_scheme" where
  "guard_release model_name r =
     (case findSlot r model_name of
        None \<Rightarrow> r
      | Some slot \<Rightarrow>
          if current (sl_handle slot) = Loading \<and> \<not> sl_reload_pending slot
          then set_slot model_name (publishSnapshot (slot\<lparr>sl_handle :=
                 (on_state markFailed (sl_handle slot))\<lparr>mh_load_error := Some ''executor build threw''\<rparr>\<rparr>)) r
          else if sl_reload_pending slot
          then set_slot model_name (publishSnapshot (slot\<lparr>sl_reload_pending := False, sl_handle :=
                 (sl_handle slot)\<lparr>mh_load_error := Some ''executor build threw''\<rparr>\<rparr>)) r
          else r)"

section \<open>Reloading and switching versions\<close>

definition begin_build :: "string \<Rightarrow> ModelSlot \<Rightarrow> 'a ModelRegistry_scheme \<Rightarrow> Decision \<times> 'a ModelRegistry_scheme" where
  "begin_build model_name slot r =
     (if current (sl_handle slot) = Loading \<and> \<not> sl_reload_pending slot then (JoinLoad, r)
      else if sl_reload_pending slot then (AwaitReload, r)
      else let (ok, h, st) = beginReload (sl_handle slot) (rg_schedulers r);
               r1 = r\<lparr>rg_schedulers := st\<rparr>
           in if \<not> ok then (Return False, set_slot model_name (slot\<lparr>sl_handle := h\<rparr>) r1)
              else (Build, set_slot model_name (slot\<lparr>sl_handle := h, sl_reload_pending := True\<rparr>) r1))"

definition reload_begin :: "string \<Rightarrow> 'a ModelRegistry_scheme \<Rightarrow> Decision \<times> 'a ModelRegistry_scheme" where
  "reload_begin model_name r =
     (case findSlot r model_name of None \<Rightarrow> (Return False, r) | Some slot \<Rightarrow> begin_build model_name slot r)"

definition reload_finish ::
  "(string \<Rightarrow> BackendKind) \<Rightarrow> time_point \<Rightarrow> ExecutorFactory \<Rightarrow> string \<Rightarrow> RuntimeConfig \<Rightarrow>
     'a ModelRegistry_scheme \<Rightarrow> bool \<times> 'a ModelRegistry_scheme" where
  "reload_finish kind_of now factory model_name config r =
     (let (nxt, st) = load kind_of now config factory (pinned_version config) new_handle (rg_schedulers r);
          r1 = r\<lparr>rg_schedulers := st\<rparr>
      in case findSlot r1 model_name of
           None \<Rightarrow> (False, r1)
         | Some slot \<Rightarrow>
             (let (success, h) = finishReload (sl_handle slot) nxt;
                  slot1 = slot\<lparr>sl_reload_pending := False, sl_handle := h\<rparr>;
                  slot2 = publishSnapshot (if success then slot1\<lparr>sl_config := config\<rparr> else slot1);
                  r2 = set_slot model_name slot2 r1
              in if \<not> success then (False, r2)
                 else (handle_isReady st h, retireSnapshot (sl_active_snapshot slot) r2)))"

definition switchVersion_begin ::
  "string \<Rightarrow> string \<Rightarrow> 'a ModelRegistry_scheme \<Rightarrow> Decision \<times> 'a ModelRegistry_scheme" where
  "switchVersion_begin model_name version r =
     (case findSlot r model_name of
        None \<Rightarrow> (Return False, r)
      | Some slot \<Rightarrow>
          if versionFromSnapshot (sl_active_snapshot slot) = version \<and>
             (case sl_active_snapshot slot of None \<Rightarrow> False | Some n \<Rightarrow> snapshot_isReady (rg_schedulers r) n)
          then (Return True, r)
          else begin_build model_name slot r)"

definition remember_version :: "InferSnapshot option \<Rightarrow> ModelSlot \<Rightarrow> ModelSlot" where
  "remember_version snap slot =
     (case snap of
        None \<Rightarrow> slot
      | Some n \<Rightarrow>
          if versionFromSnapshot snap = [] then slot
          else slot\<lparr>sl_version_snapshots := AList.update (versionFromSnapshot snap) n (sl_version_snapshots slot)\<rparr>)"

definition version_config :: "string \<Rightarrow> string \<Rightarrow> RuntimeConfig \<Rightarrow> RuntimeConfig" where
  "version_config model_name version config = config\<lparr>rc_model_name := model_name, rc_model_version := version\<rparr>"

definition switchVersion_finish ::
  "(string \<Rightarrow> BackendKind) \<Rightarrow> time_point \<Rightarrow> ExecutorFactory \<Rightarrow> string \<Rightarrow> string \<Rightarrow> RuntimeConfig \<Rightarrow>
     'a ModelRegistry_scheme \<Rightarrow> bool \<times> 'a ModelRegistry_scheme" where
  "switchVersion_finish kind_of now factory model_name version config r =
     (let vc = version_config model_name version config;
          (nxt, st) = load kind_of now vc factory (Some version) new_handle (rg_schedulers r);
          r1 = r\<lparr>rg_schedulers := st\<rparr>
      in case findSlot r1 model_name of
           None \<Rightarrow> (False, r1)
         | Some slot \<Rightarrow>
             (let old_snapshot = sl_active_snapshot slot;
                  (success, h) = finishReload (sl_handle slot) nxt;
                  slot1 = slot\<lparr>sl_reload_pending := False, sl_handle := h\<rparr>
              in if \<not> success then (False, set_slot model_name (publishSnapshot slot1) r1)
                 else
                   let slot2 = publishSnapshot (slot1\<lparr>sl_config := vc\<rparr>);
                       new_snapshot = sl_active_snapshot slot2;
                       slot3 = remember_version new_snapshot (remember_version old_snapshot slot2)
                   in (case new_snapshot of None \<Rightarrow> False | Some n \<Rightarrow> snapshot_isReady st n,
                       retireSnapshot old_snapshot (set_slot model_name slot3 r1))))"

section \<open>Draining and unloading\<close>

definition registry_beginDrain :: "string \<Rightarrow> 'a ModelRegistry_scheme \<Rightarrow> bool \<times> 'a ModelRegistry_scheme" where
  "registry_beginDrain model_name r =
     (case findSlot r model_name of
        None \<Rightarrow> (False, r)
      | Some slot \<Rightarrow>
          if sl_reload_pending slot then (False, r)
          else
            (let (ok, h, st) = lifecycle_beginDrain (sl_handle slot) (rg_schedulers r) in
             if \<not> ok then (False, r)
             else (True, set_slot model_name (publishSnapshot (slot\<lparr>sl_handle := h\<rparr>)) (r\<lparr>rg_schedulers := st\<rparr>))))"

definition registry_completeUnload :: "string \<Rightarrow> 'a ModelRegistry_scheme \<Rightarrow> bool \<times> 'a ModelRegistry_scheme" where
  "registry_completeUnload model_name r =
     (case findSlot r model_name of
        None \<Rightarrow> (False, r)
      | Some slot \<Rightarrow>
          (let (ok, retired, h, st) = lifecycle_completeUnload (sl_handle slot) (rg_schedulers r) in
           if \<not> ok then (False, r)
           else (True, erase_slot model_name (retire retired (r\<lparr>rg_schedulers := st\<rparr>)))))"

text \<open>The first critical section of \<open>unloadModel\<close>: \<open>None\<close> when it goes on to drain.\<close>

definition unloadModel_check :: "string \<Rightarrow> 'a ModelRegistry_scheme \<Rightarrow> bool option \<times> 'a ModelRegistry_scheme" where
  "unloadModel_check model_name r =
     (case findSlot r model_name of
        None \<Rightarrow> (Some False, r)
      | Some slot \<Rightarrow>
          if sl_reload_pending slot \<or> current (sl_handle slot) = Loading then (Some False, r)
          else if current (sl_handle slot) = Failed \<and> mh_scheduler (sl_handle slot) = None
          then (Some True, erase_slot model_name r)
          else (None, r))"

definition unloadModel :: "string \<Rightarrow> 'a ModelRegistry_scheme \<Rightarrow> bool \<times> 'a ModelRegistry_scheme" where
  "unloadModel model_name r =
     (case unloadModel_check model_name r of
        (Some b, r1) \<Rightarrow> (b, r1)
      | (None, r1) \<Rightarrow>
          (let (ok, r2) = registry_beginDrain model_name r1 in
           if \<not> ok then (False, r2) else registry_completeUnload model_name r2))"

section \<open>Calls as a whole\<close>

text \<open>
  A call whose critical sections follow one another; \<open>None\<close> when it would wait for another thread.
\<close>

definition run_call ::
  "Decision \<times> 'r \<Rightarrow> ('r \<Rightarrow> bool \<times> 'r) \<Rightarrow> (bool \<times> 'r) option" where
  "run_call begun build =
     (case begun of
        (Return b, r) \<Rightarrow> Some (b, r)
      | (Build, r) \<Rightarrow> Some (build r)
      | _ \<Rightarrow> None)"

definition loadModel ::
  "(string \<Rightarrow> BackendKind) \<Rightarrow> time_point \<Rightarrow> ExecutorFactory \<Rightarrow> RuntimeConfig \<Rightarrow>
     'a ModelRegistry_scheme \<Rightarrow> (bool \<times> 'a ModelRegistry_scheme) option" where
  "loadModel kind_of now factory config r =
     run_call (loadModel_begin config r) (loadModel_finish kind_of now factory config)"

definition reload ::
  "(string \<Rightarrow> BackendKind) \<Rightarrow> time_point \<Rightarrow> ExecutorFactory \<Rightarrow> string \<Rightarrow> RuntimeConfig \<Rightarrow>
     'a ModelRegistry_scheme \<Rightarrow> (bool \<times> 'a ModelRegistry_scheme) option" where
  "reload kind_of now factory model_name config r =
     run_call (reload_begin model_name r) (reload_finish kind_of now factory model_name config)"

definition switchVersion ::
  "(string \<Rightarrow> BackendKind) \<Rightarrow> time_point \<Rightarrow> ExecutorFactory \<Rightarrow> string \<Rightarrow> string \<Rightarrow> RuntimeConfig \<Rightarrow>
     'a ModelRegistry_scheme \<Rightarrow> (bool \<times> 'a ModelRegistry_scheme) option" where
  "switchVersion kind_of now factory model_name version config r =
     run_call (switchVersion_begin model_name version r)
       (switchVersion_finish kind_of now factory model_name version config)"

subsection \<open>Factories\<close>

text \<open>
  \<open>makePipelineFactory\<close> builds its executors before the registry lock is taken. \<open>mk\<close> is
  \<open>makePipelineExecutor\<close> with the registry's lookup as its resolver; an exception of it leaves the call.
\<close>

definition resolve_step :: "'a ModelRegistry_scheme \<Rightarrow> string \<Rightarrow> string \<Rightarrow> InferSnapshot option" where
  "resolve_step r model_name model_version =
     (if model_version = [] then findHandle r model_name else findHandleVersion r model_name model_version)"

fun prebuild :: "(string \<Rightarrow> FactoryOutcome) \<Rightarrow> nat \<Rightarrow> Executor list \<Rightarrow> string \<Rightarrow> (Executor list \<times> string) Call" where
  "prebuild mk 0 executors err = Returns (executors, err)"
| "prebuild mk (Suc n) executors err =
     (case mk err of
        Built e err' \<Rightarrow> prebuild mk n (executors @ [e]) err'
      | NoExecutor err' \<Rightarrow> Returns (executors, err')
      | FactoryThrows m \<Rightarrow> Throws m
      | FactoryThrowsOther \<Rightarrow> ThrowsOther)"

definition makePipelineFactory ::
  "(RuntimeConfig \<Rightarrow> (string \<Rightarrow> string \<Rightarrow> InferSnapshot option) \<Rightarrow> string \<Rightarrow> FactoryOutcome) \<Rightarrow>
     RuntimeConfig \<Rightarrow> 'a ModelRegistry_scheme \<Rightarrow> ExecutorFactory Call" where
  "makePipelineFactory mk config r =
     (case prebuild (mk config (resolve_step r)) (max (rc_instances config) 1) [] [] of
        Returns (prebuilt, build_error) \<Rightarrow>
          Returns (\<lambda>i _ err. if i \<ge> length prebuilt
            then NoExecutor (if build_error = [] then ''pipeline executor unavailable'' else build_error)
            else Built (prebuilt ! i) err)
      | Throws m \<Rightarrow> Throws m
      | ThrowsOther \<Rightarrow> ThrowsOther)"

definition factory_for ::
  "NeuriploLibrary \<Rightarrow> BackendRegistry \<Rightarrow>
     (RuntimeConfig \<Rightarrow> (string \<Rightarrow> string \<Rightarrow> InferSnapshot option) \<Rightarrow> string \<Rightarrow> FactoryOutcome) \<Rightarrow>
     RuntimeConfig \<Rightarrow> 'a ModelRegistry_scheme \<Rightarrow> ExecutorFactory Call" where
  "factory_for lib b mk config r =
     (if isPipelineConfig config then makePipelineFactory mk config r
      else Returns (\<lambda>_. defaultExecutorFactory lib b))"

subsection \<open>Constructors\<close>

text \<open>
  \<open>load_config\<close> is \<open>loadModel(config)\<close> on a registry no other thread uses yet, where nothing can be
  waited for. The single-model constructor loads its one model; the repository constructor loads the
  plain models before the pipelines, whose steps refer to them. The result is \<open>None\<close> when building a
  pipeline throws out of the constructor.
\<close>

definition load_config ::
  "NeuriploLibrary \<Rightarrow> BackendRegistry \<Rightarrow>
     (RuntimeConfig \<Rightarrow> (string \<Rightarrow> string \<Rightarrow> InferSnapshot option) \<Rightarrow> string \<Rightarrow> FactoryOutcome) \<Rightarrow>
     time_point \<Rightarrow> RuntimeConfig \<Rightarrow> 'a ModelRegistry_scheme option \<Rightarrow> 'a ModelRegistry_scheme option" where
  "load_config lib b mk now config reg =
     Option.bind reg (\<lambda>r.
       case factory_for lib b mk config r of
         Returns factory \<Rightarrow> map_option snd (loadModel (backendKind lib b) now factory config r)
       | _ \<Rightarrow> None)"

definition new_single_registry where
  "new_single_registry lib b mk now config =
     load_config lib b mk now config
       (Some (empty_registry False False (rc_log_payloads config) (rc_tokens_per_char config)))"

definition new_repository_registry where
  "new_repository_registry lib b mk now configs explicit_control defaults =
     (let front = (case configs of [] \<Rightarrow> defaults | c # _ \<Rightarrow> c);
          start = Some (empty_registry True explicit_control (rc_log_payloads front) (rc_tokens_per_char front));
          plain = fold (load_config lib b mk now) (filter (\<lambda>c. \<not> isPipelineConfig c) configs) start
      in fold (load_config lib b mk now) (filter isPipelineConfig configs) plain)"

end
