(* ===== verification/Registry_Inv.thy ===== *)
theory Registry_Inv
  imports Registry
begin

text \<open>
  Runs of the registry with any number of calls in flight, and the invariant of their states: who owns
  which scheduler, which snapshot is published, and which call will settle a slot that is being built.
\<close>

section \<open>Calls in flight\<close>

datatype Build = LoadBuild RuntimeConfig | ReloadBuild string RuntimeConfig | SwitchBuild string string RuntimeConfig

fun build_name :: "Build \<Rightarrow> string" where
  "build_name (LoadBuild config) = rc_model_name config"
| "build_name (ReloadBuild name config) = name"
| "build_name (SwitchBuild name version config) = name"

fun is_load :: "Build \<Rightarrow> bool" where
  "is_load (LoadBuild config) = True"
| "is_load _ = False"

fun build_begin :: "Build \<Rightarrow> 'a ModelRegistry_scheme \<Rightarrow> Decision \<times> 'a ModelRegistry_scheme" where
  "build_begin (LoadBuild config) r = loadModel_begin config r"
| "build_begin (ReloadBuild name config) r = reload_begin name r"
| "build_begin (SwitchBuild name version config) r = switchVersion_begin name version r"

fun build_finish ::
  "(string \<Rightarrow> BackendKind) \<Rightarrow> time_point \<Rightarrow> ExecutorFactory \<Rightarrow> Build \<Rightarrow> 'a ModelRegistry_scheme \<Rightarrow>
     bool \<times> 'a ModelRegistry_scheme" where
  "build_finish kind_of now factory (LoadBuild config) r = loadModel_finish kind_of now factory config r"
| "build_finish kind_of now factory (ReloadBuild name config) r = reload_finish kind_of now factory name config r"
| "build_finish kind_of now factory (SwitchBuild name version config) r =
     switchVersion_finish kind_of now factory name version config r"

record RegistryRun = ModelRegistry +
  rr_builds :: "Build list"

inductive sched_step :: "SchedulerObject \<Rightarrow> SchedulerObject \<Rightarrow> bool" where
  tensor_step: "ms_step s t \<Longrightarrow> sched_step (TensorScheduler s) (TensorScheduler t)"
| generation_step: "llm_step countTokens s t \<Longrightarrow> sched_step (GenerationScheduler s) (GenerationScheduler t)"

text \<open>
  One step: a critical section of a call, a call that is refused or waits, the guard of a build that
  threw, a task of the retire queue, or a step of a scheduler that neither stops nor drains it, since
  only the registry and the retire queue do that.
\<close>

inductive reg_step :: "RegistryRun \<Rightarrow> RegistryRun \<Rightarrow> bool" where
  reg_begin: "build_begin b r = (Build, t) \<Longrightarrow> reg_step r (t\<lparr>rr_builds := rr_builds r @ [b]\<rparr>)"
| reg_refuse: "build_begin b r = (d, t) \<Longrightarrow> d \<noteq> Build \<Longrightarrow> reg_step r t"
| reg_finish: "b \<in> set (rr_builds r) \<Longrightarrow> build_finish kind_of now factory b r = (res, t) \<Longrightarrow>
     reg_step r (t\<lparr>rr_builds := remove1 b (rr_builds r)\<rparr>)"
| reg_guard: "b \<in> set (rr_builds r) \<Longrightarrow>
     reg_step r ((guard_release (build_name b) r)\<lparr>rr_builds := remove1 b (rr_builds r)\<rparr>)"
| reg_unload_check: "unloadModel_check name r = (d, t) \<Longrightarrow> reg_step r t"
| reg_drain: "registry_beginDrain name r = (b, t) \<Longrightarrow> reg_step r t"
| reg_unload: "registry_completeUnload name r = (b, t) \<Longrightarrow> reg_step r t"
| reg_catalog: "reg_step r (setRepositoryCatalog configs r)"
| reg_retire_flag: "(p, False) \<in> set (rg_retiring r) \<Longrightarrow>
     reg_step r (r\<lparr>rg_schedulers := at_scheduler sched_beginDrain_flag p (rg_schedulers r)\<rparr>)"
| reg_retired: "(p, False) \<in> set (rg_retiring r) \<Longrightarrow> sched_beginDrain_joined (rg_schedulers r ! p) = Some s \<Longrightarrow>
     reg_step r (r\<lparr>rg_schedulers := (rg_schedulers r)[p := s],
       rg_retiring := map (\<lambda>t. if t = (p, False) then (p, True) else t) (rg_retiring r)\<rparr>)"
| reg_scheduler: "p < length (rg_schedulers r) \<Longrightarrow> sched_step (rg_schedulers r ! p) s \<Longrightarrow>
     sched_isReady s = sched_isReady (rg_schedulers r ! p) \<Longrightarrow>
     reg_step r (r\<lparr>rg_schedulers := (rg_schedulers r)[p := s]\<rparr>)"

definition reg_start :: "RegistryRun \<Rightarrow> bool" where
  "reg_start r \<longleftrightarrow> rg_models r = [] \<and> rg_retiring r = [] \<and> rg_schedulers r = [] \<and> rr_builds r = []"

section \<open>The invariant\<close>

definition owns :: "ModelSlot \<Rightarrow> nat \<Rightarrow> bool" where
  "owns slot p \<longleftrightarrow> mh_scheduler (sl_handle slot) = Some p \<or>
     (\<exists>n. sl_active_snapshot slot = Some n \<and> sn_scheduler n = Some p)"

definition slot_ok :: "SchedulerStore \<Rightarrow> ModelSlot \<Rightarrow> bool" where
  "slot_ok st slot \<longleftrightarrow>
     handle_ok (length st) (sl_handle slot) \<and>
     (\<forall>p. owns slot p \<longrightarrow> p < length st) \<and>
     (\<not> sl_reload_pending slot \<longrightarrow> sl_active_snapshot slot = Some (fromHandle (sl_handle slot))) \<and>
     (sl_reload_pending slot \<longrightarrow> current (sl_handle slot) = Ready \<or> current (sl_handle slot) = Unloaded) \<and>
     (current (sl_handle slot) = Ready \<longrightarrow> sl_active_snapshot slot = Some (fromHandle (sl_handle slot)) \<and>
        (\<forall>p. mh_scheduler (sl_handle slot) = Some p \<longrightarrow> sched_isReady (st ! p))) \<and>
     (\<exists>n. sl_active_snapshot slot = Some n \<and> (sn_state n = Ready \<longrightarrow> current (sl_handle slot) = Ready))"

definition core_inv :: "(string \<times> ModelSlot) list \<Rightarrow> SchedulerStore \<Rightarrow> nat set \<Rightarrow> bool" where
  "core_inv m st retired \<longleftrightarrow>
     distinct (map fst m) \<and>
     (\<forall>k s. map_of m k = Some s \<longrightarrow> slot_ok st s) \<and>
     (\<forall>k1 k2 s1 s2 p. map_of m k1 = Some s1 \<longrightarrow> map_of m k2 = Some s2 \<longrightarrow> owns s1 p \<longrightarrow> owns s2 p \<longrightarrow> k1 = k2) \<and>
     (\<forall>p \<in> retired. p < length st \<and> (\<forall>k s. map_of m k = Some s \<longrightarrow> \<not> owns s p))"

text \<open>Every slot that is being built has exactly one call in flight, of the kind that settles it.\<close>

definition builds_ok :: "(string \<times> ModelSlot) list \<Rightarrow> Build list \<Rightarrow> bool" where
  "builds_ok m bs \<longleftrightarrow>
     distinct (map build_name bs) \<and>
     (\<forall>b \<in> set bs. \<exists>s. map_of m (build_name b) = Some s \<and>
        (if is_load b then current (sl_handle s) = Loading \<and> \<not> sl_reload_pending s else sl_reload_pending s)) \<and>
     (\<forall>k s. map_of m k = Some s \<longrightarrow> current (sl_handle s) = Loading \<or> sl_reload_pending s \<longrightarrow> k \<in> build_name ` set bs)"

abbreviation retired_set :: "'a ModelRegistry_scheme \<Rightarrow> nat set" where
  "retired_set r \<equiv> fst ` set (rg_retiring r)"

definition reg_inv :: "RegistryRun \<Rightarrow> bool" where
  "reg_inv r \<longleftrightarrow> core_inv (rg_models r) (rg_schedulers r) (retired_set r) \<and> builds_ok (rg_models r) (rr_builds r)"

section \<open>Updating one slot\<close>

lemma slot_ok_frame:
  assumes "slot_ok st s" "length st \<le> length st'"
    and "\<And>p. mh_scheduler (sl_handle s) = Some p \<Longrightarrow> sched_isReady (st ! p) \<Longrightarrow> sched_isReady (st' ! p)"
  shows "slot_ok st' s"
  using assms handle_ok_mono [of "length st" "sl_handle s" "length st'"]
  unfolding slot_ok_def by (meson order_less_le_trans)

lemma core_slot: "core_inv m st ret \<Longrightarrow> map_of m k = Some s \<Longrightarrow> slot_ok st s"
  by (auto simp: core_inv_def)

lemma core_owner: "core_inv m st ret \<Longrightarrow> map_of m k1 = Some s1 \<Longrightarrow> map_of m k2 = Some s2 \<Longrightarrow>
    owns s1 p \<Longrightarrow> owns s2 p \<Longrightarrow> k1 = k2"
  unfolding core_inv_def by metis

lemma core_retired: "core_inv m st ret \<Longrightarrow> p \<in> ret \<Longrightarrow> p < length st \<and> (map_of m k = Some s \<longrightarrow> \<not> owns s p)"
  by (auto simp: core_inv_def)

lemma owns_bound: "slot_ok st s \<Longrightarrow> owns s p \<Longrightarrow> p < length st"
  by (auto simp: slot_ok_def)

lemma core_update:
  assumes inv: "core_inv m st ret" and ok: "slot_ok st' s'" and len: "length st \<le> length st'"
    and others: "\<And>k s. map_of m k = Some s \<Longrightarrow> k \<noteq> name \<Longrightarrow> slot_ok st' s"
    and owner: "\<And>p. owns s' p \<Longrightarrow> (\<exists>s. map_of m name = Some s \<and> owns s p) \<or> length st \<le> p"
    and ret': "\<And>p. p \<in> ret' \<Longrightarrow> p \<in> ret \<or> (\<exists>s. map_of m name = Some s \<and> owns s p) \<and> \<not> owns s' p"
  shows "core_inv (AList.update name s' m) st' ret'"
proof -
  have look: "map_of (AList.update name s' m) k = (if k = name then Some s' else map_of m k)" for k
    by (simp add: update_conv)
  have clash: "\<not> owns s p" if "owns s' p" "map_of m k = Some s" "k \<noteq> name" for p k s
    using owner [OF that(1)] core_owner [OF inv] owns_bound [OF core_slot [OF inv that(2)]] that(2,3) not_le by metis
  show ?thesis
    unfolding core_inv_def
  proof (intro conjI allI impI ballI)
    show "distinct (map fst (AList.update name s' m))"
      using inv by (simp add: core_inv_def distinct_update)
  next
    fix k s assume "map_of (AList.update name s' m) k = Some s"
    then show "slot_ok st' s" using ok others by (auto simp: look split: if_splits)
  next
    fix k1 k2 s1 s2 p
    assume "map_of (AList.update name s' m) k1 = Some s1" "map_of (AList.update name s' m) k2 = Some s2"
      "owns s1 p" "owns s2 p"
    then show "k1 = k2" using core_owner [OF inv] clash by (auto simp: look split: if_splits)
  next
    fix p assume "p \<in> ret'"
    from ret' [OF this] show "p < length st'"
      using core_retired [OF inv] owns_bound core_slot [OF inv] len by (meson order_less_le_trans)
  next
    fix p k s assume p: "p \<in> ret'" and s: "map_of (AList.update name s' m) k = Some s"
    show "\<not> owns s p"
    proof (cases "p \<in> ret")
      case True
      then show ?thesis
        using core_retired [OF inv True] owner [of p] s by (auto simp: look not_le split: if_splits)
    next
      case False
      with ret' [OF p] obtain s0 where s0: "map_of m name = Some s0" "owns s0 p" "\<not> owns s' p" by blast
      show ?thesis
      proof (cases "k = name")
        case True
        with s s0(3) show ?thesis by (simp add: look)
      next
        case False
        with s have "map_of m k = Some s" by (simp add: look)
        with core_owner [OF inv s0(1)] s0(2) False show ?thesis by blast
      qed
    qed
  qed
qed

lemma core_erase:
  assumes inv: "core_inv m st ret" and len: "length st \<le> length st'"
    and others: "\<And>k s. map_of m k = Some s \<Longrightarrow> k \<noteq> name \<Longrightarrow> slot_ok st' s"
    and ret': "\<And>p. p \<in> ret' \<Longrightarrow> p \<in> ret \<or> (\<exists>s. map_of m name = Some s \<and> owns s p)"
  shows "core_inv (AList.delete name m) st' ret'"
proof -
  have look: "map_of (AList.delete name m) k = (if k = name then None else map_of m k)" for k
    by (simp add: delete_conv)
  show ?thesis
    unfolding core_inv_def
  proof (intro conjI allI impI ballI)
    show "distinct (map fst (AList.delete name m))"
      using inv by (simp add: core_inv_def distinct_delete)
  next
    fix k s assume "map_of (AList.delete name m) k = Some s"
    then show "slot_ok st' s" using others by (auto simp: look split: if_splits)
  next
    fix k1 k2 s1 s2 p
    assume "map_of (AList.delete name m) k1 = Some s1" "map_of (AList.delete name m) k2 = Some s2"
      "owns s1 p" "owns s2 p"
    then show "k1 = k2" using core_owner [OF inv] by (auto simp: look split: if_splits)
  next
    fix p assume "p \<in> ret'"
    from ret' [OF this] show "p < length st'"
      using core_retired [OF inv] owns_bound core_slot [OF inv] len by (meson order_less_le_trans)
  next
    fix p k s assume p: "p \<in> ret'" and s: "map_of (AList.delete name m) k = Some s"
    then have "map_of m k = Some s" "k \<noteq> name" by (auto simp: look split: if_splits)
    with ret' [OF p] show "\<not> owns s p" using core_retired [OF inv] core_owner [OF inv] by metis
  qed
qed

lemma core_store:
  assumes "core_inv m st ret" "length st \<le> length st'" "ret' \<subseteq> ret"
    and "\<And>k s. map_of m k = Some s \<Longrightarrow> slot_ok st' s"
  shows "core_inv m st' ret'"
  using assms unfolding core_inv_def by (meson order_less_le_trans subsetD)

section \<open>Calls in flight and one slot\<close>

definition busy :: "ModelSlot \<Rightarrow> bool" where
  "busy s \<longleftrightarrow> current (sl_handle s) = Loading \<or> sl_reload_pending s"

definition awaits :: "Build \<Rightarrow> ModelSlot \<Rightarrow> bool" where
  "awaits b s \<longleftrightarrow> (if is_load b then current (sl_handle s) = Loading \<and> \<not> sl_reload_pending s else sl_reload_pending s)"

lemma awaits_busy: "awaits b s \<Longrightarrow> busy s"
  by (auto simp: awaits_def busy_def split: if_splits)

lemma builds_ok_iff:
  "builds_ok m bs \<longleftrightarrow> distinct (map build_name bs) \<and>
     (\<forall>b \<in> set bs. \<exists>s. map_of m (build_name b) = Some s \<and> awaits b s) \<and>
     (\<forall>k s. map_of m k = Some s \<longrightarrow> busy s \<longrightarrow> k \<in> build_name ` set bs)"
  by (simp add: builds_ok_def awaits_def busy_def)

lemma builds_slot:
  assumes "builds_ok m bs" "b \<in> set bs"
  obtains s where "map_of m (build_name b) = Some s" "awaits b s"
  using assms by (auto simp: builds_ok_iff)

lemma builds_idle:
  assumes "builds_ok m bs" "\<forall>s. map_of m name = Some s \<longrightarrow> \<not> busy s"
  shows "name \<notin> build_name ` set bs"
proof
  assume "name \<in> build_name ` set bs"
  then obtain b where b: "b \<in> set bs" "name = build_name b" by blast
  from builds_slot [OF assms(1) b(1)] obtain s where "map_of m name = Some s" "awaits b s" using b(2) by blast
  with assms(2) awaits_busy show False by blast
qed

lemma builds_add:
  assumes ok: "builds_ok m bs" and idle: "\<forall>s. map_of m (build_name b) = Some s \<longrightarrow> \<not> busy s" and s': "awaits b s'"
  shows "builds_ok (AList.update (build_name b) s' m) (bs @ [b])"
proof -
  note fresh = builds_idle [OF ok idle]
  show ?thesis unfolding builds_ok_iff
  proof (intro conjI ballI allI impI)
    show "distinct (map build_name (bs @ [b]))" using ok fresh by (simp add: builds_ok_iff)
  next
    fix c assume "c \<in> set (bs @ [b])"
    then consider "c = b" | "c \<in> set bs" by auto
    then show "\<exists>s. map_of (AList.update (build_name b) s' m) (build_name c) = Some s \<and> awaits c s"
    proof cases
      case 1
      with s' show ?thesis by (simp add: update_conv)
    next
      case 2
      with fresh have "build_name c \<noteq> build_name b" by (metis image_eqI)
      then show ?thesis using builds_slot [OF ok 2] by (simp add: update_conv) blast
    qed
  next
    fix k s assume "map_of (AList.update (build_name b) s' m) k = Some s" "busy s"
    with ok show "k \<in> build_name ` set (bs @ [b])"
      unfolding builds_ok_iff by (auto simp: update_conv split: if_splits)
  qed
qed

lemma builds_remove:
  assumes ok: "builds_ok m bs" and b: "b \<in> set bs" and idle: "\<not> busy s'"
  shows "builds_ok (AList.update (build_name b) s' m) (remove1 b bs)"
proof -
  have dist: "distinct (map build_name bs)" using ok by (simp add: builds_ok_iff)
  then have rest: "set (remove1 b bs) = set bs - {b}" by (simp add: distinct_map)
  have other: "build_name c \<noteq> build_name b" if "c \<in> set (remove1 b bs)" for c
    using that b dist rest by (metis DiffE distinct_map inj_onD insertI1)
  show ?thesis unfolding builds_ok_iff
  proof (intro conjI ballI allI impI)
    show "distinct (map build_name (remove1 b bs))"
      using dist rest by (metis distinct_map distinct_remove1 inj_on_diff)
  next
    fix c assume c: "c \<in> set (remove1 b bs)"
    with rest have "c \<in> set bs" by simp
    then obtain s where "map_of m (build_name c) = Some s" "awaits c s" by (rule builds_slot [OF ok])
    with other [OF c] show "\<exists>s. map_of (AList.update (build_name b) s' m) (build_name c) = Some s \<and> awaits c s"
      by (simp add: update_conv)
  next
    fix k s assume "map_of (AList.update (build_name b) s' m) k = Some s" "busy s"
    with idle have "map_of m k = Some s" "k \<noteq> build_name b" by (auto simp: update_conv split: if_splits)
    with ok \<open>busy s\<close> have "k \<in> build_name ` set bs" by (auto simp: builds_ok_iff)
    with \<open>k \<noteq> build_name b\<close> show "k \<in> build_name ` set (remove1 b bs)" using rest by blast
  qed
qed

lemma builds_same:
  assumes ok: "builds_ok m bs" and s: "map_of m name = Some s"
    and same: "\<And>b. awaits b s' = awaits b s" "busy s' = busy s"
  shows "builds_ok (AList.update name s' m) bs"
  unfolding builds_ok_iff
proof (intro conjI ballI allI impI)
  show "distinct (map build_name bs)" using ok by (simp add: builds_ok_iff)
next
  fix b assume "b \<in> set bs"
  then obtain t where "map_of m (build_name b) = Some t" "awaits b t" by (rule builds_slot [OF ok])
  with s same show "\<exists>s. map_of (AList.update name s' m) (build_name b) = Some s \<and> awaits b s"
    by (cases "build_name b = name") (auto simp: update_conv)
next
  fix k t assume "map_of (AList.update name s' m) k = Some t" "busy t"
  with ok s same show "k \<in> build_name ` set bs" by (auto simp: builds_ok_iff update_conv split: if_splits)
qed

lemma builds_erase:
  assumes ok: "builds_ok m bs" and s: "map_of m name = Some s" "\<not> busy s"
  shows "builds_ok (AList.delete name m) bs"
  unfolding builds_ok_iff
proof (intro conjI ballI allI impI)
  show "distinct (map build_name bs)" using ok by (simp add: builds_ok_iff)
next
  fix b assume b: "b \<in> set bs"
  have "name \<notin> build_name ` set bs" using builds_idle [OF ok] s by simp
  with b have "build_name b \<noteq> name" by blast
  with builds_slot [OF ok b]
  show "\<exists>s. map_of (AList.delete name m) (build_name b) = Some s \<and> awaits b s" by (auto simp: delete_conv)
next
  fix k t assume "map_of (AList.delete name m) k = Some t" "busy t"
  with ok show "k \<in> build_name ` set bs" by (auto simp: builds_ok_iff delete_conv split: if_splits)
qed

section \<open>Slots the calls make\<close>

lemma slot_ok_append: "slot_ok st s \<Longrightarrow> slot_ok (st @ new) s"
  by (rule slot_ok_frame) (auto simp: slot_ok_def owns_def nth_append)

lemma slot_ok_elsewhere:
  assumes "slot_ok st s" "\<not> owns s p"
  shows "slot_ok (st[p := x]) s"
  using assms by (auto intro!: slot_ok_frame [OF assms(1)] simp: owns_def nth_list_update)

lemma load_extends: "load kind_of now config factory v new_handle st = (h, st') \<Longrightarrow> \<exists>new. st' = st @ new"
  using load_new by fastforce

lemma owns_published: "sl_active_snapshot s = Some (fromHandle (sl_handle s)) \<Longrightarrow> owns s p \<longleftrightarrow> mh_scheduler (sl_handle s) = Some p"
  by (auto simp: owns_def fromHandle_def)

lemma slot_ok_published:
  assumes "handle_ok (length st) (sl_handle s)" "sl_active_snapshot s = Some (fromHandle (sl_handle s))"
    and "\<not> sl_reload_pending s" "\<And>p. current (sl_handle s) = Ready \<Longrightarrow> mh_scheduler (sl_handle s) = Some p \<Longrightarrow> sched_isReady (st ! p)"
  shows "slot_ok st s"
  unfolding slot_ok_def owns_published [OF assms(2)]
  using assms by (auto simp: handle_ok_def fromHandle_def)

lemma publishSnapshot_simps [simp]:
  "sl_handle (publishSnapshot s) = sl_handle s" "sl_reload_pending (publishSnapshot s) = sl_reload_pending s"
  "sl_active_snapshot (publishSnapshot s) = Some (fromHandle (sl_handle s))"
  "sl_config (publishSnapshot s) = sl_config s" "sl_version_snapshots (publishSnapshot s) = sl_version_snapshots s"
  by (simp_all add: publishSnapshot_def)

lemma placeholder_simps [simp]:
  "current (sl_handle (placeholder config)) = Loading" "mh_scheduler (sl_handle (placeholder config)) = None"
  "\<not> sl_reload_pending (placeholder config)"
  by (simp_all add: placeholder_def new_handle_def newStateMachine_def)

lemma slot_ok_placeholder: "slot_ok st (publishSnapshot (placeholder config))"
  by (rule slot_ok_published) (simp_all add: handle_ok_def)

lemma loaded_slot:
  assumes "load kind_of now config factory v new_handle st = (built, st')" "sl_handle s' = built"
    and "sl_active_snapshot s' = Some (fromHandle built)" "\<not> sl_reload_pending s'"
  shows "slot_ok st' s'" "owns s' p \<Longrightarrow> length st \<le> p" "\<not> busy s'"
proof -
  show "slot_ok st' s'"
    using assms load_new [OF assms(1)] handle_ok_load [OF assms(1)] by (intro slot_ok_published) auto
  show "owns s' p \<Longrightarrow> length st \<le> p"
    using assms load_new [OF assms(1)] owns_published [of s'] by auto
  show "\<not> busy s'" using assms handle_ok_load [OF assms(1)] by (auto simp: busy_def)
qed

text \<open>Both ways a reload or a switch can end, with the replacement adopted or dropped.\<close>

lemma reloaded_slot:
  assumes ok: "slot_ok st s" and pending: "sl_reload_pending s"
    and load: "load kind_of now config factory v new_handle st = (nxt, st')"
    and fin: "finishReload (sl_handle s) nxt = (b, h)"
    and s': "sl_handle s' = h" "sl_active_snapshot s' = Some (fromHandle h)" "\<not> sl_reload_pending s'"
  shows "slot_ok st' s'" "\<not> busy s'" "b \<Longrightarrow> owns s' p \<Longrightarrow> length st \<le> p" "\<not> b \<Longrightarrow> owns s' p \<Longrightarrow> owns s p"
proof -
  have state: "current (sl_handle s) = Ready \<or> current (sl_handle s) = Unloaded"
    using ok pending by (auto simp: slot_ok_def)
  have own: "owns s' q \<longleftrightarrow> mh_scheduler h = Some q" for q using owns_published [of s'] s' by simp
  have hok: "handle_ok (length st) (sl_handle s)" using ok by (simp add: slot_ok_def)
  have rdy: "sched_isReady (st ! q)" if "current (sl_handle s) = Ready" "mh_scheduler (sl_handle s) = Some q" for q
    using ok that by (auto simp: slot_ok_def)
  obtain new where st': "st' = st @ new" using load_extends [OF load] by blast
  have "slot_ok st' s' \<and> \<not> busy s' \<and> (b \<longrightarrow> owns s' p \<longrightarrow> length st \<le> p) \<and> (\<not> b \<longrightarrow> owns s' p \<longrightarrow> owns s p)"
  proof (cases "current nxt = Ready")
    case True
    note f = finishReload_ready [OF fin True state]
    from load_new [OF load] True have n: "mh_scheduler nxt = Some (length st)" "\<exists>x. st' = st @ [x] \<and> sched_isReady x" by auto
    have "slot_ok st' s'" using f n s' by (intro slot_ok_published) (auto simp: handle_ok_def)
    then show ?thesis using f n s' own by (auto simp: busy_def)
  next
    case False
    note f = finishReload_failed [OF fin False]
    from load_new [OF load] False have n: "mh_load_error nxt \<noteq> None" by auto
    have "handle_ok (length st') h"
      using hok f n state by (auto simp: handle_ok_def st')
    then have "slot_ok st' s'"
      using f s' rdy hok by (intro slot_ok_published) (auto simp: nth_append st' handle_ok_def split: if_splits)
    moreover have "\<not> busy s'" using f(7) s' state by (auto simp: busy_def)
    moreover have "owns s' p \<longrightarrow> owns s p" using f(3) own by (simp add: owns_def)
    ultimately show ?thesis using f(1) by blast
  qed
  then show "slot_ok st' s'" "\<not> busy s'" "b \<Longrightarrow> owns s' p \<Longrightarrow> length st \<le> p" "\<not> b \<Longrightarrow> owns s' p \<Longrightarrow> owns s p" by auto
qed

section \<open>Every step keeps the invariant\<close>

lemma retired_retire [simp]:
  "retired_set (retire q r) \<subseteq> retired_set r \<union> {p. q = Some p}"
  "rg_models (retire q r) = rg_models r" "rg_schedulers (retire q r) = rg_schedulers r"
  by (auto simp: retire_def pruneCompleted_def split: option.splits)

lemma retireSnapshot_simps [simp]:
  "rg_models (retireSnapshot n r) = rg_models r" "rg_schedulers (retireSnapshot n r) = rg_schedulers r"
  by (simp_all add: retireSnapshot_def split: option.splits)

lemma retired_retireSnapshot:
  "p \<in> retired_set (retireSnapshot n r) \<Longrightarrow> p \<in> retired_set r \<or> (\<exists>x. n = Some x \<and> sn_scheduler x = Some p)"
  by (auto simp: retireSnapshot_def retire_def pruneCompleted_def split: option.splits)

lemma set_slot_simps [simp]:
  "rg_models (set_slot name s r) = AList.update name s (rg_models r)"
  "rg_schedulers (set_slot name s r) = rg_schedulers r" "rg_retiring (set_slot name s r) = rg_retiring r"
  by (simp_all add: set_slot_def)

lemma rr_builds_simps [simp]:
  "rr_builds (set_slot name s r) = rr_builds r" "rr_builds (erase_slot name r) = rr_builds r"
  "rr_builds (retire q r) = rr_builds r" "rr_builds (retireSnapshot n r) = rr_builds r"
  "rr_builds (setRepositoryCatalog configs r) = rr_builds r" "rr_builds (guard_release name r) = rr_builds r"
  by (simp_all add: set_slot_def erase_slot_def retire_def retireSnapshot_def setRepositoryCatalog_def
      guard_release_def split: option.splits)

lemma elsewhere:
  assumes "core_inv m st ret" "map_of m name = Some s" "owns s p" "map_of m k = Some t" "k \<noteq> name"
  shows "slot_ok (st[p := x]) t"
  using assms core_slot core_owner slot_ok_elsewhere by metis

lemma begin_build_inv:
  assumes inv: "core_inv (rg_models r) (rg_schedulers r) (retired_set r)"
    and slot: "findSlot r name = Some slot" and step: "begin_build name slot r = (d, t)"
  shows "core_inv (rg_models t) (rg_schedulers t) (retired_set t)" "d \<noteq> Build \<Longrightarrow> t = r"
    "d = Build \<Longrightarrow> \<not> busy slot \<and> (\<exists>s'. rg_models t = AList.update name s' (rg_models r) \<and> sl_reload_pending s')"
proof -
  note m = slot [unfolded findSlot_def]
  note ok = core_slot [OF inv m]
  have hok: "handle_ok (length (rg_schedulers r)) (sl_handle slot)" using ok by (simp add: slot_ok_def)
  obtain b h st' where br: "beginReload (sl_handle slot) (rg_schedulers r) = (b, h, st')" by (metis prod_cases3)
  note c = beginReload_cases [OF br hok] and e = beginReload_store [OF br]
  let ?s = "slot\<lparr>sl_handle := h, sl_reload_pending := True\<rparr>"
  have cases: "busy slot \<and> d \<noteq> Build \<and> t = r \<or>
      \<not> busy slot \<and> d = Build \<and> b \<and> t = set_slot name ?s (r\<lparr>rg_schedulers := st'\<rparr>)"
    using step br c(3) by (auto simp: begin_build_def busy_def Let_def split: if_splits)
  then show "d \<noteq> Build \<Longrightarrow> t = r" by blast
  from cases show "d = Build \<Longrightarrow> \<not> busy slot \<and> (\<exists>s'. rg_models t = AList.update name s' (rg_models r) \<and> sl_reload_pending s')"
    by auto
  show "core_inv (rg_models t) (rg_schedulers t) (retired_set t)"
  proof (cases "d = Build")
    case False
    with cases inv show ?thesis by auto
  next
    case True
    with cases have t: "t = set_slot name ?s (r\<lparr>rg_schedulers := st'\<rparr>)" and b: b and np: "\<not> sl_reload_pending slot"
      by (auto simp: busy_def)
    have own: "owns ?s p \<Longrightarrow> owns slot p" for p using c(7) by (auto simp: owns_def)
    have pub: "sl_active_snapshot slot = Some (fromHandle (sl_handle slot))" using ok np by (simp add: slot_ok_def)
    have bound: "\<forall>p. owns ?s p \<longrightarrow> p < length st'" using own owns_bound [OF ok] c(2) by simp
    have "slot_ok st' ?s"
    proof (cases "current h = Ready")
      case True
      with e(2) have "current (sl_handle slot) = Ready" by blast
      with c(6) have same: "h = sl_handle slot" "st' = rg_schedulers r" by auto
      with True ok have "\<forall>p. mh_scheduler h = Some p \<longrightarrow> sched_isReady (st' ! p)" by (simp add: slot_ok_def)
      with True same pub bound hok show ?thesis by (simp add: slot_ok_def)
    next
      case False
      with c(5,6) b have "current h = Unloaded" "current (sl_handle slot) \<noteq> Ready" by auto
      with pub bound c(1,2) show ?thesis by (simp add: slot_ok_def fromHandle_def)
    qed
    moreover have "slot_ok st' s" if "map_of (rg_models r) k = Some s" "k \<noteq> name" for k s
      using e(1) core_slot [OF inv that(1)] elsewhere [OF inv m _ that]
      by (auto simp: at_scheduler_def owns_def)
    ultimately show ?thesis
      unfolding t using c(2) own m by (auto intro!: core_update [OF inv])
  qed
qed

lemma slot_ok_grow: "core_inv m st ret \<Longrightarrow> map_of m k = Some s \<Longrightarrow> slot_ok (st @ new) s"
  using core_slot slot_ok_append by blast

lemma inv_begin:
  assumes inv: "reg_inv r" and step: "build_begin b r = (Build, t)"
  shows "reg_inv (t\<lparr>rr_builds := rr_builds r @ [b]\<rparr>)"
proof -
  have core: "core_inv (rg_models r) (rg_schedulers r) (retired_set r)" and builds: "builds_ok (rg_models r) (rr_builds r)"
    using inv by (auto simp: reg_inv_def)
  have reload: ?thesis if slot: "findSlot r (build_name b) = Some slot" and bb: "begin_build (build_name b) slot r = (Build, t)"
    and b: "\<not> is_load b" for slot
  proof -
    note i = begin_build_inv [OF core slot bb]
    from i(3) obtain s' where "\<not> busy slot" "rg_models t = AList.update (build_name b) s' (rg_models r)" "sl_reload_pending s'"
      by blast
    with slot b builds_add [OF builds, of b s'] i(1) show ?thesis
      by (simp add: reg_inv_def findSlot_def awaits_def)
  qed
  show ?thesis
  proof (cases b)
    case (LoadBuild config)
    with step have none: "map_of (rg_models r) (rc_model_name config) = None"
      and t: "t = set_slot (rc_model_name config) (publishSnapshot (placeholder config)) r"
      by (auto simp: loadModel_begin_def findSlot_def split: option.splits if_splits)
    have "core_inv (rg_models t) (rg_schedulers t) (retired_set t)"
      unfolding t using slot_ok_placeholder core_slot [OF core]
      by (auto intro!: core_update [OF core] simp: owns_def fromHandle_def)
    moreover have "builds_ok (rg_models t) (rr_builds r @ [b])"
      using builds_add [OF builds, of b "publishSnapshot (placeholder config)"] none LoadBuild t
      by (simp add: awaits_def)
    ultimately show ?thesis by (simp add: reg_inv_def)
  next
    case (ReloadBuild name config)
    with step reload show ?thesis by (auto simp: reload_begin_def split: option.splits)
  next
    case (SwitchBuild name version config)
    with step reload show ?thesis by (auto simp: switchVersion_begin_def split: option.splits if_splits)
  qed
qed

lemma refuse_same:
  assumes inv: "reg_inv r" and step: "build_begin b r = (d, t)" and d: "d \<noteq> Build"
  shows "t = r"
proof -
  have core: "core_inv (rg_models r) (rg_schedulers r) (retired_set r)" using inv by (simp add: reg_inv_def)
  show ?thesis
    using step d begin_build_inv(2) [OF core]
    by (cases b) (auto simp: loadModel_begin_def reload_begin_def switchVersion_begin_def split: option.splits if_splits)
qed

text \<open>The common part of the three ways a build ends: the slot is replaced and the call leaves the list.\<close>

lemma inv_settle:
  assumes inv: "reg_inv r" and b: "b \<in> set (rr_builds r)" and s: "map_of (rg_models r) (build_name b) = Some s"
    and t: "rg_models t = AList.update (build_name b) s' (rg_models r)" "rg_schedulers t = rg_schedulers r @ new"
    and ok: "slot_ok (rg_schedulers t) s'" "\<not> busy s'"
    and own: "\<And>p. owns s' p \<Longrightarrow> owns s p \<or> length (rg_schedulers r) \<le> p"
    and ret: "\<And>p. p \<in> retired_set t \<Longrightarrow> p \<in> retired_set r \<or> owns s p \<and> \<not> owns s' p"
  shows "reg_inv (t\<lparr>rr_builds := remove1 b (rr_builds r)\<rparr>)"
proof -
  have core: "core_inv (rg_models r) (rg_schedulers r) (retired_set r)" and builds: "builds_ok (rg_models r) (rr_builds r)"
    using inv by (auto simp: reg_inv_def)
  have "core_inv (AList.update (build_name b) s' (rg_models r)) (rg_schedulers t) (retired_set t)"
    by (rule core_update [OF core ok(1)]) (use s own ret t(2) slot_ok_grow [OF core] in auto)
  with builds_remove [OF builds b ok(2)] t(1) show ?thesis by (simp add: reg_inv_def)
qed

lemma inv_load_finish:
  assumes inv: "reg_inv r" and b: "LoadBuild config \<in> set (rr_builds r)"
    and fin: "loadModel_finish kind_of now factory config r = (res, t)"
  shows "reg_inv (t\<lparr>rr_builds := remove1 (LoadBuild config) (rr_builds r)\<rparr>)" "res"
proof -
  let ?n = "rc_model_name config"
  from inv b obtain s where s: "map_of (rg_models r) ?n = Some s" "awaits (LoadBuild config) s"
    using builds_slot [of "rg_models r" "rr_builds r" "LoadBuild config"] by (auto simp: reg_inv_def)
  obtain built st' where ld: "load kind_of now config factory (pinned_version config) new_handle (rg_schedulers r) = (built, st')"
    by fastforce
  obtain new where st': "st' = rg_schedulers r @ new" using load_extends [OF ld] by blast
  define s' where "s' = publishSnapshot (s\<lparr>sl_config := config, sl_handle := built\<rparr>)"
  from fin ld s(1) have t: "t = set_slot ?n s' (r\<lparr>rg_schedulers := st'\<rparr>)" and res: res
    by (auto simp: loadModel_finish_def findSlot_def s'_def)
  from res show "res" .
  have np: "\<not> sl_reload_pending s" using s(2) by (simp add: awaits_def)
  have s': "sl_handle s' = built" "sl_active_snapshot s' = Some (fromHandle built)" "\<not> sl_reload_pending s'"
    using np by (simp_all add: s'_def)
  show "reg_inv (t\<lparr>rr_builds := remove1 (LoadBuild config) (rr_builds r)\<rparr>)"
    by (rule inv_settle [OF inv b]) (use s t st' loaded_slot [OF ld s'] in auto)
qed

text \<open>A reload and a switch end alike; they differ in the other fields of the slot.\<close>

lemma inv_reload_end:
  assumes inv: "reg_inv r" and b: "b \<in> set (rr_builds r)" "\<not> is_load b"
    and s: "map_of (rg_models r) (build_name b) = Some s"
    and ld: "load kind_of now config factory v new_handle (rg_schedulers r) = (nxt, st')"
    and fin: "finishReload (sl_handle s) nxt = (ok, h)"
    and s': "sl_handle s' = h" "sl_active_snapshot s' = Some (fromHandle h)" "\<not> sl_reload_pending s'"
    and t: "t = (if ok then retireSnapshot (sl_active_snapshot s) else id) (set_slot (build_name b) s' (r\<lparr>rg_schedulers := st'\<rparr>))"
  shows "reg_inv (t\<lparr>rr_builds := remove1 b (rr_builds r)\<rparr>)"
proof -
  have core: "core_inv (rg_models r) (rg_schedulers r) (retired_set r)" and builds: "builds_ok (rg_models r) (rr_builds r)"
    using inv by (auto simp: reg_inv_def)
  note sok = core_slot [OF core s]
  have pend: "sl_reload_pending s" using builds_slot [OF builds b(1)] s b(2) by (auto simp: awaits_def)
  note new = reloaded_slot [OF sok pend ld fin s']
  obtain ext where st': "st' = rg_schedulers r @ ext" using load_extends [OF ld] by blast
  have ret: "p \<in> retired_set r \<or> owns s p \<and> \<not> owns s' p" if "p \<in> retired_set t" for p
  proof (cases ok)
    case False
    with that t show ?thesis by simp
  next
    case True
    with that t have "p \<in> retired_set r \<or> (\<exists>x. sl_active_snapshot s = Some x \<and> sn_scheduler x = Some p)"
      using retired_retireSnapshot [of p "sl_active_snapshot s" "set_slot (build_name b) s' (r\<lparr>rg_schedulers := st'\<rparr>)"] by simp
    then have "p \<in> retired_set r \<or> owns s p" by (auto simp: owns_def)
    moreover have "\<not> owns s' p" if "owns s p" using new(3) [OF True] owns_bound [OF sok that] by (meson not_le)
    ultimately show ?thesis by blast
  qed
  have models: "rg_models t = AList.update (build_name b) s' (rg_models r)"
    and store: "rg_schedulers t = rg_schedulers r @ ext" using t st' by simp_all
  have "slot_ok (rg_schedulers t) s'" using new(1) store st' by simp
  moreover have "owns s p \<or> length (rg_schedulers r) \<le> p" if "owns s' p" for p
    using new(3,4) that by blast
  ultimately show ?thesis using inv_settle [OF inv b(1) s models store _ new(2) _ ret] by blast
qed

lemma inv_finish:
  assumes inv: "reg_inv r" and b: "b \<in> set (rr_builds r)" and fin: "build_finish kind_of now factory b r = (res, t)"
  shows "reg_inv (t\<lparr>rr_builds := remove1 b (rr_builds r)\<rparr>)"
proof -
  from inv b obtain s where s: "map_of (rg_models r) (build_name b) = Some s"
    using builds_slot [of "rg_models r" "rr_builds r" b] by (auto simp: reg_inv_def)
  show ?thesis
  proof (cases b)
    case (LoadBuild config)
    with inv b fin inv_load_finish show ?thesis by simp
  next
    case (ReloadBuild name config)
    obtain nxt st' where ld: "load kind_of now config factory (pinned_version config) new_handle (rg_schedulers r) = (nxt, st')"
      by fastforce
    obtain ok h where fr: "finishReload (sl_handle s) nxt = (ok, h)" by fastforce
    from ReloadBuild s fin ld fr show ?thesis
      by (intro inv_reload_end [OF inv b _ s ld fr, where s' = "publishSnapshot (if ok
            then s\<lparr>sl_reload_pending := False, sl_handle := h, sl_config := config\<rparr>
            else s\<lparr>sl_reload_pending := False, sl_handle := h\<rparr>)"])
        (auto simp: reload_finish_def findSlot_def split: if_splits)
  next
    case (SwitchBuild name version config)
    let ?c = "version_config name version config"
    obtain nxt st' where ld: "load kind_of now ?c factory (Some version) new_handle (rg_schedulers r) = (nxt, st')"
      by fastforce
    obtain ok h where fr: "finishReload (sl_handle s) nxt = (ok, h)" by fastforce
    let ?p = "publishSnapshot (s\<lparr>sl_reload_pending := False, sl_handle := h, sl_config := ?c\<rparr>)"
    from SwitchBuild s fin ld fr show ?thesis
      by (intro inv_reload_end [OF inv b _ s ld fr, where s' = "if ok
            then remember_version (Some (fromHandle h)) (remember_version (sl_active_snapshot s) ?p)
            else publishSnapshot (s\<lparr>sl_reload_pending := False, sl_handle := h\<rparr>)"])
        (auto simp: switchVersion_finish_def findSlot_def remember_version_def Let_def split: if_splits option.splits)
  qed
qed

lemma inv_guard:
  assumes inv: "reg_inv r" and b: "b \<in> set (rr_builds r)"
  shows "reg_inv ((guard_release (build_name b) r)\<lparr>rr_builds := remove1 b (rr_builds r)\<rparr>)"
proof -
  have core: "core_inv (rg_models r) (rg_schedulers r) (retired_set r)" and builds: "builds_ok (rg_models r) (rr_builds r)"
    using inv by (auto simp: reg_inv_def)
  from b obtain s where s: "map_of (rg_models r) (build_name b) = Some s" "awaits b s" by (rule builds_slot [OF builds])
  note sok = core_slot [OF core s(1)]
  define h where "h = (if sl_reload_pending s then sl_handle s else on_state markFailed (sl_handle s))
    \<lparr>mh_load_error := Some ''executor build threw''\<rparr>"
  define s' where "s' = publishSnapshot (if sl_reload_pending s then s\<lparr>sl_reload_pending := False, sl_handle := h\<rparr>
    else s\<lparr>sl_handle := h\<rparr>)"
  have g: "guard_release (build_name b) r = set_slot (build_name b) s' r"
    using s by (auto simp: guard_release_def findSlot_def s'_def h_def awaits_def split: if_splits)
  have state: "current (sl_handle s) = Ready \<or> current (sl_handle s) = Unloaded" if "sl_reload_pending s"
    using sok that by (simp add: slot_ok_def)
  have load: "current (sl_handle s) = Loading" if "\<not> sl_reload_pending s"
    using s(2) that by (simp add: awaits_def split: if_splits)
  have cur: "current h = (if sl_reload_pending s then current (sl_handle s) else Failed)"
    using load by (simp add: h_def)
  have sched: "mh_scheduler h = mh_scheduler (sl_handle s)" by (simp add: h_def)
  have hok: "handle_ok (length (rg_schedulers r)) h"
    using sok cur sched load by (auto simp: slot_ok_def handle_ok_def h_def)
  have "sched_isReady (rg_schedulers r ! p)" if "current h = Ready" "mh_scheduler h = Some p" for p
    using sok cur sched that by (auto simp: slot_ok_def split: if_splits)
  moreover have s': "sl_handle s' = h" "sl_active_snapshot s' = Some (fromHandle h)" "\<not> sl_reload_pending s'"
    by (simp_all add: s'_def)
  ultimately have "slot_ok (rg_schedulers r) s'" using hok by (intro slot_ok_published) simp_all
  moreover have "\<not> busy s'" using cur state s' by (auto simp: busy_def split: if_splits)
  moreover have "owns s' p \<Longrightarrow> owns s p" for p
    using owns_published [of s'] sched s' by (simp add: owns_def)
  ultimately show ?thesis
    unfolding g by (intro inv_settle [OF inv b s(1), where new = "[]"]) auto
qed

lemma inv_unload_check:
  assumes inv: "reg_inv r" and step: "unloadModel_check name r = (d, t)"
  shows "reg_inv t"
proof -
  have core: "core_inv (rg_models r) (rg_schedulers r) (retired_set r)" and builds: "builds_ok (rg_models r) (rr_builds r)"
    using inv by (auto simp: reg_inv_def)
  from step have "t = r \<or> t = erase_slot name r \<and> (\<exists>s. map_of (rg_models r) name = Some s \<and> \<not> busy s)"
    by (auto simp: unloadModel_check_def findSlot_def busy_def split: option.splits if_splits)
  then show ?thesis
  proof
    assume "t = r"
    with inv show ?thesis by simp
  next
    assume t: "t = erase_slot name r \<and> (\<exists>s. map_of (rg_models r) name = Some s \<and> \<not> busy s)"
    have "core_inv (AList.delete name (rg_models r)) (rg_schedulers r) (retired_set r)"
      by (rule core_erase [OF core]) (use core_slot [OF core] in auto)
    with t builds_erase [OF builds] show ?thesis by (auto simp: reg_inv_def erase_slot_def)
  qed
qed

lemma inv_drain:
  assumes inv: "reg_inv r" and step: "registry_beginDrain name r = (b, t)"
  shows "reg_inv t"
proof (cases b)
  case False
  with step have "t = r"
    by (auto simp: registry_beginDrain_def split: option.splits if_splits prod.splits)
  with inv show ?thesis by simp
next
  case True
  have core: "core_inv (rg_models r) (rg_schedulers r) (retired_set r)" and builds: "builds_ok (rg_models r) (rr_builds r)"
    using inv by (auto simp: reg_inv_def)
  from step True obtain s h st' where s: "map_of (rg_models r) name = Some s" and np: "\<not> sl_reload_pending s"
    and d: "lifecycle_beginDrain (sl_handle s) (rg_schedulers r) = (True, h, st')"
    and t: "t = set_slot name (publishSnapshot (s\<lparr>sl_handle := h\<rparr>)) (r\<lparr>rg_schedulers := st'\<rparr>)"
    by (auto simp: registry_beginDrain_def findSlot_def split: option.splits if_splits prod.splits)
  note sok = core_slot [OF core s]
  have "handle_ok (length (rg_schedulers r)) (sl_handle s)" using sok by (simp add: slot_ok_def)
  note f = handle_ok_beginDrain [OF d this]
  from f(4) obtain p where p: "mh_scheduler (sl_handle s) = Some p" by auto
  with d have st': "st' = (rg_schedulers r)[p := sched_stopAccepting (rg_schedulers r ! p)]"
    by (auto simp: lifecycle_beginDrain_def at_scheduler_def)
  let ?s = "publishSnapshot (s\<lparr>sl_handle := h\<rparr>)"
  have cur: "current h = Unloading" using f(5) by simp
  have ok: "slot_ok st' ?s" using f(1) cur np st' by (intro slot_ok_published) simp_all
  have own: "owns ?s q \<Longrightarrow> owns s q" for q using owns_published [of ?s q] f(3) by (simp add: owns_def)
  have "owns s p" using p by (simp add: owns_def)
  then have "core_inv (AList.update name ?s (rg_models r)) st' (retired_set r)"
    using own s st' elsewhere [OF core s] by (intro core_update [OF core ok]) auto
  moreover have "\<not> busy s" using np p sok by (auto simp: busy_def slot_ok_def handle_ok_def)
  then have "builds_ok (AList.update name ?s (rg_models r)) (rr_builds r)"
    using builds_same [OF builds s, of ?s] np cur by (auto simp: busy_def awaits_def)
  ultimately show ?thesis by (simp add: t reg_inv_def)
qed

lemma inv_unload:
  assumes inv: "reg_inv r" and step: "registry_completeUnload name r = (b, t)"
  shows "reg_inv t"
proof (cases b)
  case False
  with step have "t = r"
    by (auto simp: registry_completeUnload_def split: option.splits if_splits prod.splits)
  with inv show ?thesis by simp
next
  case True
  have core: "core_inv (rg_models r) (rg_schedulers r) (retired_set r)" and builds: "builds_ok (rg_models r) (rr_builds r)"
    using inv by (auto simp: reg_inv_def)
  from step True obtain s q h st' where s: "map_of (rg_models r) name = Some s"
    and c: "lifecycle_completeUnload (sl_handle s) (rg_schedulers r) = (True, q, h, st')"
    and t: "t = erase_slot name (retire q (r\<lparr>rg_schedulers := st'\<rparr>))"
    by (auto simp: registry_completeUnload_def findSlot_def split: option.splits if_splits prod.splits)
  note sok = core_slot [OF core s]
  from completeUnload_cases [OF c] have cur: "current (sl_handle s) = Unloading" and q: "q = mh_scheduler (sl_handle s)"
    and st: "st' = (case mh_scheduler (sl_handle s) of None \<Rightarrow> rg_schedulers r
      | Some p \<Rightarrow> at_scheduler sched_stopAccepting p (rg_schedulers r))" by auto
  from cur sok obtain p where p: "mh_scheduler (sl_handle s) = Some p" by (auto simp: slot_ok_def handle_ok_def)
  have own: "owns s p" using p by (simp add: owns_def)
  have idle: "\<not> busy s" using cur sok by (auto simp: busy_def slot_ok_def)
  have st': "st' = (rg_schedulers r)[p := sched_stopAccepting (rg_schedulers r ! p)]"
    using st p by (simp add: at_scheduler_def)
  have "x \<in> retired_set r \<or> x = p" if "x \<in> retired_set t" for x
    using that retired_retire(1) [of q "r\<lparr>rg_schedulers := st'\<rparr>"] q p by (auto simp: t erase_slot_def)
  then have ret: "x \<in> retired_set r \<or> (\<exists>s. map_of (rg_models r) name = Some s \<and> owns s x)" if "x \<in> retired_set t" for x
    using that own s by blast
  have "core_inv (AList.delete name (rg_models r)) st' (retired_set t)"
    using core_erase [OF core _ _ ret, of st'] elsewhere [OF core s own] st' by simp
  with builds_erase [OF builds s idle] show ?thesis by (simp add: t reg_inv_def erase_slot_def)
qed

text \<open>The steps that touch only the store, or only the retire queue.\<close>

lemma inv_store:
  assumes inv: "reg_inv r" and ret: "fst ` set ret' \<subseteq> retired_set r" and p: "p < length (rg_schedulers r)"
    and safe: "p \<in> retired_set r \<or> sched_isReady s = sched_isReady (rg_schedulers r ! p)"
  shows "reg_inv (r\<lparr>rg_schedulers := (rg_schedulers r)[p := s], rg_retiring := ret'\<rparr>)"
proof -
  have core: "core_inv (rg_models r) (rg_schedulers r) (retired_set r)" using inv by (simp add: reg_inv_def)
  have "slot_ok ((rg_schedulers r)[p := s]) t" if t: "map_of (rg_models r) k = Some t" for k t
  proof (cases "p \<in> retired_set r")
    case True
    with core_retired [OF core True] t have "\<not> owns t p" by blast
    with core_slot [OF core t] show ?thesis by (rule slot_ok_elsewhere)
  next
    case False
    with safe have "sched_isReady s = sched_isReady (rg_schedulers r ! p)" by blast
    then show ?thesis
      by (intro slot_ok_frame [OF core_slot [OF core t]]) (simp_all add: nth_list_update p)
  qed
  then have "core_inv (rg_models r) ((rg_schedulers r)[p := s]) (fst ` set ret')"
    using core_store [OF core _ ret, of "(rg_schedulers r)[p := s]"] by simp
  with inv show ?thesis by (simp add: reg_inv_def)
qed

lemma inv_reg_step:
  assumes step: "reg_step r t" and inv: "reg_inv r"
  shows "reg_inv t"
  using step
proof cases
  case (reg_begin b t')
  then show ?thesis using inv_begin [OF inv] by blast
next
  case (reg_refuse b d)
  with refuse_same [OF inv] inv show ?thesis by blast
next
  case (reg_finish b kind_of now factory res t')
  then show ?thesis using inv_finish [OF inv] by blast
next
  case (reg_guard b)
  then show ?thesis using inv_guard [OF inv] by blast
next
  case (reg_unload_check name d)
  then show ?thesis using inv_unload_check [OF inv] by blast
next
  case (reg_drain name b)
  then show ?thesis using inv_drain [OF inv] by blast
next
  case (reg_unload name b)
  then show ?thesis using inv_unload [OF inv] by blast
next
  case (reg_catalog configs)
  with inv show ?thesis by (simp add: reg_inv_def setRepositoryCatalog_def)
next
  case (reg_retire_flag p)
  then have p: "p \<in> retired_set r" by force
  then have "p < length (rg_schedulers r)" using core_retired [of "rg_models r" "rg_schedulers r" "retired_set r" p] inv by (simp add: reg_inv_def)
  from inv_store [OF inv subset_refl this, of "sched_beginDrain_flag (rg_schedulers r ! p)"] p reg_retire_flag(1)
  show ?thesis by (simp add: at_scheduler_def)
next
  case (reg_retired p s)
  then have p: "p \<in> retired_set r" by force
  then have len: "p < length (rg_schedulers r)" using core_retired [of "rg_models r" "rg_schedulers r" "retired_set r" p] inv by (simp add: reg_inv_def)
  have "fst ` set (map (\<lambda>t. if t = (p, False) then (p, True) else t) (rg_retiring r)) \<subseteq> retired_set r"
    by (auto simp: image_iff) force+
  from inv_store [OF inv this len, of s] p reg_retired(1) show ?thesis by simp
next
  case (reg_scheduler p s)
  then show ?thesis using inv_store [OF inv subset_refl, of p s] by simp
qed

interpretation registry: invariant_system reg_start reg_step reg_inv
proof
  fix s :: RegistryRun
  assume "reg_start s"
  then show "reg_inv s" by (simp add: reg_start_def reg_inv_def core_inv_def builds_ok_def)
next
  fix s t :: RegistryRun
  assume "reg_inv s" "reg_step s t"
  then show "reg_inv t" using inv_reg_step by blast
qed

end
