(* ===== verification/Registry_Props.thy ===== *)
theory Registry_Props
  imports Registry_Inv
begin

text \<open>
  What the registry promises its callers, read off the invariant of its runs, and two places where it
  does not do what its comments say.
\<close>

section \<open>Lemmas\<close>

lemma reach_slot:
  assumes "reach reg_start reg_step r" "findSlot r name = Some slot"
  shows "slot_ok (rg_schedulers r) slot" "owns slot p \<Longrightarrow> p \<notin> retired_set r"
proof -
  from registry.reach_inv [OF assms(1)] have core: "core_inv (rg_models r) (rg_schedulers r) (retired_set r)"
    by (simp add: reg_inv_def)
  note m = assms(2) [unfolded findSlot_def]
  show "slot_ok (rg_schedulers r) slot" by (rule core_slot [OF core m])
  show "owns slot p \<Longrightarrow> p \<notin> retired_set r" using core_retired [OF core] m by blast
qed

lemma ready_iff:
  assumes "slot_ok (rg_schedulers r) slot" "findSlot r name = Some slot"
  shows "ready r name \<longleftrightarrow> current (sl_handle slot) = Ready"
proof
  assume "ready r name"
  with assms(2) obtain n where "sl_active_snapshot slot = Some n" "sn_state n = Ready"
    by (auto simp: ready_def findHandle_def snapshot_isReady_def split: option.splits)
  with assms(1) show "current (sl_handle slot) = Ready" by (auto simp: slot_ok_def)
next
  assume rdy: "current (sl_handle slot) = Ready"
  with assms(1) have "sl_active_snapshot slot = Some (fromHandle (sl_handle slot))"
    "\<forall>p. mh_scheduler (sl_handle slot) = Some p \<longrightarrow> sched_isReady (rg_schedulers r ! p)"
    "mh_scheduler (sl_handle slot) \<noteq> None"
    by (auto simp: slot_ok_def handle_ok_def)
  with rdy assms(2) show "ready r name"
    by (auto simp: ready_def findHandle_def snapshot_isReady_def fromHandle_def)
qed

lemma findSlot_set_slot [simp]: "findSlot (set_slot name s r) k = (if k = name then Some s else findSlot r k)"
  by (simp add: findSlot_def update_conv)

lemma findSlot_erase_slot [simp]: "findSlot (erase_slot name r) k = (if k = name then None else findSlot r k)"
  by (simp add: findSlot_def erase_slot_def delete_conv)

lemma findSlot_frame [simp]:
  "findSlot (retire q r) k = findSlot r k" "findSlot (retireSnapshot n r) k = findSlot r k"
  "findSlot (r\<lparr>rg_schedulers := st\<rparr>) k = findSlot r k"
  by (simp_all add: findSlot_def)

lemma ready_builds [simp]: "ready (r\<lparr>rr_builds := bs\<rparr>) name = ready r name"
  by (simp add: ready_def findHandle_def findSlot_def cong: option.case_cong)

text \<open>A build that is in flight finds its slot, and leaves it settled.\<close>

lemma reach_build:
  assumes "reach reg_start reg_step r" "b \<in> set (rr_builds r)"
  obtains slot where "findSlot r (build_name b) = Some slot" "awaits b slot" "slot_ok (rg_schedulers r) slot"
proof -
  from registry.reach_inv [OF assms(1)] have "builds_ok (rg_models r) (rr_builds r)" by (simp add: reg_inv_def)
  then obtain slot where "findSlot r (build_name b) = Some slot" "awaits b slot"
    using builds_slot [OF _ assms(2)] by (metis findSlot_def)
  with reach_slot(1) [OF assms(1)] that show thesis by blast
qed

lemma finish_reach:
  "reach reg_start reg_step r \<Longrightarrow> b \<in> set (rr_builds r) \<Longrightarrow> build_finish kind_of now factory b r = (res, t) \<Longrightarrow>
     reach reg_start reg_step (t\<lparr>rr_builds := remove1 b (rr_builds r)\<rparr>)"
  by (erule reach_step) (rule reg_finish)

lemma distinct_builds: "reach reg_start reg_step r \<Longrightarrow> distinct (map build_name (rr_builds r))"
  using registry.reach_inv by (auto simp: reg_inv_def builds_ok_def)

lemma settled_after_finish:
  assumes r: "reach reg_start reg_step r" and b: "b \<in> set (rr_builds r)"
    and fin: "build_finish kind_of now factory b r = (res, t)"
  shows "\<not> loadOrReloadInProgress t (build_name b)"
proof -
  let ?u = "t\<lparr>rr_builds := remove1 b (rr_builds r)\<rparr>"
  from registry.reach_inv [OF finish_reach [OF r b fin]] have ok: "builds_ok (rg_models t) (remove1 b (rr_builds r))"
    by (simp add: reg_inv_def)
  have "build_name b \<notin> build_name ` set (remove1 b (rr_builds r))"
    using distinct_builds [OF r] b by (auto simp: distinct_map inj_on_def)
  with ok show ?thesis by (auto simp: loadOrReloadInProgress_def findSlot_def builds_ok_def split: option.splits)
qed

section \<open>A concrete run\<close>

text \<open>One model on the stub backend: loading, ready, and with a reload in flight.\<close>

definition demo_run :: RegistryRun where
  "demo_run = ModelRegistry.extend (empty_registry False False False (1 / 4)) \<lparr>rr_builds = []\<rparr>"

lemma demo_run_start: "reach reg_start reg_step demo_run"
  by (rule reach_start) (simp add: reg_start_def demo_run_def empty_registry_def ModelRegistry.extend_def)

definition demo_loading :: RegistryRun where
  "demo_loading = (set_slot ''demo'' (publishSnapshot (placeholder default_config)) demo_run)
     \<lparr>rr_builds := [LoadBuild default_config]\<rparr>"

lemma demo_loading_reach: "reach reg_start reg_step demo_loading"
proof -
  have "build_begin (LoadBuild default_config) demo_run =
      (Build, set_slot ''demo'' (publishSnapshot (placeholder default_config)) demo_run)"
    by (simp add: loadModel_begin_def findSlot_def demo_run_def empty_registry_def ModelRegistry.extend_def default_config_def)
  then have "reg_step demo_run ((set_slot ''demo'' (publishSnapshot (placeholder default_config)) demo_run)
      \<lparr>rr_builds := rr_builds demo_run @ [LoadBuild default_config]\<rparr>)" by (rule reg_begin)
  moreover have "rr_builds demo_run = []" by (simp add: demo_run_def ModelRegistry.extend_def)
  ultimately have "reg_step demo_run demo_loading" by (simp add: demo_loading_def)
  with demo_run_start show ?thesis by (rule reach_step)
qed

definition one_model :: "ModelSlot \<Rightarrow> SchedulerStore \<Rightarrow> (nat \<times> bool) list \<Rightarrow> Build list \<Rightarrow> RegistryRun" where
  "one_model slot st retiring bs =
     \<lparr>rg_models = [(''demo'', slot)], rg_catalog = [], rg_retiring = retiring, rg_schedulers = st, rg_log_payloads = False,
      rg_tokens_per_char = 1 / 4, rg_repository_mode = False, rg_explicit_control_mode = False, rr_builds = bs\<rparr>"

definition solo :: "ModelSlot \<Rightarrow> SchedulerStore \<Rightarrow> (nat \<times> bool) list \<Rightarrow> ModelRegistry" where
  "solo slot st retiring =
     \<lparr>rg_models = [(''demo'', slot)], rg_catalog = [], rg_retiring = retiring, rg_schedulers = st, rg_log_payloads = False,
      rg_tokens_per_char = 1 / 4, rg_repository_mode = False, rg_explicit_control_mode = False\<rparr>"

definition stub_scheduler :: "RuntimeConfig \<Rightarrow> SchedulerObject" where
  "stub_scheduler c = TensorScheduler (SchedulerCore.extend (new_core 0 1)
     \<lparr>ms_config = tensor_scheduler_config c, ms_workers = [WIdle]\<rparr>)"

definition stub_handle :: "RuntimeConfig \<Rightarrow> string \<Rightarrow> nat \<Rightarrow> ModelHandle" where
  "stub_handle c v p = \<lparr>mh_name = rc_model_name c, mh_versions = [v],
     mh_state = \<lparr>sm_state = Ready, sm_observers = [], sm_calls = []\<rparr>,
     mh_metadata = (tensorStubMetadata c)\<lparr>mm_versions := [v]\<rparr>, mh_scheduler = Some p, mh_load_error = None\<rparr>"

lemma stub_load:
  assumes "rc_instances c = 1" "rc_scheduler_strategy c = ''tensor''"
  shows "load (\<lambda>_. TensorKind) 0 c stub_factory v new_handle st =
    (stub_handle c (case v of Some x \<Rightarrow> x | None \<Rightarrow> ''1'') (length st), st @ [stub_scheduler c])"
  using assms
  by (simp add: load_def stub_factory_def makeStubExecutor_def usesLlmScheduler_def make_scheduler_def
      makeModelScheduler_def vector_max_size_def stub_handle_def stub_scheduler_def on_state_def startLoad_def
      markReady_def transitionTo_def notify_def new_handle_def newStateMachine_def tensorStubMetadata_def
      tensor_scheduler_config_def Let_def split: option.splits)

lemma broken_load:
  "load (\<lambda>_. TensorKind) 0 default_config broken_factory v new_handle st =
     (markLoadFailed default_config ''bad model'' (on_state startLoad (new_handle\<lparr>mh_name := ''demo'',
        mh_versions := [case v of Some x \<Rightarrow> x | None \<Rightarrow> ''1''], mh_load_error := None\<rparr>)), st)"
  by (simp add: load_def broken_factory_def default_config_def vector_max_size_def Let_def)

lemma default_config_simps [simp]:
  "rc_instances default_config = 1" "rc_scheduler_strategy default_config = ''tensor''"
  "rc_model_name default_config = ''demo''" "pinned_version default_config = None"
  by (simp_all add: default_config_def pinned_version_def)

definition ready_slot :: ModelSlot where
  "ready_slot = \<lparr>sl_handle = stub_handle default_config ''1'' 0, sl_config = default_config,
     sl_active_snapshot = Some (fromHandle (stub_handle default_config ''1'' 0)), sl_version_snapshots = [],
     sl_reload_pending = False\<rparr>"

lemma stub_scheduler_ready [simp]: "sched_isReady (stub_scheduler c)"
  by (simp add: stub_scheduler_def core_isReady_def new_core_def SchedulerCore.extend_def)

lemma stub_handle_simps [simp]:
  "current (stub_handle c v p) = Ready" "mh_scheduler (stub_handle c v p) = Some p"
  "mh_load_error (stub_handle c v p) = None"
  by (simp_all add: stub_handle_def)

lemma demo_ready_reach: "reach reg_start reg_step (one_model ready_slot [stub_scheduler default_config] [] [])"
proof -
  have "build_finish (\<lambda>_. TensorKind) 0 stub_factory (LoadBuild default_config) demo_loading =
      (True, one_model ready_slot [stub_scheduler default_config] [] [LoadBuild default_config])"
    by (simp add: loadModel_finish_def stub_load demo_loading_def demo_run_def one_model_def ready_slot_def findSlot_def
        set_slot_def publishSnapshot_def placeholder_def empty_registry_def ModelRegistry.extend_def)
  moreover have b: "rr_builds demo_loading = [LoadBuild default_config]" by (simp add: demo_loading_def)
  ultimately have "reg_step demo_loading
      ((one_model ready_slot [stub_scheduler default_config] [] [LoadBuild default_config])
        \<lparr>rr_builds := remove1 (LoadBuild default_config) (rr_builds demo_loading)\<rparr>)"
    by (intro reg_finish) simp_all
  then have "reg_step demo_loading (one_model ready_slot [stub_scheduler default_config] [] [])"
    using b by (simp add: one_model_def)
  with demo_loading_reach show ?thesis by (rule reach_step)
qed

lemma demo_reloading_reach:
  "reach reg_start reg_step (one_model (ready_slot\<lparr>sl_reload_pending := True\<rparr>) [stub_scheduler default_config] []
     [ReloadBuild ''demo'' default_config])"
proof -
  have "build_begin (ReloadBuild ''demo'' default_config) (one_model ready_slot [stub_scheduler default_config] [] []) =
      (Build, one_model (ready_slot\<lparr>sl_reload_pending := True\<rparr>) [stub_scheduler default_config] [] [])"
    by (simp add: reload_begin_def begin_build_def beginReload_def one_model_def findSlot_def ready_slot_def set_slot_def)
  then have "reg_step (one_model ready_slot [stub_scheduler default_config] [] [])
      ((one_model (ready_slot\<lparr>sl_reload_pending := True\<rparr>) [stub_scheduler default_config] [] [])
        \<lparr>rr_builds := rr_builds (one_model ready_slot [stub_scheduler default_config] [] []) @ [ReloadBuild ''demo'' default_config]\<rparr>)"
    by (rule reg_begin)
  then have "reg_step (one_model ready_slot [stub_scheduler default_config] [] [])
      (one_model (ready_slot\<lparr>sl_reload_pending := True\<rparr>) [stub_scheduler default_config] []
        [ReloadBuild ''demo'' default_config])" by (simp add: one_model_def)
  with demo_ready_reach show ?thesis by (rule reach_step)
qed

lemma demo_model_ready [simp]: "ready (one_model (ready_slot\<lparr>sl_reload_pending := b\<rparr>) [stub_scheduler default_config] rt bs) ''demo''"
  by (simp add: ready_def findHandle_def findSlot_def one_model_def ready_slot_def snapshot_isReady_def fromHandle_def)

text \<open>What a reload that fails leaves of the slot of a ready model.\<close>

definition keeps_slot :: "'a ModelRegistry_scheme \<Rightarrow> string \<Rightarrow> ModelSlot \<Rightarrow> 'a ModelRegistry_scheme \<Rightarrow> bool" where
  "keeps_slot r n slot t \<longleftrightarrow> (\<exists>h st slot'. t = set_slot n slot' (r\<lparr>rg_schedulers := st\<rparr>) \<and> sl_handle slot' = h \<and>
     sl_active_snapshot slot' = Some (fromHandle h) \<and> sl_config slot' = sl_config slot \<and> current h = Ready \<and>
     mh_scheduler h = mh_scheduler (sl_handle slot) \<and> mh_metadata h = mh_metadata (sl_handle slot))"

lemma failed_build_keeps:
  assumes rdy: "current (sl_handle slot) = Ready"
    and ld: "load kind_of now c factory v new_handle (rg_schedulers r) = (nxt, st)"
    and fr: "finishReload (sl_handle slot) nxt = (success, h)"
    and t: "\<not> success \<Longrightarrow> t = set_slot n (publishSnapshot (slot\<lparr>sl_reload_pending := False, sl_handle := h\<rparr>)) (r\<lparr>rg_schedulers := st\<rparr>)"
    and bad: "success \<Longrightarrow> \<not> handle_isReady st h"
  shows "keeps_slot r n slot t"
proof (cases "current nxt = Ready")
  case True
  note f = finishReload_ready [OF fr True disjI1 [OF rdy]]
  from load_new [OF ld] True have "mh_scheduler nxt = Some (length (rg_schedulers r))"
    "\<exists>s. st = rg_schedulers r @ [s] \<and> sched_isReady s" by auto
  with f have "handle_isReady st h" by (auto simp: handle_isReady_def)
  with bad f(1) show ?thesis by blast
next
  case False
  note f = finishReload_failed [OF fr False]
  with t rdy show ?thesis unfolding keeps_slot_def
    by (intro exI [of _ h] exI [of _ st] exI [of _ "publishSnapshot (slot\<lparr>sl_reload_pending := False, sl_handle := h\<rparr>)"]) simp
qed

lemma failed_finish_keeps:
  assumes "\<not> is_load b" "build_finish kind_of now factory b r = (False, t)"
    and slot: "findSlot r (build_name b) = Some slot" and rdy: "current (sl_handle slot) = Ready"
  shows "keeps_slot r (build_name b) slot t"
proof (cases b)
  case (LoadBuild config)
  with assms(1) show ?thesis by simp
next
  case (ReloadBuild name config)
  obtain nxt st where ld: "load kind_of now config factory (pinned_version config) new_handle (rg_schedulers r) = (nxt, st)" by fastforce
  obtain success h where fr: "finishReload (sl_handle slot) nxt = (success, h)" by fastforce
  from assms(2) ReloadBuild ld fr slot show ?thesis
    by (intro failed_build_keeps [OF rdy ld fr]) (auto simp: reload_finish_def split: if_splits)
next
  case (SwitchBuild name version config)
  obtain nxt st where ld: "load kind_of now (version_config name version config) factory (Some version) new_handle (rg_schedulers r) = (nxt, st)"
    by fastforce
  obtain success h where fr: "finishReload (sl_handle slot) nxt = (success, h)" by fastforce
  from assms(2) SwitchBuild ld fr slot show ?thesis
    by (intro failed_build_keeps [OF rdy ld fr])
      (auto simp: switchVersion_finish_def Let_def handle_isReady_def snapshot_isReady_def fromHandle_def split: if_splits)
qed

section \<open>Properties\<close>

text \<open>
  (C2) Readiness means service: in every state the registry can reach, with any number of loads, reloads,
  version switches, drains and unloads in flight, a model is reported ready exactly when its handle is
  \<open>Ready\<close>, and then requests reach a scheduler that accepts them and is not being retired. So a model
  stays ready while its replacement is built.
\<close>

theorem ready_models_accept:
  assumes "reach reg_start reg_step r" "findSlot r name = Some slot"
  shows "(ready r name \<longleftrightarrow> current (sl_handle slot) = Ready) \<and>
    (ready r name \<longrightarrow> (\<exists>p. map_option sn_scheduler (findHandle r name) = Some (Some p) \<and> p < length (rg_schedulers r) \<and>
       sched_isReady (rg_schedulers r ! p) \<and> p \<notin> retired_set r))"
proof -
  note ok = reach_slot(1) [OF assms]
  have "\<exists>p. map_option sn_scheduler (findHandle r name) = Some (Some p) \<and> p < length (rg_schedulers r) \<and>
       sched_isReady (rg_schedulers r ! p) \<and> p \<notin> retired_set r" if "ready r name"
  proof -
    from that assms(2) obtain n p where n: "sl_active_snapshot slot = Some n" "sn_scheduler n = Some p"
      "sched_isReady (rg_schedulers r ! p)"
      by (auto simp: ready_def findHandle_def snapshot_isReady_def split: option.splits)
    then have "owns slot p" by (auto simp: owns_def)
    then have "p < length (rg_schedulers r)" "p \<notin> retired_set r"
      using owns_bound [OF ok] reach_slot(2) [OF assms] by auto
    with n assms(2) show ?thesis by (auto simp: findHandle_def)
  qed
  with ready_iff [OF ok assms(2)] show ?thesis by blast
qed

theorem ready_models_accept_witness: "\<not> ready demo_loading ''demo''"
  using ready_models_accept [OF demo_loading_reach, of "''demo''" "publishSnapshot (placeholder default_config)"]
  by (simp add: demo_loading_def findSlot_def update_conv)

text \<open>
  (C14) Nobody waits forever for a slot: while a slot is loading or reloading, exactly one call in flight
  is building for it, and however that call ends, whatever the factory does, the slot is settled
  afterwards, so every caller waiting for it wakes up to an answer.
\<close>

theorem waiting_callers_are_answered:
  assumes "reach reg_start reg_step r" "loadOrReloadInProgress r name"
  shows "(\<exists>!b. b \<in> set (rr_builds r) \<and> build_name b = name) \<and>
    (\<forall>b kind_of now factory res t. b \<in> set (rr_builds r) \<and> build_name b = name \<and>
       build_finish kind_of now factory b r = (res, t) \<longrightarrow>
       \<not> loadOrReloadInProgress t name \<and> join_result name t \<noteq> None)"
proof -
  from assms(2) obtain slot where slot: "findSlot r name = Some slot" "busy slot"
    by (auto simp: loadOrReloadInProgress_def busy_def split: option.splits)
  from registry.reach_inv [OF assms(1)] slot have "name \<in> build_name ` set (rr_builds r)"
    by (auto simp: reg_inv_def builds_ok_iff findSlot_def)
  then obtain b where b: "b \<in> set (rr_builds r)" "build_name b = name" by blast
  have "\<exists>!b. b \<in> set (rr_builds r) \<and> build_name b = name"
    using distinct_builds [OF assms(1)] b by (auto simp: distinct_map inj_on_def)
  moreover have "\<not> loadOrReloadInProgress t name \<and> join_result name t \<noteq> None"
    if "b \<in> set (rr_builds r)" "build_name b = name" "build_finish kind_of now factory b r = (res, t)"
    for b kind_of now factory res t
  proof -
    have "\<not> loadOrReloadInProgress t name" using settled_after_finish [OF assms(1) that(1,3)] that(2) by simp
    then show ?thesis by (auto simp: loadOrReloadInProgress_def join_result_def split: option.splits)
  qed
  ultimately show ?thesis by blast
qed

theorem waiting_callers_are_answered_witness:
  "\<exists>!b. b \<in> set (rr_builds demo_loading) \<and> build_name b = ''demo''"
  using waiting_callers_are_answered [OF demo_loading_reach, of "''demo''"]
  by (simp add: demo_loading_def loadOrReloadInProgress_def findSlot_def update_conv)

text \<open>
  (C4) A failed reload does not take a serving model down: when a reload or a version switch of a ready
  model reports failure, the model is still ready, on the same scheduler and with the same metadata and
  configuration as before.
\<close>

theorem failed_reload_keeps_serving:
  assumes "reach reg_start reg_step r" "b \<in> set (rr_builds r)" "\<not> is_load b"
    and "ready r (build_name b)" "build_finish kind_of now factory b r = (False, t)"
  shows "ready t (build_name b) \<and> find_model t (build_name b) = find_model r (build_name b) \<and>
    map_option sn_scheduler (findHandle t (build_name b)) = map_option sn_scheduler (findHandle r (build_name b)) \<and>
    modelConfig t (build_name b) = modelConfig r (build_name b)"
proof -
  let ?n = "build_name b"
  from assms(1,2) obtain slot where slot: "findSlot r ?n = Some slot" and ok: "slot_ok (rg_schedulers r) slot"
    by (rule reach_build)
  have rdy: "current (sl_handle slot) = Ready" using assms(4) ready_iff [OF ok slot] by simp
  then have act: "sl_active_snapshot slot = Some (fromHandle (sl_handle slot))" using ok by (simp add: slot_ok_def)
  note reach' = finish_reach [OF assms(1,2,5)]
  have "keeps_slot r ?n slot t"
    by (rule failed_finish_keeps [OF assms(3,5) slot rdy])
  then obtain h st slot' where k: "t = set_slot ?n slot' (r\<lparr>rg_schedulers := st\<rparr>)" "sl_handle slot' = h"
    "sl_active_snapshot slot' = Some (fromHandle h)" "sl_config slot' = sl_config slot" "current h = Ready"
    "mh_scheduler h = mh_scheduler (sl_handle slot)" "mh_metadata h = mh_metadata (sl_handle slot)"
    unfolding keeps_slot_def by blast
  then have slot': "findSlot (t\<lparr>rr_builds := remove1 b (rr_builds r)\<rparr>) ?n = Some slot'" "findSlot t ?n = Some slot'"
    by (simp_all add: findSlot_def update_conv)
  from k have "current (sl_handle slot') = Ready" by simp
  with ready_iff [OF reach_slot(1) [OF reach' slot'(1)] slot'(1)]
  have "ready (t\<lparr>rr_builds := remove1 b (rr_builds r)\<rparr>) ?n" by blast
  then have "ready t ?n" by simp
  with k slot'(2) slot act show ?thesis
    by (simp add: find_model_def findHandle_def modelConfig_def fromHandle_def)
qed

theorem failed_reload_keeps_serving_witness:
  "\<exists>t. build_finish (\<lambda>_. TensorKind) 0 broken_factory (ReloadBuild ''demo'' default_config)
      (one_model (ready_slot\<lparr>sl_reload_pending := True\<rparr>) [stub_scheduler default_config] []
         [ReloadBuild ''demo'' default_config]) = (False, t) \<and> ready t ''demo''"
proof -
  let ?r = "one_model (ready_slot\<lparr>sl_reload_pending := True\<rparr>) [stub_scheduler default_config] [] [ReloadBuild ''demo'' default_config]"
  have "\<exists>t. build_finish (\<lambda>_. TensorKind) 0 broken_factory (ReloadBuild ''demo'' default_config) ?r = (False, t)"
    by (simp add: reload_finish_def broken_load findSlot_def one_model_def finishReload_def Let_def)
  then obtain t where t: "build_finish (\<lambda>_. TensorKind) 0 broken_factory (ReloadBuild ''demo'' default_config) ?r = (False, t)" ..
  have "ReloadBuild ''demo'' default_config \<in> set (rr_builds ?r)" by (simp add: one_model_def)
  from failed_reload_keeps_serving [OF demo_reloading_reach this _ _ t] t show ?thesis by simp
qed

text \<open>
  (C36) Unloading is complete and local: when it reports success, the model is gone, its scheduler accepts
  nothing any more and is in the hands of the retire queue, and every other model is as it was.
\<close>

theorem unload_removes_model:
  assumes "reach reg_start reg_step r" "unloadModel name r = (True, t)" "findSlot r name = Some slot"
  shows "findSlot t name = None \<and> (\<forall>k. k \<noteq> name \<longrightarrow> findSlot t k = findSlot r k) \<and>
    (\<forall>p. mh_scheduler (sl_handle slot) = Some p \<longrightarrow> \<not> sched_isReady (rg_schedulers t ! p) \<and> p \<in> retired_set t)"
proof (cases "current (sl_handle slot) = Failed \<and> mh_scheduler (sl_handle slot) = None")
  case True
  with assms(2,3) show ?thesis
    by (auto simp: unloadModel_def unloadModel_check_def split: if_splits)
next
  case False
  note ok = reach_slot(1) [OF assms(1,3)]
  from assms(2,3) False have np: "\<not> sl_reload_pending slot" "current (sl_handle slot) \<noteq> Loading"
    by (auto simp: unloadModel_def unloadModel_check_def split: if_splits)
  with assms(2,3) False obtain u where d: "registry_beginDrain name r = (True, u)" and c: "registry_completeUnload name u = (True, t)"
    by (auto simp: unloadModel_def unloadModel_check_def split: if_splits prod.splits)
  from d assms(3) np obtain h st where ld: "lifecycle_beginDrain (sl_handle slot) (rg_schedulers r) = (True, h, st)"
    and u: "u = set_slot name (publishSnapshot (slot\<lparr>sl_handle := h\<rparr>)) (r\<lparr>rg_schedulers := st\<rparr>)"
    by (auto simp: registry_beginDrain_def split: prod.splits if_splits)
  have "handle_ok (length (rg_schedulers r)) (sl_handle slot)" using ok by (simp add: slot_ok_def)
  note f = handle_ok_beginDrain [OF ld this]
  obtain p where p: "mh_scheduler (sl_handle slot) = Some p" using f(4) by auto
  have len: "p < length (rg_schedulers r)" using p owns_bound [OF ok] by (simp add: owns_def)
  obtain b q h' st' where lc: "lifecycle_completeUnload h st = (b, q, h', st')" by (metis prod_cases4)
  from c u lc have b: b and t: "t = erase_slot name (retire q (u\<lparr>rg_schedulers := st'\<rparr>))"
    by (auto simp: registry_completeUnload_def split: if_splits)
  from completeUnload_cases [OF lc] b f(3) p have q: "q = Some p" and st': "st' = at_scheduler sched_stopAccepting p st" by auto
  have "\<not> sched_isReady (st' ! p)" using len f(2) st' by (simp add: at_scheduler_nth)
  then show ?thesis using t u p q by (auto simp: retire_def pruneCompleted_def erase_slot_def findSlot_def update_conv delete_conv)
qed

theorem unload_removes_model_witness:
  "findSlot (snd (unloadModel ''demo'' (one_model ready_slot [stub_scheduler default_config] [] []))) ''demo'' = None"
proof -
  let ?r = "one_model ready_slot [stub_scheduler default_config] [] []"
  have "findSlot ?r ''demo'' = Some ready_slot" by (simp add: findSlot_def one_model_def)
  moreover have "unloadModel ''demo'' ?r = (True, snd (unloadModel ''demo'' ?r))"
    by (simp add: unloadModel_def unloadModel_check_def registry_beginDrain_def lifecycle_beginDrain_def
        registry_completeUnload_def lifecycle_completeUnload_def completeUnload_sm_def transitionTo_def notify_def
        on_state_def beginUnload_def stub_handle_def findSlot_def one_model_def ready_slot_def set_slot_def publishSnapshot_def Let_def)
  ultimately show ?thesis using unload_removes_model [OF demo_ready_reach, of "''demo''"] by blast
qed

text \<open>The models whose state decides the readiness of the server.\<close>

definition counted :: "'a ModelRegistry_scheme \<Rightarrow> InferSnapshot \<Rightarrow> bool" where
  "counted r n \<longleftrightarrow> sn_state n \<noteq> Loading \<and> \<not> (rg_repository_mode r \<and> sn_state n = Failed)"

lemma all_ready_scan_iff:
  assumes "\<forall>e \<in> set ms. sl_active_snapshot (snd e) \<noteq> None"
  shows "all_ready_scan c r ms \<longleftrightarrow>
    (\<forall>e \<in> set ms. \<forall>n. sl_active_snapshot (snd e) = Some n \<longrightarrow> counted r n \<longrightarrow> snapshot_isReady (rg_schedulers r) n) \<and>
    (c \<or> (\<exists>e \<in> set ms. \<exists>n. sl_active_snapshot (snd e) = Some n \<and> counted r n) \<or> rg_explicit_control_mode r)"
  using assms
proof (induction ms arbitrary: c)
  case Nil
  then show ?case by simp
next
  case (Cons e ms)
  then obtain n where n: "sl_active_snapshot (snd e) = Some n" by auto
  have "all_ready_scan c r (e # ms) \<longleftrightarrow>
      (if counted r n then snapshot_isReady (rg_schedulers r) n \<and> all_ready_scan True r ms else all_ready_scan c r ms)"
    using n by (cases e) (simp add: counted_def)
  with Cons n show ?case by (cases "counted r n") simp_all
qed

text \<open>
  \<open>allReady\<close> is what its comments promise: a server with models is ready when every model that has
  finished loading, and in repository mode has not failed, is ready, and there is at least one such model
  or the server runs in explicit control mode; a server without models is ready only in that mode.
\<close>

theorem all_ready_spec:
  assumes "reach reg_start reg_step r"
  shows "allReady r \<longleftrightarrow>
    (\<forall>name n. findHandle r name = Some n \<longrightarrow> counted r n \<longrightarrow> ready r name) \<and>
    ((\<exists>name n. findHandle r name = Some n \<and> counted r n) \<or> rg_explicit_control_mode r)"
proof -
  from registry.reach_inv [OF assms] have dist: "distinct (map fst (rg_models r))"
    by (simp add: reg_inv_def core_inv_def)
  have snap: "sl_active_snapshot s \<noteq> None" if "(k, s) \<in> set (rg_models r)" for k s
    using reach_slot(1) [OF assms, of k s] that dist by (auto simp: findSlot_def slot_ok_def)
  have look: "findHandle r k = Some n \<longleftrightarrow> (\<exists>s. (k, s) \<in> set (rg_models r) \<and> sl_active_snapshot s = Some n)" for k n
    using dist by (auto simp: findHandle_def findSlot_def bind_eq_Some_conv)
  have rdy: "ready r k \<longleftrightarrow> snapshot_isReady (rg_schedulers r) n" if "findHandle r k = Some n" for k n
    using that by (simp add: ready_def)
  have "\<forall>e \<in> set (rg_models r). sl_active_snapshot (snd e) \<noteq> None" using snap by force
  note iff = all_ready_scan_iff [OF this, of False r]
  have "(\<forall>e \<in> set (rg_models r). \<forall>n. sl_active_snapshot (snd e) = Some n \<longrightarrow> counted r n \<longrightarrow> snapshot_isReady (rg_schedulers r) n)
      \<longleftrightarrow> (\<forall>name n. findHandle r name = Some n \<longrightarrow> counted r n \<longrightarrow> ready r name)"
    using rdy look by (metis prod.collapse snd_conv)
  moreover have "(\<exists>e \<in> set (rg_models r). \<exists>n. sl_active_snapshot (snd e) = Some n \<and> counted r n) \<longleftrightarrow>
      (\<exists>name n. findHandle r name = Some n \<and> counted r n)"
    using look by (metis prod.collapse snd_conv)
  ultimately have scan: "all_ready_scan False r (rg_models r) \<longleftrightarrow>
    (\<forall>name n. findHandle r name = Some n \<longrightarrow> counted r n \<longrightarrow> ready r name) \<and>
    ((\<exists>name n. findHandle r name = Some n \<and> counted r n) \<or> rg_explicit_control_mode r)"
    using iff by blast
  show ?thesis
  proof (cases "rg_models r = []")
    case True
    then show ?thesis by (simp add: allReady_def look)
  next
    case False
    with scan show ?thesis by (simp add: allReady_def)
  qed
qed

theorem all_ready_spec_witness: "\<not> allReady demo_run"
proof -
  have "\<not> rg_explicit_control_mode demo_run" "findHandle demo_run name = None" for name
    by (simp_all add: demo_run_def empty_registry_def ModelRegistry.extend_def findHandle_def findSlot_def)
  with all_ready_spec [OF demo_run_start] show ?thesis by simp
qed

text \<open>
  A reload leaves the snapshots by version behind: after a switch to version 2 and a reload of that
  version, the model is ready and its version is 2, but a request for version 2 by name still gets the
  snapshot of the switch, whose scheduler is retired, and is refused.
\<close>

theorem stale_version_snapshot:
  "\<exists>r1 r2 r3. let pinned = default_config\<lparr>rc_model_version := ''2'', rc_model_version_explicit := True\<rparr>;
       r4 = r3\<lparr>rg_schedulers := at_scheduler sched_beginDrain_flag 1 (rg_schedulers r3)\<rparr>
     in loadModel (\<lambda>_. TensorKind) 0 stub_factory default_config (empty_registry False False False (1 / 4)) = Some (True, r1) \<and>
        switchVersion (\<lambda>_. TensorKind) 0 stub_factory ''demo'' ''2'' default_config r1 = Some (True, r2) \<and>
        reload (\<lambda>_. TensorKind) 0 stub_factory ''demo'' pinned r2 = Some (True, r3) \<and>
        (1, False) \<in> set (rg_retiring r3) \<and>
        ready r4 ''demo'' \<and> defaultVersion r4 ''demo'' = Some ''2'' \<and> \<not> readyVersion r4 ''demo'' ''2''"
proof -
  let ?pinned = "default_config\<lparr>rc_model_version := ''2'', rc_model_version_explicit := True\<rparr>"
  let ?vc = "version_config ''demo'' ''2'' default_config"
  let ?S = "stub_scheduler default_config"
  let ?r1 = "solo ready_slot [?S] []"
  let ?slot2 = "\<lparr>sl_handle = stub_handle ?vc ''2'' 1, sl_config = ?vc,
    sl_active_snapshot = Some (fromHandle (stub_handle ?vc ''2'' 1)),
    sl_version_snapshots = [(''1'', fromHandle (stub_handle default_config ''1'' 0)), (''2'', fromHandle (stub_handle ?vc ''2'' 1))],
    sl_reload_pending = False\<rparr>"
  let ?r2 = "solo ?slot2 [?S, stub_scheduler ?vc] [(0, False)]"
  let ?slot3 = "?slot2\<lparr>sl_handle := stub_handle ?pinned ''2'' 2, sl_config := ?pinned,
    sl_active_snapshot := Some (fromHandle (stub_handle ?pinned ''2'' 2))\<rparr>"
  let ?r3 = "solo ?slot3 [?S, stub_scheduler ?vc, stub_scheduler ?pinned] [(0, False), (1, False)]"
  have vc: "rc_instances ?vc = 1" "rc_scheduler_strategy ?vc = ''tensor''" by (simp_all add: version_config_def)
  have 1: "loadModel (\<lambda>_. TensorKind) 0 stub_factory default_config (empty_registry False False False (1 / 4)) = Some (True, ?r1)"
    by (simp add: loadModel_def run_call_def loadModel_begin_def loadModel_finish_def stub_load solo_def ready_slot_def findSlot_def
        set_slot_def publishSnapshot_def placeholder_def empty_registry_def)
  have 2: "switchVersion (\<lambda>_. TensorKind) 0 stub_factory ''demo'' ''2'' default_config ?r1 = Some (True, ?r2)"
    by (simp add: switchVersion_def run_call_def switchVersion_begin_def begin_build_def beginReload_def switchVersion_finish_def
        stub_load vc solo_def ready_slot_def findSlot_def set_slot_def publishSnapshot_def finishReload_def versionFromSnapshot_def
        remember_version_def retireSnapshot_def retire_def pruneCompleted_def snapshot_isReady_def stub_handle_def fromHandle_def
        tensorStubMetadata_def Let_def)
  have 3: "reload (\<lambda>_. TensorKind) 0 stub_factory ''demo'' ?pinned ?r2 = Some (True, ?r3)"
    by (simp add: reload_def run_call_def reload_begin_def begin_build_def beginReload_def reload_finish_def
        stub_load solo_def findSlot_def set_slot_def publishSnapshot_def finishReload_def retireSnapshot_def retire_def
        pruneCompleted_def handle_isReady_def stub_handle_def fromHandle_def pinned_version_def Let_def)
  let ?r4 = "?r3\<lparr>rg_schedulers := at_scheduler sched_beginDrain_flag 1 (rg_schedulers ?r3)\<rparr>"
  have 4: "ready ?r4 ''demo''" "defaultVersion ?r4 ''demo'' = Some ''2''"
    by (simp_all add: ready_def defaultVersion_def findHandle_def findSlot_def solo_def at_scheduler_def snapshot_isReady_def
        fromHandle_def stub_handle_def)
  have 5: "\<not> readyVersion ?r4 ''demo'' ''2''"
    by (simp add: readyVersion_def findHandleVersion_def findSlot_def solo_def at_scheduler_def snapshot_isReady_def
        fromHandle_def stub_handle_def stub_scheduler_def beginDrain_flag_def core_isReady_def)
  show ?thesis
    using 1 2 3 4 5 by (intro exI [of _ ?r1] exI [of _ ?r2] exI [of _ ?r3]) (simp add: Let_def solo_def)
qed

text \<open>
  Loading a new model reports success even when the build failed: whatever the factory does, the
  call that built returns true. The header of the registry says it returns false for a build that failed.
\<close>

theorem load_reports_success_on_failure:
  assumes "findSlot r (rc_model_name config) = None"
  shows "\<exists>t. loadModel kind_of now factory config r = Some (True, t)"
  using assms by (simp add: loadModel_def run_call_def loadModel_begin_def loadModel_finish_def Let_def split: prod.splits)

theorem load_reports_success_on_failure_witness:
  "\<exists>t. loadModel (\<lambda>_. TensorKind) 0 broken_factory default_config (empty_registry False False False (1 / 4)) = Some (True, t) \<and>
     \<not> ready t ''demo''"
proof -
  let ?r = "empty_registry False False False (1 / 4)"
  have "findSlot ?r (rc_model_name default_config) = None" by (simp add: findSlot_def empty_registry_def)
  from load_reports_success_on_failure [OF this]
  obtain t where t: "loadModel (\<lambda>_. TensorKind) 0 broken_factory default_config ?r = Some (True, t)" by blast
  then have "\<not> ready t ''demo''"
    by (auto simp: loadModel_def run_call_def loadModel_begin_def loadModel_finish_def broken_load findSlot_def empty_registry_def
        set_slot_def ready_def findHandle_def snapshot_isReady_def fromHandle_def)
  with t show ?thesis by blast
qed

end
