(* ===== verification/Json.thy ===== *)
theory Json
  imports Prelude
begin

text \<open>
  The JSON values the codecs work on, as \<open>nlohmann::json\<close> documents them: a parsed non-negative integer
  is an unsigned number, a negative one a signed number; an object has its keys in order and each once.
  The parser and the printer of that library are arguments of the definitions that use them.
\<close>

datatype Json =
  JNull | JBool bool | JInteger int | JUnsigned nat | JFloat double | JString string
| JArray "Json list" | JObject "(string \<times> Json) list"

fun is_object :: "Json \<Rightarrow> bool" where
  "is_object (JObject _) = True" | "is_object _ = False"

fun is_array :: "Json \<Rightarrow> bool" where
  "is_array (JArray _) = True" | "is_array _ = False"

fun is_string :: "Json \<Rightarrow> bool" where
  "is_string (JString _) = True" | "is_string _ = False"

fun is_boolean :: "Json \<Rightarrow> bool" where
  "is_boolean (JBool _) = True" | "is_boolean _ = False"

fun is_number_unsigned :: "Json \<Rightarrow> bool" where
  "is_number_unsigned (JUnsigned _) = True" | "is_number_unsigned _ = False"

fun is_number_integer :: "Json \<Rightarrow> bool" where
  "is_number_integer (JUnsigned _) = True" | "is_number_integer (JInteger _) = True" | "is_number_integer _ = False"

fun is_number :: "Json \<Rightarrow> bool" where
  "is_number (JUnsigned _) = True" | "is_number (JInteger _) = True" | "is_number (JFloat _) = True"
| "is_number _ = False"

fun elements :: "Json \<Rightarrow> Json list" where
  "elements (JArray xs) = xs" | "elements _ = []"

fun members :: "Json \<Rightarrow> (string \<times> Json) list" where
  "members (JObject ms) = ms" | "members _ = []"

fun text_of :: "Json \<Rightarrow> string" where
  "text_of (JString s) = s" | "text_of _ = []"

text \<open>\<open>contains\<close> and \<open>operator[]\<close>, which the codecs only apply to a key that is there.\<close>

definition contains :: "Json \<Rightarrow> string \<Rightarrow> bool" where
  "contains j key \<longleftrightarrow> map_of (members j) key \<noteq> None"

definition at_key :: "Json \<Rightarrow> string \<Rightarrow> Json" where
  "at_key j key = (case map_of (members j) key of Some v \<Rightarrow> v | None \<Rightarrow> JNull)"

text \<open>\<open>get\<close> to an integer type of the given width: the value modulo the width, read as signed or not.\<close>

fun integer_of :: "Json \<Rightarrow> int" where
  "integer_of (JUnsigned n) = int n" | "integer_of (JInteger i) = i" | "integer_of _ = 0"

definition get_int64 :: "Json \<Rightarrow> int64_t" where
  "get_int64 j = (let m = integer_of j mod 2 ^ 64 in if m < 2 ^ 63 then m else m - 2 ^ 64)"

fun type_name :: "Json \<Rightarrow> string" where
  "type_name JNull = ''null''" | "type_name (JBool _) = ''boolean''" | "type_name (JString _) = ''string''"
| "type_name (JArray _) = ''array''" | "type_name (JObject _) = ''object''" | "type_name _ = ''number''"

text \<open>\<open>value(key, std::string)\<close>: the default for a missing key, an exception for a value that is not a string.\<close>

definition value_string :: "Json \<Rightarrow> string \<Rightarrow> string \<Rightarrow> string + string" where
  "value_string j key dflt =
     (if \<not> contains j key then Inr dflt
      else if is_string (at_key j key) then Inr (text_of (at_key j key))
      else Inl (''[json.exception.type_error.302] type must be string, but is '' @ type_name (at_key j key)))"

text \<open>
  What \<open>nlohmann::json::parse\<close> does with a text: a value, a \<open>parse_error\<close>, or another exception of the
  library. The last is \<open>out_of_range\<close> for a number too large for a double, which is not a \<open>parse_error\<close>.
\<close>

datatype JsonText = JsonValue Json | JsonParseError string | JsonOutOfRange string

text \<open>\<open>get<size_t>\<close> of an unsigned number and \<open>get<bool>\<close> of a boolean.\<close>

fun get_size_t :: "Json \<Rightarrow> size_t" where
  "get_size_t (JUnsigned n) = n mod size_limit" | "get_size_t _ = 0"

fun get_bool :: "Json \<Rightarrow> bool" where
  "get_bool (JBool b) = b" | "get_bool _ = False"

lemma contains_JObject [simp]: "contains (JObject ms) key \<longleftrightarrow> key \<in> fst ` set ms"
  by (auto simp: contains_def map_of_eq_None_iff)

lemma get_int64_exact: "- (2 ^ 63) \<le> integer_of j \<Longrightarrow> integer_of j < 2 ^ 63 \<Longrightarrow> get_int64 j = integer_of j"
proof (cases "0 \<le> integer_of j")
  case True
  moreover assume "integer_of j < 2 ^ 63"
  ultimately show ?thesis by (simp add: get_int64_def Let_def)
next
  case False
  assume "- (2 ^ 63) \<le> integer_of j"
  with False have "integer_of j mod 2 ^ 64 = integer_of j + 2 ^ 64"
    by (subst mod_add_self2 [symmetric], subst mod_pos_pos_trivial) auto
  with False \<open>- (2 ^ 63) \<le> integer_of j\<close> show ?thesis by (simp add: get_int64_def Let_def)
qed

end
