(* ===== verification/Pipeline.thy ===== *)
theory Pipeline
  imports Json Lifecycle
begin

text \<open>
  Pipeline (ensemble) models: the graph (\<open>PipelineConfig.cpp\<close>), the envelopes (\<open>PipelineEnvelope.cpp\<close>) and
  the executor (\<open>PipelineExecutor.cpp\<close>). The JSON parser, the file that holds a graph, the built-in steps
  of the task layer and the models a step calls are arguments.
\<close>

section \<open>PipelineConfig.hpp\<close>

datatype PipelineStepKind = ModelStep | Preprocess | Postprocess
datatype PipelineEnvelope = Detection | Mask | Polygon

record PipelineStepConfig =
  pc_kind :: PipelineStepKind
  pc_name :: string
  pc_model_name :: string
  pc_model_version :: string
  pc_input_map :: "(string \<times> string) list"
  pc_output_map :: "(string \<times> string) list"
  pc_task_type :: string
  pc_envelope :: PipelineEnvelope
  pc_confidence_threshold :: double
  pc_nms_threshold :: double
  pc_mask_threshold :: double

definition new_step :: PipelineStepConfig where
  "new_step = \<lparr>pc_kind = ModelStep, pc_name = [], pc_model_name = [], pc_model_version = [], pc_input_map = [],
     pc_output_map = [], pc_task_type = [], pc_envelope = Detection, pc_confidence_threshold = 1 / 4,
     pc_nms_threshold = 7549747 / 16777216, pc_mask_threshold = 1 / 2\<rparr>"

type_synonym PipelineConfig = "PipelineStepConfig list"

definition pipelineImageInputName :: string where
  "pipelineImageInputName = ''IMAGE''"

definition kPipelineMaxDetections :: int64_t where
  "kPipelineMaxDetections = 100"

section \<open>PipelineConfig.cpp\<close>

text \<open>What parsing does: a value, \<open>false\<close> with an error, or an exception of the JSON library.\<close>

datatype 'a Parsed = Parsed 'a | Rejected string | ParseThrows string

fun parsed_then :: "'a Parsed \<Rightarrow> ('a \<Rightarrow> 'b Parsed) \<Rightarrow> 'b Parsed" where
  "parsed_then (Parsed v) f = f v"
| "parsed_then (Rejected e) f = Rejected e"
| "parsed_then (ParseThrows m) f = ParseThrows m"

definition check :: "bool \<Rightarrow> string \<Rightarrow> unit Parsed" where
  "check ok error = (if ok then Parsed () else Rejected error)"

definition node_string :: "Json \<Rightarrow> string \<Rightarrow> string Parsed" where
  "node_string node key = (case value_string node key [] of Inl m \<Rightarrow> ParseThrows m | Inr s \<Rightarrow> Parsed s)"

definition parseKind :: "string \<Rightarrow> PipelineStepKind Parsed" where
  "parseKind s =
     (if s = ''model'' then Parsed ModelStep else if s = ''preprocess'' then Parsed Preprocess
      else if s = ''postprocess'' then Parsed Postprocess else Rejected (''unknown pipeline step kind: '' @ s))"

definition parseEnvelope :: "string \<Rightarrow> PipelineEnvelope Parsed" where
  "parseEnvelope s =
     (if s = ''detection'' then Parsed Detection else if s = ''mask'' then Parsed Mask
      else if s = ''polygon'' then Parsed Polygon else Rejected (''unknown pipeline envelope: '' @ s))"

definition readTensorMap :: "Json \<Rightarrow> string \<Rightarrow> string \<Rightarrow> (string \<times> string) list Parsed" where
  "readTensorMap node field step_name =
     (if \<not> contains node field then Parsed []
      else if \<not> is_object (at_key node field)
        then Rejected (''pipeline step '' @ quoted step_name @ '': '' @ field @ '' must be an object'')
      else if list_all (\<lambda>e. is_string (snd e)) (members (at_key node field))
        then Parsed (fold (\<lambda>e m. snd (emplace (fst e) (text_of (snd e)) m)) (members (at_key node field)) [])
      else Rejected (''pipeline step '' @ quoted step_name @ '': '' @ field @ '' values must be strings''))"

fun number_of :: "Json \<Rightarrow> double" where
  "number_of (JUnsigned n) = of_nat n" | "number_of (JInteger i) = of_int i" | "number_of (JFloat d) = d"
| "number_of _ = 0"

text \<open>\<open>to_float\<close> rounds to a \<open>float\<close>.\<close>

definition readFloat :: "(double \<Rightarrow> double) \<Rightarrow> Json \<Rightarrow> string \<Rightarrow> string \<Rightarrow> double \<Rightarrow> double Parsed" where
  "readFloat to_float node field step_name target =
     (if \<not> contains node field then Parsed target
      else if \<not> is_number (at_key node field)
        then Rejected (''pipeline step '' @ quoted step_name @ '': '' @ field @ '' must be a number'')
      else Parsed (to_float (number_of (at_key node field))))"

definition unproduced :: "string \<Rightarrow> string \<Rightarrow> string" where
  "unproduced step_name tensor =
     ''pipeline step '' @ quoted step_name @ '' consumes tensor '' @ quoted tensor @ '' that no earlier step produces''"

text \<open>One step of the graph, up to the check of its tensor names.\<close>

definition parse_step :: "(double \<Rightarrow> double) \<Rightarrow> string list \<Rightarrow> Json \<Rightarrow> PipelineStepConfig Parsed" where
  "parse_step to_float step_names node =
     parsed_then (check (is_object node) ''pipeline steps must be objects'') (\<lambda>_.
     parsed_then (node_string node ''name'') (\<lambda>name.
     parsed_then (check (name \<noteq> []) ''every pipeline step needs a name'') (\<lambda>_.
     parsed_then (check (name \<notin> set step_names) (''duplicate pipeline step name: '' @ name)) (\<lambda>_.
     parsed_then (node_string node ''kind'') (\<lambda>kind_text.
     parsed_then (check (kind_text \<noteq> []) (''pipeline step '' @ quoted name @ '' has no kind'')) (\<lambda>_.
     parsed_then (parseKind kind_text) (\<lambda>kind.
     parsed_then
       (if kind = ModelStep then
          parsed_then (node_string node ''model_name'') (\<lambda>model_name.
          parsed_then (check (model_name \<noteq> []) (''pipeline step '' @ quoted name @ '' is a model step without a model_name'')) (\<lambda>_.
          parsed_then (node_string node ''model_version'') (\<lambda>version.
            Parsed (new_step\<lparr>pc_name := name, pc_kind := kind, pc_model_name := model_name, pc_model_version := version\<rparr>))))
        else
          parsed_then (node_string node ''task_type'') (\<lambda>task.
          parsed_then (check (task \<noteq> []) (''pipeline step '' @ quoted name @ '' needs a task_type'')) (\<lambda>_.
            Parsed (new_step\<lparr>pc_name := name, pc_kind := kind, pc_task_type := task\<rparr>)))) (\<lambda>step.
     parsed_then
       (if kind = Postprocess \<and> contains node ''envelope'' then
          parsed_then (check (is_string (at_key node ''envelope''))
            (''pipeline step '' @ quoted name @ '': envelope must be a string'')) (\<lambda>_.
            parseEnvelope (text_of (at_key node ''envelope'')))
        else Parsed Detection) (\<lambda>envelope.
     parsed_then (readFloat to_float node ''confidence_threshold'' name (pc_confidence_threshold step)) (\<lambda>confidence.
     parsed_then (readFloat to_float node ''nms_threshold'' name (pc_nms_threshold step)) (\<lambda>nms.
     parsed_then (readFloat to_float node ''mask_threshold'' name (pc_mask_threshold step)) (\<lambda>mask.
     parsed_then (readTensorMap node ''input_map'' name) (\<lambda>inputs.
     parsed_then (readTensorMap node ''output_map'' name) (\<lambda>outputs.
       Parsed (step\<lparr>pc_envelope := envelope, pc_confidence_threshold := confidence, pc_nms_threshold := nms,
                 pc_mask_threshold := mask, pc_input_map := inputs, pc_output_map := outputs\<rparr>)))))))))))))))"

fun parse_steps ::
  "(double \<Rightarrow> double) \<Rightarrow> string list \<Rightarrow> string list \<Rightarrow> bool \<Rightarrow> Json list \<Rightarrow> PipelineConfig Parsed" where
  "parse_steps to_float step_names available names_knowable [] = Parsed []"
| "parse_steps to_float step_names available names_knowable (node # nodes) =
     parsed_then (parse_step to_float step_names node) (\<lambda>step.
     parsed_then
       (case find_first (\<lambda>e. names_knowable \<and> snd e \<notin> set available) (pc_input_map step) of
          Some e \<Rightarrow> Rejected (unproduced (pc_name step) (snd e))
        | None \<Rightarrow> Parsed ()) (\<lambda>_.
     parsed_then
       (parse_steps to_float (step_names @ [pc_name step]) (available @ map snd (pc_output_map step))
          (names_knowable \<and> pc_output_map step \<noteq> []) nodes) (\<lambda>steps.
     Parsed (step # steps))))"

text \<open>\<open>parse\<close> is \<open>json::parse\<close> without exceptions: \<open>None\<close> is a discarded value.\<close>

definition parsePipelineConfig :: "(string \<Rightarrow> Json option) \<Rightarrow> (double \<Rightarrow> double) \<Rightarrow> string \<Rightarrow> PipelineConfig Parsed" where
  "parsePipelineConfig parse to_float json_text =
     (case parse json_text of
        None \<Rightarrow> Rejected ''pipeline graph must be a JSON object''
      | Some graph \<Rightarrow>
          if \<not> is_object graph then Rejected ''pipeline graph must be a JSON object''
          else if \<not> contains graph ''steps'' \<or> \<not> is_array (at_key graph ''steps'') \<or> elements (at_key graph ''steps'') = []
            then Rejected (''pipeline graph must declare a non-empty '' @ quoted ''steps'' @ '' array'')
          else parse_steps to_float [] [pipelineImageInputName] True (elements (at_key graph ''steps'')))"

definition pipelineConsumesEncodedImage :: "PipelineConfig \<Rightarrow> bool" where
  "pipelineConsumesEncodedImage config \<longleftrightarrow> (case config of [] \<Rightarrow> False | step # _ \<Rightarrow> pc_kind step = Preprocess)"

definition pipelineTerminalTensors :: "PipelineConfig \<Rightarrow> string list" where
  "pipelineTerminalTensors config =
     (let consumed = concat (map (\<lambda>step. map snd (pc_input_map step)) config)
      in fold (\<lambda>name terminal. if name \<notin> set consumed \<and> name \<notin> set terminal then terminal @ [name] else terminal)
           (concat (map (\<lambda>step. map snd (pc_output_map step)) config)) [])"

section \<open>PipelineEnvelope.cpp\<close>

text \<open>A score that is not a number is \<open>None\<close>.\<close>

definition score_before :: "double option \<Rightarrow> double option \<Rightarrow> bool" where
  "score_before left right =
     (case left of None \<Rightarrow> False | Some a \<Rightarrow> (case right of None \<Rightarrow> True | Some b \<Rightarrow> a > b))"

definition pipelineTopScoreIndices :: "double option list \<Rightarrow> size_t \<Rightarrow> size_t list" where
  "pipelineTopScoreIndices scores cap =
     take cap (stable_sort (\<lambda>l r. score_before (scores ! l) (scores ! r)) [0..<length scores])"

definition pipelineEnvelopeOutputs :: "PipelineEnvelope \<Rightarrow> TensorMetadata list" where
  "pipelineEnvelopeOutputs envelope =
     (let tensor = (\<lambda>name type shape. \<lparr>tm_name = name, tm_datatype = type, tm_shape = shape\<rparr>)
      in [tensor ''NUM_DETECTIONS'' ''INT32'' [1],
          tensor ''BOXES'' ''INT32'' [kPipelineMaxDetections, 4],
          tensor ''SCORES'' ''FP32'' [kPipelineMaxDetections],
          tensor ''CLASSES'' ''INT32'' [kPipelineMaxDetections]] @
         (case envelope of
            Detection \<Rightarrow> []
          | Mask \<Rightarrow> [tensor ''MASK_OFFSETS'' ''INT64'' [kPipelineMaxDetections + 1], tensor ''MASK_DATA'' ''UINT8'' [-1]]
          | Polygon \<Rightarrow> [tensor ''INSTANCE_RING_OFFSETS'' ''INT64'' [kPipelineMaxDetections + 1],
                        tensor ''RING_POINT_OFFSETS'' ''INT64'' [-1], tensor ''POLYGON_POINTS'' ''INT32'' [-1, 2]]))"

section \<open>PipelineExecutor.cpp\<close>

definition mapped :: "(string \<times> string) list \<Rightarrow> string \<Rightarrow> string" where
  "mapped m name = (case map_of m name of None \<Rightarrow> name | Some v \<Rightarrow> v)"

text \<open>\<open>read_file\<close> is the content of a file that can be opened.\<close>

definition readGraphText :: "(string \<Rightarrow> string option) \<Rightarrow> RuntimeConfig \<Rightarrow> string + string" where
  "readGraphText read_file config =
     (if rc_pipeline_graph config \<noteq> [] then Inr (rc_pipeline_graph config)
      else if rc_model_path config = []
        then Inl ''pipeline model needs a graph: set model_path to a graph file or supply pipeline_graph inline''
      else (case read_file (rc_model_path config) of
              None \<Rightarrow> Inl (''could not open pipeline graph: '' @ rc_model_path config)
            | Some content \<Rightarrow> Inr content))"

text \<open>A built-in step: its tensors and its run, which fails with an error or throws.\<close>

record BuiltinStep =
  bs_inputs :: "TensorMetadata list"
  bs_outputs :: "TensorMetadata list"
  bs_run :: "OutputTensor list \<Rightarrow> (string + OutputTensor list) Call"

record Step =
  sp_config :: PipelineStepConfig
  sp_builtin :: "BuiltinStep option"
  sp_inputs :: "TensorMetadata list"
  sp_outputs :: "TensorMetadata list"

record PipelineExecutor =
  pe_metadata :: ModelMetadata
  pe_steps :: "Step list"
  pe_last_use :: "(string \<times> nat) list"

definition graph_inputs :: "Step \<Rightarrow> string list" where
  "graph_inputs step = map (\<lambda>t. mapped (pc_input_map (sp_config step)) (tm_name t)) (sp_inputs step)"

definition indexLastUse :: "Step list \<Rightarrow> TensorMetadata list \<Rightarrow> (string \<times> nat) list" where
  "indexLastUse steps outputs =
     (let m = fold (\<lambda>(index, step) m. fold (\<lambda>name. AList.update name index) (graph_inputs step) m) (enumerate 0 steps) []
      in fold (\<lambda>t. AList.delete (tm_name t)) outputs m)"

text \<open>The constructor, on at least one step.\<close>

definition newPipelineExecutor :: "string \<Rightarrow> Step list \<Rightarrow> PipelineExecutor" where
  "newPipelineExecutor model_name steps =
     (let rename = (\<lambda>m t. t\<lparr>tm_name := mapped m (tm_name t)\<rparr>);
          md = \<lparr>mm_name = model_name, mm_versions = [''1''], mm_platform = ''ensemble'',
                mm_inputs = map (rename (pc_input_map (sp_config (hd steps)))) (sp_inputs (hd steps)),
                mm_outputs = map (rename (pc_output_map (sp_config (last steps)))) (sp_outputs (last steps))\<rparr>
      in \<lparr>pe_metadata = md, pe_steps = steps, pe_last_use = indexLastUse steps (mm_outputs md)\<rparr>)"

fun trim_ones :: "int64_t list \<Rightarrow> int64_t list" where
  "trim_ones (d # e # shape) = (if d = 1 then trim_ones (e # shape) else d # e # shape)"
| "trim_ones shape = shape"

definition sameAfterDroppingLeadingOnes :: "int64_t list \<Rightarrow> int64_t list \<Rightarrow> bool" where
  "sameAfterDroppingLeadingOnes left right \<longleftrightarrow> trim_ones left = trim_ones right"

definition adoptDeclaredShape :: "TensorMetadata list \<Rightarrow> OutputTensor \<Rightarrow> OutputTensor" where
  "adoptDeclaredShape declared_inputs tensor =
     (case find_first (\<lambda>d. tm_name d = ot_name tensor) declared_inputs of
        None \<Rightarrow> tensor
      | Some declared \<Rightarrow>
          if tm_shape declared = ot_shape tensor then tensor
          else if \<exists>d \<in> set (tm_shape declared). d < 0 then tensor
          else if sameAfterDroppingLeadingOnes (tm_shape declared) (ot_shape tensor)
            then tensor\<lparr>ot_shape := tm_shape declared\<rparr>
          else tensor)"

text \<open>
  What a model step calls: the resolver, the readiness of the snapshot it finds and \<open>submit\<close> of the
  scheduler it holds.
\<close>

record ModelCalls =
  mc_resolve :: "string \<Rightarrow> string \<Rightarrow> InferSnapshot option"
  mc_ready :: "InferSnapshot \<Rightarrow> bool"
  mc_submit :: "InferSnapshot \<Rightarrow> ExecutionRequest \<Rightarrow> SchedulerResult"

definition as_input :: "OutputTensor \<Rightarrow> InputTensor" where
  "as_input t = \<lparr>it_name = ot_name t, it_datatype = ot_datatype t, it_shape = ot_shape t, it_bytes = ot_bytes t,
     it_string_data = ot_string_data t\<rparr>"

definition as_output :: "InputTensor \<Rightarrow> OutputTensor" where
  "as_output t = \<lparr>ot_name = it_name t, ot_datatype = it_datatype t, ot_shape = it_shape t, ot_bytes = it_bytes t,
     ot_string_data = it_string_data t\<rparr>"

definition runModelStep :: "ModelCalls \<Rightarrow> Step \<Rightarrow> OutputTensor list \<Rightarrow> ExecutionResponse" where
  "runModelStep env step step_inputs =
     (let c = sp_config step;
          tensors = map (adoptDeclaredShape (sp_inputs step)) step_inputs;
          not_ready = failure ''MODEL_NOT_READY'' (''pipeline step '' @ quoted (pc_name c) @ '' references model '' @
                        quoted (pc_model_name c) @ '' which is not ready'')
      in case mc_resolve env (pc_model_name c) (pc_model_version c) of
           None \<Rightarrow> not_ready
         | Some n \<Rightarrow>
             if \<not> mc_ready env n then not_ready
             else
               let scheduled = mc_submit env n (empty_request\<lparr>er_inputs := map as_input tensors\<rparr>)
               in if \<not> sr_ok scheduled
                  then failure (if sr_error_code scheduled = [] then ''INTERNAL'' else sr_error_code scheduled)
                         (''pipeline step '' @ quoted (pc_name c) @ '': '' @ sr_error_message scheduled)
                  else sr_response scheduled)"

text \<open>
  The inputs of one step, taken from the tensors of the graph. A tensor nobody needs again is moved out
  of the map, others are copied; \<open>rest\<close> are the inputs of the step after this one.
\<close>

fun gather ::
  "(string \<times> nat) list \<Rightarrow> nat \<Rightarrow> PipelineStepConfig \<Rightarrow> TensorMetadata list \<Rightarrow> (string \<times> OutputTensor) list \<Rightarrow>
     ExecutionResponse + OutputTensor list \<times> (string \<times> OutputTensor) list" where
  "gather last_use step_index config [] vals = Inr ([], vals)"
| "gather last_use step_index config (declared # rest) vals =
     (let graph_name = mapped (pc_input_map config) (tm_name declared) in
      case map_of vals graph_name of
        None \<Rightarrow> Inl (failure ''INVALID_ARGUMENT'' (''pipeline step '' @ quoted (pc_name config) @
                      '' is missing input tensor '' @ quoted graph_name))
      | Some t \<Rightarrow>
          let needed_later_in_step = (\<exists>d \<in> set rest. mapped (pc_input_map config) (tm_name d) = graph_name);
              is_last_use = (map_of last_use graph_name = Some step_index);
              vals' = (if \<not> needed_later_in_step \<and> is_last_use then AList.delete graph_name vals else vals)
          in case gather last_use step_index config rest vals' of
               Inl e \<Rightarrow> Inl e
             | Inr (ts, vals'') \<Rightarrow> Inr (t\<lparr>ot_name := tm_name declared\<rparr> # ts, vals''))"

text \<open>The outputs of a step enter the graph under their mapped names.\<close>

definition publish :: "PipelineStepConfig \<Rightarrow> OutputTensor list \<Rightarrow> (string \<times> OutputTensor) list \<Rightarrow> (string \<times> OutputTensor) list" where
  "publish config outputs vals =
     fold (\<lambda>t. let name = mapped (pc_output_map config) (ot_name t) in AList.update name (t\<lparr>ot_name := name\<rparr>)) outputs vals"

text \<open>One step on the inputs it was given: its outputs, or the response the request ends with.\<close>

definition run_step :: "ModelCalls \<Rightarrow> Step \<Rightarrow> OutputTensor list \<Rightarrow> (ExecutionResponse + OutputTensor list) Call" where
  "run_step env step step_inputs =
     (case sp_builtin step of
        Some builtin \<Rightarrow>
          (case bs_run builtin step_inputs of
             Returns (Inl error) \<Rightarrow> Returns (Inl (failure ''INVALID_ARGUMENT'' error))
           | Returns (Inr outputs) \<Rightarrow> Returns (Inr outputs)
           | Throws m \<Rightarrow> Throws m
           | ThrowsOther \<Rightarrow> ThrowsOther)
      | None \<Rightarrow>
          (let response = runModelStep env step step_inputs
           in Returns (if rs_ok response then Inr (rs_outputs response) else Inl response)))"

fun run_steps ::
  "ModelCalls \<Rightarrow> (string \<times> nat) list \<Rightarrow> nat \<Rightarrow> Step list \<Rightarrow> (string \<times> OutputTensor) list \<Rightarrow>
     (ExecutionResponse + (string \<times> OutputTensor) list) Call" where
  "run_steps env last_use step_index [] vals = Returns (Inr vals)"
| "run_steps env last_use step_index (step # steps) vals =
     (case gather last_use step_index (sp_config step) (sp_inputs step) vals of
        Inl response \<Rightarrow> Returns (Inl response)
      | Inr (step_inputs, vals1) \<Rightarrow>
          (case run_step env step step_inputs of
             Returns (Inl response) \<Rightarrow> Returns (Inl response)
           | Returns (Inr outputs) \<Rightarrow>
               run_steps env last_use (Suc step_index) steps (publish (sp_config step) outputs vals1)
           | Throws m \<Rightarrow> Throws m
           | ThrowsOther \<Rightarrow> ThrowsOther))"

fun collect_outputs ::
  "string list \<Rightarrow> TensorMetadata list \<Rightarrow> (string \<times> OutputTensor) list \<Rightarrow> OutputTensor list \<Rightarrow> ExecutionResponse" where
  "collect_outputs requested [] vals outputs = empty_response\<lparr>rs_outputs := outputs\<rparr>"
| "collect_outputs requested (declared # rest) vals outputs =
     (if requested \<noteq> [] \<and> tm_name declared \<notin> set requested then collect_outputs requested rest vals outputs
      else (case map_of vals (tm_name declared) of
              None \<Rightarrow> failure ''INTERNAL'' (''pipeline produced no tensor named '' @ quoted (tm_name declared))
            | Some t \<Rightarrow> collect_outputs requested rest vals (outputs @ [t])))"

definition initial_values :: "ExecutionRequest \<Rightarrow> (string \<times> OutputTensor) list" where
  "initial_values request = fold (\<lambda>t m. snd (emplace (it_name t) (as_output t) m)) (er_inputs request) []"

definition pipeline_infer :: "ModelCalls \<Rightarrow> PipelineExecutor \<Rightarrow> ExecutionRequest \<Rightarrow> ExecutionResponse Call" where
  "pipeline_infer env pe request =
     (case run_steps env (pe_last_use pe) 0 (pe_steps pe) (initial_values request) of
        Returns (Inl response) \<Rightarrow> Returns response
      | Returns (Inr vals) \<Rightarrow> Returns (collect_outputs (er_requested_outputs request) (mm_outputs (pe_metadata pe)) vals [])
      | Throws m \<Rightarrow> Throws m
      | ThrowsOther \<Rightarrow> ThrowsOther)"

section \<open>makePipelineExecutor\<close>

text \<open>The nearest model step in a list of candidates, which are given in the order of the search.\<close>

definition neighbourModelMetadata ::
  "ModelCalls \<Rightarrow> nat \<Rightarrow> PipelineStepConfig list \<Rightarrow> string + ModelMetadata" where
  "neighbourModelMetadata env index candidates =
     (case find_first (\<lambda>c. pc_kind c = ModelStep) candidates of
        None \<Rightarrow> Inl (''pipeline step at position '' @ to_string index @ '' has no adjacent model step'')
      | Some c \<Rightarrow>
          (let missing = Inl (''pipeline references model '' @ quoted (pc_model_name c) @
                           '' which is not loaded; load it before the pipeline'')
           in case mc_resolve env (pc_model_name c) (pc_model_version c) of
                None \<Rightarrow> missing
              | Some n \<Rightarrow> if mc_ready env n then Inr (sn_metadata n) else missing))"

text \<open>
  One step of the graph; \<open>before\<close> are the steps before it in the graph and \<open>after\<close> those after it, and
  \<open>builtin\<close> is \<open>makeBuiltinPipelineStep\<close>.
\<close>

definition build_step ::
  "ModelCalls \<Rightarrow> (PipelineStepConfig \<Rightarrow> ModelMetadata \<Rightarrow> (string + BuiltinStep) Call) \<Rightarrow> string \<Rightarrow>
     PipelineStepConfig list \<Rightarrow> PipelineStepConfig \<Rightarrow> PipelineStepConfig list \<Rightarrow> (string + Step) Call" where
  "build_step env builtin model_name before c after =
     (if pc_kind c = ModelStep then
        Returns
          (if pc_model_name c = model_name
             then Inl (''pipeline step '' @ quoted (pc_name c) @ '' references its own pipeline '' @ quoted model_name @
                    ''; a pipeline cannot reference itself'')
           else
             let refers = ''pipeline step '' @ quoted (pc_name c) @ '' references model '' @ quoted (pc_model_name c)
             in case mc_resolve env (pc_model_name c) (pc_model_version c) of
                  None \<Rightarrow> Inl (refers @ '' which is not loaded'')
                | Some n \<Rightarrow>
                    if \<not> mc_ready env n then Inl (refers @ '' which is not loaded'')
                    else if mm_platform (sn_metadata n) = ''ensemble''
                      then Inl (refers @ '' which is itself an ensemble; nested ensembles are not supported'')
                    else Inr \<lparr>sp_config = c, sp_builtin = None, sp_inputs = mm_inputs (sn_metadata n),
                              sp_outputs = mm_outputs (sn_metadata n)\<rparr>)
      else
        (case neighbourModelMetadata env (length before) (if pc_kind c = Preprocess then after else rev before) of
           Inl e \<Rightarrow> Returns (Inl e)
         | Inr neighbour \<Rightarrow>
             (case builtin c neighbour of
                Returns (Inl e) \<Rightarrow> Returns (Inl e)
              | Returns (Inr b) \<Rightarrow> Returns (Inr \<lparr>sp_config = c, sp_builtin = Some b, sp_inputs = bs_inputs b, sp_outputs = bs_outputs b\<rparr>)
              | Throws m \<Rightarrow> Throws m
              | ThrowsOther \<Rightarrow> ThrowsOther)))"

fun build_steps ::
  "ModelCalls \<Rightarrow> (PipelineStepConfig \<Rightarrow> ModelMetadata \<Rightarrow> (string + BuiltinStep) Call) \<Rightarrow> string \<Rightarrow>
     PipelineStepConfig list \<Rightarrow> PipelineStepConfig list \<Rightarrow> (string + Step list) Call" where
  "build_steps env builtin model_name before [] = Returns (Inr [])"
| "build_steps env builtin model_name before (c # after) =
     (case build_step env builtin model_name before c after of
        Returns (Inl e) \<Rightarrow> Returns (Inl e)
      | Returns (Inr step) \<Rightarrow>
          (case build_steps env builtin model_name (before @ [c]) after of
             Returns (Inr steps) \<Rightarrow> Returns (Inr (step # steps))
           | other \<Rightarrow> other)
      | Throws m \<Rightarrow> Throws m
      | ThrowsOther \<Rightarrow> ThrowsOther)"

text \<open>The first step that consumes a tensor nothing before it produces.\<close>

fun wiring_error :: "string list \<Rightarrow> Step list \<Rightarrow> string option" where
  "wiring_error available [] = None"
| "wiring_error available (step # steps) =
     (case find_first (\<lambda>name. name \<notin> set available) (graph_inputs step) of
        Some name \<Rightarrow> Some (unproduced (pc_name (sp_config step)) name)
      | None \<Rightarrow> wiring_error
          (available @ map (\<lambda>t. mapped (pc_output_map (sp_config step)) (tm_name t)) (sp_outputs step)) steps)"

definition pipeline_executor :: "ModelCalls \<Rightarrow> PipelineExecutor \<Rightarrow> Executor" where
  "pipeline_executor env pe = \<lparr>ex_metadata = pe_metadata pe, ex_infer = (\<lambda>_. pipeline_infer env pe),
     ex_inferStreaming = (\<lambda>_ request _. (pipeline_infer env pe request, []))\<rparr>"

definition makePipelineExecutor ::
  "(string \<Rightarrow> Json option) \<Rightarrow> (double \<Rightarrow> double) \<Rightarrow> (string \<Rightarrow> string option) \<Rightarrow>
     (PipelineStepConfig \<Rightarrow> ModelMetadata \<Rightarrow> (string + BuiltinStep) Call) \<Rightarrow> ModelCalls \<Rightarrow> RuntimeConfig \<Rightarrow>
     (string + PipelineExecutor) Call" where
  "makePipelineExecutor parse to_float read_file builtin env config =
     (if rc_dynamic_batching_enabled config \<or> rc_max_batch_size config > 1
        then Returns (Inl ''pipeline models cannot batch: max_batch_size is 1 by contract, but this model was configured with dynamic batching'')
      else (case readGraphText read_file config of
        Inl e \<Rightarrow> Returns (Inl e)
      | Inr graph_text \<Rightarrow>
          (case parsePipelineConfig parse to_float graph_text of
             Rejected e \<Rightarrow> Returns (Inl e)
           | ParseThrows m \<Rightarrow> Throws m
           | Parsed graph \<Rightarrow>
               (case build_steps env builtin (rc_model_name config) [] graph of
                  Throws m \<Rightarrow> Throws m
                | ThrowsOther \<Rightarrow> ThrowsOther
                | Returns (Inl e) \<Rightarrow> Returns (Inl e)
                | Returns (Inr steps) \<Rightarrow>
                    (case wiring_error (graph_inputs (hd steps)) steps of
                       Some e \<Rightarrow> Returns (Inl e)
                     | None \<Rightarrow> Returns (Inr (newPipelineExecutor (rc_model_name config) steps)))))))"

text \<open>As the factory call of the registry: what it leaves in \<open>error\<close>.\<close>

definition pipeline_outcome :: "ModelCalls \<Rightarrow> (string + PipelineExecutor) Call \<Rightarrow> string \<Rightarrow> FactoryOutcome" where
  "pipeline_outcome env call err =
     (case call of
        Returns (Inl e) \<Rightarrow> NoExecutor e
      | Returns (Inr pe) \<Rightarrow> Built (pipeline_executor env pe) err
      | Throws m \<Rightarrow> FactoryThrows m
      | ThrowsOther \<Rightarrow> FactoryThrowsOther)"

text \<open>\<open>PipelineStepsDisabled.cpp\<close>: the built-in steps of a binary without the task layer.\<close>

definition makeBuiltinPipelineStep_disabled :: "PipelineStepConfig \<Rightarrow> ModelMetadata \<Rightarrow> (string + BuiltinStep) Call" where
  "makeBuiltinPipelineStep_disabled step neighbour =
     Returns (Inl (''pipeline step '' @ quoted (pc_name step) @
       '' needs task-layer preprocessing/postprocessing, which this binary was built without; rebuild with -DNEURIPLO_RUNTIME_ENABLE_TASKS=ON''))"

end
