(* ===== verification/Pipeline_Props.thy ===== *)
theory Pipeline_Props
  imports Pipeline Registry
begin

text \<open>
  Pipelines: moving tensors instead of copying them changes no result, a pipeline that was built never
  misses a tensor, and what a malformed graph does to a repository.
\<close>

section \<open>Last uses\<close>

definition mark_uses :: "nat \<Rightarrow> Step \<Rightarrow> (string \<times> nat) list \<Rightarrow> (string \<times> nat) list" where
  "mark_uses index step m = fold (\<lambda>name. AList.update name index) (graph_inputs step) m"

lemma map_of_mark_uses: "map_of (mark_uses i s m) n = (if n \<in> set (graph_inputs s) then Some i else map_of m n)"
proof -
  have "map_of (fold (\<lambda>name. AList.update name i) ns m) n = (if n \<in> set ns then Some i else map_of m n)" for ns m
    by (induction ns arbitrary: m) (auto simp: update_conv)
  then show ?thesis by (simp add: mark_uses_def)
qed

lemma mark_all_unused:
  assumes "\<forall>s \<in> set steps. n \<notin> set (graph_inputs s)"
  shows "map_of (fold (\<lambda>(i, s). mark_uses i s) (enumerate k steps) m) n = map_of m n"
  using assms by (induction steps arbitrary: k m) (auto simp: map_of_mark_uses)

lemma mark_all_last:
  assumes "map_of (fold (\<lambda>(i, s). mark_uses i s) (enumerate k steps) m) n = Some j"
    and "i < length steps" "n \<in> set (graph_inputs (steps ! i))"
  shows "k + i \<le> j"
  using assms
proof (induction steps arbitrary: k m i)
  case Nil
  then show ?case by simp
next
  case (Cons s steps)
  from Cons.prems(1) have rest: "map_of (fold (\<lambda>(i, s). mark_uses i s) (enumerate (Suc k) steps) (mark_uses k s m)) n = Some j"
    by simp
  show ?case
  proof (cases "\<exists>l < length steps. n \<in> set (graph_inputs (steps ! l))")
    case True
    then obtain l where l: "l < length steps" "n \<in> set (graph_inputs (steps ! l))" by blast
    show ?thesis
    proof (cases i)
      case 0
      with Cons.IH [OF rest l] show ?thesis by simp
    next
      case (Suc i')
      with Cons.IH [OF rest, of i'] Cons.prems show ?thesis by simp
    qed
  next
    case False
    with Cons.prems have "i = 0" by (cases i) auto
    from False have "\<forall>s \<in> set steps. n \<notin> set (graph_inputs s)" by (metis in_set_conv_nth)
    with mark_all_unused [OF this] rest \<open>i = 0\<close> Cons.prems show ?thesis by (simp add: map_of_mark_uses)
  qed
qed

lemma map_of_delete_all:
  "map_of (fold (\<lambda>t. AList.delete (tm_name t)) outs m) n = (if n \<in> tm_name ` set outs then None else map_of m n)"
  by (induction outs arbitrary: m) (auto simp: delete_conv)

lemma indexLastUse_sound:
  assumes "map_of (indexLastUse steps outs) n = Some j"
  shows "n \<notin> tm_name ` set outs" "i < length steps \<Longrightarrow> n \<in> set (graph_inputs (steps ! i)) \<Longrightarrow> i \<le> j"
proof -
  have eq: "(\<lambda>(index, step) m. fold (\<lambda>name. AList.update name index) (graph_inputs step) m) = (\<lambda>(i, s). mark_uses i s)"
    by (auto simp: mark_uses_def fun_eq_iff)
  from assms have n: "n \<notin> tm_name ` set outs"
    and "map_of (fold (\<lambda>(i, s). mark_uses i s) (enumerate 0 steps) []) n = Some j"
    by (auto simp: indexLastUse_def eq Let_def map_of_delete_all split: if_splits)
  from mark_all_last [OF this(2)] show "i < length steps \<Longrightarrow> n \<in> set (graph_inputs (steps ! i)) \<Longrightarrow> i \<le> j" by simp
  from n show "n \<notin> tm_name ` set outs" .
qed

section \<open>Moving is copying\<close>

definition agree :: "string set \<Rightarrow> (string \<times> OutputTensor) list \<Rightarrow> (string \<times> OutputTensor) list \<Rightarrow> bool" where
  "agree N v w \<longleftrightarrow> (\<forall>n \<in> N. map_of v n = map_of w n)"

abbreviation names_in :: "PipelineStepConfig \<Rightarrow> TensorMetadata list \<Rightarrow> string set" where
  "names_in c ds \<equiv> (\<lambda>d. mapped (pc_input_map c) (tm_name d)) ` set ds"

lemma gather_agree:
  assumes "agree (names_in c ds \<union> later) v w" "\<forall>n. map_of lu n = Some i \<longrightarrow> n \<notin> later"
  shows "(\<exists>e. gather lu i c ds v = Inl e \<and> gather [] i c ds w = Inl e) \<or>
    (\<exists>ts v'. gather lu i c ds v = Inr (ts, v') \<and> gather [] i c ds w = Inr (ts, w) \<and> agree later v' w)"
  using assms
proof (induction ds arbitrary: v)
  case Nil
  then show ?case by simp
next
  case (Cons d ds)
  define g where "g = mapped (pc_input_map c) (tm_name d)"
  define v' where "v' = (if \<not> (\<exists>e \<in> set ds. mapped (pc_input_map c) (tm_name e) = g) \<and> map_of lu g = Some i
    then AList.delete g v else v)"
  have same: "map_of v g = map_of w g" using Cons.prems by (simp add: agree_def g_def)
  have "agree (names_in c ds \<union> later) v' w"
    using Cons.prems by (auto simp: agree_def v'_def delete_conv)
  note IH = Cons.IH [OF this Cons.prems(2)]
  show ?case
  proof (cases "map_of w g")
    case None
    with same show ?thesis by (simp add: g_def Let_def)
  next
    case (Some t)
    with same have look: "gather lu i c (d # ds) v = (case gather lu i c ds v' of Inl e \<Rightarrow> Inl e
        | Inr (ts, vals) \<Rightarrow> Inr (t\<lparr>ot_name := tm_name d\<rparr> # ts, vals))"
      "gather [] i c (d # ds) w = (case gather [] i c ds w of Inl e \<Rightarrow> Inl e
        | Inr (ts, vals) \<Rightarrow> Inr (t\<lparr>ot_name := tm_name d\<rparr> # ts, vals))"
      by (simp_all add: g_def v'_def Let_def)
    from IH show ?thesis unfolding look by auto
  qed
qed

lemma map_of_publish_cong: "map_of v n = map_of w n \<Longrightarrow> map_of (publish c os v) n = map_of (publish c os w) n"
  unfolding publish_def by (induction os arbitrary: v w) (auto simp: update_conv Let_def)

lemma agree_publish: "agree N v w \<Longrightarrow> agree N (publish c os v) (publish c os w)"
  by (auto simp: agree_def intro: map_of_publish_cong)

definition needed :: "Step list \<Rightarrow> string set \<Rightarrow> string set" where
  "needed steps outs = (\<Union>s \<in> set steps. set (graph_inputs s)) \<union> outs"

lemma run_steps_agree:
  assumes "agree (needed steps outs) v w"
    and "\<And>n j. j < length steps \<Longrightarrow> map_of lu n = Some (i + j) \<Longrightarrow> n \<notin> needed (drop (Suc j) steps) outs"
  shows "run_steps env lu i steps v = run_steps env [] i steps w \<or>
    (\<exists>v' w'. run_steps env lu i steps v = Returns (Inr v') \<and> run_steps env [] i steps w = Returns (Inr w') \<and> agree outs v' w')"
  using assms
proof (induction steps arbitrary: i v w)
  case Nil
  then show ?case by (simp add: needed_def)
next
  case (Cons s steps)
  have "agree (names_in (sp_config s) (sp_inputs s) \<union> needed steps outs) v w"
    using Cons.prems(1) by (simp add: needed_def graph_inputs_def Un_assoc)
  moreover have "\<forall>n. map_of lu n = Some i \<longrightarrow> n \<notin> needed steps outs" using Cons.prems(2) [of 0] by simp
  ultimately consider e where "gather lu i (sp_config s) (sp_inputs s) v = Inl e" "gather [] i (sp_config s) (sp_inputs s) w = Inl e"
    | ts v' where "gather lu i (sp_config s) (sp_inputs s) v = Inr (ts, v')"
        "gather [] i (sp_config s) (sp_inputs s) w = Inr (ts, w)" "agree (needed steps outs) v' w"
    using gather_agree by blast
  then show ?case
  proof cases
    case 1
    then show ?thesis by simp
  next
    case 2
    have "n \<notin> needed (drop (Suc j) steps) outs" if "j < length steps" "map_of lu n = Some (Suc i + j)" for n j
      using Cons.prems(2) [of "Suc j" n] that by simp
    note IH = Cons.IH [OF agree_publish [OF 2(3)] this]
    show ?thesis using 2(1,2) IH by (auto split: Call.splits sum.splits)
  qed
qed

lemma collect_agree:
  assumes "agree (tm_name ` set ds) v w"
  shows "collect_outputs rq ds v acc = collect_outputs rq ds w acc"
  using assms by (induction ds arbitrary: acc) (auto simp: agree_def split: option.splits)

lemma keys_emplace: "fst ` set (snd (emplace k v m)) = insert k (fst ` set m)"
proof (cases "map_of m k")
  case None
  then show ?thesis by (simp add: emplace_def)
next
  case (Some x)
  then have "k \<in> fst ` set m" by (metis domI dom_map_of_conv_image_fst)
  with Some show ?thesis by (auto simp: emplace_def)
qed

section \<open>Wiring\<close>

text \<open>A step that succeeds produces the tensors it declares.\<close>

definition keeps_promise :: "ModelCalls \<Rightarrow> Step \<Rightarrow> bool" where
  "keeps_promise env s \<longleftrightarrow>
     (\<forall>ins outs. run_step env s ins = Returns (Inr outs) \<longrightarrow> tm_name ` set (sp_outputs s) \<subseteq> ot_name ` set outs)"

lemma gather_copy:
  "names_in c ds \<subseteq> dom (map_of w) \<Longrightarrow> \<exists>ts. gather [] i c ds w = Inr (ts, w)"
  by (induction ds) (auto simp: Let_def)

lemma dom_publish:
  "dom (map_of (publish c os w)) = dom (map_of w) \<union> (\<lambda>t. mapped (pc_output_map c) (ot_name t)) ` set os"
  unfolding publish_def by (induction os arbitrary: w) (auto simp: update_conv Let_def)

lemma wiring_error_Cons:
  "wiring_error av (s # steps) = None \<longleftrightarrow> set (graph_inputs s) \<subseteq> set av \<and>
     wiring_error (av @ map (\<lambda>t. mapped (pc_output_map (sp_config s)) (tm_name t)) (sp_outputs s)) steps = None"
  by (auto split: option.splits dest: find_first_SomeD find_first_NoneD)

lemma run_steps_wired:
  assumes "wiring_error av steps = None" "set av \<subseteq> dom (map_of w)" "\<forall>s \<in> set steps. keeps_promise env s"
  shows "(\<exists>s \<in> set steps. \<exists>ins r. run_step env s ins = Returns (Inl r) \<and> run_steps env [] i steps w = Returns (Inl r)) \<or>
    (\<forall>x. run_steps env [] i steps w \<noteq> Returns x) \<or>
    (\<exists>w'. run_steps env [] i steps w = Returns (Inr w') \<and> dom (map_of w) \<subseteq> dom (map_of w') \<and>
       (\<forall>s \<in> set steps. (\<lambda>t. mapped (pc_output_map (sp_config s)) (tm_name t)) ` set (sp_outputs s) \<subseteq> dom (map_of w')))"
  using assms
proof (induction steps arbitrary: av w i)
  case Nil
  then show ?case by simp
next
  case (Cons s steps)
  let ?c = "sp_config s"
  from Cons.prems(1) have av: "set (graph_inputs s) \<subseteq> set av" and rest:
    "wiring_error (av @ map (\<lambda>t. mapped (pc_output_map ?c) (tm_name t)) (sp_outputs s)) steps = None"
    by (simp_all only: wiring_error_Cons)
  with Cons.prems(2) have "names_in ?c (sp_inputs s) \<subseteq> dom (map_of w)" by (auto simp: graph_inputs_def)
  from gather_copy [OF this] obtain ts where g: "gather [] i ?c (sp_inputs s) w = Inr (ts, w)" by blast
  show ?case
  proof (cases "run_step env s ts")
    case (Returns x)
    show ?thesis
    proof (cases x)
      case (Inl r)
      with Returns g show ?thesis by auto
    next
      case (Inr os)
      let ?w = "publish ?c os w"
      have prom: "tm_name ` set (sp_outputs s) \<subseteq> ot_name ` set os"
        using Cons.prems(3) Returns Inr by (auto simp: keeps_promise_def)
      then have out: "(\<lambda>t. mapped (pc_output_map ?c) (tm_name t)) ` set (sp_outputs s) \<subseteq> dom (map_of ?w)"
        by (auto simp: dom_publish image_subset_iff)
      have "set (av @ map (\<lambda>t. mapped (pc_output_map ?c) (tm_name t)) (sp_outputs s)) \<subseteq> dom (map_of ?w)"
        using Cons.prems(2) out by (auto simp: dom_publish)
      moreover have "\<forall>s \<in> set steps. keeps_promise env s" using Cons.prems(3) by simp
      ultimately have IH: "(\<exists>s \<in> set steps. \<exists>ins r. run_step env s ins = Returns (Inl r) \<and> run_steps env [] (Suc i) steps ?w = Returns (Inl r)) \<or>
          (\<forall>x. run_steps env [] (Suc i) steps ?w \<noteq> Returns x) \<or>
          (\<exists>w'. run_steps env [] (Suc i) steps ?w = Returns (Inr w') \<and> dom (map_of ?w) \<subseteq> dom (map_of w') \<and>
             (\<forall>s \<in> set steps. (\<lambda>t. mapped (pc_output_map (sp_config s)) (tm_name t)) ` set (sp_outputs s) \<subseteq> dom (map_of w')))"
        by (rule Cons.IH [OF rest])
      have step: "run_steps env [] i (s # steps) w = run_steps env [] (Suc i) steps ?w" using g Returns Inr by simp
      have sub: "dom (map_of w) \<subseteq> dom (map_of ?w)" by (auto simp: dom_publish)
      from IH show ?thesis
      proof (elim disjE)
        assume "\<exists>w'. run_steps env [] (Suc i) steps ?w = Returns (Inr w') \<and> dom (map_of ?w) \<subseteq> dom (map_of w') \<and>
             (\<forall>s \<in> set steps. (\<lambda>t. mapped (pc_output_map (sp_config s)) (tm_name t)) ` set (sp_outputs s) \<subseteq> dom (map_of w'))"
        then obtain w' where w': "run_steps env [] (Suc i) steps ?w = Returns (Inr w')" "dom (map_of ?w) \<subseteq> dom (map_of w')"
          "\<forall>s \<in> set steps. (\<lambda>t. mapped (pc_output_map (sp_config s)) (tm_name t)) ` set (sp_outputs s) \<subseteq> dom (map_of w')" by blast
        with out sub have "dom (map_of w) \<subseteq> dom (map_of w')"
          "(\<lambda>t. mapped (pc_output_map ?c) (tm_name t)) ` set (sp_outputs s) \<subseteq> dom (map_of w')" by blast+
        with w' step show ?thesis by auto
      qed (use step in auto)
    qed
  next
    case (Throws m)
    with g show ?thesis by simp
  next
    case ThrowsOther
    with g show ?thesis by simp
  qed
qed

section \<open>Building\<close>

lemma build_steps_Inr:
  assumes "build_steps env builtin name before graph = Returns (Inr steps)"
  shows "map sp_config steps = graph \<and>
    (\<forall>s \<in> set steps. pc_kind (sp_config s) = ModelStep \<longrightarrow> pc_model_name (sp_config s) \<noteq> name \<and>
       (\<exists>n. mc_resolve env (pc_model_name (sp_config s)) (pc_model_version (sp_config s)) = Some n \<and>
          mm_platform (sn_metadata n) \<noteq> ''ensemble''))"
  using assms
proof (induction graph arbitrary: before steps)
  case Nil
  then show ?case by simp
next
  case (Cons c graph)
  from Cons.prems obtain s ss where s: "build_step env builtin name before c graph = Returns (Inr s)"
    and ss: "build_steps env builtin name (before @ [c]) graph = Returns (Inr ss)" "steps = s # ss"
    by (auto split: Call.splits sum.splits)
  from s have "sp_config s = c \<and> (pc_kind c = ModelStep \<longrightarrow> pc_model_name c \<noteq> name \<and>
      (\<exists>n. mc_resolve env (pc_model_name c) (pc_model_version c) = Some n \<and> mm_platform (sn_metadata n) \<noteq> ''ensemble''))"
    by (auto simp: build_step_def Let_def split: if_splits option.splits sum.splits Call.splits)
  with Cons.IH [OF ss(1)] ss(2) show ?case by auto
qed

lemma parsed_then_Parsed: "parsed_then r f = Parsed y \<longleftrightarrow> (\<exists>v. r = Parsed v \<and> f v = Parsed y)"
  by (cases r) auto

lemma parse_steps_length: "parse_steps f ns av k nodes = Parsed graph \<Longrightarrow> length graph = length nodes"
  by (induction nodes arbitrary: ns av k graph) (auto simp: parsed_then_Parsed)

text \<open>What a pipeline that was built consists of.\<close>

lemma makePipelineExecutor_Inr:
  assumes "makePipelineExecutor parse to_float read_file builtin env config = Returns (Inr pe)"
  obtains graph steps where "build_steps env builtin (rc_model_name config) [] graph = Returns (Inr steps)" "steps \<noteq> []"
    "wiring_error (graph_inputs (hd steps)) steps = None" "pe = newPipelineExecutor (rc_model_name config) steps"
proof -
  from assms obtain txt0 graph steps where
    g: "parsePipelineConfig parse to_float txt0 = Parsed graph"
      "build_steps env builtin (rc_model_name config) [] graph = Returns (Inr steps)"
      "wiring_error (graph_inputs (hd steps)) steps = None" "pe = newPipelineExecutor (rc_model_name config) steps"
    by (auto simp: makePipelineExecutor_def split: if_splits sum.splits Parsed.splits Call.splits option.splits)
  from g(1) have "graph \<noteq> []"
    by (auto simp: parsePipelineConfig_def dest!: parse_steps_length split: option.splits if_splits)
  with build_steps_Inr [OF g(2)] have "steps \<noteq> []" by auto
  with g that show thesis by blast
qed

lemma new_executor_simps [simp]:
  "pe_steps (newPipelineExecutor name steps) = steps"
  "pe_last_use (newPipelineExecutor name steps) = indexLastUse steps (mm_outputs (pe_metadata (newPipelineExecutor name steps)))"
  by (simp_all add: newPipelineExecutor_def Let_def)

lemma moving_is_copying:
  "pipeline_infer env (newPipelineExecutor name steps) request =
   pipeline_infer env ((newPipelineExecutor name steps)\<lparr>pe_last_use := []\<rparr>) request"
proof -
  let ?pe = "newPipelineExecutor name steps"
  let ?outs = "tm_name ` set (mm_outputs (pe_metadata ?pe))"
  have "n \<notin> needed (drop (Suc j) steps) ?outs" if lu: "map_of (pe_last_use ?pe) n = Some (0 + j)" for n j
  proof -
    have "n \<notin> set (graph_inputs s)" if "s \<in> set (drop (Suc j) steps)" for s
    proof
      assume n: "n \<in> set (graph_inputs s)"
      from that obtain k where "k < length steps - Suc j" "s = steps ! (Suc j + k)"
        by (auto simp: in_set_conv_nth)
      then have "Suc j + k < length steps" "s = steps ! (Suc j + k)" by auto
      with indexLastUse_sound(2) [of steps "mm_outputs (pe_metadata ?pe)" n j "Suc j + k"] lu n show False by simp
    qed
    moreover have "n \<notin> ?outs" using indexLastUse_sound(1) lu by simp
    ultimately show ?thesis by (auto simp: needed_def)
  qed
  then have "run_steps env (pe_last_use ?pe) 0 steps (initial_values request) = run_steps env [] 0 steps (initial_values request) \<or>
    (\<exists>v' w'. run_steps env (pe_last_use ?pe) 0 steps (initial_values request) = Returns (Inr v') \<and>
       run_steps env [] 0 steps (initial_values request) = Returns (Inr w') \<and> agree ?outs v' w')"
    by (intro run_steps_agree) (simp_all add: agree_def)
  then show ?thesis
    using collect_agree
    by (auto simp: pipeline_infer_def simp del: new_executor_simps(2) split: Call.split sum.split)
qed

lemma wired_pipeline:
  assumes built: "makePipelineExecutor parse to_float read_file builtin env config = Returns (Inr pe)"
    and inputs: "tm_name ` set (mm_inputs (pe_metadata pe)) \<subseteq> it_name ` set (er_inputs request)"
    and promise: "\<forall>s \<in> set (pe_steps pe). keeps_promise env s"
    and answer: "pipeline_infer env pe request = Returns response" "\<not> rs_ok response"
  shows "\<exists>s \<in> set (pe_steps pe). \<exists>ins. run_step env s ins = Returns (Inl response)"
proof -
  from built obtain graph steps where ne: "steps \<noteq> []" and wired: "wiring_error (graph_inputs (hd steps)) steps = None"
    and pe: "pe = newPipelineExecutor (rc_model_name config) steps" by (rule makePipelineExecutor_Inr)
  define w where "w = initial_values request"
  have emplaced: "fst ` set (fold (\<lambda>t m. snd (emplace (it_name t) (as_output t) m)) ts m) = fst ` set m \<union> it_name ` set ts" for ts m
    by (induction ts arbitrary: m) (simp_all add: keys_emplace)
  have "set (graph_inputs (hd steps)) = tm_name ` set (mm_inputs (pe_metadata pe))"
    by (auto simp: pe newPipelineExecutor_def graph_inputs_def Let_def image_image)
  with inputs have av: "set (graph_inputs (hd steps)) \<subseteq> dom (map_of w)"
    by (simp add: w_def initial_values_def dom_map_of_conv_image_fst emplaced)
  have outs: "tm_name ` set (mm_outputs (pe_metadata pe)) =
      (\<lambda>t. mapped (pc_output_map (sp_config (last steps))) (tm_name t)) ` set (sp_outputs (last steps))"
    by (auto simp: pe newPipelineExecutor_def Let_def image_image)
  have copy: "pipeline_infer env (pe\<lparr>pe_last_use := []\<rparr>) request = Returns response"
    using answer(1) moving_is_copying [of env "rc_model_name config" steps request] by (simp add: pe)
  from run_steps_wired [OF wired av, of env 0] promise
  consider s ins r where "s \<in> set steps" "run_step env s ins = Returns (Inl r)" "run_steps env [] 0 steps w = Returns (Inl r)"
    | "\<forall>x. run_steps env [] 0 steps w \<noteq> Returns x"
    | w' where "run_steps env [] 0 steps w = Returns (Inr w')"
        "\<forall>s \<in> set steps. (\<lambda>t. mapped (pc_output_map (sp_config s)) (tm_name t)) ` set (sp_outputs s) \<subseteq> dom (map_of w')"
    by (auto simp: pe)
  then show ?thesis
  proof cases
    case 1
    with copy show ?thesis by (auto simp: pipeline_infer_def pe w_def)
  next
    case 2
    with copy show ?thesis by (auto simp: pipeline_infer_def pe w_def split: Call.splits)
  next
    case 3
    have "rs_ok (collect_outputs rq ds w' acc)" if "tm_name ` set ds \<subseteq> dom (map_of w')" for rq ds acc
      using that by (induction ds arbitrary: acc) (auto simp: empty_response_def)
    moreover have "tm_name ` set (mm_outputs (pe_metadata pe)) \<subseteq> dom (map_of w')"
      using 3(2) ne outs by (metis last_in_set)
    ultimately have "rs_ok response" using copy 3(1) by (auto simp: pipeline_infer_def pe w_def)
    with answer(2) show ?thesis by simp
  qed
qed

section \<open>Properties\<close>

text \<open>
  (C13) Moving a tensor out of the graph at its last use is only an optimisation: on every request the
  executor answers exactly as the one that copies every tensor and never drops one.
\<close>

theorem moving_tensors_is_invisible:
  "pipeline_infer env (newPipelineExecutor name steps) request =
   pipeline_infer env ((newPipelineExecutor name steps)\<lparr>pe_last_use := []\<rparr>) request"
  by (rule moving_is_copying)

text \<open>
  A pipeline that was built is wired: on a request with the inputs its metadata declares, and with
  steps that produce the tensors they declare, it never fails for a missing tensor. Whenever it answers
  with an error, the error is one a step gave.
\<close>

theorem built_pipeline_is_wired:
  assumes built: "makePipelineExecutor parse to_float read_file builtin env config = Returns (Inr pe)"
    and inputs: "tm_name ` set (mm_inputs (pe_metadata pe)) \<subseteq> it_name ` set (er_inputs request)"
    and promise: "\<forall>s \<in> set (pe_steps pe). keeps_promise env s"
    and answer: "pipeline_infer env pe request = Returns response" "\<not> rs_ok response"
  shows "\<exists>s \<in> set (pe_steps pe). \<exists>ins. run_step env s ins = Returns (Inl response)"
  using assms by (rule wired_pipeline)

definition one_step_graph :: Json where
  "one_step_graph = JObject [(''steps'', JArray [JObject [(''kind'', JString ''model''), (''model_name'', JString ''m''),
     (''name'', JString ''s'')]])]"

definition failing_model :: ModelCalls where
  "failing_model = \<lparr>mc_resolve = (\<lambda>_ _. Some \<lparr>sn_name = ''m'', sn_versions = [''1''], sn_state = Ready,
       sn_metadata = empty_metadata, sn_scheduler = Some 0, sn_load_error = None\<rparr>),
     mc_ready = (\<lambda>_. True), mc_submit = (\<lambda>_ _. makeOverloadedResult)\<rparr>"

theorem built_pipeline_is_wired_witness:
  "\<exists>pe response. makePipelineExecutor (\<lambda>_. Some one_step_graph) id (\<lambda>_. None) makeBuiltinPipelineStep_disabled failing_model
       (default_config\<lparr>rc_pipeline_graph := ''graph''\<rparr>) = Returns (Inr pe) \<and>
     (\<exists>s \<in> set (pe_steps pe). \<exists>ins. run_step failing_model s ins = Returns (Inl response))"
proof -
  define c where "c = new_step\<lparr>pc_name := ''s'', pc_model_name := ''m''\<rparr>"
  define step where "step = \<lparr>sp_config = c, sp_builtin = None, sp_inputs = [], sp_outputs = []\<rparr>"
  let ?pe = "newPipelineExecutor ''demo'' [step]"
  let ?config = "default_config\<lparr>rc_pipeline_graph := ''graph''\<rparr>"
  have "parsePipelineConfig (\<lambda>_. Some one_step_graph) id ''graph'' = Parsed [c]"
    by (simp add: parsePipelineConfig_def one_step_graph_def contains_def at_key_def parse_step_def node_string_def
        value_string_def check_def parseKind_def readFloat_def readTensorMap_def c_def new_step_def)
  moreover have "build_steps failing_model makeBuiltinPipelineStep_disabled ''demo'' [] [c] = Returns (Inr [step])"
    by (simp add: build_step_def failing_model_def c_def step_def new_step_def empty_metadata_def)
  ultimately have built: "makePipelineExecutor (\<lambda>_. Some one_step_graph) id (\<lambda>_. None) makeBuiltinPipelineStep_disabled failing_model
      ?config = Returns (Inr ?pe)"
    by (simp add: makePipelineExecutor_def readGraphText_def default_config_def step_def graph_inputs_def)
  have fails: "\<exists>r. run_step failing_model step ins = Returns (Inl r) \<and> \<not> rs_ok r" for ins
    by (simp add: run_step_def runModelStep_def failing_model_def step_def makeOverloadedResult_def makeSchedulerError_def
        failure_def Let_def)
  have "keeps_promise failing_model step" by (simp add: keeps_promise_def step_def)
  moreover have "\<exists>r. pipeline_infer failing_model ?pe empty_request = Returns r \<and> \<not> rs_ok r"
    using fails [of "[]"] by (auto simp: pipeline_infer_def step_def)
  ultimately show ?thesis
    using built_pipeline_is_wired [OF built, of empty_request] built
    by (auto simp: newPipelineExecutor_def step_def Let_def)
qed

section \<open>A malformed graph in a repository\<close>

text \<open>\<open>makePipelineExecutor\<close> as the registry calls it.\<close>

definition pipeline_builder ::
  "(string \<Rightarrow> Json option) \<Rightarrow> (double \<Rightarrow> double) \<Rightarrow> (string \<Rightarrow> string option) \<Rightarrow>
     (PipelineStepConfig \<Rightarrow> ModelMetadata \<Rightarrow> (string + BuiltinStep) Call) \<Rightarrow> (InferSnapshot \<Rightarrow> bool) \<Rightarrow>
     (InferSnapshot \<Rightarrow> ExecutionRequest \<Rightarrow> SchedulerResult) \<Rightarrow>
     RuntimeConfig \<Rightarrow> (string \<Rightarrow> string \<Rightarrow> InferSnapshot option) \<Rightarrow> string \<Rightarrow> FactoryOutcome" where
  "pipeline_builder parse to_float read_file builtin is_ready submit_to config resolve err =
     (let env = \<lparr>mc_resolve = resolve, mc_ready = is_ready, mc_submit = submit_to\<rparr>
      in pipeline_outcome env (makePipelineExecutor parse to_float read_file builtin env config) err)"

lemma load_config_None: "fold (load_config lib b mk now) configs None = None"
  by (induction configs) (simp_all add: load_config_def)

lemma load_config_throws:
  fixes reg :: "'a ModelRegistry_scheme option"
  assumes "\<And>r :: 'a ModelRegistry_scheme. load_config lib b mk now c (Some r) = None" "c \<in> set configs"
  shows "fold (load_config lib b mk now) configs reg = None"
  using assms(2)
proof (induction configs arbitrary: reg)
  case Nil
  then show ?case by simp
next
  case (Cons d configs)
  show ?case
  proof (cases "d = c")
    case True
    have "load_config lib b mk now c reg = None"
    proof (cases reg)
      case None
      then show ?thesis by (simp add: load_config_def)
    next
      case (Some r)
      show ?thesis unfolding Some by (rule assms(1))
    qed
    with True load_config_None show ?thesis by simp
  next
    case False
    with Cons show ?thesis by simp
  qed
qed

text \<open>
  One malformed graph stops the server: a pipeline whose graph gives a step a name that is not a
  string makes the JSON library throw while the registry prepares the build, before any guard is in
  place. In a repository this leaves the constructor, so no model is served, although a failed model is
  meant to be registered as failed and to leave the others alone.
\<close>

theorem malformed_graph_stops_startup:
  assumes "c \<in> set configs" "isPipelineConfig c" "rc_pipeline_graph c \<noteq> []"
    and "\<not> rc_dynamic_batching_enabled c" "rc_max_batch_size c \<le> 1"
    and "parse (rc_pipeline_graph c) = Some (JObject [(''steps'', JArray [JObject [(''name'', JUnsigned 5)]])])"
  shows "new_repository_registry lib b (pipeline_builder parse to_float read_file builtin is_ready submit_to) now configs
    explicit_control defaults = None"
proof -
  let ?mk = "pipeline_builder parse to_float read_file builtin is_ready submit_to"
  have "parsePipelineConfig parse to_float (rc_pipeline_graph c) =
      ParseThrows ''[json.exception.type_error.302] type must be string, but is number''"
    using assms(6) by (simp add: parsePipelineConfig_def contains_def at_key_def parse_step_def node_string_def
        value_string_def check_def)
  then have throws: "\<exists>m. ?mk c resolve err = FactoryThrows m" for resolve err
    using assms(3-5) by (simp add: pipeline_builder_def makePipelineExecutor_def readGraphText_def pipeline_outcome_def)
  have "load_config lib b ?mk now c (Some r) = None" for r :: ModelRegistry
  proof -
    obtain n where "max (rc_instances c) 1 = Suc n" by (cases "max (rc_instances c) 1") auto
    moreover obtain m where "?mk c (resolve_step r) [] = FactoryThrows m" using throws by blast
    ultimately show ?thesis
      using assms(2) by (simp add: load_config_def factory_for_def makePipelineFactory_def)
  qed
  moreover have "c \<in> set (filter isPipelineConfig configs)" using assms(1,2) by simp
  ultimately have "fold (load_config lib b ?mk now) (filter isPipelineConfig configs) reg = None"
    for reg :: "ModelRegistry option"
    by (rule load_config_throws)
  then show ?thesis by (simp add: new_repository_registry_def Let_def)
qed

theorem malformed_graph_stops_startup_witness:
  "new_repository_registry demo_library new_backends
     (pipeline_builder (\<lambda>_. Some (JObject [(''steps'', JArray [JObject [(''name'', JUnsigned 5)]])])) id (\<lambda>_. None)
        makeBuiltinPipelineStep_disabled (\<lambda>_. True) (\<lambda>_ _. new_result)) 0
     [default_config, default_config\<lparr>rc_model_name := ''bad'', rc_backend := ''ensemble'', rc_pipeline_graph := ''g''\<rparr>]
     False default_config = None"
  by (rule malformed_graph_stops_startup [where c = "default_config\<lparr>rc_model_name := ''bad'', rc_backend := ''ensemble'', rc_pipeline_graph := ''g''\<rparr>"])
    (simp_all add: isPipelineConfig_def pipelineBackendId_def default_config_def)

end
