(* ===== verification/Numbers.thy ===== *)
theory Numbers
  imports Tensors "HOL-Library.Log_Nat"
begin

text \<open>
  The conversions between \<open>double\<close> and the element types of a tensor that the codecs and the token
  estimates perform: \<open>static_cast\<close> from an integer to \<open>double\<close> (round to nearest, ties to even), from
  \<open>double\<close> to an integer type (truncation, undefined outside the range of the type), and the IEEE 754
  representations of \<open>float\<close> and \<open>double\<close>. A finite double is a rational number, so the two zeros are
  one value here.
\<close>

section \<open>Rounding\<close>

definition round_half_even :: "rat \<Rightarrow> int" where
  "round_half_even q =
     (let f = \<lfloor>q\<rfloor>; r = q - of_int f
      in if r < 1 / 2 then f else if r > 1 / 2 then f + 1 else if even f then f else f + 1)"

text \<open>\<open>static_cast<double>\<close> of an integer: 53 significant bits.\<close>

definition double_of_int :: "int \<Rightarrow> double" where
  "double_of_int i =
     (let a = nat \<bar>i\<bar>; drop = floorlog 2 a - 53
      in if drop = 0 then of_int i
         else of_int (sgn i * round_half_even (of_nat a / 2 ^ drop) * 2 ^ drop))"

section \<open>IEEE 754 formats\<close>

text \<open>The exponent \<open>e\<close> with \<open>2 ^ e \<le> q < 2 ^ (e + 1)\<close>, for a positive \<open>q\<close>.\<close>

definition pow2 :: "int \<Rightarrow> rat" where
  "pow2 e = (if 0 \<le> e then 2 ^ nat e else 1 / 2 ^ nat (- e))"

definition exponent_of :: "rat \<Rightarrow> int" where
  "exponent_of q =
     (let (n, d) = quotient_of q; e = int (floorlog 2 (nat n)) - int (floorlog 2 (nat d))
      in if pow2 e \<le> q then e else e - 1)"

text \<open>The bits of the nearest number of the format with \<open>m\<close> fraction bits and \<open>w\<close> exponent bits.\<close>

definition ieee_encode :: "nat \<Rightarrow> nat \<Rightarrow> rat \<Rightarrow> nat" where
  "ieee_encode m w q =
     (let bias = 2 ^ (w - 1) - 1; a = \<bar>q\<bar>; e = max (exponent_of a) (1 - bias);
          k = round_half_even (a * pow2 (int m - e));
          v = (if a = 0 then 0 else k + (e + bias - 1) * 2 ^ m)
      in nat ((if q < 0 then 2 ^ (m + w) else 0) + min v ((2 ^ w - 1) * 2 ^ m)))"

text \<open>The value of a bit pattern; \<open>None\<close> for infinities and NaNs.\<close>

definition ieee_decode :: "nat \<Rightarrow> nat \<Rightarrow> nat \<Rightarrow> rat option" where
  "ieee_decode m w b =
     (let bias = 2 ^ (w - 1) - 1; f = b mod 2 ^ m; x = (b div 2 ^ m) mod 2 ^ w;
          s = (if odd (b div 2 ^ (m + w)) then -1 else 1)
      in if x = 2 ^ w - 1 then None
         else if x = 0 then Some (s * of_nat f * pow2 (1 - bias - int m))
         else Some (s * of_nat (2 ^ m + f) * pow2 (int x - bias - int m)))"

text \<open>The double nearest to the exact result of an operation whose result is in range.\<close>

definition nearest_double :: "rat \<Rightarrow> double" where
  "nearest_double q = (case ieee_decode 52 11 (ieee_encode 52 11 q) of Some d \<Rightarrow> d | None \<Rightarrow> 0)"

section \<open>Element types\<close>

text \<open>The range of an integer type; \<open>None\<close> for the floating-point types.\<close>

fun integer_range :: "ElementType \<Rightarrow> (int \<times> int) option" where
  "integer_range T_int8 = Some (- (2 ^ 7), 2 ^ 7)" | "integer_range T_uint8 = Some (0, 2 ^ 8)"
| "integer_range T_int16 = Some (- (2 ^ 15), 2 ^ 15)" | "integer_range T_uint16 = Some (0, 2 ^ 16)"
| "integer_range T_int32 = Some (- (2 ^ 31), 2 ^ 31)" | "integer_range T_uint32 = Some (0, 2 ^ 32)"
| "integer_range T_int64 = Some (- (2 ^ 63), 2 ^ 63)" | "integer_range T_uint64 = Some (0, 2 ^ 64)"
| "integer_range T_float = None" | "integer_range T_double = None"

definition trunc :: "rat \<Rightarrow> int" where
  "trunc q = (if q < 0 then \<lceil>q\<rceil> else \<lfloor>q\<rfloor>)"

text \<open>
  \<open>static_cast<T>\<close> of a double, as the bits of the result; \<open>None\<close> where the behaviour is undefined.
\<close>

definition cast_double :: "ElementType \<Rightarrow> double \<Rightarrow> nat option" where
  "cast_double T d =
     (case integer_range T of
        Some (lo, hi) \<Rightarrow>
          if lo \<le> trunc d \<and> trunc d < hi then Some (nat (trunc d mod 2 ^ (8 * sizeof T))) else None
      | None \<Rightarrow> Some (if T = T_float then ieee_encode 23 8 d else ieee_encode 52 11 d))"

text \<open>
  \<open>static_cast<double>\<close> of a stored element, given by its bits; \<open>None\<close> for a value that is not finite.
\<close>

definition double_of_bits :: "ElementType \<Rightarrow> nat \<Rightarrow> double option" where
  "double_of_bits T b =
     (case integer_range T of
        Some (lo, hi) \<Rightarrow> Some (double_of_int (if int b < hi then int b else int b - 2 ^ (8 * sizeof T)))
      | None \<Rightarrow> if T = T_float then ieee_decode 23 8 b else ieee_decode 52 11 b)"

text \<open>
  \<open>tensorBytesFromDoubles\<close> of \<open>TensorBytes.hpp\<close>: a type name it does not know gives no bytes, and \<open>None\<close> is
  an element whose conversion is undefined.
\<close>

definition tensorBytesFromDoubles :: "string \<Rightarrow> double list \<Rightarrow> byte list option" where
  "tensorBytesFromDoubles datatype values =
     (case withTensorElementType datatype of
        None \<Rightarrow> Some []
      | Some T \<Rightarrow> map_option (foldl (appendTensorScalar T) []) (those (map (cast_double T) values)))"

text \<open>\<open>tensorValuesAsDoubles\<close> of \<open>TensorBytes.hpp\<close>; an element that is not finite is \<open>None\<close>.\<close>

definition tensorValuesAsDoubles :: "string \<Rightarrow> byte list \<Rightarrow> double option list" where
  "tensorValuesAsDoubles datatype bytes =
     (case withTensorElementType datatype of
        None \<Rightarrow> []
      | Some T \<Rightarrow> map (\<lambda>i. Option.bind (tensorScalarAt T bytes i) (double_of_bits T)) [0..<length bytes div sizeof T])"

section \<open>Lemmas\<close>

lemma trunc_of_int [simp]: "trunc (of_int i) = i"
  by (simp add: trunc_def)

lemma floorlog_bound: "a \<le> 2 ^ 53 - 1 \<Longrightarrow> floorlog 2 a \<le> 53"
  by (cases "a = 0") (auto simp: floorlog_leI)

lemma floorlog_eqI: "2 ^ k \<le> a \<Longrightarrow> a < 2 ^ (k + 1) \<Longrightarrow> floorlog 2 a = k + 1"
  by (rule antisym) (auto intro: floorlog_leI floorlog_geI)

text \<open>Every integer of at most 53 bits is a double.\<close>

lemma double_of_int_exact: "\<bar>i\<bar> < 2 ^ 53 \<Longrightarrow> double_of_int i = of_int i"
proof -
  assume "\<bar>i\<bar> < 2 ^ 53"
  then have "nat \<bar>i\<bar> \<le> 2 ^ 53 - 1" by (simp add: nat_le_iff)
  then show ?thesis by (simp add: double_of_int_def Let_def floorlog_bound)
qed

text \<open>The first integer that is not.\<close>

lemma double_of_int_rounds: "double_of_int 9007199254740993 = 9007199254740992"
proof -
  have "\<lfloor>9007199254740993 / 2 :: rat\<rfloor> = 4503599627370496" by (simp add: floor_eq_iff)
  with floorlog_eqI [of 53 9007199254740993] show ?thesis
    by (simp add: double_of_int_def Let_def round_half_even_def)
qed

text \<open>A value an integer type holds exactly survives the way through \<open>double\<close>.\<close>

lemma cast_double_of_int:
  assumes "integer_range T = Some (lo, hi)" "lo \<le> i" "i < hi" "\<bar>i\<bar> < 2 ^ 53"
  shows "cast_double T (double_of_int i) = Some (nat (i mod 2 ^ (8 * sizeof T)))"
  using assms by (simp add: cast_double_def double_of_int_exact)

lemma integer_range_cases:
  assumes "integer_range T = Some (lo, hi)"
  obtains (signed) "lo = - (2 ^ (8 * sizeof T - 1))" "hi = 2 ^ (8 * sizeof T - 1)"
  | (unsigned) "lo = 0" "hi = 2 ^ (8 * sizeof T)"
  using assms by (cases T) auto

text \<open>Integers of at most 53 bits come back from a payload of their type as they went in.\<close>

lemma mod_negative:
  fixes i m :: int
  assumes "i < 0" "- m \<le> i"
  shows "i mod m = i + m"
  using mod_add_self2 [of i m] mod_pos_pos_trivial [of "i + m" m] assms by simp

lemma double_of_bits_of_int:
  assumes "integer_range T = Some (lo, hi)" "lo \<le> i" "i < hi" "\<bar>i\<bar> < 2 ^ 53"
  shows "double_of_bits T (nat (i mod 2 ^ (8 * sizeof T))) = Some (of_int i)"
proof (cases "i < 0")
  case True
  then have "i mod 2 ^ (8 * sizeof T) = i + 2 ^ (8 * sizeof T)"
    using assms(1,2) by (intro mod_negative) (cases T; simp)+
  then show ?thesis
    using assms True double_of_int_exact [OF assms(4)] by (cases T) (auto simp: double_of_bits_def)
next
  case False
  then have "i mod 2 ^ (8 * sizeof T) = i" using assms(1,3) by (cases T) auto
  then show ?thesis using assms False double_of_int_exact [OF assms(4)] by (simp add: double_of_bits_def)
qed

lemma integer_payload_roundtrip:
  assumes T: "withTensorElementType d = Some T" "integer_range T = Some (lo, hi)"
    and ints: "\<And>i. i \<in> set xs \<Longrightarrow> lo \<le> i \<and> i < hi \<and> \<bar>i\<bar> < 2 ^ 53"
  shows "\<exists>bytes. tensorBytesFromDoubles d (map of_int xs) = Some bytes \<and>
    tensorValuesAsDoubles d bytes = map (Some \<circ> of_int) xs"
proof -
  define vs where "vs = map (\<lambda>i. nat (i mod 2 ^ (8 * sizeof T))) xs"
  let ?bytes = "foldl (appendTensorScalar T) [] vs"
  have "those (map (cast_double T) (map of_int xs)) = Some vs"
    unfolding vs_def map_map using ints T(2) by (intro those_map_Some) (auto simp: cast_double_def)
  then have bytes: "tensorBytesFromDoubles d (map of_int xs) = Some ?bytes"
    using T(1) by (simp add: tensorBytesFromDoubles_def)
  have "v < 256 ^ sizeof T" if "v \<in> set vs" for v
  proof -
    from that obtain i where v: "v = nat (i mod 2 ^ (8 * sizeof T))" by (auto simp: vs_def)
    have "(2::int) ^ (8 * sizeof T) = 256 ^ sizeof T" by (simp add: power_mult)
    then show ?thesis by (simp add: v nat_less_iff)
  qed
  then have len: "length ?bytes = length vs * sizeof T"
    and nth: "\<And>i. i < length vs \<Longrightarrow> tensorScalarAt T ?bytes i = Some (vs ! i)"
    using append_scalars [of vs T] by auto
  have "sizeof T > 0" by (cases T) simp_all
  then have "tensorValuesAsDoubles d ?bytes = map (Some \<circ> of_int) xs"
    using T len nth ints double_of_bits_of_int [OF T(2)]
    by (auto simp: tensorValuesAsDoubles_def vs_def intro!: nth_equalityI)
  with bytes show ?thesis by blast
qed

end
