(* ===== verification/V2_Codec.thy ===== *)
theory V2_Codec
  imports Json Numbers
begin

text \<open>
  \<open>KServeV2Codec.cpp\<close>: inference requests from JSON, with or without binary tensor data behind the JSON
  header, and responses to JSON or to the binary framing. The parser and the printer of the JSON library
  are the arguments \<open>parse\<close> and \<open>dump\<close>; \<open>dump\<close> throws on a string that is not UTF-8 (\<open>Inl\<close>).
\<close>

section \<open>Bytes of a string\<close>

text \<open>\<open>std::memcpy\<close> between a \<open>std::string\<close> and a byte vector.\<close>

definition bytes_of :: "string \<Rightarrow> byte list" where
  "bytes_of s = map (\<lambda>c. word_of_nat (of_char c)) s"

definition chars_of :: "byte list \<Rightarrow> string" where
  "chars_of bs = map (\<lambda>b. char_of (unat b)) bs"

section \<open>Requests\<close>

record InferenceRequest =
  ir_id :: "string option"
  ir_inputs :: "InputTensor list"
  ir_requested_outputs :: "string list"
  ir_llm_params :: "LlmGenerationParams option"

text \<open>
  An \<open>InferenceParseResult\<close> is \<open>Decoded\<close> (\<open>ok\<close>) or \<open>Rejected\<close> with its message; \<open>Raised\<close> is an exception
  that leaves the function and \<open>UndefinedCast\<close> a conversion the language leaves undefined.
\<close>

datatype 'a InferenceParseResult = Decoded 'a | Rejected string | Raised string | UndefinedCast

fun decoded_then :: "'a InferenceParseResult \<Rightarrow> ('a \<Rightarrow> 'b InferenceParseResult) \<Rightarrow> 'b InferenceParseResult" where
  "decoded_then (Decoded x) f = f x"
| "decoded_then (Rejected m) f = Rejected m"
| "decoded_then (Raised m) f = Raised m"
| "decoded_then UndefinedCast f = UndefinedCast"

definition findTensor :: "TensorMetadata list \<Rightarrow> string \<Rightarrow> TensorMetadata option" where
  "findTensor tensors name = find_first (\<lambda>t. tm_name t = name) tensors"

definition shapeMatches :: "Json \<Rightarrow> TensorMetadata \<Rightarrow> bool" where
  "shapeMatches shape metadata \<longleftrightarrow>
     is_array shape \<and> length (elements shape) = length (tm_shape metadata) \<and>
     list_all2 (\<lambda>d m. is_number_integer d \<and> 0 \<le> get_int64 d \<and> (0 \<le> m \<longrightarrow> get_int64 d = m))
       (elements shape) (tm_shape metadata)"

definition parseShape :: "Json \<Rightarrow> int64_t list" where
  "parseShape shape = map get_int64 (elements shape)"

text \<open>\<open>get<double>\<close> of a number.\<close>

fun get_double :: "Json \<Rightarrow> double" where
  "get_double (JUnsigned n) = double_of_int (int n)"
| "get_double (JInteger i) = double_of_int i"
| "get_double (JFloat d) = d"
| "get_double _ = 0"

fun parse_numbers :: "ElementType \<Rightarrow> Json list \<Rightarrow> byte list option InferenceParseResult" where
  "parse_numbers T [] = Decoded (Some [])"
| "parse_numbers T (v # vs) =
     (if \<not> is_number v then Decoded None
      else case cast_double T (get_double v) of
             None \<Rightarrow> UndefinedCast
           | Some typed \<Rightarrow> decoded_then (parse_numbers T vs)
               (\<lambda>rest. Decoded (map_option (\<lambda>bs. scalar_bytes (sizeof T) typed @ bs) rest)))"

definition parseData :: "Json \<Rightarrow> string \<Rightarrow> byte list option InferenceParseResult" where
  "parseData data datatype =
     (case withTensorElementType datatype of None \<Rightarrow> Decoded None | Some T \<Rightarrow> parse_numbers T (elements data))"

definition parseStringData :: "Json \<Rightarrow> string list option" where
  "parseStringData data = (if list_all is_string (elements data) then Some (map text_of (elements data)) else None)"

text \<open>\<open>tensorElementCount\<close> of a shape; \<open>None\<close> is \<open>overflowed\<close>.\<close>

fun shape_element_count :: "size_t \<Rightarrow> int64_t list \<Rightarrow> size_t option" where
  "shape_element_count acc [] = Some acc"
| "shape_element_count acc (d # shape) =
     (if d \<le> 0 then Some 0
      else let extent = size_of_int64 d
           in if acc > (size_limit - 1) div extent then None else shape_element_count (size_mul acc extent) shape)"

definition parseLlmParameters :: "Json \<Rightarrow> LlmGenerationParams option" where
  "parseLlmParameters p =
     (if \<not> is_object p then None
      else if contains p ''max_tokens'' \<and> \<not> is_number_unsigned (at_key p ''max_tokens'') then None
      else if contains p ''temperature'' \<and> \<not> is_number (at_key p ''temperature'') then None
      else if contains p ''top_p'' \<and> \<not> is_number (at_key p ''top_p'') then None
      else if contains p ''top_k'' \<and> \<not> is_number_unsigned (at_key p ''top_k'') then None
      else if contains p ''stream'' \<and> \<not> is_boolean (at_key p ''stream'') then None
      else Some
        \<lparr>lp_max_tokens = (if contains p ''max_tokens'' then Some (get_size_t (at_key p ''max_tokens'')) else None),
         lp_temperature = (if contains p ''temperature'' then Some (get_double (at_key p ''temperature'')) else None),
         lp_top_p = (if contains p ''top_p'' then Some (get_double (at_key p ''top_p'')) else None),
         lp_top_k = (if contains p ''top_k'' then Some (get_size_t (at_key p ''top_k'')) else None),
         lp_streaming = contains p ''stream'' \<and> get_bool (at_key p ''stream'')\<rparr>)"

definition allOutputNames :: "ModelMetadata \<Rightarrow> string list" where
  "allOutputNames metadata = map tm_name (mm_outputs metadata)"

definition binaryDataSize :: "Json \<Rightarrow> int64_t" where
  "binaryDataSize node =
     (if \<not> contains node ''parameters'' \<or> \<not> is_object (at_key node ''parameters'') then -1
      else let params = at_key node ''parameters''
           in if \<not> contains params ''binary_data_size'' \<or> \<not> is_number_integer (at_key params ''binary_data_size'')
              then -1 else get_int64 (at_key params ''binary_data_size''))"

text \<open>\<open>None\<close> is the \<open>runtime_error\<close> for a slice past the end.\<close>

definition sliceBlob :: "string \<Rightarrow> size_t \<Rightarrow> size_t \<Rightarrow> byte list option" where
  "sliceBlob blob offset n =
     (if offset > length blob \<or> n > length blob - offset then None
      else Some (bytes_of (take n (drop offset blob))))"

text \<open>
  The payload of one input, after its name, type and shape are accepted: the tensor and the offset
  behind the binary data it used.
\<close>

definition count_mismatch :: "string \<Rightarrow> string" where
  "count_mismatch name = ''input data element count mismatch for input: '' @ name"

definition parse_payload ::
  "Json \<Rightarrow> string \<Rightarrow> size_t \<Rightarrow> size_t \<Rightarrow> InputTensor \<Rightarrow> (InputTensor \<times> size_t) InferenceParseResult" where
  "parse_payload input blob offset expected tensor =
     (let name = it_name tensor; datatype = it_datatype tensor; binary_size = binaryDataSize input in
      if isBytesDatatype datatype then
        if binary_size \<ge> 0 then Rejected (''binary BYTES input is not supported: '' @ name)
        else
          (case parseStringData (at_key input ''data'') of
             None \<Rightarrow> Rejected (''input data values must be strings for BYTES input: '' @ name)
           | Some strings \<Rightarrow>
               if strings \<noteq> [] \<and> expected \<noteq> 0 \<and> length strings \<noteq> expected then Rejected (count_mismatch name)
               else Decoded (tensor\<lparr>it_string_data := strings\<rparr>, offset))
      else if binary_size \<ge> 0 then
        (let byte_count = size_of_int64 binary_size in
         case sliceBlob blob offset byte_count of
           None \<Rightarrow> Rejected ''binary tensor data exceeds request body''
         | Some bytes \<Rightarrow>
             if expected \<noteq> 0 \<and> tensorElementCount datatype bytes \<noteq> expected then Rejected (count_mismatch name)
             else Decoded (tensor\<lparr>it_bytes := bytes\<rparr>, size_add offset byte_count))
      else
        decoded_then (parseData (at_key input ''data'') datatype)
          (\<lambda>data. case data of
             None \<Rightarrow> Rejected (''input data values must be numbers for input: '' @ name)
           | Some bytes \<Rightarrow>
               if bytes \<noteq> [] \<and> expected \<noteq> 0 \<and> tensorElementCount datatype bytes \<noteq> expected
               then Rejected (count_mismatch name)
               else Decoded (tensor\<lparr>it_bytes := bytes\<rparr>, offset)))"

definition parse_input ::
  "ModelMetadata \<Rightarrow> string \<Rightarrow> string list \<Rightarrow> size_t \<Rightarrow> Json \<Rightarrow> (InputTensor \<times> size_t) InferenceParseResult" where
  "parse_input metadata blob seen offset input =
     (if \<not> is_object input then Rejected ''each input must be an object''
      else if \<not> contains input ''name'' \<or> \<not> is_string (at_key input ''name'') then Rejected ''input name must be a string''
      else if \<not> contains input ''datatype'' \<or> \<not> is_string (at_key input ''datatype'')
        then Rejected ''input datatype must be a string''
      else if \<not> contains input ''shape'' then Rejected ''input shape is required''
      else if binaryDataSize input < 0 \<and> (\<not> contains input ''data'' \<or> \<not> is_array (at_key input ''data''))
        then Rejected ''input data must be an array''
      else
        let name = text_of (at_key input ''name'') in
        if name \<in> set seen then Rejected (''duplicate input: '' @ name)
        else
          (case findTensor (mm_inputs metadata) name of
             None \<Rightarrow> Rejected (''unknown input: '' @ name)
           | Some metadata_input \<Rightarrow>
               let datatype = text_of (at_key input ''datatype'') in
               if datatype \<noteq> tm_datatype metadata_input then Rejected (''unsupported datatype for input: '' @ name)
               else if \<not> shapeMatches (at_key input ''shape'') metadata_input
                 then Rejected (''invalid shape for input: '' @ name)
               else
                 let parsed_shape = parseShape (at_key input ''shape'') in
                 (case shape_element_count 1 parsed_shape of
                    None \<Rightarrow> Rejected (''input shape element count overflows for input: '' @ name)
                  | Some expected \<Rightarrow> parse_payload input blob offset expected
                      \<lparr>it_name = name, it_datatype = datatype, it_shape = parsed_shape, it_bytes = [], it_string_data = []\<rparr>)))"

fun parse_inputs ::
  "ModelMetadata \<Rightarrow> string \<Rightarrow> string list \<Rightarrow> size_t \<Rightarrow> Json list \<Rightarrow> (InputTensor list \<times> size_t) InferenceParseResult" where
  "parse_inputs metadata blob seen offset [] = Decoded ([], offset)"
| "parse_inputs metadata blob seen offset (input # rest) =
     decoded_then (parse_input metadata blob seen offset input)
       (\<lambda>(tensor, offset'). decoded_then (parse_inputs metadata blob (seen @ [it_name tensor]) offset' rest)
          (\<lambda>(tensors, offset''). Decoded (tensor # tensors, offset'')))"

fun parse_outputs :: "ModelMetadata \<Rightarrow> Json list \<Rightarrow> string list InferenceParseResult" where
  "parse_outputs metadata [] = Decoded []"
| "parse_outputs metadata (output # rest) =
     (if \<not> is_object output then Rejected ''each output must be an object''
      else if \<not> contains output ''name'' \<or> \<not> is_string (at_key output ''name'') then Rejected ''output name must be a string''
      else
        let name = text_of (at_key output ''name'') in
        if findTensor (mm_outputs metadata) name = None then Rejected (''unknown output: '' @ name)
        else decoded_then (parse_outputs metadata rest) (\<lambda>names. Decoded (name # names)))"

text \<open>The request a parsed header and the binary data behind it describe.\<close>

definition decode_request :: "Json \<Rightarrow> string \<Rightarrow> ModelMetadata \<Rightarrow> InferenceRequest InferenceParseResult" where
  "decode_request header blob metadata =
     (if \<not> is_object header then Rejected ''inference request body must be a JSON object''
      else if contains header ''id'' \<and> \<not> is_string (at_key header ''id'') then Rejected ''request id must be a string''
      else if \<not> contains header ''inputs'' \<or> \<not> is_array (at_key header ''inputs'') then Rejected ''inputs must be an array''
      else if elements (at_key header ''inputs'') = [] then Rejected ''inputs must not be empty''
      else decoded_then (parse_inputs metadata blob [] 0 (elements (at_key header ''inputs'')))
        (\<lambda>(tensors, offset).
           if offset \<noteq> length blob then Rejected ''unused binary tensor data in request body''
           else case find_first (\<lambda>t. tm_name t \<notin> it_name ` set tensors) (mm_inputs metadata) of
             Some missing \<Rightarrow> Rejected (''missing required input: '' @ tm_name missing)
           | None \<Rightarrow>
               if contains header ''outputs'' \<and> \<not> is_array (at_key header ''outputs'') then Rejected ''outputs must be an array''
               else decoded_then
                 (if contains header ''outputs'' then parse_outputs metadata (elements (at_key header ''outputs''))
                  else Decoded (allOutputNames metadata))
                 (\<lambda>outputs.
                    let request = \<lparr>ir_id = (if contains header ''id'' then Some (text_of (at_key header ''id'')) else None),
                                   ir_inputs = tensors, ir_requested_outputs = outputs, ir_llm_params = None\<rparr>
                    in if \<not> contains header ''parameters'' then Decoded request
                       else case parseLlmParameters (at_key header ''parameters'') of
                              None \<Rightarrow> Rejected ''invalid generation parameters''
                            | Some params \<Rightarrow> Decoded (request\<lparr>ir_llm_params := Some params\<rparr>))))"

definition parseInferenceRequest_framed ::
  "(string \<Rightarrow> JsonText) \<Rightarrow> string \<Rightarrow> ModelMetadata \<Rightarrow> size_t \<Rightarrow> InferenceRequest InferenceParseResult" where
  "parseInferenceRequest_framed parse body metadata header_length =
     (if header_length > length body then Rejected ''binary inference header exceeds request body''
      else case parse (take header_length body) of
             JsonParseError _ \<Rightarrow> Rejected ''invalid JSON request body''
           | JsonOutOfRange what \<Rightarrow> Raised what
           | JsonValue header \<Rightarrow> decode_request header (drop header_length body) metadata)"

definition parseInferenceRequest ::
  "(string \<Rightarrow> JsonText) \<Rightarrow> (Json \<Rightarrow> string + string) \<Rightarrow> string \<Rightarrow> ModelMetadata \<Rightarrow>
     InferenceRequest InferenceParseResult" where
  "parseInferenceRequest parse dump body metadata =
     (case parse body of
        JsonParseError _ \<Rightarrow> Rejected ''invalid JSON request body''
      | JsonOutOfRange what \<Rightarrow> Raised what
      | JsonValue header \<Rightarrow>
          (case dump header of
             Inl what \<Rightarrow> Raised what
           | Inr text \<Rightarrow> parseInferenceRequest_framed parse text metadata (length text)))"

section \<open>Responses\<close>

text \<open>Objects are written with their keys in the order the library keeps them.\<close>

definition shape_json :: "int64_t list \<Rightarrow> Json" where
  "shape_json shape = JArray (map JInteger shape)"

definition tensorMetadataJson :: "TensorMetadata \<Rightarrow> Json" where
  "tensorMetadataJson t = JObject [(''datatype'', JString (tm_datatype t)), (''name'', JString (tm_name t)),
     (''shape'', shape_json (tm_shape t))]"

text \<open>A tensor of the binary framing, and the bytes it adds behind the header.\<close>

definition binaryOutputTensorJson :: "OutputTensor \<Rightarrow> Json \<times> string" where
  "binaryOutputTensorJson t =
     (if isBytesDatatype (ot_datatype t)
      then (JObject [(''data'', JArray (map JString (ot_string_data t))), (''datatype'', JString (ot_datatype t)),
              (''name'', JString (ot_name t)), (''shape'', shape_json (ot_shape t))], [])
      else (JObject [(''datatype'', JString (ot_datatype t)), (''name'', JString (ot_name t)),
              (''parameters'', JObject [(''binary_data_size'', JUnsigned (length (ot_bytes t)))]),
              (''shape'', shape_json (ot_shape t))], chars_of (ot_bytes t)))"

text \<open>A number that is not finite is printed as \<open>null\<close>.\<close>

definition number_json :: "double option \<Rightarrow> Json" where
  "number_json v = (case v of Some d \<Rightarrow> JFloat d | None \<Rightarrow> JNull)"

definition outputTensorJson :: "OutputTensor \<Rightarrow> Json" where
  "outputTensorJson t =
     JObject [(''data'', JArray (if isBytesDatatype (ot_datatype t) then map JString (ot_string_data t)
                                 else map number_json (tensorValuesAsDoubles (ot_datatype t) (ot_bytes t)))),
       (''datatype'', JString (ot_datatype t)), (''name'', JString (ot_name t)), (''shape'', shape_json (ot_shape t))]"

definition modelMetadataJson :: "(Json \<Rightarrow> string + string) \<Rightarrow> ModelMetadata \<Rightarrow> string + string" where
  "modelMetadataJson dump md = dump (JObject [(''inputs'', JArray (map tensorMetadataJson (mm_inputs md))),
     (''name'', JString (mm_name md)), (''outputs'', JArray (map tensorMetadataJson (mm_outputs md))),
     (''platform'', JString (mm_platform md)), (''versions'', JArray (map JString (mm_versions md)))])"

definition response_json :: "string \<Rightarrow> string \<Rightarrow> string option \<Rightarrow> Json list \<Rightarrow> Json" where
  "response_json model_name model_version request_id outputs =
     JObject ((case request_id of Some i \<Rightarrow> [(''id'', JString i)] | None \<Rightarrow> []) @
       [(''model_name'', JString model_name), (''model_version'', JString model_version), (''outputs'', JArray outputs)])"

definition inferenceResponseJson ::
  "(Json \<Rightarrow> string + string) \<Rightarrow> string \<Rightarrow> string \<Rightarrow> InferenceRequest \<Rightarrow> ExecutionResponse \<Rightarrow> string + string" where
  "inferenceResponseJson dump model_name model_version request response =
     dump (response_json model_name model_version (ir_id request) (map outputTensorJson (rs_outputs response)))"

record BinaryInferenceResponse =
  bi_body :: string
  bi_header_length :: size_t

definition inferenceResponseBinary ::
  "(Json \<Rightarrow> string + string) \<Rightarrow> string \<Rightarrow> string \<Rightarrow> InferenceRequest \<Rightarrow> ExecutionResponse \<Rightarrow>
     string + BinaryInferenceResponse" where
  "inferenceResponseBinary dump model_name model_version request response =
     (let framed = map binaryOutputTensorJson (rs_outputs response)
      in case dump (response_json model_name model_version (ir_id request) (map fst framed)) of
           Inl what \<Rightarrow> Inl what
         | Inr text \<Rightarrow> Inr \<lparr>bi_body = text @ concat (map snd framed), bi_header_length = length text\<rparr>)"

section \<open>Lemmas\<close>

lemma bytes_chars [simp]: "bytes_of (chars_of bs) = bs"
proof -
  have "word_of_nat (of_char (char_of (unat b))) = b" for b :: byte
    using unsigned_less [of b, where 'a = nat] by (simp add: of_char_of)
  then show ?thesis by (simp add: bytes_of_def chars_of_def comp_def)
qed

lemma length_bytes_of [simp]: "length (bytes_of s) = length s" and length_chars_of [simp]: "length (chars_of bs) = length bs"
  by (simp_all add: bytes_of_def chars_of_def)

lemma decoded_then_Decoded [simp]:
  "decoded_then p f = Decoded y \<longleftrightarrow> (\<exists>x. p = Decoded x \<and> f x = Decoded y)"
  by (cases p) auto

lemma shape_count_exact:
  assumes "shape_element_count c shape = Some n" "0 < c" "c < size_limit" "\<forall>d\<in>set shape. d < 2 ^ 63"
  shows "if \<forall>d\<in>set shape. 0 < d then n = c * prod_list (map nat shape) \<and> n < size_limit \<and> 0 < n else n = 0"
  using assms
proof (induction shape arbitrary: c)
  case Nil
  then show ?case by simp
next
  case (Cons d shape)
  show ?case
  proof (cases "d \<le> 0")
    case True
    with Cons.prems(1) show ?thesis by auto
  next
    case False
    then have e: "size_of_int64 d = nat d" "0 < nat d" using Cons.prems(4) by (auto simp: size_of_int64_def)
    with False Cons.prems(1) have le: "c \<le> (size_limit - 1) div nat d"
      and rest: "shape_element_count (size_mul c (nat d)) shape = Some n"
      by (auto simp: Let_def split: if_splits)
    from le have "c * nat d \<le> (size_limit - 1) div nat d * nat d" by (rule mult_le_mono1)
    also have "\<dots> \<le> size_limit - 1" by (rule div_times_less_eq_dividend)
    also have "\<dots> < size_limit" by simp
    finally have lt: "c * nat d < size_limit" .
    with rest have "shape_element_count (c * nat d) shape = Some n" by (simp add: size_mul_def)
    from Cons.IH [OF this] lt e(2) Cons.prems(2,4) False show ?thesis
      by (auto simp: mult.assoc not_le)
  qed
qed

section \<open>What a decoded request looks like\<close>

text \<open>
  A tensor that agrees with the model's description. A payload that is not empty has as many elements as
  the shape says, unless an extent is zero.
\<close>

definition well_formed_input :: "ModelMetadata \<Rightarrow> InputTensor \<Rightarrow> bool" where
  "well_formed_input md t \<longleftrightarrow>
     (\<exists>m. findTensor (mm_inputs md) (it_name t) = Some m \<and> it_datatype t = tm_datatype m \<and>
        list_all2 (\<lambda>d k. 0 \<le> d \<and> (0 \<le> k \<longrightarrow> d = k)) (it_shape t) (tm_shape m)) \<and>
     (if isBytesDatatype (it_datatype t)
      then it_bytes t = [] \<and>
        (it_string_data t = [] \<or> 0 \<in> set (it_shape t) \<or> length (it_string_data t) = prod_list (map nat (it_shape t)))
      else it_string_data t = [] \<and>
        (it_bytes t = [] \<or> 0 \<in> set (it_shape t) \<or> input_elementCount t = prod_list (map nat (it_shape t))))"

lemma get_int64_lt: "get_int64 j < 2 ^ 63"
proof -
  have "integer_of j mod 2 ^ 64 < 2 ^ 64" by (rule pos_mod_bound) simp
  then show ?thesis unfolding get_int64_def Let_def by (cases "integer_of j mod 2 ^ 64 < 2 ^ 63") simp_all
qed

lemma expected_count:
  assumes "shape_element_count 1 (parseShape s) = Some n" "list_all (\<lambda>d. 0 \<le> get_int64 d) (elements s)"
  shows "n = 0 \<and> 0 \<in> set (parseShape s) \<or> 0 < n \<and> n = prod_list (map nat (parseShape s))"
proof -
  have lt: "\<forall>d \<in> set (parseShape s). d < 2 ^ 63" and pos: "\<forall>d \<in> set (parseShape s). 0 \<le> d"
    using assms(2) get_int64_lt by (auto simp: parseShape_def list_all_iff)
  have one: "1 < size_limit" by (simp add: size_limit_def)
  note exact = shape_count_exact [OF assms(1) zero_less_one one lt]
  show ?thesis
  proof (cases "\<forall>d \<in> set (parseShape s). 0 < d")
    case True
    with exact show ?thesis by simp
  next
    case False
    with pos have "0 \<in> set (parseShape s)" by (metis le_less)
    moreover from False exact have "n = 0" by (simp split: if_splits)
    ultimately show ?thesis by simp
  qed
qed

lemma parse_payload_cases:
  assumes "parse_payload input blob off n t0 = Decoded (t, off')"
  obtains (strings) strings where "isBytesDatatype (it_datatype t0)" "t = t0\<lparr>it_string_data := strings\<rparr>"
      "strings = [] \<or> n = 0 \<or> length strings = n" "off' = off"
  | (bytes) bytes where "\<not> isBytesDatatype (it_datatype t0)" "t = t0\<lparr>it_bytes := bytes\<rparr>"
      "bytes = [] \<or> n = 0 \<or> tensorElementCount (it_datatype t0) bytes = n"
proof (cases "isBytesDatatype (it_datatype t0)")
  case True
  with assms strings show thesis by (auto simp: parse_payload_def Let_def split: if_splits option.splits)
next
  case False
  show thesis
  proof (cases "binaryDataSize input \<ge> 0")
    case True
    with False assms bytes show thesis by (auto simp: parse_payload_def Let_def split: if_splits option.splits)
  next
    case neg: False
    with False assms obtain data where "parseData (at_key input ''data'') (it_datatype t0) = Decoded (Some data)"
      "\<not> (data \<noteq> [] \<and> n \<noteq> 0 \<and> tensorElementCount (it_datatype t0) data \<noteq> n)" "t = t0\<lparr>it_bytes := data\<rparr>"
      by (auto simp: parse_payload_def Let_def split: if_splits option.splits)
    then show thesis by (intro bytes [OF False]) simp_all
  qed
qed

lemma parse_payload_fields:
  assumes "parse_payload input blob off n t0 = Decoded (t, off')" "it_bytes t0 = []" "it_string_data t0 = []"
  shows "it_name t = it_name t0" "it_datatype t = it_datatype t0" "it_shape t = it_shape t0"
    and "if isBytesDatatype (it_datatype t0)
         then it_bytes t = [] \<and> (it_string_data t = [] \<or> n = 0 \<or> length (it_string_data t) = n)
         else it_string_data t = [] \<and> (it_bytes t = [] \<or> n = 0 \<or> input_elementCount t = n)"
  using assms(1)
  by (cases rule: parse_payload_cases; simp add: assms(2,3) input_elementCount_def)+

lemma parse_input_decoded:
  assumes "parse_input md blob seen off input = Decoded (t, off')"
  shows "it_name t \<notin> set seen" "well_formed_input md t"
proof -
  from assms obtain m n where m: "findTensor (mm_inputs md) (text_of (at_key input ''name'')) = Some m"
    and fresh: "text_of (at_key input ''name'') \<notin> set seen"
    and dt: "text_of (at_key input ''datatype'') = tm_datatype m"
    and sh: "shapeMatches (at_key input ''shape'') m"
    and n: "shape_element_count 1 (parseShape (at_key input ''shape'')) = Some n"
    and pay: "parse_payload input blob off n
        \<lparr>it_name = text_of (at_key input ''name''), it_datatype = text_of (at_key input ''datatype''),
         it_shape = parseShape (at_key input ''shape''), it_bytes = [], it_string_data = []\<rparr> = Decoded (t, off')"
    by (auto simp: parse_input_def Let_def split: if_splits option.splits)
  note f = parse_payload_fields [OF pay, unfolded InputTensor.simps, OF refl refl]
  show "it_name t \<notin> set seen" using fresh f(1) by simp
  have "list_all2 (\<lambda>d k. 0 \<le> d \<and> (0 \<le> k \<longrightarrow> d = k)) (parseShape (at_key input ''shape'')) (tm_shape m)"
    using sh by (auto simp: shapeMatches_def parseShape_def list_all2_map1 elim: list_all2_mono)
  with m dt f(1-3) have desc: "\<exists>m. findTensor (mm_inputs md) (it_name t) = Some m \<and> it_datatype t = tm_datatype m \<and>
      list_all2 (\<lambda>d k. 0 \<le> d \<and> (0 \<le> k \<longrightarrow> d = k)) (it_shape t) (tm_shape m)"
    by simp
  have "list_all (\<lambda>d. 0 \<le> get_int64 d) (elements (at_key input ''shape''))"
    using sh by (auto simp: shapeMatches_def list_all_length list_all2_conv_all_nth)
  note e = expected_count [OF n this, folded f(3)]
  show "well_formed_input md t"
    unfolding well_formed_input_def using desc f(4) e
    by (cases "isBytesDatatype (it_datatype t)") (auto simp: f(2))
qed

lemma well_formed_name: "well_formed_input md t \<Longrightarrow> it_name t \<in> tm_name ` set (mm_inputs md)"
  by (auto simp: well_formed_input_def findTensor_def dest!: find_first_Some intro: rev_image_eqI)

lemma parse_inputs_decoded:
  "parse_inputs md blob seen off inputs = Decoded (ts, off') \<Longrightarrow>
     distinct (map it_name ts) \<and> set (map it_name ts) \<inter> set seen = {} \<and> list_all (well_formed_input md) ts"
proof (induction inputs arbitrary: seen off ts)
  case Nil
  then show ?case by simp
next
  case (Cons input inputs)
  then obtain t off1 ts1 where t: "parse_input md blob seen off input = Decoded (t, off1)"
    and ts1: "parse_inputs md blob (seen @ [it_name t]) off1 inputs = Decoded (ts1, off')" and ts: "ts = t # ts1"
    by auto
  from Cons.IH [OF ts1] parse_input_decoded [OF t] ts show ?case by auto
qed

lemma parse_outputs_decoded:
  "parse_outputs md outputs = Decoded names \<Longrightarrow> set names \<subseteq> tm_name ` set (mm_outputs md)"
proof (induction outputs arbitrary: names)
  case (Cons x xs)
  from Cons.prems obtain m rest where "findTensor (mm_outputs md) (text_of (at_key x ''name'')) = Some m"
    and "parse_outputs md xs = Decoded rest" and "names = text_of (at_key x ''name'') # rest"
    by (auto simp: Let_def split: if_splits)
  with Cons.IH find_first_Some show ?case by (fastforce simp: findTensor_def)
qed simp

lemma decode_request_decoded:
  assumes "decode_request header blob md = Decoded r"
  obtains off where "parse_inputs md blob [] 0 (elements (at_key header ''inputs'')) = Decoded (ir_inputs r, off)"
    and "off = length blob" "find_first (\<lambda>t. tm_name t \<notin> it_name ` set (ir_inputs r)) (mm_inputs md) = None"
    and "set (ir_requested_outputs r) \<subseteq> tm_name ` set (mm_outputs md)"
proof -
  from assms obtain ts off outputs where
    ts: "parse_inputs md blob [] 0 (elements (at_key header ''inputs'')) = Decoded (ts, off)"
    and off: "off = length blob" and all: "find_first (\<lambda>t. tm_name t \<notin> it_name ` set ts) (mm_inputs md) = None"
    and outs: "(if contains header ''outputs'' then parse_outputs md (elements (at_key header ''outputs''))
         else Decoded (allOutputNames md)) = Decoded outputs"
    and r: "ir_inputs r = ts" "ir_requested_outputs r = outputs"
    by (auto simp: decode_request_def Let_def split: if_splits option.splits)
  from outs have "set outputs \<subseteq> tm_name ` set (mm_outputs md)"
    by (auto simp: allOutputNames_def split: if_splits dest: parse_outputs_decoded)
  with that ts off all r show thesis by simp
qed

text \<open>
  (C16) A request that decodes agrees with the model: its inputs are exactly the inputs the model
  declares, each once, of the declared datatype and of a shape that fits, and only outputs of the model are
  requested. A payload that is not empty has, counted in whole elements, as many as its shape multiplies out to,
  with no wrap-around, unless an extent is zero. (So an empty payload is let through, any payload for a shape with
  a zero extent, and less than one element of trailing bytes.)
\<close>

theorem decoded_request_well_formed:
  assumes "parseInferenceRequest_framed parse body md header_length = Decoded r"
  shows "distinct (map it_name (ir_inputs r)) \<and> it_name ` set (ir_inputs r) = tm_name ` set (mm_inputs md) \<and>
    list_all (well_formed_input md) (ir_inputs r) \<and> set (ir_requested_outputs r) \<subseteq> tm_name ` set (mm_outputs md)"
proof -
  from assms obtain header where "decode_request header (drop header_length body) md = Decoded r"
    by (auto simp: parseInferenceRequest_framed_def split: if_splits JsonText.splits)
  then obtain off where ts: "parse_inputs md (drop header_length body) [] 0 (elements (at_key header ''inputs'')) =
        Decoded (ir_inputs r, off)"
    and all: "find_first (\<lambda>t. tm_name t \<notin> it_name ` set (ir_inputs r)) (mm_inputs md) = None"
    and outs: "set (ir_requested_outputs r) \<subseteq> tm_name ` set (mm_outputs md)"
    by (rule decode_request_decoded)
  note wf = parse_inputs_decoded [OF ts]
  have "tm_name ` set (mm_inputs md) \<subseteq> it_name ` set (ir_inputs r)" using all by auto
  moreover have "it_name ` set (ir_inputs r) \<subseteq> tm_name ` set (mm_inputs md)"
    using wf well_formed_name by (auto simp: list_all_iff)
  ultimately show ?thesis using wf outs by simp
qed

definition echo_model :: ModelMetadata where
  "echo_model = \<lparr>mm_name = ''echo'', mm_versions = [''1''], mm_platform = ''stub'',
     mm_inputs = [\<lparr>tm_name = ''x'', tm_datatype = ''UINT8'', tm_shape = [-1, 2]\<rparr>],
     mm_outputs = [\<lparr>tm_name = ''y'', tm_datatype = ''UINT8'', tm_shape = [-1, 2]\<rparr>]\<rparr>"

text \<open>A header that announces four bytes of binary data for a two by two tensor.\<close>

definition echo_header :: Json where
  "echo_header = JObject [(''inputs'', JArray [JObject [(''datatype'', JString ''UINT8''), (''name'', JString ''x''),
     (''parameters'', JObject [(''binary_data_size'', JUnsigned 4)]), (''shape'', JArray [JUnsigned 2, JUnsigned 2])]])]"

definition echo_request :: InferenceRequest where
  "echo_request = \<lparr>ir_id = None,
     ir_inputs = [\<lparr>it_name = ''x'', it_datatype = ''UINT8'', it_shape = [2, 2], it_bytes = bytes_of ''abcd'', it_string_data = []\<rparr>],
     ir_requested_outputs = [''y''], ir_llm_params = None\<rparr>"

theorem decoded_request_well_formed_witness:
  "parseInferenceRequest_framed (\<lambda>_. JsonValue echo_header) ''{}abcd'' echo_model 2 = Decoded echo_request \<and>
   list_all (well_formed_input echo_model) (ir_inputs echo_request)"
proof -
  have *: "parseInferenceRequest_framed (\<lambda>_. JsonValue echo_header) ''{}abcd'' echo_model 2 = Decoded echo_request"
    by (simp add: parseInferenceRequest_framed_def decode_request_def echo_header_def echo_model_def parse_input_def
        parse_payload_def binaryDataSize_def shapeMatches_def parseShape_def findTensor_def at_key_def allOutputNames_def
        sliceBlob_def isBytesDatatype_def tensorElementCount_def tensorElementSize_def echo_request_def
        size_of_int64_def size_limit_def size_mul_def size_add_def get_int64_def)
  show ?thesis using * decoded_request_well_formed [OF *] by blast
qed

section \<open>The binary framing of a response\<close>

text \<open>
  The value a client gets when it parses a printed value: a non-negative integer is read as an unsigned
  number.
\<close>

fun reread :: "Json \<Rightarrow> Json" where
  "reread (JInteger i) = (if 0 \<le> i then JUnsigned (nat i) else JInteger i)"
| "reread (JArray xs) = JArray (map reread xs)"
| "reread (JObject ms) = JObject (map (\<lambda>(k, v). (k, reread v)) ms)"
| "reread j = j"

text \<open>
  A client of the framing: it reads the tensors of the header in order, each with its share of the bytes
  behind the header, by the functions the server reads requests with.
\<close>

definition read_output :: "Json \<Rightarrow> string \<Rightarrow> size_t \<Rightarrow> (OutputTensor \<times> size_t) option" where
  "read_output node blob offset =
     (let t = \<lparr>ot_name = text_of (at_key node ''name''), ot_datatype = text_of (at_key node ''datatype''),
               ot_shape = parseShape (at_key node ''shape''), ot_bytes = [], ot_string_data = []\<rparr>
      in if binaryDataSize node \<ge> 0
         then map_option (\<lambda>bs. (t\<lparr>ot_bytes := bs\<rparr>, offset + nat (binaryDataSize node)))
                (sliceBlob blob offset (nat (binaryDataSize node)))
         else map_option (\<lambda>ss. (t\<lparr>ot_string_data := ss\<rparr>, offset)) (parseStringData (at_key node ''data'')))"

fun read_outputs :: "Json list \<Rightarrow> string \<Rightarrow> size_t \<Rightarrow> OutputTensor list option" where
  "read_outputs [] blob offset = (if offset = length blob then Some [] else None)"
| "read_outputs (node # nodes) blob offset =
     (case read_output node blob offset of
        None \<Rightarrow> None
      | Some (t, offset') \<Rightarrow> map_option (\<lambda>ts. t # ts) (read_outputs nodes blob offset'))"

definition read_response :: "(string \<Rightarrow> JsonText) \<Rightarrow> BinaryInferenceResponse \<Rightarrow> OutputTensor list option" where
  "read_response parse framed =
     (case parse (take (bi_header_length framed) (bi_body framed)) of
        JsonValue header \<Rightarrow>
          read_outputs (elements (at_key header ''outputs'')) (drop (bi_header_length framed) (bi_body framed)) 0
      | _ \<Rightarrow> None)"

text \<open>A tensor that carries only the payload of its datatype, with a shape and a size of 64-bit numbers.\<close>

definition plain_output :: "OutputTensor \<Rightarrow> bool" where
  "plain_output t \<longleftrightarrow>
     (if isBytesDatatype (ot_datatype t) then ot_bytes t = [] else ot_string_data t = []) \<and>
     list_all (\<lambda>d. - (2 ^ 63) \<le> d \<and> d < 2 ^ 63) (ot_shape t) \<and> length (ot_bytes t) < 2 ^ 63"

lemma map_of_reread: "map_of (map (\<lambda>(k, v). (k, reread v)) ms) key = map_option reread (map_of ms key)"
  by (induction ms) auto

lemma at_key_reread: "at_key (reread (JObject ms)) key = reread (at_key (JObject ms) key)"
  by (simp add: at_key_def map_of_reread split: option.splits)

lemma reread_shape: "list_all (\<lambda>d. - (2 ^ 63) \<le> d \<and> d < 2 ^ 63) shape \<Longrightarrow> parseShape (reread (shape_json shape)) = shape"
  by (induction shape) (auto simp: parseShape_def shape_json_def get_int64_exact)

lemma reread_strings: "map reread (map JString ss) = map JString ss"
  by simp

lemma parseStringData_JString [simp]: "parseStringData (JArray (map JString ss)) = Some ss"
  by (simp add: parseStringData_def list_all_iff comp_def)

lemma binary_size_reread:
  assumes "\<not> isBytesDatatype (ot_datatype t)" "length (ot_bytes t) < 2 ^ 63"
  shows "binaryDataSize (reread (fst (binaryOutputTensorJson t))) = int (length (ot_bytes t))"
  using assms by (simp add: binaryOutputTensorJson_def binaryDataSize_def at_key_def Let_def get_int64_exact)

lemma no_binary_size_reread:
  assumes "isBytesDatatype (ot_datatype t)"
  shows "binaryDataSize (reread (fst (binaryOutputTensorJson t))) = -1"
  using assms by (simp add: binaryOutputTensorJson_def binaryDataSize_def)

lemma read_output_back:
  assumes "plain_output t" "drop offset blob = snd (binaryOutputTensorJson t) @ rest" "offset \<le> length blob"
  shows "read_output (reread (fst (binaryOutputTensorJson t))) blob offset =
           Some (t, offset + length (snd (binaryOutputTensorJson t)))"
proof (cases "isBytesDatatype (ot_datatype t)")
  case True
  with assms(1) show ?thesis
    unfolding read_output_def Let_def no_binary_size_reread [OF True]
    by (simp add: binaryOutputTensorJson_def at_key_def plain_output_def reread_shape comp_def)
next
  case False
  from assms(1) have len: "length (ot_bytes t) < 2 ^ 63" by (simp add: plain_output_def)
  have "length (drop offset blob) = length (ot_bytes t) + length rest"
    using assms(2) False by (simp add: binaryOutputTensorJson_def)
  then have "length (ot_bytes t) \<le> length blob - offset" by simp
  then have "sliceBlob blob offset (length (ot_bytes t)) = Some (ot_bytes t)"
    using assms(2,3) False by (simp add: sliceBlob_def binaryOutputTensorJson_def)
  with False assms(1) show ?thesis
    unfolding read_output_def Let_def binary_size_reread [OF False len]
    by (simp add: binaryOutputTensorJson_def at_key_def plain_output_def reread_shape)
qed

lemma read_outputs_back:
  assumes "list_all plain_output ts" "drop offset blob = concat (map (\<lambda>t. snd (binaryOutputTensorJson t)) ts)"
    and "offset \<le> length blob"
  shows "read_outputs (map (\<lambda>t. reread (fst (binaryOutputTensorJson t))) ts) blob offset = Some ts"
  using assms
proof (induction ts arbitrary: offset)
  case Nil
  then show ?case by simp
next
  case (Cons t ts)
  let ?n = "length (snd (binaryOutputTensorJson t))"
  have split: "drop offset blob = snd (binaryOutputTensorJson t) @ concat (map (\<lambda>t. snd (binaryOutputTensorJson t)) ts)"
    using Cons.prems(2) by simp
  have le: "offset + ?n \<le> length blob"
    using arg_cong [OF split, of length] Cons.prems(3) by (cases "offset = length blob") auto
  have "drop (offset + ?n) blob = concat (map (\<lambda>t. snd (binaryOutputTensorJson t)) ts)"
    using split by (metis add.commute append_eq_conv_conj drop_drop)
  with Cons.IH Cons.prems(1) le have "read_outputs (map (\<lambda>t. reread (fst (binaryOutputTensorJson t))) ts) blob (offset + ?n) = Some ts"
    by simp
  with Cons.prems(1) split Cons.prems(3) show ?case
    by (simp add: read_output_back)
qed

text \<open>
  (C38) The binary framing loses nothing: a client that reads the header, parses it and cuts the bytes
  behind it as the announced sizes say gets back every output of the response, with its name, datatype,
  shape and payload, and no byte is left over. The printer and the parser of the JSON library are assumed
  to be inverse to each other up to the sign type of integers.
\<close>

theorem binary_response_roundtrip:
  assumes "\<And>j s. dump j = Inr s \<Longrightarrow> parse s = JsonValue (reread j)"
    and "inferenceResponseBinary dump model_name model_version request response = Inr framed"
    and "list_all plain_output (rs_outputs response)"
  shows "read_response parse framed = Some (rs_outputs response)"
proof -
  let ?outs = "map binaryOutputTensorJson (rs_outputs response)"
  let ?header = "response_json model_name model_version (ir_id request) (map fst ?outs)"
  from assms(2) obtain s where s: "dump ?header = Inr s"
    and framed: "framed = \<lparr>bi_body = s @ concat (map snd ?outs), bi_header_length = length s\<rparr>"
    by (auto simp: inferenceResponseBinary_def Let_def split: sum.splits)
  have "elements (at_key (reread ?header) ''outputs'') = map (\<lambda>t. reread (fst (binaryOutputTensorJson t))) (rs_outputs response)"
    by (simp add: response_json_def at_key_def comp_def split: option.splits)
  with assms(1) [OF s] read_outputs_back [OF assms(3), of 0 "concat (map snd ?outs)"] show ?thesis
    by (simp add: read_response_def framed comp_def)
qed

definition echo_response :: ExecutionResponse where
  "echo_response = empty_response\<lparr>rs_outputs :=
     [\<lparr>ot_name = ''y'', ot_datatype = ''UINT8'', ot_shape = [2], ot_bytes = [1, 2], ot_string_data = []\<rparr>]\<rparr>"

text \<open>A printer and parser for one value, enough to run the round trip.\<close>

definition echo_response_header :: Json where
  "echo_response_header = response_json ''m'' ''1'' None (map (fst \<circ> binaryOutputTensorJson) (rs_outputs echo_response))"

theorem binary_response_roundtrip_witness:
  "\<exists>framed. inferenceResponseBinary (\<lambda>j. if j = echo_response_header then Inr ''h'' else Inl ''other'')
       ''m'' ''1'' echo_request echo_response = Inr framed \<and>
     read_response (\<lambda>_. JsonValue (reread echo_response_header)) framed = Some (rs_outputs echo_response)"
proof -
  let ?dump = "\<lambda>j. if j = echo_response_header then Inr ''h'' else Inl ''other''"
  obtain framed where f: "inferenceResponseBinary ?dump ''m'' ''1'' echo_request echo_response = Inr framed"
    by (simp add: inferenceResponseBinary_def Let_def echo_response_header_def echo_request_def)
  have "list_all plain_output (rs_outputs echo_response)"
    by (simp add: echo_response_def plain_output_def isBytesDatatype_def)
  moreover have "(\<lambda>_. JsonValue (reread echo_response_header)) s = JsonValue (reread j)" if "?dump j = Inr s" for j s
    using that by (auto split: if_splits)
  ultimately have "read_response (\<lambda>_. JsonValue (reread echo_response_header)) framed = Some (rs_outputs echo_response)"
    by (intro binary_response_roundtrip [OF _ f])
  with f show ?thesis by blast
qed

section \<open>Integers in JSON data\<close>

lemma parse_integers_exact:
  assumes "integer_range T = Some (lo, hi)" "list_all (\<lambda>i. lo \<le> i \<and> i < hi \<and> \<bar>i\<bar> < 2 ^ 53) is"
  shows "parse_numbers T (map JInteger is) =
           Decoded (Some (concat (map (\<lambda>i. scalar_bytes (sizeof T) (nat (i mod 2 ^ (8 * sizeof T)))) is)))"
  using assms(2) by (induction "is") (auto simp: cast_double_of_int [OF assms(1)])

text \<open>
  Integer tensors in JSON are exact only up to 53 bits: every value below \<open>2 ^ 53\<close> in magnitude
  reaches the buffer unchanged, but all values pass through a \<open>double\<close>, so the 64-bit integer
  \<open>2 ^ 53 + 1\<close> is stored as \<open>2 ^ 53\<close> and the request is accepted.
\<close>

theorem integer_data_through_double:
  assumes "list_all (\<lambda>i. \<bar>i\<bar> < 2 ^ 53) is"
  shows "parseData (JArray (map JInteger is)) ''INT64'' =
      Decoded (Some (concat (map (\<lambda>i. scalar_bytes 8 (nat (i mod 2 ^ 64))) is))) \<and>
    parseData (JArray [JInteger (2 ^ 53 + 1)]) ''INT64'' = Decoded (Some (scalar_bytes 8 (2 ^ 53)))"
proof
  have "list_all (\<lambda>i. - (2 ^ 63) \<le> i \<and> i < 2 ^ 63 \<and> \<bar>i\<bar> < 2 ^ 53) is"
    using assms by (auto simp: list_all_iff)
  from parse_integers_exact [of T_int64, OF _ this]
  show "parseData (JArray (map JInteger is)) ''INT64'' =
      Decoded (Some (concat (map (\<lambda>i. scalar_bytes 8 (nat (i mod 2 ^ 64))) is)))"
    by (simp add: parseData_def withTensorElementType_def)
next
  have "cast_double T_int64 (double_of_int 9007199254740993) = Some 9007199254740992"
    by (simp add: cast_double_def double_of_int_rounds trunc_def)
  then show "parseData (JArray [JInteger (2 ^ 53 + 1)]) ''INT64'' = Decoded (Some (scalar_bytes 8 (2 ^ 53)))"
    by (simp add: parseData_def withTensorElementType_def)
qed

theorem integer_data_through_double_witness:
  "parseData (JArray [JInteger (-1)]) ''INT64'' = Decoded (Some (scalar_bytes 8 (2 ^ 64 - 1)))"
  using integer_data_through_double [of "[-1]"] by simp

end
