(* ===== verification/Admin_Codec.thy ===== *)
theory Admin_Codec
  imports Json Backends
begin

text \<open>
  \<open>AdminCodec.cpp\<close>: the bodies of the load, reload and switch-version requests, read over a configuration
  of defaults. The parser and the printer of the JSON library are the arguments \<open>parse\<close> and \<open>dump\<close>.
\<close>

section \<open>Fields\<close>

text \<open>What a reader finds: nothing, a value of the right type, or \<open>*type_error\<close>.\<close>

datatype 'a Field = Absent | Given 'a | BadType

definition read_field :: "(Json \<Rightarrow> bool) \<Rightarrow> (Json \<Rightarrow> 'a) \<Rightarrow> Json \<Rightarrow> string \<Rightarrow> 'a Field" where
  "read_field right_type get j key =
     (if \<not> contains j key then Absent else if \<not> right_type (at_key j key) then BadType else Given (get (at_key j key)))"

definition readString :: "Json \<Rightarrow> string \<Rightarrow> string Field" where
  "readString = read_field is_string text_of"

definition readSizeT :: "Json \<Rightarrow> string \<Rightarrow> size_t Field" where
  "readSizeT = read_field is_number_unsigned get_size_t"

definition readInt64 :: "Json \<Rightarrow> string \<Rightarrow> int64_t Field" where
  "readInt64 = read_field is_number_integer get_int64"

definition readBool :: "Json \<Rightarrow> string \<Rightarrow> bool Field" where
  "readBool = read_field is_boolean get_bool"

definition readInputSizes :: "Json \<Rightarrow> int64_t list list Field" where
  "readInputSizes j =
     read_field (\<lambda>v. is_array v \<and> list_all (\<lambda>shape. is_array shape \<and> list_all is_number_integer (elements shape)) (elements v))
       (\<lambda>v. map (\<lambda>shape. map get_int64 (elements shape)) (elements v)) j ''input_sizes''"

definition kMaxInstances :: size_t where
  "kMaxInstances = 64"

text \<open>One field of the body: kept when absent, an error when of the wrong type or refused by the check.\<close>

definition apply_field ::
  "'a Field \<Rightarrow> string \<Rightarrow> ('a \<Rightarrow> string option) \<Rightarrow> ('a \<Rightarrow> RuntimeConfig \<Rightarrow> RuntimeConfig) \<Rightarrow> RuntimeConfig \<Rightarrow>
     string + RuntimeConfig" where
  "apply_field field type_error check store c =
     (case field of
        Absent \<Rightarrow> Inr c
      | BadType \<Rightarrow> Inl type_error
      | Given v \<Rightarrow> (case check v of Some e \<Rightarrow> Inl e | None \<Rightarrow> Inr (store v c)))"

definition must_be :: "string \<Rightarrow> string \<Rightarrow> string" where
  "must_be key what = key @ '' must be '' @ what"

definition string_field ::
  "Json \<Rightarrow> string \<Rightarrow> (string \<Rightarrow> RuntimeConfig \<Rightarrow> RuntimeConfig) \<Rightarrow> RuntimeConfig \<Rightarrow> string + RuntimeConfig" where
  "string_field j key = apply_field (readString j key) (must_be key ''a string'') (\<lambda>_. None)"

text \<open>
  \<open>applyCommonFields\<close>, in three parts: the fields before the pipeline graph, the graph itself (which is
  printed again when it is not a string), and the fields and checks after it.
\<close>

definition fields_before_graph :: "Json \<Rightarrow> RuntimeConfig \<Rightarrow> string + RuntimeConfig" where
  "fields_before_graph j c =
     and_then (apply_field (readString j ''backend'') (must_be ''backend'' ''a string'')
                 (\<lambda>v. if v = [] then Some ''backend must not be empty'' else None) (\<lambda>v. rc_backend_update (\<lambda>_. v)) c) (\<lambda>c.
     and_then (string_field j ''plugin_dir'' (\<lambda>v. rc_plugin_dir_update (\<lambda>_. v)) c) (\<lambda>c.
     and_then (apply_field (readInputSizes j) ''input_sizes must be an array of arrays of integers'' (\<lambda>_. None)
                 (\<lambda>v. rc_input_sizes_update (\<lambda>_. v)) c) (\<lambda>c.
     string_field j ''model_path'' (\<lambda>v. rc_model_path_update (\<lambda>_. v)) c)))"

definition graph_field :: "(Json \<Rightarrow> string + string) \<Rightarrow> Json \<Rightarrow> RuntimeConfig \<Rightarrow> RuntimeConfig Call" where
  "graph_field dump j c =
     (if \<not> contains j ''pipeline_graph'' then Returns c
      else let v = at_key j ''pipeline_graph''
           in if is_string v then Returns (c\<lparr>rc_pipeline_graph := text_of v\<rparr>)
              else case dump v of Inl what \<Rightarrow> Throws what | Inr t \<Rightarrow> Returns (c\<lparr>rc_pipeline_graph := t\<rparr>))"

definition size_field ::
  "Json \<Rightarrow> string \<Rightarrow> (size_t \<Rightarrow> string option) \<Rightarrow> (size_t \<Rightarrow> RuntimeConfig \<Rightarrow> RuntimeConfig) \<Rightarrow> RuntimeConfig \<Rightarrow>
     string + RuntimeConfig" where
  "size_field j key = apply_field (readSizeT j key) (must_be key ''a non-negative integer'')"

definition int_field ::
  "Json \<Rightarrow> string \<Rightarrow> (int64_t \<Rightarrow> string option) \<Rightarrow> (int64_t \<Rightarrow> RuntimeConfig \<Rightarrow> RuntimeConfig) \<Rightarrow> RuntimeConfig \<Rightarrow>
     string + RuntimeConfig" where
  "int_field j key = apply_field (readInt64 j key) (must_be key ''an integer'')"

definition bool_field ::
  "Json \<Rightarrow> string \<Rightarrow> (bool \<Rightarrow> RuntimeConfig \<Rightarrow> RuntimeConfig) \<Rightarrow> RuntimeConfig \<Rightarrow> string + RuntimeConfig" where
  "bool_field j key = apply_field (readBool j key) (must_be key ''a boolean'') (\<lambda>_. None)"

text \<open>An ensemble does not inherit batching from the defaults; only its own fields can ask for it.\<close>

definition ensemble_defaults :: "Json \<Rightarrow> RuntimeConfig \<Rightarrow> RuntimeConfig" where
  "ensemble_defaults j c =
     (if rc_backend c = pipelineBackendId \<and> \<not> contains j ''dynamic_batching_enabled'' \<and> \<not> contains j ''max_batch_size''
      then c\<lparr>rc_dynamic_batching_enabled := False, rc_max_batch_size := 1\<rparr> else c)"

definition batching_check :: "RuntimeConfig \<Rightarrow> string + RuntimeConfig" where
  "batching_check c =
     (if rc_dynamic_batching_enabled c \<and> rc_max_batch_size c < 2
      then Inl ''max_batch_size must be at least 2 when dynamic_batching_enabled is true'' else Inr c)"

definition fields_after_graph :: "Json \<Rightarrow> RuntimeConfig \<Rightarrow> string + RuntimeConfig" where
  "fields_after_graph j c =
     and_then (string_field j ''storage_uri'' (\<lambda>v. rc_storage_uri_update (\<lambda>_. v)) c) (\<lambda>c.
     and_then (string_field j ''scheduler_strategy'' (\<lambda>v. rc_scheduler_strategy_update (\<lambda>_. v)) c) (\<lambda>c.
     and_then (size_field j ''instances''
                 (\<lambda>n. if n < 1 \<or> n > kMaxInstances then Some (''instances must be between 1 and '' @ to_string kMaxInstances)
                      else None) (\<lambda>v. rc_instances_update (\<lambda>_. v)) c) (\<lambda>c.
     and_then (size_field j ''max_queue_size'' (\<lambda>n. if n < 1 then Some ''max_queue_size must be >= 1'' else None)
                 (\<lambda>v. rc_max_queue_size_update (\<lambda>_. v)) c) (\<lambda>c.
     and_then (int_field j ''request_timeout_ms'' (\<lambda>n. if n \<le> 0 then Some ''request_timeout_ms must be greater than 0'' else None)
                 (\<lambda>v. rc_request_timeout_ms_update (\<lambda>_. v)) c) (\<lambda>c.
     and_then (bool_field j ''use_gpu'' (\<lambda>v. rc_use_gpu_update (\<lambda>_. v)) c) (\<lambda>c.
     and_then (bool_field j ''dynamic_batching_enabled'' (\<lambda>v. rc_dynamic_batching_enabled_update (\<lambda>_. v)) c) (\<lambda>c.
     and_then (size_field j ''max_batch_size'' (\<lambda>n. if n < 1 then Some ''max_batch_size must be >= 1'' else None)
                 (\<lambda>v. rc_max_batch_size_update (\<lambda>_. v)) c) (\<lambda>c.
     and_then (int_field j ''max_queue_delay_us''
                 (\<lambda>n. if n < 0 then Some ''max_queue_delay_us must be greater than or equal to 0'' else None)
                 (\<lambda>v. rc_max_queue_delay_us_update (\<lambda>_. v)) (ensemble_defaults j c)) batching_check))))))))"

definition applyCommonFields :: "(Json \<Rightarrow> string + string) \<Rightarrow> Json \<Rightarrow> RuntimeConfig \<Rightarrow> (string + RuntimeConfig) Call" where
  "applyCommonFields dump j c =
     (case fields_before_graph j c of
        Inl e \<Rightarrow> Returns (Inl e)
      | Inr c1 \<Rightarrow>
          (case graph_field dump j c1 of
             Returns c2 \<Rightarrow> Returns (fields_after_graph j c2)
           | Throws what \<Rightarrow> Throws what
           | ThrowsOther \<Rightarrow> ThrowsOther))"

section \<open>Requests\<close>

record AdminParseResult =
  ap_ok :: bool
  ap_error_message :: string
  ap_config :: RuntimeConfig
  ap_model_name :: string
  ap_version :: string
  ap_backend_provided :: bool

definition makeError :: "string \<Rightarrow> AdminParseResult" where
  "makeError message = \<lparr>ap_ok = False, ap_error_message = message, ap_config = default_config, ap_model_name = [],
     ap_version = [], ap_backend_provided = False\<rparr>"

text \<open>The common end of the three parsers, on the configuration read so far.\<close>

definition finish_admin ::
  "(Json \<Rightarrow> string + string) \<Rightarrow> Json \<Rightarrow> RuntimeConfig \<Rightarrow> (RuntimeConfig \<Rightarrow> AdminParseResult) \<Rightarrow> AdminParseResult Call" where
  "finish_admin dump j c result =
     (case applyCommonFields dump j c of
        Returns (Inl e) \<Rightarrow> Returns (makeError e)
      | Returns (Inr c') \<Rightarrow> Returns (result c')
      | Throws what \<Rightarrow> Throws what
      | ThrowsOther \<Rightarrow> ThrowsOther)"

text \<open>\<open>Json::parse\<close> with every exception of the library turned into an error.\<close>

definition parse_admin :: "(string \<Rightarrow> JsonText) \<Rightarrow> string \<Rightarrow> string + Json" where
  "parse_admin parse body =
     (case parse body of
        JsonValue j \<Rightarrow> Inr j
      | JsonParseError what \<Rightarrow> Inl (''invalid JSON: '' @ what)
      | JsonOutOfRange what \<Rightarrow> Inl (''invalid JSON: '' @ what))"

definition accepted :: "Json \<Rightarrow> RuntimeConfig \<Rightarrow> string \<Rightarrow> string \<Rightarrow> AdminParseResult" where
  "accepted j c model_name version = \<lparr>ap_ok = True, ap_error_message = [], ap_config = c, ap_model_name = model_name,
     ap_version = version, ap_backend_provided = contains j ''backend''\<rparr>"

definition parseLoadModelRequest ::
  "(string \<Rightarrow> JsonText) \<Rightarrow> (Json \<Rightarrow> string + string) \<Rightarrow> string \<Rightarrow> RuntimeConfig \<Rightarrow> AdminParseResult Call" where
  "parseLoadModelRequest parse dump body defaults =
     (case parse_admin parse body of
        Inl e \<Rightarrow> Returns (makeError e)
      | Inr j \<Rightarrow>
          (case readString j ''model_name'' of
             Absent \<Rightarrow> Returns (makeError ''model_name is required'')
           | BadType \<Rightarrow> Returns (makeError (must_be ''model_name'' ''a string''))
           | Given name \<Rightarrow>
               if name = [] then Returns (makeError ''model_name is required'')
               else
                 (case string_field j ''model_version'' (\<lambda>v. rc_model_version_update (\<lambda>_. v)) (defaults\<lparr>rc_model_name := name\<rparr>) of
                    Inl e \<Rightarrow> Returns (makeError e)
                  | Inr c \<Rightarrow> finish_admin dump j c (\<lambda>c. accepted j c (rc_model_name c) []))))"

definition parseReloadModelRequest ::
  "(string \<Rightarrow> JsonText) \<Rightarrow> (Json \<Rightarrow> string + string) \<Rightarrow> string \<Rightarrow> RuntimeConfig \<Rightarrow> AdminParseResult Call" where
  "parseReloadModelRequest parse dump body defaults =
     (if body = [] then Returns (accepted JNull defaults [] [])
      else case parse_admin parse body of
             Inl e \<Rightarrow> Returns (makeError e)
           | Inr j \<Rightarrow> finish_admin dump j defaults (\<lambda>c. accepted j c [] []))"

definition parseSwitchVersionRequest ::
  "(string \<Rightarrow> JsonText) \<Rightarrow> (Json \<Rightarrow> string + string) \<Rightarrow> string \<Rightarrow> RuntimeConfig \<Rightarrow> AdminParseResult Call" where
  "parseSwitchVersionRequest parse dump body defaults =
     (case parse_admin parse body of
        Inl e \<Rightarrow> Returns (makeError e)
      | Inr j \<Rightarrow>
          (case readString j ''version'' of
             Absent \<Rightarrow> Returns (makeError ''version is required'')
           | BadType \<Rightarrow> Returns (makeError (must_be ''version'' ''a string''))
           | Given version \<Rightarrow>
               if version = [] then Returns (makeError ''version is required'')
               else finish_admin dump j defaults (\<lambda>c. accepted j (c\<lparr>rc_model_version := version\<rparr>) [] version)))"

section \<open>Lemmas\<close>

text \<open>
  The ranges the server relies on, and what else a configuration read over the defaults \<open>d\<close> keeps: the bound on
  its instances and the fields no body has.
\<close>

definition admin_ranges :: "RuntimeConfig \<Rightarrow> bool" where
  "admin_ranges c \<longleftrightarrow> rc_model_name c \<noteq> [] \<and> 0 < rc_instances c \<and> 0 < rc_max_queue_size c \<and>
     0 < rc_request_timeout_ms c \<and> 0 < rc_max_batch_size c \<and> 0 \<le> rc_max_queue_delay_us c \<and>
     (rc_dynamic_batching_enabled c \<longrightarrow> 2 \<le> rc_max_batch_size c)"

definition fixed_fields :: "RuntimeConfig \<Rightarrow>
  (string \<times> int \<times> int \<times> size_t \<times> string \<times> string) \<times> (size_t list \<times> bool \<times> string) \<times>
  (size_t \<times> size_t \<times> size_t \<times> double \<times> double \<times> double \<times> size_t \<times> bool \<times> size_t)" where
  "fixed_fields c = ((rc_host c, rc_port c, rc_grpc_port c, rc_max_request_bytes c, rc_model_repository c, rc_model_control_mode c),
     (rc_preferred_batch_sizes c, rc_log_payloads c, rc_deployment c),
     (rc_context_length c, rc_kv_cache_slots c, rc_max_tokens c, rc_tokens_per_char c, rc_temperature c, rc_top_p c, rc_top_k c,
      rc_streaming_enabled c, rc_memory_budget_bytes c))"

definition admin_valid :: "RuntimeConfig \<Rightarrow> RuntimeConfig \<Rightarrow> bool" where
  "admin_valid d c \<longleftrightarrow> admin_ranges c \<and> rc_instances c \<le> max kMaxInstances (rc_instances d) \<and>
     fixed_fields c = fixed_fields d"

lemma apply_field_Inr:
  assumes "apply_field field e check store c = Inr c'" "P c" "\<And>v. check v = None \<Longrightarrow> P (store v c)"
  shows "P c'"
  using assms by (auto simp: apply_field_def split: Field.splits option.splits)

text \<open>The fields without a check change nothing that matters to the ranges.\<close>

lemma admin_valid_updates [simp]:
  "admin_valid d (c\<lparr>rc_backend := s\<rparr>) = admin_valid d c" "admin_valid d (c\<lparr>rc_plugin_dir := s\<rparr>) = admin_valid d c"
  "admin_valid d (c\<lparr>rc_input_sizes := n\<rparr>) = admin_valid d c" "admin_valid d (c\<lparr>rc_model_path := s\<rparr>) = admin_valid d c"
  "admin_valid d (c\<lparr>rc_pipeline_graph := s\<rparr>) = admin_valid d c" "admin_valid d (c\<lparr>rc_storage_uri := s\<rparr>) = admin_valid d c"
  "admin_valid d (c\<lparr>rc_scheduler_strategy := s\<rparr>) = admin_valid d c" "admin_valid d (c\<lparr>rc_use_gpu := g\<rparr>) = admin_valid d c"
  "admin_valid d (c\<lparr>rc_model_version := s\<rparr>) = admin_valid d c"
  by (simp_all add: admin_valid_def admin_ranges_def fixed_fields_def)

text \<open>\<open>batching_ok\<close> is the one relation between two fields; it is checked last.\<close>

definition ranges_ok :: "RuntimeConfig \<Rightarrow> RuntimeConfig \<Rightarrow> bool" where
  "ranges_ok d c \<longleftrightarrow> admin_valid d (c\<lparr>rc_dynamic_batching_enabled := False\<rparr>)"

lemma ranges_ok_updates [simp]:
  "ranges_ok d (c\<lparr>rc_storage_uri := s\<rparr>) = ranges_ok d c" "ranges_ok d (c\<lparr>rc_scheduler_strategy := s\<rparr>) = ranges_ok d c"
  "ranges_ok d (c\<lparr>rc_use_gpu := g\<rparr>) = ranges_ok d c" "ranges_ok d (c\<lparr>rc_dynamic_batching_enabled := g\<rparr>) = ranges_ok d c"
  by (simp_all add: ranges_ok_def admin_valid_def admin_ranges_def fixed_fields_def)

lemma ranges_ok_checked:
  "ranges_ok d c \<Longrightarrow> 1 \<le> n \<Longrightarrow> n \<le> kMaxInstances \<Longrightarrow> ranges_ok d (c\<lparr>rc_instances := n\<rparr>)"
  "ranges_ok d c \<Longrightarrow> 1 \<le> n \<Longrightarrow> ranges_ok d (c\<lparr>rc_max_queue_size := n\<rparr>)"
  "ranges_ok d c \<Longrightarrow> 1 \<le> n \<Longrightarrow> ranges_ok d (c\<lparr>rc_max_batch_size := n\<rparr>)"
  "ranges_ok d c \<Longrightarrow> 0 < i \<Longrightarrow> ranges_ok d (c\<lparr>rc_request_timeout_ms := i\<rparr>)"
  "ranges_ok d c \<Longrightarrow> 0 \<le> i \<Longrightarrow> ranges_ok d (c\<lparr>rc_max_queue_delay_us := i\<rparr>)"
  by (simp_all add: ranges_ok_def admin_valid_def admin_ranges_def fixed_fields_def)

lemma ranges_ok_ensemble: "ranges_ok d c \<Longrightarrow> ranges_ok d (ensemble_defaults j c)"
  using ranges_ok_checked(3) [of d c 1] by (simp add: ensemble_defaults_def ranges_ok_def)

lemma admin_valid_ranges: "admin_valid d c \<Longrightarrow> ranges_ok d c"
  by (simp add: ranges_ok_def admin_valid_def admin_ranges_def fixed_fields_def)

lemma batching_check_valid: "ranges_ok d c \<Longrightarrow> batching_check c = Inr c' \<Longrightarrow> admin_valid d c'"
  by (auto simp: batching_check_def ranges_ok_def admin_valid_def admin_ranges_def fixed_fields_def split: if_splits)

lemmas field_defs = string_field_def size_field_def int_field_def bool_field_def

lemma fields_before_graph_valid: "fields_before_graph j c = Inr c' \<Longrightarrow> admin_valid d c \<Longrightarrow> admin_valid d c'"
  unfolding fields_before_graph_def and_then_Inr field_defs
  by (elim exE conjE) (erule apply_field_Inr, simp_all)+

lemma apply_field_ranges:
  assumes "apply_field field e check store c = Inr c'" "ranges_ok d c"
    and "\<And>v. check v = None \<Longrightarrow> ranges_ok d c \<Longrightarrow> ranges_ok d (store v c)"
  shows "ranges_ok d c'"
  using assms(1) by (rule apply_field_Inr) (use assms(2,3) in auto)

lemma fields_after_graph_valid:
  assumes "fields_after_graph j c = Inr c'" "ranges_ok d c"
  shows "admin_valid d c'"
proof -
  from assms(1) obtain c1 c2 c3 c4 c5 c6 c7 c8 c9 where
    "string_field j ''storage_uri'' (\<lambda>v. rc_storage_uri_update (\<lambda>_. v)) c = Inr c1"
    and s2: "string_field j ''scheduler_strategy'' (\<lambda>v. rc_scheduler_strategy_update (\<lambda>_. v)) c1 = Inr c2"
    and s3: "size_field j ''instances'' (\<lambda>n. if n < 1 \<or> n > kMaxInstances
        then Some (''instances must be between 1 and '' @ to_string kMaxInstances) else None)
        (\<lambda>v. rc_instances_update (\<lambda>_. v)) c2 = Inr c3"
    and s4: "size_field j ''max_queue_size'' (\<lambda>n. if n < 1 then Some ''max_queue_size must be >= 1'' else None)
        (\<lambda>v. rc_max_queue_size_update (\<lambda>_. v)) c3 = Inr c4"
    and s5: "int_field j ''request_timeout_ms'' (\<lambda>n. if n \<le> 0 then Some ''request_timeout_ms must be greater than 0'' else None)
        (\<lambda>v. rc_request_timeout_ms_update (\<lambda>_. v)) c4 = Inr c5"
    and s6: "bool_field j ''use_gpu'' (\<lambda>v. rc_use_gpu_update (\<lambda>_. v)) c5 = Inr c6"
    and s7: "bool_field j ''dynamic_batching_enabled'' (\<lambda>v. rc_dynamic_batching_enabled_update (\<lambda>_. v)) c6 = Inr c7"
    and s8: "size_field j ''max_batch_size'' (\<lambda>n. if n < 1 then Some ''max_batch_size must be >= 1'' else None)
        (\<lambda>v. rc_max_batch_size_update (\<lambda>_. v)) c7 = Inr c8"
    and s9: "int_field j ''max_queue_delay_us''
        (\<lambda>n. if n < 0 then Some ''max_queue_delay_us must be greater than or equal to 0'' else None)
        (\<lambda>v. rc_max_queue_delay_us_update (\<lambda>_. v)) (ensemble_defaults j c8) = Inr c9"
    and "batching_check c9 = Inr c'"
    unfolding fields_after_graph_def and_then_Inr by blast
  note s1 = this(1) and last = this(10)
  note step = apply_field_ranges
  have "ranges_ok d c1" using s1 [unfolded field_defs] assms(2) by (rule step) simp
  with s2 [unfolded field_defs] have "ranges_ok d c2" by (rule step) simp
  with s3 [unfolded field_defs] have "ranges_ok d c3" by (rule step) (simp add: ranges_ok_checked split: if_splits)
  with s4 [unfolded field_defs] have "ranges_ok d c4" by (rule step) (simp add: ranges_ok_checked split: if_splits)
  with s5 [unfolded field_defs] have "ranges_ok d c5" by (rule step) (simp add: ranges_ok_checked split: if_splits)
  with s6 [unfolded field_defs] have "ranges_ok d c6" by (rule step) simp
  with s7 [unfolded field_defs] have "ranges_ok d c7" by (rule step) simp
  with s8 [unfolded field_defs] have "ranges_ok d c8" by (rule step) (simp add: ranges_ok_checked split: if_splits)
  then have "ranges_ok d (ensemble_defaults j c8)" by (rule ranges_ok_ensemble)
  with s9 [unfolded field_defs] have "ranges_ok d c9" by (rule step) (simp add: ranges_ok_checked split: if_splits)
  with last show ?thesis by (rule batching_check_valid [rotated])
qed

lemma applyCommonFields_valid:
  assumes "applyCommonFields dump j c = Returns (Inr c')" "admin_valid d c"
  shows "admin_valid d c'"
proof -
  from assms(1) obtain c1 c2 where "fields_before_graph j c = Inr c1" and g: "graph_field dump j c1 = Returns c2"
    and after: "fields_after_graph j c2 = Inr c'"
    by (auto simp: applyCommonFields_def split: sum.splits Call.splits)
  with assms(2) have "admin_valid d c1" by (blast intro: fields_before_graph_valid)
  with g have "admin_valid d c2" by (auto simp: graph_field_def Let_def split: if_splits sum.splits)
  with after show ?thesis by (blast intro: fields_after_graph_valid admin_valid_ranges)
qed

lemma finish_admin_valid:
  assumes "finish_admin dump j c result = Returns r" "ap_ok r" "admin_valid d c"
    and "\<And>c'. admin_valid d c' \<Longrightarrow> admin_valid d (ap_config (result c'))"
  shows "admin_valid d (ap_config r)"
  using assms applyCommonFields_valid
  by (auto simp: finish_admin_def makeError_def split: Call.splits sum.splits)


text \<open>A load body that asks for two instances and an unknown scheduler strategy.\<close>

definition load_body :: Json where
  "load_body = JObject [(''instances'', JUnsigned 2), (''model_name'', JString ''m''), (''scheduler_strategy'', JString ''llmm'')]"

definition loaded_body_config :: RuntimeConfig where
  "loaded_body_config = default_config\<lparr>rc_model_name := ''m'', rc_scheduler_strategy := ''llmm'', rc_instances := 2\<rparr>"

lemma load_body_parsed:
  "parseLoadModelRequest (\<lambda>_. JsonValue load_body) (\<lambda>_. Inl []) ''{..}'' default_config =
     Returns (accepted load_body loaded_body_config ''m'' [])"
  by (simp add: parseLoadModelRequest_def parse_admin_def load_body_def readString_def read_field_def at_key_def
      string_field_def apply_field_def finish_admin_def applyCommonFields_def fields_before_graph_def and_then_def
      readInputSizes_def graph_field_def fields_after_graph_def size_field_def int_field_def bool_field_def
      readSizeT_def readInt64_def readBool_def kMaxInstances_def size_limit_def ensemble_defaults_def
      batching_check_def pipelineBackendId_def loaded_body_config_def default_config_def)

lemma config_valid_ranges: "config_valid c \<Longrightarrow> admin_ranges c"
  by (simp add: config_valid_def admin_ranges_def)


text \<open>
  The strategy of a load body is not checked: \<open>llmm\<close> is accepted, although the command line refuses it.
\<close>

lemma admin_accepts_unknown_strategy:
  "\<exists>r. parseLoadModelRequest (\<lambda>_. JsonValue load_body) (\<lambda>_. Inl []) ''{..}'' default_config = Returns r \<and> ap_ok r \<and>
     \<not> config_valid (ap_config r)"
  by (simp add: load_body_parsed accepted_def config_valid_def loaded_body_config_def)

end
