(* ===== verification/Model_Repository.thy ===== *)
theory Model_Repository
  imports Backends
begin

text \<open>
  \<open>ModelRepository.cpp\<close>: discovery of the models of a repository tree and the resolution of one version of
  a model. The file system is an argument: which paths are directories, and the entries of a directory
  (in no particular order, each with whether it is a directory). The environment variable with the backend
  priority is an argument too.
\<close>

section \<open>Files and directories\<close>

record FileSystem =
  fs_is_directory :: "string \<Rightarrow> bool"
  fs_entries :: "string \<Rightarrow> (string \<times> bool) list"

text \<open>\<open>operator/\<close> of \<open>std::filesystem::path\<close>, for a relative second operand.\<close>

definition path_join :: "string \<Rightarrow> string \<Rightarrow> string" where
  "path_join dir name = (if dir = [] \<or> last dir = CHR ''/'' then dir @ name else dir @ ''/'' @ name)"

definition isNumericVersion :: "string \<Rightarrow> bool" where
  "isNumericVersion name \<longleftrightarrow> name \<noteq> [] \<and> list_all is_digit name"

definition canonicalVersion :: "string \<Rightarrow> string" where
  "canonicalVersion raw = (case dropWhile (\<lambda>c. c = CHR ''0'') raw of [] \<Rightarrow> ''0'' | ds \<Rightarrow> ds)"

definition extensionBackends :: "(string \<times> string) list" where
  "extensionBackends =
     [(''.plan'', ''tensorrt''), (''.engine'', ''tensorrt''), (''.onnx'', ''onnx_runtime''),
      (''.torchscript'', ''libtorch''), (''.pt'', ''libtorch''), (''.tflite'', ''litert''),
      (''.pb'', ''libtensorflow''), (''.xml'', ''openvino''), (''.pte'', ''executorch''), (''.dali'', ''dali''),
      (''.json'', pipelineBackendId)]"

definition kDefaultBackendPriority :: string where
  "kDefaultBackendPriority = ''tensorrt,onnx_runtime,openvino,executorch,litert,libtorch,libtensorflow,dali,ensemble''"

fun split_priority :: "string \<Rightarrow> string \<Rightarrow> string list" where
  "split_priority current [] = (if current = [] then [] else [current])"
| "split_priority current (c # cs) =
     (if c \<in> {CHR '','', CHR '';'', CHR '' ''}
      then (if current = [] then split_priority [] cs else current # split_priority [] cs)
      else split_priority (current @ [c]) cs)"

definition backendPriority :: "string option \<Rightarrow> string list" where
  "backendPriority override_value =
     split_priority [] (case override_value of Some v \<Rightarrow> if v \<noteq> [] then v else kDefaultBackendPriority
                        | None \<Rightarrow> kDefaultBackendPriority)"

definition backendRank :: "string list \<Rightarrow> string \<Rightarrow> size_t" where
  "backendRank order backend = length (takeWhile (\<lambda>b. b \<noteq> backend) order)"

definition sortedEntries :: "FileSystem \<Rightarrow> string \<Rightarrow> bool \<Rightarrow> string list" where
  "sortedEntries fs dir directories = sort (map fst (filter (\<lambda>(name, is_dir). is_dir = directories) (fs_entries fs dir)))"

definition isHigherVersion :: "string \<Rightarrow> string \<Rightarrow> bool" where
  "isHigherVersion candidate current =
     (let lhs = canonicalVersion candidate; rhs = canonicalVersion current
      in if length lhs \<noteq> length rhs then length lhs > length rhs else lhs > rhs)"

text \<open>\<open>path::extension\<close>: from the last dot of the file name, unless that is its first character.\<close>

definition extension :: "string \<Rightarrow> string" where
  "extension path =
     (let name = rev (takeWhile (\<lambda>c. c \<noteq> CHR ''/'') (rev path));
          tail = rev (takeWhile (\<lambda>c. c \<noteq> CHR ''.'') (rev name))
      in if name = ''.'' \<or> name = ''..'' \<or> length tail + 1 \<ge> length name then [] else ''.'' @ tail)"

definition tolower :: "char \<Rightarrow> char" where
  "tolower c = (if 65 \<le> (of_char c :: nat) \<and> (of_char c :: nat) \<le> 90 then char_of (of_char c + 32 :: nat) else c)"

definition backendForModelFile :: "string \<Rightarrow> string" where
  "backendForModelFile path = (case map_of extensionBackends (map tolower (extension path)) of Some b \<Rightarrow> b | None \<Rightarrow> [])"

text \<open>The loop over the files of a version directory; \<open>best\<close> is the file and backend chosen so far.\<close>

fun pick_loop :: "string list \<Rightarrow> string \<Rightarrow> (string \<times> string) option \<Rightarrow> string list \<Rightarrow> (string \<times> string) option" where
  "pick_loop order dir best [] = best"
| "pick_loop order dir best (file # files) =
     (let candidate = backendForModelFile file in
      if candidate = [] then pick_loop order dir best files
      else case best of
             None \<Rightarrow> pick_loop order dir (Some (path_join dir file, candidate)) files
           | Some (_, backend) \<Rightarrow>
               if backendRank order candidate < backendRank order backend
               then pick_loop order dir (Some (path_join dir file, candidate)) files
               else pick_loop order dir best files)"

definition pickModelFile :: "FileSystem \<Rightarrow> string list \<Rightarrow> string \<Rightarrow> (string \<times> string) option" where
  "pickModelFile fs order version_dir = pick_loop order version_dir None (sortedEntries fs version_dir False)"

section \<open>Versions of a model\<close>

definition version_names :: "FileSystem \<Rightarrow> string \<Rightarrow> string list" where
  "version_names fs model_dir = filter isNumericVersion (sortedEntries fs model_dir True)"

text \<open>The \<open>std::map\<close> of the raw names by canonical version, each list sorted.\<close>

definition version_groups :: "FileSystem \<Rightarrow> string \<Rightarrow> (string \<times> string list) list" where
  "version_groups fs model_dir =
     map (\<lambda>k. (k, sort (filter (\<lambda>n. canonicalVersion n = k) (version_names fs model_dir))))
       (sort (remdups (map canonicalVersion (version_names fs model_dir))))"

definition duplicate_warning :: "string \<Rightarrow> string \<times> string list \<Rightarrow> string list" where
  "duplicate_warning model_name g =
     (if length (snd g) > 1
      then [''model '' @ model_name @ '': duplicate version directories for version '' @ fst g @ '' ('' @
            concat (map (\<lambda>(i, n). (if i > 0 then '', '' else []) @ n) (enumerate 0 (snd g))) @ ''); using '' @
            hd (snd g)]
      else [])"

definition groupVersionsDescending :: "FileSystem \<Rightarrow> string \<Rightarrow> string \<Rightarrow> (string \<times> string list) list \<times> string list" where
  "groupVersionsDescending fs model_dir model_name =
     (stable_sort (\<lambda>a b. isHigherVersion (fst a) (fst b)) (version_groups fs model_dir),
      map (\<lambda>n. ''model '' @ model_name @ '': skipping non-numeric version directory '' @ path_join model_dir n)
        (filter (\<lambda>n. \<not> isNumericVersion n) (sortedEntries fs model_dir True)) @
      concat (map (duplicate_warning model_name) (version_groups fs model_dir)))"

section \<open>The scan\<close>

text \<open>The first version of the list with a model file, and the warnings for those before it.\<close>

fun choose_version ::
  "FileSystem \<Rightarrow> string list \<Rightarrow> string \<Rightarrow> (string \<times> string list) list \<Rightarrow> (string \<times> string \<times> string) option \<times> string list" where
  "choose_version fs order model_dir [] = (None, [])"
| "choose_version fs order model_dir ((canonical, raw_names) # groups) =
     (let version_dir = path_join model_dir (hd raw_names) in
      case pickModelFile fs order version_dir of
        None \<Rightarrow>
          let (chosen, ws) = choose_version fs order model_dir groups
          in (chosen, (''no recognized model file under '' @ version_dir @ ''; skipping version '' @ canonical) # ws)
      | Some (model_file, backend) \<Rightarrow> (Some (model_file, backend, canonical), []))"

definition discovered_config :: "RuntimeConfig \<Rightarrow> string \<Rightarrow> string \<times> string \<times> string \<Rightarrow> RuntimeConfig" where
  "discovered_config defaults model_name chosen =
     (case chosen of (model_file, backend, version) \<Rightarrow>
        let c = defaults\<lparr>rc_model_name := model_name, rc_model_version := version, rc_model_version_explicit := True,
                  rc_model_path := model_file, rc_backend := backend, rc_pipeline_graph := []\<rparr>
        in if backend = pipelineBackendId then c\<lparr>rc_dynamic_batching_enabled := False, rc_max_batch_size := 1\<rparr> else c)"

definition scan_model ::
  "FileSystem \<Rightarrow> string list \<Rightarrow> string \<Rightarrow> RuntimeConfig \<Rightarrow> string \<Rightarrow> RuntimeConfig list \<times> string list" where
  "scan_model fs order dir defaults model_name =
     (let model_dir = path_join dir model_name;
          (groups, group_warnings) = groupVersionsDescending fs model_dir model_name;
          (chosen, choice_warnings) = choose_version fs order model_dir groups
      in case chosen of
           Some v \<Rightarrow> ([discovered_config defaults model_name v], group_warnings @ choice_warnings)
         | None \<Rightarrow> ([], group_warnings @ choice_warnings @
             (if groups = [] then [''no recognized model file under any version of '' @ model_dir @ ''; skipping''] else [])))"

definition scanModelRepository ::
  "FileSystem \<Rightarrow> string option \<Rightarrow> string \<Rightarrow> RuntimeConfig \<Rightarrow> RuntimeConfig list \<times> string list" where
  "scanModelRepository fs priority dir defaults =
     (if \<not> fs_is_directory fs dir then ([], [''model repository is not a directory: '' @ dir])
      else
        let models = map (scan_model fs (backendPriority priority) dir defaults) (sortedEntries fs dir True);
            configs = concat (map fst models)
        in (configs, concat (map snd models) @
              (if configs = [] then [''model repository contains no servable models: '' @ dir] else [])))"

record ResolvedRepositoryVersion =
  rv_model_path :: string
  rv_backend :: string
  rv_canonical_version :: string

definition resolveRepositoryModelVersion ::
  "FileSystem \<Rightarrow> string option \<Rightarrow> string \<Rightarrow> string \<Rightarrow> string \<Rightarrow> ResolvedRepositoryVersion option" where
  "resolveRepositoryModelVersion fs priority dir model_name version =
     (if \<not> isNumericVersion version then None
      else if model_name = [] \<or> model_name = ''.'' \<or> model_name = ''..'' \<or> CHR ''/'' \<in> set model_name \<or>
        CHR 0x5C \<in> set model_name then None
      else
        let model_dir = path_join dir model_name in
        if \<not> fs_is_directory fs model_dir then None
        else
          case find_first (\<lambda>g. fst g = canonicalVersion version) (fst (groupVersionsDescending fs model_dir model_name)) of
            None \<Rightarrow> None
          | Some (canonical, raw_names) \<Rightarrow>
              map_option (\<lambda>(path, backend). \<lparr>rv_model_path = path, rv_backend = backend, rv_canonical_version = canonical\<rparr>)
                (pickModelFile fs (backendPriority priority) (path_join model_dir (hd raw_names))))"

section \<open>Version numbers\<close>

lemma digits_foldl: "foldl (\<lambda>n c. 10 * n + (of_char c - 48)) k ds = k * 10 ^ length ds + digits_value ds"
proof (induction ds arbitrary: k)
  case Nil
  then show ?case by (simp add: digits_value_def)
next
  case (Cons c cs)
  show ?case
    unfolding digits_value_def foldl_Cons Cons.IH [of "10 * k + (of_char c - 48)"] Cons.IH [of "10 * 0 + (of_char c - 48)"]
    by (simp add: algebra_simps)
qed

lemma digits_value_Cons: "digits_value (c # cs) = (of_char c - 48) * 10 ^ length cs + digits_value cs"
  using digits_foldl [of "of_char c - 48" cs] by (simp add: digits_value_def)

lemma digits_value_Nil [simp]: "digits_value [] = 0"
  by (simp add: digits_value_def)

lemma digits_value_less: "list_all is_digit ds \<Longrightarrow> digits_value ds < 10 ^ length ds"
proof (induction ds)
  case (Cons c cs)
  then have "(of_char c - 48 :: nat) \<le> 9" "digits_value cs < 10 ^ length cs" by (auto simp: is_digit_def)
  then have "(of_char c - 48) * 10 ^ length cs + digits_value cs < 9 * 10 ^ length cs + 10 ^ length cs"
    by (intro add_le_less_mono mult_le_mono1)
  then show ?case by (simp add: digits_value_Cons)
qed simp

lemma digits_value_lead:
  assumes "c \<noteq> CHR ''0''" "is_digit c"
  shows "10 ^ length cs \<le> digits_value (c # cs)"
proof -
  have "(of_char c :: nat) \<noteq> 48" using assms(1) of_char_eq_iff [of c "CHR ''0''", where 'a = nat] by simp
  then have "1 * 10 ^ length cs \<le> (of_char c - 48) * (10 :: nat) ^ length cs"
    using assms(2) unfolding is_digit_def by (intro mult_le_mono1) linarith
  then show ?thesis unfolding digits_value_Cons by linarith
qed

text \<open>Strings of digits of one length compare as their numbers do.\<close>

lemma digits_lex:
  assumes "length xs = length ys" "list_all is_digit xs" "list_all is_digit ys"
  shows "xs < ys \<longleftrightarrow> digits_value xs < digits_value ys"
  using assms
proof (induction xs ys rule: list_induct2)
  case Nil
  then show ?case by simp
next
  case (Cons x xs y ys)
  let ?p = "10 ^ length xs :: nat"
  have small: "digits_value xs < ?p" "digits_value ys < ?p"
    using Cons digits_value_less [of xs] digits_value_less [of ys] by auto
  have digits: "48 \<le> (of_char x :: nat)" "48 \<le> (of_char y :: nat)" using Cons.prems by (auto simp: is_digit_def)
  have less: "(of_char a - 48) * ?p + digits_value u < (of_char b - 48) * ?p + digits_value v"
    if "(of_char a :: nat) < of_char b" "48 \<le> (of_char a :: nat)" "digits_value u < ?p" for a b u v
  proof -
    have "(of_char a - 48) * ?p + digits_value u < (of_char a - 48 + 1) * ?p" using that(3) by (simp add: algebra_simps)
    also have "\<dots> \<le> (of_char b - 48) * ?p" using that(1,2) by (intro mult_le_mono1) simp
    finally show ?thesis by simp
  qed
  consider "(of_char x :: nat) < of_char y" | "(of_char y :: nat) < of_char x" | "x = y"
    using of_char_eq_iff [of x y, where 'a = nat] by linarith
  then show ?case
  proof cases
    case 1
    with less [OF 1 digits(1) small(1)] Cons.hyps show ?thesis by (simp add: digits_value_Cons less_char_def)
  next
    case 2
    with less [OF 2 digits(2) small(2), of xs] Cons.hyps show ?thesis by (auto simp: digits_value_Cons less_char_def)
  next
    case 3
    with Cons show ?thesis by (simp add: digits_value_Cons)
  qed
qed

lemma canonical_value: "digits_value (canonicalVersion s) = digits_value s"
proof -
  have "digits_value (dropWhile (\<lambda>c. c = CHR ''0'') s) = digits_value s"
    by (induction s) (auto simp: digits_value_Cons)
  moreover have "digits_value ''0'' = 0" by (simp add: digits_value_def)
  moreover have "canonicalVersion s = (if dropWhile (\<lambda>c. c = CHR ''0'') s = [] then ''0'' else dropWhile (\<lambda>c. c = CHR ''0'') s)"
    unfolding canonicalVersion_def by (cases "dropWhile (\<lambda>c. c = CHR ''0'') s") (simp_all del: dropWhile_eq_Nil_conv)
  ultimately show ?thesis
    by (cases "dropWhile (\<lambda>c. c = CHR ''0'') s = []") (simp_all del: dropWhile_eq_Nil_conv)
qed

lemma canonical_digits: "list_all is_digit s \<Longrightarrow> list_all is_digit (canonicalVersion s)"
proof -
  assume "list_all is_digit s"
  then have "list_all is_digit (dropWhile (\<lambda>c. c = CHR ''0'') s)" by (induction s) auto
  then show ?thesis by (auto simp: canonicalVersion_def is_digit_def split: list.split)
qed

lemma canonical_lead:
  assumes "list_all is_digit s" "1 < length (canonicalVersion s)"
  shows "10 ^ (length (canonicalVersion s) - 1) \<le> digits_value s"
proof -
  let ?d = "dropWhile (\<lambda>c. c = CHR ''0'') s"
  from assms(2) obtain c cs where d: "?d = c # cs" by (cases ?d) (auto simp: canonicalVersion_def)
  then have "canonicalVersion s = c # cs" by (simp add: canonicalVersion_def)
  moreover have "c \<noteq> CHR ''0''" using d hd_dropWhile [of "\<lambda>c. c = CHR ''0''" s] by simp
  ultimately show ?thesis
    using digits_value_lead [of c cs] canonical_digits [OF assms(1)] canonical_value [of s] by simp
qed

lemma longer_is_larger:
  assumes "list_all is_digit a" "list_all is_digit b" "length (canonicalVersion b) < length (canonicalVersion a)"
  shows "digits_value b < digits_value a"
proof -
  have "canonicalVersion b \<noteq> []" by (auto simp: canonicalVersion_def split: list.split)
  then have len: "1 < length (canonicalVersion a)" using assms(3) by (cases "canonicalVersion b") auto
  have "digits_value b < 10 ^ length (canonicalVersion b)"
    using digits_value_less [OF canonical_digits [OF assms(2)]] by (simp add: canonical_value)
  also have "\<dots> \<le> 10 ^ (length (canonicalVersion a) - 1)" using assms(3) by (intro power_increasing) auto
  also have "\<dots> \<le> digits_value a" using assms(1) len by (rule canonical_lead)
  finally show ?thesis .
qed

lemma isHigherVersion_value:
  assumes "list_all is_digit a" "list_all is_digit b"
  shows "isHigherVersion a b \<longleftrightarrow> digits_value b < digits_value a"
proof (cases "length (canonicalVersion a) = length (canonicalVersion b)")
  case True
  with digits_lex [of "canonicalVersion b" "canonicalVersion a"] canonical_digits assms show ?thesis
    by (simp add: isHigherVersion_def Let_def canonical_value)
next
  case False
  then consider "length (canonicalVersion b) < length (canonicalVersion a)" | "length (canonicalVersion a) < length (canonicalVersion b)"
    by linarith
  then show ?thesis
    by cases (use longer_is_larger [OF assms] longer_is_larger [OF assms(2,1)] in \<open>simp_all add: isHigherVersion_def Let_def\<close>)
qed

text \<open>Canonical forms are equal exactly when the numbers are.\<close>

lemma canonical_eq_iff:
  assumes "list_all is_digit a" "list_all is_digit b"
  shows "canonicalVersion a = canonicalVersion b \<longleftrightarrow> digits_value a = digits_value b"
proof
  assume "digits_value a = digits_value b"
  then have nh: "\<not> isHigherVersion a b" "\<not> isHigherVersion b a" using isHigherVersion_value assms by auto
  then show "canonicalVersion a = canonicalVersion b"
    by (auto simp: isHigherVersion_def Let_def split: if_splits)
qed (metis canonical_value)

text \<open>
  Versions compare as the numbers they spell, whatever their length and their leading zeros: the
  comparison of digit strings decides the order of the numbers, and two names have the same canonical
  form exactly when they spell the same number. No conversion to a machine integer is involved.
\<close>

theorem version_order_is_numeric:
  assumes "isNumericVersion a" "isNumericVersion b"
  shows "(isHigherVersion a b \<longleftrightarrow> digits_value b < digits_value a) \<and>
    (canonicalVersion a = canonicalVersion b \<longleftrightarrow> digits_value a = digits_value b)"
  using assms isHigherVersion_value canonical_eq_iff by (simp add: isNumericVersion_def)

theorem version_order_is_numeric_witness:
  "isHigherVersion ''010'' ''9'' \<longleftrightarrow> digits_value ''9'' < digits_value ''010''"
  using version_order_is_numeric [of "''010''" "''9''"] by (simp add: isNumericVersion_def is_digit_def)

section \<open>What the scan serves\<close>

text \<open>
  The version directories of a model that the server looks into: of the names that spell one number, the
  first in the order of names.
\<close>

definition version_dirs :: "FileSystem \<Rightarrow> string \<Rightarrow> string list" where
  "version_dirs fs model_dir =
     filter (\<lambda>n. n = hd (sort (filter (\<lambda>m. canonicalVersion m = canonicalVersion n) (version_names fs model_dir))))
       (version_names fs model_dir)"

lemma version_names_digits: "n \<in> set (version_names fs d) \<Longrightarrow> list_all is_digit n"
  by (simp add: version_names_def isNumericVersion_def)

lemma canonical_canonical: "list_all is_digit n \<Longrightarrow> canonicalVersion (canonicalVersion n) = canonicalVersion n"
  using canonical_eq_iff [OF canonical_digits] canonical_value by blast

lemma hd_sort_in: "xs \<noteq> [] \<Longrightarrow> hd (sort xs) \<in> set xs"
  by (metis hd_in_set set_empty set_sort)

text \<open>A group: its key is the canonical version of its front directory.\<close>

lemma version_group:
  assumes "(k, raw) \<in> set (version_groups fs d)"
  shows "hd raw \<in> set (version_dirs fs d)" "canonicalVersion (hd raw) = k" "list_all is_digit k" "digits_value k = digits_value (hd raw)"
proof -
  let ?g = "filter (\<lambda>n. canonicalVersion n = k) (version_names fs d)"
  from assms have k: "k \<in> canonicalVersion ` set (version_names fs d)" and raw: "raw = sort ?g"
    by (auto simp: version_groups_def)
  have "?g \<noteq> []" using k by (auto simp: filter_empty_conv)
  then have "hd raw \<in> set ?g" unfolding raw by (rule hd_sort_in)
  then have hd: "hd raw \<in> set (version_names fs d)" "canonicalVersion (hd raw) = k" by auto
  with raw show "hd raw \<in> set (version_dirs fs d)" by (simp add: version_dirs_def)
  show "canonicalVersion (hd raw) = k" by (rule hd(2))
  show "list_all is_digit k" using hd canonical_digits [OF version_names_digits] by metis
  show "digits_value k = digits_value (hd raw)" using hd(2) canonical_value by metis
qed

lemma version_dir_group:
  assumes "n \<in> set (version_dirs fs d)"
  obtains raw where "(canonicalVersion n, raw) \<in> set (version_groups fs d)" "hd raw = n"
proof
  show "(canonicalVersion n, sort (filter (\<lambda>m. canonicalVersion m = canonicalVersion n) (version_names fs d))) \<in> set (version_groups fs d)"
    using assms by (auto simp: version_dirs_def version_groups_def)
  show "hd (sort (filter (\<lambda>m. canonicalVersion m = canonicalVersion n) (version_names fs d))) = n"
    using assms by (auto simp: version_dirs_def)
qed

lemma groups_descending:
  "sorted_wrt (\<lambda>a b. digits_value (fst b) \<le> digits_value (fst a)) (fst (groupVersionsDescending fs d name))"
proof -
  have "stable_sort (\<lambda>a b. isHigherVersion (fst a) (fst b)) gs = stable_sort (\<lambda>a b. digits_value (fst b) < digits_value (fst a)) gs"
    if "\<forall>g \<in> set gs. list_all is_digit (fst g)" for gs :: "(string \<times> string list) list"
  proof -
    have "insert_stable (\<lambda>a b. isHigherVersion (fst a) (fst b)) g hs = insert_stable (\<lambda>a b. digits_value (fst b) < digits_value (fst a)) g hs"
      if "list_all is_digit (fst g)" "\<forall>h \<in> set hs. list_all is_digit (fst h)" for g :: "string \<times> string list" and hs
      using that by (induction hs) (auto simp: isHigherVersion_value)
    with that show ?thesis
      by (induction gs) (simp_all add: stable_sort_def set_stable_sort [unfolded stable_sort_def])
  qed
  with version_group(3) [where fs = fs and d = d] sorted_stable_sort [of "\<lambda>a b. digits_value (fst b) < digits_value (fst a)" "\<lambda>g. digits_value (fst g)"]
  show ?thesis by (fastforce simp: groupVersionsDescending_def)
qed

lemma choose_version_Some:
  assumes "fst (choose_version fs order d groups) = Some (path, backend, v)"
    and "sorted_wrt (\<lambda>a b. digits_value (fst b) \<le> digits_value (fst a)) groups"
  shows "\<exists>raw. (v, raw) \<in> set groups \<and> pickModelFile fs order (path_join d (hd raw)) = Some (path, backend) \<and>
    (\<forall>(k, raw') \<in> set groups. digits_value v < digits_value k \<longrightarrow> pickModelFile fs order (path_join d (hd raw')) = None)"
  using assms
proof (induction groups)
  case (Cons g groups)
  obtain k raw where g: "g = (k, raw)" by force
  show ?case
  proof (cases "pickModelFile fs order (path_join d (hd raw))")
    case None
    with Cons g show ?thesis by (fastforce simp: Let_def split: prod.splits)
  next
    case (Some pb)
    with Cons.prems g show ?thesis by (fastforce simp: Let_def split: prod.splits)
  qed
qed simp

lemma choose_version_None:
  "fst (choose_version fs order d groups) = None \<Longrightarrow> (k, raw) \<in> set groups \<Longrightarrow>
     pickModelFile fs order (path_join d (hd raw)) = None"
  by (induction groups) (auto simp: Let_def split: prod.splits option.splits)

lemma set_groups: "set (fst (groupVersionsDescending fs d name)) = set (version_groups fs d)"
  by (simp add: groupVersionsDescending_def)

lemma distinct_groups: "distinct (map fst (fst (groupVersionsDescending fs d name)))"
proof -
  have "mset (map fst (fst (groupVersionsDescending fs d name))) = mset (map fst (version_groups fs d))"
    by (simp add: groupVersionsDescending_def)
  moreover have "distinct (map fst (version_groups fs d))" by (simp add: version_groups_def comp_def)
  ultimately show ?thesis by (metis mset_eq_imp_distinct_iff)
qed

text \<open>The choice for one model, in terms of its version directories.\<close>

definition serves :: "FileSystem \<Rightarrow> string list \<Rightarrow> string \<Rightarrow> string \<Rightarrow> bool" where
  "serves fs order model_dir n \<longleftrightarrow> pickModelFile fs order (path_join model_dir n) \<noteq> None"

lemma scan_model_choice:
  assumes "fst (choose_version fs order d (fst (groupVersionsDescending fs d name))) = Some (path, backend, v)"
  obtains n where "n \<in> set (version_dirs fs d)" "v = canonicalVersion n"
    "pickModelFile fs order (path_join d n) = Some (path, backend)"
    "\<And>m. m \<in> set (version_dirs fs d) \<Longrightarrow> serves fs order d m \<Longrightarrow> digits_value m \<le> digits_value n"
proof -
  let ?groups = "fst (groupVersionsDescending fs d name)"
  from choose_version_Some [OF assms groups_descending] obtain raw where raw: "(v, raw) \<in> set ?groups"
    and pick: "pickModelFile fs order (path_join d (hd raw)) = Some (path, backend)"
    and high: "\<forall>(k, raw') \<in> set ?groups. digits_value v < digits_value k \<longrightarrow>
        pickModelFile fs order (path_join d (hd raw')) = None"
    by blast
  note g = version_group [OF raw [unfolded set_groups]]
  show thesis
  proof (rule that [OF g(1) g(2) [symmetric] pick])
    fix m assume m: "m \<in> set (version_dirs fs d)" "serves fs order d m"
    from version_dir_group [OF m(1)] obtain raw' where r: "(canonicalVersion m, raw') \<in> set ?groups" "hd raw' = m"
      unfolding set_groups by blast
    show "digits_value m \<le> digits_value (hd raw)"
    proof (rule ccontr)
      assume "\<not> digits_value m \<le> digits_value (hd raw)"
      then have "digits_value v < digits_value (canonicalVersion m)" by (simp add: g(4) canonical_value)
      with bspec [OF high r(1)] r(2) have "pickModelFile fs order (path_join d m) = None" by simp
      with m(2) show False by (simp add: serves_def)
    qed
  qed
qed

lemma discovered_fields [simp]:
  "rc_model_name (discovered_config defaults name (path, backend, v)) = name"
  "rc_model_version (discovered_config defaults name (path, backend, v)) = v"
  "rc_model_path (discovered_config defaults name (path, backend, v)) = path"
  "rc_backend (discovered_config defaults name (path, backend, v)) = backend"
  by (simp_all add: discovered_config_def Let_def)

lemma scan_model_configs:
  "fst (scan_model fs order dir defaults name) =
     (case fst (choose_version fs order (path_join dir name) (fst (groupVersionsDescending fs (path_join dir name) name))) of
        Some v \<Rightarrow> [discovered_config defaults name v] | None \<Rightarrow> [])"
  by (simp add: scan_model_def Let_def split: prod.splits option.splits)

lemma scanned_config:
  assumes "c \<in> set (fst (scanModelRepository fs priority dir defaults))"
  obtains path backend v where "rc_model_name c \<in> set (sortedEntries fs dir True)"
    "c = discovered_config defaults (rc_model_name c) (path, backend, v)"
    "fst (choose_version fs (backendPriority priority) (path_join dir (rc_model_name c))
       (fst (groupVersionsDescending fs (path_join dir (rc_model_name c)) (rc_model_name c)))) = Some (path, backend, v)"
proof -
  from assms obtain name where n: "name \<in> set (sortedEntries fs dir True)"
    "c \<in> set (fst (scan_model fs (backendPriority priority) dir defaults name))"
    by (auto simp: scanModelRepository_def Let_def split: if_splits)
  let ?choice = "fst (choose_version fs (backendPriority priority) (path_join dir name)
       (fst (groupVersionsDescending fs (path_join dir name) name)))"
  from n(2) obtain t where t: "?choice = Some t" "c = discovered_config defaults name t"
    by (cases ?choice) (simp_all add: scan_model_configs)
  obtain path backend v where "t = (path, backend, v)" by (cases t)
  with t n(1) that show thesis by simp
qed

text \<open>
  (C15) The scan serves the highest version that can be served: every configuration it returns names a
  directory of the repository, a version of it that has a recognized model file, with that file and its
  backend, and no version directory with a larger number has one; and no model with a servable version
  is left out, whatever else lies in the repository.
\<close>

theorem scan_serves_highest:
  assumes "fs_is_directory fs dir" "order = backendPriority priority"
    and "configs = fst (scanModelRepository fs priority dir defaults)"
  shows "(\<forall>c \<in> set configs. \<exists>n \<in> set (version_dirs fs (path_join dir (rc_model_name c))).
            rc_model_version c = canonicalVersion n \<and>
            pickModelFile fs order (path_join (path_join dir (rc_model_name c)) n) = Some (rc_model_path c, rc_backend c) \<and>
            (\<forall>m \<in> set (version_dirs fs (path_join dir (rc_model_name c))).
               serves fs order (path_join dir (rc_model_name c)) m \<longrightarrow> digits_value m \<le> digits_value n)) \<and>
         (\<forall>name \<in> set (sortedEntries fs dir True).
            (\<exists>n \<in> set (version_dirs fs (path_join dir name)). serves fs order (path_join dir name) n) \<longrightarrow>
            name \<in> rc_model_name ` set configs)"
proof (intro conjI ballI impI)
  fix c assume "c \<in> set configs"
  then obtain path backend v where c: "c = discovered_config defaults (rc_model_name c) (path, backend, v)"
    and choice: "fst (choose_version fs (backendPriority priority) (path_join dir (rc_model_name c))
       (fst (groupVersionsDescending fs (path_join dir (rc_model_name c)) (rc_model_name c)))) = Some (path, backend, v)"
    unfolding assms(3) by (rule scanned_config)
  from c have f: "rc_model_version c = v" "rc_model_path c = path" "rc_backend c = backend" by (metis discovered_fields)+
  from scan_model_choice [OF choice] obtain n where "n \<in> set (version_dirs fs (path_join dir (rc_model_name c)))"
    "v = canonicalVersion n" "pickModelFile fs (backendPriority priority) (path_join (path_join dir (rc_model_name c)) n) = Some (path, backend)"
    "\<forall>m \<in> set (version_dirs fs (path_join dir (rc_model_name c))).
       serves fs (backendPriority priority) (path_join dir (rc_model_name c)) m \<longrightarrow> digits_value m \<le> digits_value n"
    by metis
  then show "\<exists>n \<in> set (version_dirs fs (path_join dir (rc_model_name c))).
      rc_model_version c = canonicalVersion n \<and>
      pickModelFile fs order (path_join (path_join dir (rc_model_name c)) n) = Some (rc_model_path c, rc_backend c) \<and>
      (\<forall>m \<in> set (version_dirs fs (path_join dir (rc_model_name c))).
         serves fs order (path_join dir (rc_model_name c)) m \<longrightarrow> digits_value m \<le> digits_value n)"
    unfolding f assms(2) by (intro bexI [of _ n]) simp_all
next
  fix name assume name: "name \<in> set (sortedEntries fs dir True)"
    and "\<exists>n \<in> set (version_dirs fs (path_join dir name)). serves fs order (path_join dir name) n"
  then obtain n where n: "n \<in> set (version_dirs fs (path_join dir name))" "serves fs order (path_join dir name) n" by blast
  from version_dir_group [OF n(1)] obtain raw where
    "(canonicalVersion n, raw) \<in> set (fst (groupVersionsDescending fs (path_join dir name) name))" "hd raw = n"
    unfolding set_groups by blast
  with n(2) choose_version_None obtain v where
    "fst (choose_version fs order (path_join dir name) (fst (groupVersionsDescending fs (path_join dir name) name))) = Some v"
    unfolding serves_def by (metis not_None_eq)
  then have "discovered_config defaults name v \<in> set (fst (scan_model fs order dir defaults name))"
    by (simp add: scan_model_configs)
  then have "discovered_config defaults name v \<in> set configs"
    using name assms by (auto simp: scanModelRepository_def Let_def)
  then show "name \<in> rc_model_name ` set configs" by (metis discovered_fields(1) image_eqI prod_cases3)
qed

text \<open>A repository with three versions of one model, the highest of them still empty.\<close>

definition demo_fs :: FileSystem where
  "demo_fs = \<lparr>fs_is_directory = (\<lambda>p. p \<in> {''r'', ''r/m''}),
     fs_entries = (\<lambda>p. if p = ''r'' then [(''m'', True)]
        else if p = ''r/m'' then [(''2'', True), (''10'', True), (''1'', True)]
        else if p = ''r/m/2'' then [(''a.txt'', False), (''a.ONNX'', False)]
        else if p = ''r/m/1'' then [(''a.onnx'', False)] else [])\<rparr>"

definition demo_scanned :: RuntimeConfig where
  "demo_scanned = default_config\<lparr>rc_model_name := ''m'', rc_model_version := ''2'', rc_model_version_explicit := True,
     rc_model_path := ''r/m/2/a.ONNX'', rc_backend := ''onnx_runtime''\<rparr>"

lemma demo_directories: "fs_is_directory demo_fs ''r''" "fs_is_directory demo_fs ''r/m''"
  by (simp_all add: demo_fs_def)

lemma demo_fields: "rc_model_name demo_scanned = ''m''" "rc_model_version demo_scanned = ''2''"
  "rc_model_path demo_scanned = ''r/m/2/a.ONNX''" "rc_backend demo_scanned = ''onnx_runtime''"
  by (simp_all add: demo_scanned_def)

lemma demo_entries:
  "sortedEntries demo_fs ''r'' True = [''m'']" "sortedEntries demo_fs ''r/m'' True = [''1'', ''10'', ''2'']"
  "sortedEntries demo_fs ''r/m/2'' False = [''a.ONNX'', ''a.txt'']" "sortedEntries demo_fs ''r/m/10'' False = []"
  by (simp_all add: sortedEntries_def demo_fs_def less_eq_char_def less_char_def)

lemma demo_versions:
  "version_names demo_fs ''r/m'' = [''1'', ''10'', ''2'']"
  "fst (groupVersionsDescending demo_fs ''r/m'' ''m'') = [(''10'', [''10'']), (''2'', [''2'']), (''1'', [''1''])]"
  by (simp_all add: version_names_def demo_entries isNumericVersion_def is_digit_def groupVersionsDescending_def
      version_groups_def canonicalVersion_def less_eq_char_def less_char_def stable_sort_def isHigherVersion_def)

lemma demo_extensions: "backendForModelFile ''a.ONNX'' = ''onnx_runtime''" "backendForModelFile ''a.txt'' = []"
  by code_simp+

lemma demo_pick:
  "pickModelFile demo_fs order ''r/m/10'' = None"
  "pickModelFile demo_fs order ''r/m/2'' = Some (''r/m/2/a.ONNX'', ''onnx_runtime'')"
  by (simp_all add: pickModelFile_def demo_entries demo_extensions path_join_def)

lemma demo_scan: "fst (scanModelRepository demo_fs priority ''r'' default_config) = [demo_scanned]"
  by (simp add: scanModelRepository_def demo_entries scan_model_configs path_join_def demo_versions demo_pick
      discovered_config_def demo_scanned_def default_config_def demo_directories pipelineBackendId_def)

theorem scan_serves_highest_witness:
  "\<exists>n \<in> set (version_dirs demo_fs ''r/m''). rc_model_version demo_scanned = canonicalVersion n"
proof -
  have j: "path_join ''r'' (rc_model_name demo_scanned) = ''r/m''" by (simp add: path_join_def demo_scanned_def)
  have "demo_scanned \<in> set (fst (scanModelRepository demo_fs None ''r'' default_config))"
    by (simp add: demo_scan)
  with scan_serves_highest [OF demo_directories(1) refl refl, of None default_config, THEN conjunct1] j
  show ?thesis by fastforce
qed

section \<open>Resolving a version\<close>

lemma find_group:
  assumes "(k, raw) \<in> set groups" "distinct (map fst groups)"
  shows "find_first (\<lambda>g. fst g = k) groups = Some (k, raw)"
  using assms by (induction groups) (auto simp: rev_image_eqI)

text \<open>
  Activating the version a scan reported finds the same file: for every configuration of the scan,
  resolving its version under any spelling of the number gives the path, the backend and the canonical
  version of that configuration. The directory name of the model must be a plain path component.
\<close>

theorem resolve_agrees_with_scan:
  assumes "c \<in> set (fst (scanModelRepository fs priority dir defaults))"
    and "fs_is_directory fs (path_join dir (rc_model_name c))"
    and "rc_model_name c \<notin> {[], ''.'', ''..''}" "CHR ''/'' \<notin> set (rc_model_name c)" "CHR 0x5C \<notin> set (rc_model_name c)"
    and "isNumericVersion v" "digits_value v = digits_value (rc_model_version c)"
  shows "resolveRepositoryModelVersion fs priority dir (rc_model_name c) v =
    Some \<lparr>rv_model_path = rc_model_path c, rv_backend = rc_backend c, rv_canonical_version = rc_model_version c\<rparr>"
proof -
  let ?d = "path_join dir (rc_model_name c)"
  let ?groups = "fst (groupVersionsDescending fs ?d (rc_model_name c))"
  obtain path backend w where c: "c = discovered_config defaults (rc_model_name c) (path, backend, w)"
    and choice: "fst (choose_version fs (backendPriority priority) ?d ?groups) = Some (path, backend, w)"
    using assms(1) by (rule scanned_config)
  from c have f: "rc_model_version c = w" "rc_model_path c = path" "rc_backend c = backend" by (metis discovered_fields)+
  from choose_version_Some [OF choice groups_descending] obtain raw where raw: "(w, raw) \<in> set ?groups"
    and pick: "pickModelFile fs (backendPriority priority) (path_join ?d (hd raw)) = Some (path, backend)"
    by blast
  note g = version_group [OF raw [unfolded set_groups]]
  have "hd raw \<in> set (version_names fs ?d)" using g(1) by (simp add: version_dirs_def)
  then have "canonicalVersion v = w"
    using canonical_eq_iff [of v "hd raw"] version_names_digits assms(6,7) g(2,4) f(1) by (simp add: isNumericVersion_def)
  with find_group [OF raw distinct_groups] pick assms(2-6) f show ?thesis
    by (simp add: resolveRepositoryModelVersion_def Let_def)
qed

theorem resolve_agrees_with_scan_witness:
  "resolveRepositoryModelVersion demo_fs None ''r'' ''m'' ''002'' =
     Some \<lparr>rv_model_path = ''r/m/2/a.ONNX'', rv_backend = ''onnx_runtime'', rv_canonical_version = ''2''\<rparr>"
  using resolve_agrees_with_scan [of demo_scanned demo_fs None "''r''" default_config "''002''"]
  by (simp add: demo_scan demo_fields demo_directories path_join_def isNumericVersion_def is_digit_def digits_value_def)

lemma pick_loop_path:
  "pick_loop order d best files = Some (path, b) \<Longrightarrow> best = Some (path, b) \<or> (\<exists>file \<in> set files. path = path_join d file)"
proof (induction files arbitrary: best)
  case (Cons f files)
  from Cons.prems consider "pick_loop order d best files = Some (path, b)"
    | "pick_loop order d (Some (path_join d f, backendForModelFile f)) files = Some (path, b)"
    by (auto simp: Let_def split: if_splits option.splits prod.splits)
  then show ?case by cases (use Cons.IH in fastforce)+
qed simp

text \<open>
  A version from a request cannot lead out of the repository: whatever model name and version a
  client sends, a path that is resolved consists of the repository, a single component for the model that
  is neither empty nor a dot name, a directory the listing of the model shows whose name is digits only
  and spells the requested number, and a file the listing of that directory shows.
\<close>

theorem resolve_stays_in_repository:
  assumes "resolveRepositoryModelVersion fs priority dir name version = Some r"
  shows "CHR ''/'' \<notin> set name \<and> name \<notin> {[], ''.'', ''..''} \<and>
    (\<exists>n file. rv_model_path r = path_join (path_join (path_join dir name) n) file \<and>
       n \<in> set (version_names fs (path_join dir name)) \<and> list_all is_digit n \<and> digits_value n = digits_value version \<and>
       (file, False) \<in> set (fs_entries fs (path_join (path_join dir name) n)))"
proof -
  let ?d = "path_join dir name"
  from assms obtain raw backend where num: "isNumericVersion version"
    and name: "CHR ''/'' \<notin> set name" "name \<notin> {[], ''.'', ''..''}"
    and found: "find_first (\<lambda>g. fst g = canonicalVersion version) (fst (groupVersionsDescending fs ?d name)) =
        Some (canonicalVersion version, raw)"
    and pick: "pickModelFile fs (backendPriority priority) (path_join ?d (hd raw)) = Some (rv_model_path r, backend)"
    by (auto simp: resolveRepositoryModelVersion_def Let_def split: if_splits option.splits dest: find_first_Some)
  have "(canonicalVersion version, raw) \<in> set (version_groups fs ?d)"
    using find_first_Some [OF found] by (simp add: set_groups)
  note g = version_group [OF this]
  have hd: "hd raw \<in> set (version_names fs ?d)" using g(1) by (simp add: version_dirs_def)
  from pick obtain f where "rv_model_path r = path_join (path_join ?d (hd raw)) f"
    and "f \<in> set (sortedEntries fs (path_join ?d (hd raw)) False)"
    by (auto simp: pickModelFile_def dest!: pick_loop_path)
  moreover have "digits_value (hd raw) = digits_value version" using g(2) canonical_value by metis
  ultimately show ?thesis
    using name hd version_names_digits [OF hd]
    by (intro conjI exI [of _ "hd raw"] exI [of _ f]) (auto simp: sortedEntries_def)
qed

theorem resolve_stays_in_repository_witness:
  "\<exists>n file. ''r/m/2/a.ONNX'' = path_join (path_join ''r/m'' n) file \<and> list_all is_digit n"
proof -
  have "resolveRepositoryModelVersion demo_fs None ''r'' ''m'' ''2'' =
     Some \<lparr>rv_model_path = ''r/m/2/a.ONNX'', rv_backend = ''onnx_runtime'', rv_canonical_version = ''2''\<rparr>"
    by (simp add: resolveRepositoryModelVersion_def isNumericVersion_def is_digit_def path_join_def demo_directories
        demo_versions demo_pick canonicalVersion_def)
  from resolve_stays_in_repository [OF this] show ?thesis by (auto simp: path_join_def)
qed

end
