(* ===== verification/Http.thy ===== *)
theory Http
  imports Json Executors
begin

text \<open>
  \<open>HttpTypes.hpp\<close> and the part of \<open>HttpServer.cpp\<close> behind the sockets: how a request is cut out of the
  bytes a connection delivers, how it is parsed, and what is sent back. The bytes of a connection are the
  list of the pieces \<open>recv\<close> returns; the handler and the printer of the JSON library are arguments, and the
  state the handler works on is passed through.
\<close>

section \<open>Outcomes\<close>

text \<open>
  What a call can do: return a value, throw a \<open>std::exception\<close> with its message, throw anything else, run into
  undefined behaviour, or wait for another thread. A computation takes the state it works on and returns it.
\<close>

datatype 'a Outcome = Value 'a | Exception string | OtherException | Undefined | Blocked

type_synonym ('s, 'a) run = "'s \<Rightarrow> 'a Outcome \<times> 's"

definition give :: "'a \<Rightarrow> ('s, 'a) run" where
  "give x s = (Value x, s)"

definition bind_run :: "('s, 'a) run \<Rightarrow> ('a \<Rightarrow> ('s, 'b) run) \<Rightarrow> ('s, 'b) run" where
  "bind_run m f s =
     (case m s of
        (Value x, s1) \<Rightarrow> f x s1
      | (Exception what, s1) \<Rightarrow> (Exception what, s1)
      | (OtherException, s1) \<Rightarrow> (OtherException, s1)
      | (Undefined, s1) \<Rightarrow> (Undefined, s1)
      | (Blocked, s1) \<Rightarrow> (Blocked, s1))"

text \<open>The result of the printer: a text, or its exception.\<close>

definition of_sum :: "string + 'a \<Rightarrow> ('s, 'a) run" where
  "of_sum r s = (case r of Inl what \<Rightarrow> (Exception what, s) | Inr x \<Rightarrow> (Value x, s))"

section \<open>Types\<close>

record HttpRequest =
  hq_method :: string
  hq_path :: string
  hq_body :: string
  hq_headers :: "(string \<times> string) list"

text \<open>A stream callback is run later, on the state of that time: the pieces it writes and how it ends.\<close>

record 's HttpResponse =
  hr_status :: int
  hr_content_type :: string
  hr_body :: string
  hr_headers :: "(string \<times> string) list"
  hr_streaming :: bool
  hr_stream_callback :: "('s \<Rightarrow> (string list \<times> unit Outcome) \<times> 's) option"

definition new_response :: "'s HttpResponse" where
  "new_response = \<lparr>hr_status = 200, hr_content_type = ''application/json'', hr_body = [], hr_headers = [],
     hr_streaming = False, hr_stream_callback = None\<rparr>"

section \<open>Text\<close>

abbreviation crlf :: string where
  "crlf \<equiv> [CHR 0x0D, CHR 0x0A]"

text \<open>\<open>std::string::find\<close> of a string.\<close>

fun find_text :: "string \<Rightarrow> string \<Rightarrow> nat option" where
  "find_text pat [] = (if pat = [] then Some 0 else None)"
| "find_text pat (c # cs) = (if startsWith (c # cs) pat then Some 0 else map_option Suc (find_text pat cs))"

definition reasonPhrase :: "int \<Rightarrow> string" where
  "reasonPhrase status =
     (if status = 200 then ''OK'' else if status = 400 then ''Bad Request'' else if status = 404 then ''Not Found''
      else if status = 405 then ''Method Not Allowed'' else if status = 409 then ''Conflict''
      else if status = 413 then ''Payload Too Large'' else if status = 429 then ''Too Many Requests''
      else if status = 500 then ''Internal Server Error'' else if status = 503 then ''Service Unavailable''
      else ''OK'')"

definition is_blank :: "char \<Rightarrow> bool" where
  "is_blank c \<longleftrightarrow> c \<in> {CHR '' '', CHR 0x09, CHR 0x0D, CHR 0x0A}"

definition trim :: "string \<Rightarrow> string" where
  "trim s = rev (dropWhile is_blank (rev (dropWhile is_blank s)))"

definition error_json :: "string \<Rightarrow> string \<Rightarrow> Json" where
  "error_json code message = JObject [(''error'', JObject [(''code'', JString code), (''message'', JString message)])]"

definition jsonError :: "(Json \<Rightarrow> string + string) \<Rightarrow> int \<Rightarrow> string \<Rightarrow> string \<Rightarrow> ('s, 's HttpResponse) run" where
  "jsonError dump status code message =
     bind_run (of_sum (dump (error_json code message)))
       (\<lambda>text. give (new_response\<lparr>hr_status := status, hr_body := text\<rparr>))"

text \<open>\<open>std::from_chars\<close> on the trimmed text: digits only, and in range.\<close>

definition parseContentLength :: "string \<Rightarrow> size_t option" where
  "parseContentLength v =
     (let t = trim v
      in if t = [] \<or> \<not> list_all is_digit t \<or> digits_value t \<ge> size_limit then None else Some (digits_value t))"

text \<open>The lines \<open>std::getline\<close> gives, without the carriage return at their end.\<close>

definition header_lines :: "string \<Rightarrow> string list" where
  "header_lines block =
     map (\<lambda>l. if l \<noteq> [] \<and> last l = CHR 0x0D then butlast l else l) (getline_tokens (CHR 0x0A) [] block)"

text \<open>The two words \<open>operator>>\<close> reads from the request line; a missing word stays empty.\<close>

definition first_word :: "string \<Rightarrow> string \<times> string" where
  "first_word s = (let t = dropWhile is_space s in (takeWhile (\<lambda>c. \<not> is_space c) t, dropWhile (\<lambda>c. \<not> is_space c) t))"

definition header_field :: "string \<Rightarrow> (string \<times> string) option" where
  "header_field line = map_option (\<lambda>i. (trim (take i line), trim (drop (i + 1) line))) (find_char (CHR '':'') line)"

definition header_end_mark :: string where
  "header_end_mark = crlf @ crlf"

definition parseRequest :: "string \<Rightarrow> HttpRequest" where
  "parseRequest raw =
     (let header_end = find_text header_end_mark raw;
          header_block = (case header_end of Some i \<Rightarrow> take i raw | None \<Rightarrow> raw);
          body = (case header_end of Some i \<Rightarrow> drop (i + 4) raw | None \<Rightarrow> [])
      in case header_lines header_block of
           [] \<Rightarrow> \<lparr>hq_method = [], hq_path = [], hq_body = body, hq_headers = []\<rparr>
         | request_line # field_lines \<Rightarrow>
             let (method, rest) = first_word request_line; (path, _) = first_word rest
             in \<lparr>hq_method = method, hq_path = path, hq_body = body,
                 hq_headers = fold (\<lambda>(k, v). AList.update k v) (List.map_filter header_field field_lines) []\<rparr>)"

definition header_text :: "(string \<times> string) list \<Rightarrow> string" where
  "header_text headers = concat (map (\<lambda>(name, v). name @ '': '' @ v @ crlf) headers)"

definition serializeResponse :: "'s HttpResponse \<Rightarrow> string" where
  "serializeResponse r =
     ''HTTP/1.1 '' @ int_text (hr_status r) @ '' '' @ reasonPhrase (hr_status r) @ crlf @
     ''Content-Type: '' @ hr_content_type r @ crlf @
     ''Content-Length: '' @ to_string (length (hr_body r)) @ crlf @
     ''Connection: close'' @ crlf @ header_text (hr_headers r) @ crlf @ hr_body r"

definition serializeStreamingHeaders :: "'s HttpResponse \<Rightarrow> string" where
  "serializeStreamingHeaders r =
     ''HTTP/1.1 200 OK'' @ crlf @ ''Content-Type: text/event-stream'' @ crlf @ ''Cache-Control: no-cache'' @ crlf @
     ''Connection: keep-alive'' @ crlf @ header_text (hr_headers r) @ crlf"

section \<open>Receiving a request\<close>

text \<open>
  The loop over the header lines for \<open>Content-Length\<close>: \<open>None\<close> for a value that is no number; the last
  such line counts.
\<close>

fun scan_content_length :: "size_t \<Rightarrow> string list \<Rightarrow> size_t option" where
  "scan_content_length n [] = Some n"
| "scan_content_length n (line # lines) =
     (case find_char (CHR '':'') line of
        None \<Rightarrow> scan_content_length n lines
      | Some i \<Rightarrow>
          if trim (take i line) = ''Content-Length''
          then case parseContentLength (drop (i + 1) line) of None \<Rightarrow> None | Some m \<Rightarrow> scan_content_length m lines
          else scan_content_length n lines)"

text \<open>What the loop does after a piece: go on, stop with what it has, or stop with an error.\<close>

datatype Framing = Continue | Complete | TooLarge | BadLength

definition after_piece :: "size_t \<Rightarrow> string \<Rightarrow> Framing" where
  "after_piece max_request_bytes raw =
     (if length raw > max_request_bytes then TooLarge
      else case find_text header_end_mark raw of
             None \<Rightarrow> Continue
           | Some header_end \<Rightarrow>
               (case scan_content_length 0 (header_lines (take header_end raw)) of
                  None \<Rightarrow> BadLength
                | Some content_length \<Rightarrow>
                    let expected = size_add (size_add header_end 4) content_length
                    in if expected > max_request_bytes then TooLarge
                       else if length raw \<ge> expected then Complete else Continue))"

fun receive :: "size_t \<Rightarrow> string \<Rightarrow> string list \<Rightarrow> string \<times> Framing" where
  "receive max_request_bytes raw [] = (raw, Complete)"
| "receive max_request_bytes raw (piece # pieces) =
     (case after_piece max_request_bytes (raw @ piece) of
        Continue \<Rightarrow> receive max_request_bytes (raw @ piece) pieces
      | outcome \<Rightarrow> (raw @ piece, outcome))"

text \<open>
  \<open>handleClient\<close>: the texts sent to the client and how the thread ends; an exception that leaves it ends the
  process.
\<close>

definition early_response :: "(Json \<Rightarrow> string + string) \<Rightarrow> Framing \<Rightarrow> ('s, 's HttpResponse) run option" where
  "early_response dump outcome =
     (case outcome of
        TooLarge \<Rightarrow> Some (jsonError dump 413 ''PAYLOAD_TOO_LARGE'' ''request exceeds max request bytes'')
      | BadLength \<Rightarrow> Some (jsonError dump 400 ''INVALID_ARGUMENT'' ''invalid Content-Length header'')
      | _ \<Rightarrow> None)"

text \<open>The \<open>catch\<close> block around the handler.\<close>

definition exception_response :: "(Json \<Rightarrow> string + string) \<Rightarrow> string \<Rightarrow> ('s, 's HttpResponse) run" where
  "exception_response dump what =
     bind_run (of_sum (dump (JObject [(''error'', JString what)])))
       (\<lambda>text. give (new_response\<lparr>hr_status := 500, hr_body := text\<rparr>))"

definition handled :: "(Json \<Rightarrow> string + string) \<Rightarrow> ('s, 's HttpResponse) run \<Rightarrow> ('s, 's HttpResponse) run" where
  "handled dump handler s =
     (case handler s of (Exception what, s1) \<Rightarrow> exception_response dump what s1 | r \<Rightarrow> r)"

definition answer :: "'s HttpResponse \<Rightarrow> 's \<Rightarrow> (string list \<times> unit Outcome) \<times> 's" where
  "answer r s =
     (case (hr_streaming r, hr_stream_callback r) of
        (True, Some callback) \<Rightarrow>
          (let ((pieces, end_of_stream), s1) = callback s
           in ((serializeStreamingHeaders r # pieces @
                  (if end_of_stream = Value () then [''data: [DONE]'' @ [CHR 0x0A, CHR 0x0A]] else []), end_of_stream), s1))
      | _ \<Rightarrow> (([serializeResponse r], Value ()), s))"

definition handleClient ::
  "(Json \<Rightarrow> string + string) \<Rightarrow> (HttpRequest \<Rightarrow> ('s, 's HttpResponse) run) \<Rightarrow> size_t \<Rightarrow> string list \<Rightarrow>
     's \<Rightarrow> (string list \<times> unit Outcome) \<times> 's" where
  "handleClient dump handler max_request_bytes pieces s =
     (let (raw, outcome) = receive max_request_bytes [] pieces;
          respond = (case early_response dump outcome of
                       Some early \<Rightarrow> early
                     | None \<Rightarrow> handled dump (handler (parseRequest raw)))
      in case respond s of
           (Value r, s1) \<Rightarrow> answer r s1
         | (Exception what, s1) \<Rightarrow> (([], Exception what), s1)
         | (OtherException, s1) \<Rightarrow> (([], OtherException), s1)
         | (Undefined, s1) \<Rightarrow> (([], Undefined), s1)
         | (Blocked, s1) \<Rightarrow> (([], Blocked), s1))"

section \<open>Lemmas\<close>

lemma startsWith_length: "startsWith v p \<Longrightarrow> length p \<le> length v"
  by (auto simp: startsWith_iff)

lemma find_text_bound: "find_text pat s = Some i \<Longrightarrow> i + length pat \<le> length s"
proof (induction s arbitrary: i)
  case (Cons c s)
  then show ?case using startsWith_length [of "c # s" pat] by (auto split: if_splits)
qed (simp split: if_splits)

text \<open>A match that lies within a prefix is found there, and one that does not is not.\<close>

lemma find_text_prefix:
  assumes "find_text pat s = Some i" "s = u @ v" "pat \<noteq> []"
  shows "find_text pat u = (if i + length pat \<le> length u then Some i else None)"
  using assms
proof (induction u arbitrary: s i)
  case Nil
  then show ?case by simp
next
  case (Cons c u)
  from Cons.prems(2) have s: "s = c # u @ v" by simp
  show ?case
  proof (cases "startsWith s pat")
    case True
    with Cons.prems(1) s have i: "i = 0" by simp
    show ?thesis
    proof (cases "length pat \<le> length (c # u)")
      case fits: True
      with True s have "startsWith (c # u) pat" by (simp add: startsWith_def take_Cons' split: if_splits)
      with i fits show ?thesis by simp
    next
      case False
      with find_text_bound [of pat "c # u"] i show ?thesis by (cases "find_text pat (c # u)") auto
    qed
  next
    case False
    with Cons.prems(1) s obtain j where j: "find_text pat (u @ v) = Some j" "i = Suc j"
      by (auto split: if_splits)
    have "\<not> startsWith (c # u) pat"
    proof
      assume "startsWith (c # u) pat"
      then obtain t where "c # u = pat @ t" by (auto simp: startsWith_iff)
      then have "s = pat @ (t @ v)" using Cons.prems(2) by simp
      with False show False by (auto simp: startsWith_iff)
    qed
    with Cons.IH [OF j(1) refl Cons.prems(3)] j(2) show ?thesis by simp
  qed
qed

lemma length_header_end_mark [simp]: "length header_end_mark = 4" and header_end_mark_not_Nil [simp]: "header_end_mark \<noteq> []"
  by (simp_all add: header_end_mark_def)

lemma after_piece_prefix:
  assumes msg: "msg = head @ header_end_mark @ body" "find_text header_end_mark msg = Some (length head)"
    and len: "scan_content_length 0 (header_lines head) = Some (length body)" "length msg \<le> m" "m < size_limit"
    and raw: "msg = raw @ rest"
  shows "after_piece m raw = (if rest = [] then Complete else Continue)"
proof -
  have le: "length raw \<le> m" using raw len(2) by simp
  have found: "find_text header_end_mark raw = (if length head + 4 \<le> length raw then Some (length head) else None)"
    using find_text_prefix [OF msg(2) raw header_end_mark_not_Nil] by simp
  show ?thesis
  proof (cases "length head + 4 \<le> length raw")
    case True
    then have "take (length head) raw = take (length head) msg" using raw by simp
    then have "take (length head) raw = head" using msg(1) by simp
    moreover have "size_add (size_add (length head) 4) (length body) = length msg"
      using len(2,3) msg(1) by (simp add: size_add_def)
    moreover have "length raw \<ge> length msg \<longleftrightarrow> rest = []" using raw by auto
    ultimately show ?thesis using True found le len by (simp add: after_piece_def Let_def)
  next
    case False
    then have "rest \<noteq> []" using msg(1) raw by auto
    with False found le show ?thesis by (simp add: after_piece_def)
  qed
qed

lemma receive_message:
  assumes msg: "msg = head @ header_end_mark @ body" "find_text header_end_mark msg = Some (length head)"
    and len: "scan_content_length 0 (header_lines head) = Some (length body)" "length msg \<le> m" "m < size_limit"
  shows "msg = raw @ concat pieces \<Longrightarrow> receive m raw pieces = (msg, Complete)"
proof (induction pieces arbitrary: raw)
  case Nil
  then show ?case by simp
next
  case (Cons piece pieces)
  then have "msg = (raw @ piece) @ concat pieces" by simp
  with after_piece_prefix [OF msg len this] Cons.IH [OF this] show ?case by simp
qed


definition demo_head :: string where
  "demo_head = ''POST / HTTP/1.1'' @ crlf @ ''Content-Length: 2''"

lemma demo_head_frame:
  "find_text header_end_mark (demo_head @ header_end_mark @ ''ab'') = Some (length demo_head)"
  "scan_content_length 0 (header_lines demo_head) = Some (length ''ab'')"
  "length demo_head = 34"
  by (simp_all add: header_end_mark_def startsWith_def demo_head_def header_lines_def parseContentLength_def trim_def
      is_blank_def is_digit_def digits_value_def size_limit_def)


text \<open>
  The size limit can be passed by wrap-around: a \<open>Content-Length\<close> close to \<open>2 ^ 64\<close> makes the sum with
  the length of the header wrap to a small number, so the check against the limit succeeds, and the request
  is taken as complete although its body has not arrived.
\<close>

theorem content_length_wraps:
  "after_piece 64 (''A: B'' @ crlf @ ''Content-Length: 18446744073709551580'' @ header_end_mark) = Complete"
proof -
  have "find_text header_end_mark (''A: B'' @ crlf @ ''Content-Length: 18446744073709551580'' @ header_end_mark) = Some 42"
    by (simp add: header_end_mark_def startsWith_def)
  moreover have "header_lines (''A: B'' @ crlf @ ''Content-Length: 18446744073709551580'') =
      [''A: B'', ''Content-Length: 18446744073709551580'']"
    by (simp add: header_lines_def)
  moreover have "scan_content_length 0 [''A: B'', ''Content-Length: 18446744073709551580''] = Some 18446744073709551580"
    by (simp add: parseContentLength_def trim_def is_blank_def is_digit_def digits_value_def size_limit_def)
  ultimately show ?thesis by (simp add: after_piece_def header_end_mark_def size_add_def size_limit_def)
qed

text \<open>
  A deadline error is sent with the reason phrase of success, and a header name in lower case is not
  recognized.
\<close>

lemma gateway_timeout_says_ok:
  "take 15 (serializeResponse (new_response\<lparr>hr_status := 504\<rparr>)) = ''HTTP/1.1 504 OK''"
proof -
  have "to_string 504 = ''504''" by code_simp
  then show ?thesis by (simp add: serializeResponse_def new_response_def int_text_def reasonPhrase_def)
qed

lemma lower_case_length_ignored: "scan_content_length 0 [''content-length: 5''] = Some 0"
  by (simp add: trim_def is_blank_def)

end
