(* ===== verification/Metrics_Registry.thy ===== *)
theory Metrics_Registry
  imports Scheduler_Core Numbers "HOL-Library.List_Lexorder" "HOL-Library.Char_ord"
begin

text \<open>
  \<open>MetricsRegistry.cpp\<close>: the request counters and histograms of every model, and the page they are
  printed on. A \<open>std::map\<close> is an association list, read in key order where its order shows. The resident
  memory, read from \<open>/proc\<close>, is an argument of the page.
\<close>

section \<open>Histograms\<close>

record Histogram =
  hg_buckets :: "double list"
  hg_counts :: "uint64_t list"
  hg_sum :: double
  hg_count :: uint64_t

definition new_histogram :: "double list \<Rightarrow> Histogram" where
  "new_histogram b = \<lparr>hg_buckets = b, hg_counts = replicate (length b + 1) 0, hg_sum = 0, hg_count = 0\<rparr>"

text \<open>The loop over the buckets, then the last counter, which has no bound.\<close>

fun count_buckets :: "double \<Rightarrow> double list \<Rightarrow> uint64_t list \<Rightarrow> uint64_t list" where
  "count_buckets v (b # bs) (c # cs) = (if v \<le> b then c + 1 else c) # count_buckets v bs cs"
| "count_buckets v _ cs = cs"

definition observe :: "double \<Rightarrow> Histogram \<Rightarrow> Histogram" where
  "observe v h =
     (let counts = count_buckets v (hg_buckets h) (hg_counts h)
      in h\<lparr>hg_sum := nearest_double (hg_sum h + v), hg_count := hg_count h + 1,
           hg_counts := counts[length counts - 1 := last counts + 1]\<rparr>)"

definition latency_buckets :: "double list" where
  "latency_buckets = map nearest_double
     [1/1000, 2/1000, 5/1000, 1/100, 25/1000, 5/100, 1/10, 25/100, 5/10, 1, 25/10, 5, 10]"

definition batch_buckets :: "double list" where
  "batch_buckets = [1, 2, 4, 8, 16, 32, 64]"

section \<open>The registry\<close>

record MetricsRegistry =
  mr_scheduler_metrics :: SchedulerMetricsSnapshot
  mr_scheduler_metrics_by_model :: "(string \<times> string \<times> SchedulerMetricsSnapshot) list"
  mr_active_model_name :: string
  mr_model_version :: string
  mr_deployment :: string
  mr_requests_by_status :: "(string \<times> (string \<times> uint64_t) list) list"
  mr_requests_by_method :: "(string \<times> (string \<times> uint64_t) list) list"
  mr_requests_total :: "(string \<times> uint64_t) list"
  mr_requests_success :: "(string \<times> uint64_t) list"
  mr_requests_failure :: "(string \<times> uint64_t) list"
  mr_backend_errors :: "(string \<times> uint64_t) list"
  mr_model_load_success :: "(string \<times> uint64_t) list"
  mr_model_load_failure :: "(string \<times> uint64_t) list"
  mr_queue_latency :: "(string \<times> Histogram) list"
  mr_infer_latency :: "(string \<times> Histogram) list"
  mr_total_latency :: "(string \<times> Histogram) list"
  mr_batch_size :: "(string \<times> Histogram) list"

definition new_metrics :: MetricsRegistry where
  "new_metrics = \<lparr>mr_scheduler_metrics = zero_metrics, mr_scheduler_metrics_by_model = [],
     mr_active_model_name = ''demo'', mr_model_version = ''1'', mr_deployment = [],
     mr_requests_by_status = [], mr_requests_by_method = [], mr_requests_total = [], mr_requests_success = [],
     mr_requests_failure = [], mr_backend_errors = [], mr_model_load_success = [], mr_model_load_failure = [],
     mr_queue_latency = [], mr_infer_latency = [], mr_total_latency = [], mr_batch_size = []\<rparr>"

text \<open>\<open>operator[]\<close> on a map of counters, or of maps: a missing entry starts at zero, or empty.\<close>

definition counter :: "('k \<times> uint64_t) list \<Rightarrow> 'k \<Rightarrow> uint64_t" where
  "counter m k = (case map_of m k of Some n \<Rightarrow> n | None \<Rightarrow> 0)"

definition bump :: "'k \<Rightarrow> ('k \<times> uint64_t) list \<Rightarrow> ('k \<times> uint64_t) list" where
  "bump k m = AList.update k (counter m k + 1) m"

definition counters :: "('k \<times> ('j \<times> uint64_t) list) list \<Rightarrow> 'k \<Rightarrow> ('j \<times> uint64_t) list" where
  "counters m k = (case map_of m k of Some n \<Rightarrow> n | None \<Rightarrow> [])"

definition bump_in :: "'k \<Rightarrow> 'j \<Rightarrow> ('k \<times> ('j \<times> uint64_t) list) list \<Rightarrow> ('k \<times> ('j \<times> uint64_t) list) list" where
  "bump_in k j m = AList.update k (bump j (counters m k)) m"

text \<open>A histogram is given its buckets when it is first used.\<close>

definition histogram_of :: "double list \<Rightarrow> (string \<times> Histogram) list \<Rightarrow> string \<Rightarrow> Histogram" where
  "histogram_of buckets hs model =
     (case map_of hs model of
        Some h \<Rightarrow> if hg_buckets h = [] then new_histogram buckets else h
      | None \<Rightarrow> new_histogram buckets)"

definition observe_in :: "double list \<Rightarrow> string \<Rightarrow> double \<Rightarrow> (string \<times> Histogram) list \<Rightarrow> (string \<times> Histogram) list" where
  "observe_in buckets model v hs = AList.update model (observe v (histogram_of buckets hs model)) hs"

definition nsToSeconds :: "uint64_t \<Rightarrow> double" where
  "nsToSeconds ns = nearest_double (double_of_int (uint ns) / 1000000000)"

definition recordInferRequest ::
  "string \<Rightarrow> string \<Rightarrow> int \<Rightarrow> uint64_t \<Rightarrow> uint64_t \<Rightarrow> uint64_t \<Rightarrow> uint64_t \<Rightarrow> MetricsRegistry \<Rightarrow> MetricsRegistry" where
  "recordInferRequest model method status_code queue_latency_ns infer_latency_ns total_latency_ns batch_size mr =
     (let succeeded = (200 \<le> status_code \<and> status_code < 300)
      in mr\<lparr>mr_active_model_name := model,
            mr_requests_total := bump model (mr_requests_total mr),
            mr_requests_success := (if succeeded then bump model (mr_requests_success mr) else mr_requests_success mr),
            mr_requests_failure := (if succeeded then mr_requests_failure mr else bump model (mr_requests_failure mr)),
            mr_backend_errors := (if status_code = 500 then bump model (mr_backend_errors mr) else mr_backend_errors mr),
            mr_requests_by_status := bump_in model (int_text status_code) (mr_requests_by_status mr),
            mr_requests_by_method := bump_in model method (mr_requests_by_method mr),
            mr_queue_latency := observe_in latency_buckets model (nsToSeconds queue_latency_ns) (mr_queue_latency mr),
            mr_infer_latency := observe_in latency_buckets model (nsToSeconds infer_latency_ns) (mr_infer_latency mr),
            mr_total_latency := observe_in latency_buckets model (nsToSeconds total_latency_ns) (mr_total_latency mr),
            mr_batch_size := (if batch_size > 0
              then observe_in batch_buckets model (double_of_int (uint batch_size)) (mr_batch_size mr)
              else mr_batch_size mr)\<rparr>)"

definition recordModelLoadSuccess :: "string \<Rightarrow> MetricsRegistry \<Rightarrow> MetricsRegistry" where
  "recordModelLoadSuccess model mr =
     mr\<lparr>mr_active_model_name := model, mr_model_load_success := bump model (mr_model_load_success mr)\<rparr>"

definition recordModelLoadFailure :: "string \<Rightarrow> MetricsRegistry \<Rightarrow> MetricsRegistry" where
  "recordModelLoadFailure model mr =
     mr\<lparr>mr_active_model_name := model, mr_model_load_failure := bump model (mr_model_load_failure mr)\<rparr>"

text \<open>The two overloads of \<open>setSchedulerMetrics\<close>.\<close>

definition setSchedulerMetrics_active :: "SchedulerMetricsSnapshot \<Rightarrow> MetricsRegistry \<Rightarrow> MetricsRegistry" where
  "setSchedulerMetrics_active m mr =
     mr\<lparr>mr_scheduler_metrics := m,
        mr_scheduler_metrics_by_model :=
          AList.update (mr_active_model_name mr) (mr_model_version mr, m) (mr_scheduler_metrics_by_model mr)\<rparr>"

definition setSchedulerMetrics :: "string \<Rightarrow> string \<Rightarrow> SchedulerMetricsSnapshot \<Rightarrow> MetricsRegistry \<Rightarrow> MetricsRegistry" where
  "setSchedulerMetrics model version m mr =
     (let mr1 = mr\<lparr>mr_scheduler_metrics_by_model := AList.update model (version, m) (mr_scheduler_metrics_by_model mr)\<rparr>
      in if model = mr_active_model_name mr1
         then mr1\<lparr>mr_scheduler_metrics := m, mr_model_version := version\<rparr> else mr1)"

definition setModelVersion :: "string \<Rightarrow> MetricsRegistry \<Rightarrow> MetricsRegistry" where
  "setModelVersion version mr = mr\<lparr>mr_model_version := version\<rparr>"

definition setDeployment :: "string \<Rightarrow> MetricsRegistry \<Rightarrow> MetricsRegistry" where
  "setDeployment deployment mr = mr\<lparr>mr_deployment := deployment\<rparr>"

section \<open>Numbers as text\<close>

text \<open>\<open>std::fixed << std::setprecision(6)\<close>: the nearest multiple of \<open>10 ^ -6\<close>.\<close>

definition padded :: "nat \<Rightarrow> nat \<Rightarrow> string" where
  "padded w n = (let t = to_string n in replicate (w - length t) (CHR ''0'') @ t)"

definition fixed6 :: "double \<Rightarrow> string" where
  "fixed6 v =
     (let n = nat (round_half_even (\<bar>v\<bar> * 1000000))
      in (if v < 0 then ''-'' else []) @ to_string (n div 1000000) @ ''.'' @ padded 6 (n mod 1000000))"

definition trim_zeros :: "string \<Rightarrow> string" where
  "trim_zeros s =
     (let t = rev (dropWhile (\<lambda>c. c = CHR ''0'') (rev s))
      in if t \<noteq> [] \<and> last t = CHR ''.'' then butlast t else t)"

text \<open>
  \<open>operator<<\<close> of a positive bucket bound: six significant digits without trailing zeros, in fixed notation
  when the decimal exponent is from -4 to 5 and in scientific notation otherwise.
\<close>

definition pow10 :: "int \<Rightarrow> rat" where
  "pow10 e = (if 0 \<le> e then 10 ^ nat e else 1 / 10 ^ nat (- e))"

definition significant :: "double \<Rightarrow> int \<times> nat" where
  "significant v =
     (let e = (case find (\<lambda>e. pow10 e \<le> v \<and> v < pow10 (e + 1)) [-324..308] of Some e \<Rightarrow> e | None \<Rightarrow> 0);
          n = nat (round_half_even (v * pow10 (5 - e)))
      in if n = 1000000 then (e + 1, 100000) else (e, n))"

definition with_point :: "nat \<Rightarrow> nat \<Rightarrow> string" where
  "with_point decimals n =
     (if decimals = 0 then to_string n
      else trim_zeros (to_string (n div 10 ^ decimals) @ ''.'' @ padded decimals (n mod 10 ^ decimals)))"

definition bound_text :: "double \<Rightarrow> string" where
  "bound_text v =
     (let (e, n) = significant v
      in if -4 \<le> e \<and> e < 6 then with_point (nat (5 - e)) n
         else with_point 5 n @ ''e'' @ (if e < 0 then ''-'' else ''+'') @ padded 2 (nat \<bar>e\<bar>))"

section \<open>The metrics page\<close>

definition quoted_label :: "string \<times> string \<Rightarrow> string" where
  "quoted_label kv = fst kv @ ''='' @ [CHR 0x22] @ snd kv @ [CHR 0x22]"

fun comma_separated :: "string list \<Rightarrow> string" where
  "comma_separated [] = []"
| "comma_separated [s] = s"
| "comma_separated (s # ss) = s @ '','' @ comma_separated ss"

definition appendLine :: "string \<Rightarrow> (string \<times> string) list \<Rightarrow> double \<Rightarrow> string" where
  "appendLine name labels v =
     name @ (if labels = [] then [] else ''{'' @ comma_separated (map quoted_label (ordered_items labels)) @ ''}'') @
     '' '' @ trim_zeros (fixed6 v) @ [CHR 0x0A]"

definition appendCounterLine :: "string \<Rightarrow> (string \<times> string) list \<Rightarrow> uint64_t \<Rightarrow> string" where
  "appendCounterLine name labels n = appendLine name labels (double_of_int (uint n))"

definition appendHistogram :: "string \<Rightarrow> (string \<times> string) list \<Rightarrow> Histogram \<Rightarrow> string" where
  "appendHistogram name labels h =
     concat (map2 (\<lambda>b c. appendCounterLine (name @ ''_bucket'') (AList.update ''le'' (bound_text b) labels) c)
               (hg_buckets h) (hg_counts h)) @
     appendCounterLine (name @ ''_bucket'') (AList.update ''le'' ''+Inf'' labels) (last (hg_counts h)) @
     appendLine (name @ ''_sum'') labels (hg_sum h) @
     appendCounterLine (name @ ''_count'') labels (hg_count h)"

definition heading :: "string \<Rightarrow> string \<Rightarrow> string \<Rightarrow> string" where
  "heading name help kind =
     ''# HELP '' @ name @ '' '' @ help @ [CHR 0x0A] @ ''# TYPE '' @ name @ '' '' @ kind @ [CHR 0x0A]"

definition model_labels :: "MetricsRegistry \<Rightarrow> string \<Rightarrow> string \<Rightarrow> (string \<times> string) list" where
  "model_labels mr model version =
     [(''model'', model), (''version'', version)] @
     (if mr_deployment mr = [] then [] else [(''deployment'', mr_deployment mr)])"

definition scheduler_lines :: "MetricsRegistry \<Rightarrow> string \<Rightarrow> string \<Rightarrow> SchedulerMetricsSnapshot \<Rightarrow> string" where
  "scheduler_lines mr model version m =
     (let labels = model_labels mr model version
      in appendLine ''neuriplo_scheduler_queue_depth'' labels (double_of_int (int (mt_queue_depth m))) @
         appendLine ''neuriplo_scheduler_in_flight_requests'' labels (double_of_int (int (mt_in_flight m))) @
         appendCounterLine ''neuriplo_scheduler_requests_accepted_total'' labels (mt_requests_accepted m) @
         appendCounterLine ''neuriplo_scheduler_requests_rejected_total'' labels (mt_requests_rejected m) @
         appendCounterLine ''neuriplo_scheduler_requests_timed_out_total'' labels (mt_requests_timed_out m) @
         appendLine ''neuriplo_scheduler_queue_wait_seconds'' labels (nsToSeconds (mt_queue_wait_ns_total m)))"

text \<open>The page in its parts: the scheduler of every model, then of the model last used.\<close>

definition render_schedulers :: "MetricsRegistry \<Rightarrow> string" where
  "render_schedulers mr =
     heading ''neuriplo_scheduler_queue_depth'' ''Current scheduler queue depth'' ''gauge'' @
     heading ''neuriplo_scheduler_in_flight_requests'' ''Current in-flight requests'' ''gauge'' @
     heading ''neuriplo_scheduler_requests_accepted_total'' ''Total accepted requests'' ''counter'' @
     heading ''neuriplo_scheduler_requests_rejected_total'' ''Total rejected requests'' ''counter'' @
     heading ''neuriplo_scheduler_requests_timed_out_total'' ''Total timed-out requests'' ''counter'' @
     heading ''neuriplo_scheduler_queue_wait_seconds'' ''Total seconds spent waiting in queue'' ''counter'' @
     (if mr_scheduler_metrics_by_model mr \<noteq> []
      then concat (map (\<lambda>(model, version, m). scheduler_lines mr model version m)
                     (ordered_items (mr_scheduler_metrics_by_model mr)))
      else scheduler_lines mr (mr_active_model_name mr) (mr_model_version mr) (mr_scheduler_metrics mr))"

definition headed_line :: "string \<Rightarrow> string \<Rightarrow> string \<Rightarrow> (string \<times> string) list \<Rightarrow> double \<Rightarrow> string" where
  "headed_line name help kind labels v = heading name help kind @ appendLine name labels v"

definition headed_counter :: "string \<Rightarrow> string \<Rightarrow> (string \<times> string) list \<Rightarrow> uint64_t \<Rightarrow> string" where
  "headed_counter name help labels n = heading name help ''counter'' @ appendCounterLine name labels n"

definition render_active_scheduler :: "MetricsRegistry \<Rightarrow> (string \<times> string) list \<Rightarrow> string" where
  "render_active_scheduler mr labels =
     (let m = mr_scheduler_metrics mr
      in headed_line ''neuriplo_scheduler_infer_seconds'' ''Total seconds spent in inference'' ''counter'' labels
           (nsToSeconds (mt_execution_ns_total m)) @
         headed_line ''neuriplo_scheduler_execution_seconds'' ''Total seconds spent in execution'' ''counter'' labels
           (nsToSeconds (mt_execution_ns_total m)) @
         headed_line ''neuriplo_scheduler_request_total_seconds'' ''Total end-to-end request seconds'' ''counter'' labels
           (nsToSeconds (mt_total_ns_total m)) @
         headed_counter ''neuriplo_scheduler_batches_formed_total'' ''Total batches formed'' labels
           (mt_batches_formed m) @
         headed_counter ''neuriplo_scheduler_batched_requests_total'' ''Total requests processed in batches'' labels
           (mt_batched_requests_total m) @
         headed_line ''neuriplo_scheduler_batch_formation_seconds'' ''Total seconds spent forming batches'' ''counter''
           labels (nsToSeconds (mt_batch_formation_ns_total m)) @
         headed_line ''neuriplo_scheduler_batch_execution_seconds'' ''Total seconds spent in batch execution'' ''counter''
           labels (nsToSeconds (mt_batch_execution_ns_total m)) @
         headed_line ''neuriplo_kv_cache_slots_total'' ''Total KV cache slots'' ''gauge'' labels
           (double_of_int (int (mt_kv_cache_slots_total m))) @
         headed_line ''neuriplo_kv_cache_slots_active'' ''Active KV cache slots'' ''gauge'' labels
           (double_of_int (int (mt_kv_cache_slots_active m))) @
         headed_counter ''neuriplo_scheduler_requests_memory_pressure_rejected_total''
           ''Requests rejected due to memory pressure'' labels (mt_requests_memory_pressure_rejected m))"

definition version_label :: "MetricsRegistry \<Rightarrow> string \<Rightarrow> string" where
  "version_label mr model =
     (case map_of (mr_scheduler_metrics_by_model mr) model of Some (v, _) \<Rightarrow> v | None \<Rightarrow> mr_model_version mr)"

definition status_line :: "MetricsRegistry \<Rightarrow> string \<Rightarrow> string \<times> uint64_t \<Rightarrow> string" where
  "status_line mr model entry =
     appendCounterLine ''neuriplo_http_requests_total''
       ([(''model'', model), (''version'', version_label mr model), (''status'', fst entry)] @
        (if mr_deployment mr = [] then [] else [(''deployment'', mr_deployment mr)])) (snd entry)"

definition render_requests :: "MetricsRegistry \<Rightarrow> (string \<times> string) list \<Rightarrow> string" where
  "render_requests mr labels =
     (let active = mr_active_model_name mr
      in headed_counter ''neuriplo_http_infer_requests_total'' ''Total infer requests'' labels
           (counter (mr_requests_total mr) active) @
         headed_counter ''neuriplo_http_infer_requests_success_total'' ''Total successful infer requests'' labels
           (counter (mr_requests_success mr) active) @
         headed_counter ''neuriplo_http_infer_requests_failure_total'' ''Total failed infer requests'' labels
           (counter (mr_requests_failure mr) active) @
         heading ''neuriplo_http_requests_total'' ''Total HTTP requests with method/status labels'' ''counter'' @
         concat (map (\<lambda>(model, statuses). concat (map (status_line mr model) (ordered_items statuses)))
                   (ordered_items (mr_requests_by_status mr))) @
         headed_counter ''neuriplo_model_load_success_total'' ''Total successful model loads'' labels
           (counter (mr_model_load_success mr) active) @
         headed_counter ''neuriplo_model_load_failure_total'' ''Total failed model loads'' labels
           (counter (mr_model_load_failure mr) active) @
         headed_counter ''neuriplo_backend_errors_total'' ''Total backend execution failures'' labels
           (counter (mr_backend_errors mr) active))"

definition headed_histogram ::
  "string \<Rightarrow> string \<Rightarrow> (string \<times> string) list \<Rightarrow> double list \<Rightarrow> (string \<times> Histogram) list \<Rightarrow> string \<Rightarrow> string" where
  "headed_histogram name help labels buckets hs active =
     heading name help ''histogram'' @
     appendHistogram name labels (case map_of hs active of Some h \<Rightarrow> h | None \<Rightarrow> new_histogram buckets)"

definition render_histograms :: "MetricsRegistry \<Rightarrow> (string \<times> string) list \<Rightarrow> string" where
  "render_histograms mr labels =
     (let active = mr_active_model_name mr
      in headed_histogram ''neuriplo_scheduler_queue_latency_seconds'' ''Distribution of queue wait times'' labels
           latency_buckets (mr_queue_latency mr) active @
         headed_histogram ''neuriplo_scheduler_infer_latency_seconds'' ''Distribution of execution latencies'' labels
           latency_buckets (mr_infer_latency mr) active @
         headed_histogram ''neuriplo_scheduler_total_latency_seconds'' ''Distribution of total end-to-end latencies''
           labels latency_buckets (mr_total_latency mr) active @
         headed_histogram ''neuriplo_scheduler_batch_size'' ''Distribution of formed batch sizes'' labels
           batch_buckets (mr_batch_size mr) active)"

definition renderMetrics :: "uint64_t \<Rightarrow> MetricsRegistry \<Rightarrow> string" where
  "renderMetrics memory_bytes mr =
     (let labels = model_labels mr (mr_active_model_name mr) (mr_model_version mr)
      in render_schedulers mr @ render_active_scheduler mr labels @ render_requests mr labels @
         render_histograms mr labels @
         headed_line ''neuriplo_process_resident_memory_bytes'' ''Process resident memory in bytes'' ''gauge'' []
           (double_of_int (uint memory_bytes)))"

section \<open>Lemmas\<close>

lemma counter_update [simp]: "counter (AList.update k n m) j = (if j = k then n else counter m j)"
  by (simp add: counter_def update_conv)

lemma counter_bump [simp]: "counter (bump k m) j = counter m j + (if j = k then 1 else 0)"
  by (simp add: bump_def)

lemma counters_bump_in: "counters (bump_in k j m) i = (if i = k then bump j (counters m k) else counters m i)"
  by (simp add: counters_def bump_in_def update_conv)

text \<open>A call on one counter raises the sum of its map by one, also when the entry is new.\<close>

lemma sum_update: "sum_list (map snd (AList.update k (counter m k + n) m)) = sum_list (map snd m) + n"
  by (induction m) (auto simp: counter_def ac_simps)

lemma sum_bump [simp]: "sum_list (map snd (bump k m)) = sum_list (map snd m) + 1"
  by (simp add: bump_def sum_update)

lemma count_buckets_map:
  "count_buckets v bs (map f bs @ cs) = map (\<lambda>b. if v \<le> b then f b + 1 else f b) bs @ cs"
  by (induction bs) (cases cs; simp)+

lemma observe_simps [simp]:
  "hg_buckets (observe v h) = hg_buckets h" "hg_count (observe v h) = hg_count h + 1"
  by (simp_all add: observe_def Let_def)

lemma new_histogram_simps [simp]: "hg_buckets (new_histogram bs) = bs" "hg_count (new_histogram bs) = 0"
  by (simp_all add: new_histogram_def)

lemma buckets_not_Nil [simp]: "latency_buckets \<noteq> []" "batch_buckets \<noteq> []"
  by (simp_all add: latency_buckets_def batch_buckets_def)

lemma histogram_observe_in:
  "bs \<noteq> [] \<Longrightarrow> hg_count (histogram_of bs (observe_in bs k v hs) j) =
     hg_count (histogram_of bs hs j) + (if j = k then 1 else 0)"
  by (auto simp: observe_in_def histogram_of_def update_conv split: option.splits)

section \<open>Properties\<close>

text \<open>
  A histogram is cumulative: after any observations each bucket holds the number of observed values
  up to its bound, the last bucket and the count hold their number, all modulo \<open>2 ^ 64\<close>.
\<close>

theorem histogram_counts_observations:
  "hg_buckets (fold observe vs (new_histogram bs)) = bs \<and>
   hg_counts (fold observe vs (new_histogram bs)) =
     map (\<lambda>b. of_nat (length (filter (\<lambda>v. v \<le> b) vs))) bs @ [of_nat (length vs)] \<and>
   hg_count (fold observe vs (new_histogram bs)) = of_nat (length vs)"
proof (induction vs rule: rev_induct)
  case Nil
  show ?case by (simp add: new_histogram_def replicate_append_same map_replicate_const)
next
  case (snoc v vs)
  then show ?case
    by (auto simp: observe_def Let_def count_buckets_map list_update_append nth_append)
qed

text \<open>The calls on the registry, and how many of them record a request of a model.\<close>

datatype MetricsCall =
  RecordInfer string string int uint64_t uint64_t uint64_t uint64_t
| LoadSuccess string | LoadFailure string
| SchedulerMetricsOf string string SchedulerMetricsSnapshot | SchedulerMetricsActive SchedulerMetricsSnapshot
| ModelVersion string | Deployment string

fun metrics_call :: "MetricsCall \<Rightarrow> MetricsRegistry \<Rightarrow> MetricsRegistry" where
  "metrics_call (RecordInfer model method status q i t b) mr = recordInferRequest model method status q i t b mr"
| "metrics_call (LoadSuccess model) mr = recordModelLoadSuccess model mr"
| "metrics_call (LoadFailure model) mr = recordModelLoadFailure model mr"
| "metrics_call (SchedulerMetricsOf model version m) mr = setSchedulerMetrics model version m mr"
| "metrics_call (SchedulerMetricsActive m) mr = setSchedulerMetrics_active m mr"
| "metrics_call (ModelVersion version) mr = setModelVersion version mr"
| "metrics_call (Deployment deployment) mr = setDeployment deployment mr"

fun records :: "string \<Rightarrow> MetricsCall \<Rightarrow> bool" where
  "records model (RecordInfer m _ _ _ _ _ _) \<longleftrightarrow> m = model"
| "records model _ \<longleftrightarrow> False"

definition consistent :: "string \<Rightarrow> nat \<Rightarrow> MetricsRegistry \<Rightarrow> bool" where
  "consistent model n mr \<longleftrightarrow>
     counter (mr_requests_total mr) model = of_nat n \<and>
     counter (mr_requests_success mr) model + counter (mr_requests_failure mr) model = of_nat n \<and>
     sum_list (map snd (counters (mr_requests_by_status mr) model)) = of_nat n \<and>
     sum_list (map snd (counters (mr_requests_by_method mr) model)) = of_nat n \<and>
     hg_count (histogram_of latency_buckets (mr_queue_latency mr) model) = of_nat n \<and>
     hg_count (histogram_of latency_buckets (mr_infer_latency mr) model) = of_nat n \<and>
     hg_count (histogram_of latency_buckets (mr_total_latency mr) model) = of_nat n"

lemma consistent_call:
  "consistent model n mr \<Longrightarrow> consistent model (n + (if records model c then 1 else 0)) (metrics_call c mr)"
  by (cases c)
    (auto simp: consistent_def recordInferRequest_def recordModelLoadSuccess_def recordModelLoadFailure_def
      setSchedulerMetrics_def setSchedulerMetrics_active_def setModelVersion_def setDeployment_def Let_def
      counters_bump_in histogram_observe_in ac_simps)

lemma consistent_new: "consistent model 0 new_metrics"
  by (simp add: consistent_def new_metrics_def counter_def counters_def histogram_of_def)

text \<open>
  (C32) The counters of a model add up: whatever calls were made, the total is the number of requests
  recorded for the model, it is the sum of successes and failures, of the counts by status and of the counts
  by method, and every latency histogram holds that many observations.
\<close>

theorem request_counters_add_up:
  "consistent model (length (filter (records model) calls)) (fold metrics_call calls new_metrics)"
proof (induction calls rule: rev_induct)
  case Nil
  show ?case by (simp add: consistent_new)
next
  case (snoc c calls)
  with consistent_call [of model _ _ c] show ?case by fastforce
qed

text \<open>
  Label values are printed as they are: the value of one label can pass for another label.
\<close>

lemma label_value_not_escaped:
  "appendLine name [(''model'', ''a'' @ [CHR 0x22] @ '',version='' @ [CHR 0x22] @ ''9'')] v =
   appendLine name [(''model'', ''a''), (''version'', ''9'')] v"
  by (simp add: appendLine_def ordered_items_def quoted_label_def less_char_def less_eq_char_def)

end
