(* ===== verification/OpenAi_Codec.thy ===== *)
theory OpenAi_Codec
  imports V2_Codec
begin

text \<open>
  \<open>OpenAiCodec.cpp\<close>: the requests and responses of the OpenAI-compatible routes. The text parser and
  printer of the JSON library are arguments.
\<close>

section \<open>Types\<close>

record ChatMessage =
  cm_role :: string
  cm_content :: string

record Sampling =
  sa_max_tokens :: "size_t option"
  sa_temperature :: "double option"
  sa_top_p :: "double option"
  sa_stream :: bool

text \<open>
  The fields the two generation requests share are one record here; \<open>top_k\<close>, which nothing sets or reads, is
  left out.
\<close>

record OpenAiCompletionRequest =
  oc_model :: string
  oc_prompt :: string
  oc_sampling :: Sampling

record OpenAiChatRequest =
  oh_model :: string
  oh_messages :: "ChatMessage list"
  oh_sampling :: Sampling

record OpenAiEmbeddingRequest =
  oe_model :: string
  oe_input :: string

record OpenAiCompletionResponse =
  cr_id :: string
  cr_object :: string
  cr_created :: int64_t
  cr_model :: string
  cr_text :: string
  cr_finish_reason :: string
  cr_prompt_tokens :: size_t
  cr_completion_tokens :: size_t

record OpenAiChatResponse =
  hc_id :: string
  hc_object :: string
  hc_created :: int64_t
  hc_model :: string
  hc_message :: ChatMessage
  hc_finish_reason :: string
  hc_prompt_tokens :: size_t
  hc_completion_tokens :: size_t

record OpenAiEmbeddingResponse =
  mb_model :: string
  mb_embedding :: "double option list"
  mb_prompt_tokens :: size_t

text \<open>
  \<open>OpenAiParseResult\<close> with the request it fills in: accepted, refused with a message (the code is always
  \<open>INVALID_ARGUMENT\<close>), or an exception that is not a \<open>parse_error\<close>.
\<close>

datatype 'a OpenAiParseResult = AiAccepted 'a | AiRefused string | AiRaised string

section \<open>Requests\<close>

definition parse_object ::
  "(string \<Rightarrow> JsonText) \<Rightarrow> string \<Rightarrow> (Json \<Rightarrow> string \<Rightarrow> 'a OpenAiParseResult) \<Rightarrow> 'a OpenAiParseResult" where
  "parse_object parse body rest =
     (case parse body of
        JsonParseError _ \<Rightarrow> AiRefused ''invalid JSON request body''
      | JsonOutOfRange what \<Rightarrow> AiRaised what
      | JsonValue j \<Rightarrow>
          if \<not> is_object j then AiRefused ''request body must be a JSON object''
          else if \<not> contains j ''model'' \<or> \<not> is_string (at_key j ''model'') then AiRefused ''model name must be a string''
          else rest j (text_of (at_key j ''model'')))"

definition parse_sampling :: "Json \<Rightarrow> Sampling" where
  "parse_sampling j =
     \<lparr>sa_max_tokens = (if contains j ''max_tokens'' \<and> is_number_unsigned (at_key j ''max_tokens'')
                       then Some (get_size_t (at_key j ''max_tokens'')) else None),
      sa_temperature = (if contains j ''temperature'' \<and> is_number (at_key j ''temperature'')
                        then Some (get_double (at_key j ''temperature'')) else None),
      sa_top_p = (if contains j ''top_p'' \<and> is_number (at_key j ''top_p'')
                  then Some (get_double (at_key j ''top_p'')) else None),
      sa_stream = (contains j ''stream'' \<and> is_boolean (at_key j ''stream'') \<and> get_bool (at_key j ''stream''))\<rparr>"

definition parse_prompt :: "Json \<Rightarrow> string OpenAiParseResult" where
  "parse_prompt p =
     (if is_string p then AiAccepted (text_of p)
      else if is_array p then
        if list_all is_string (elements p) then AiAccepted (concat (map text_of (elements p)))
        else AiRefused ''prompt array elements must be strings''
      else AiRefused ''prompt must be a string or array'')"

fun accepted_then :: "'a OpenAiParseResult \<Rightarrow> ('a \<Rightarrow> 'b OpenAiParseResult) \<Rightarrow> 'b OpenAiParseResult" where
  "accepted_then (AiAccepted x) f = f x"
| "accepted_then (AiRefused m) f = AiRefused m"
| "accepted_then (AiRaised m) f = AiRaised m"

definition parseCompletionRequest :: "(string \<Rightarrow> JsonText) \<Rightarrow> string \<Rightarrow> OpenAiCompletionRequest OpenAiParseResult" where
  "parseCompletionRequest parse body = parse_object parse body (\<lambda>j model.
     if \<not> contains j ''prompt'' then AiRefused ''prompt is required''
     else accepted_then (parse_prompt (at_key j ''prompt''))
       (\<lambda>prompt. AiAccepted \<lparr>oc_model = model, oc_prompt = prompt, oc_sampling = parse_sampling j\<rparr>))"

fun parse_messages :: "Json list \<Rightarrow> ChatMessage list OpenAiParseResult" where
  "parse_messages [] = AiAccepted []"
| "parse_messages (m # ms) =
     (if \<not> is_object m \<or> \<not> contains m ''role'' \<or> \<not> contains m ''content''
      then AiRefused ''each message must have role and content''
      else if \<not> is_string (at_key m ''role'') \<or> \<not> is_string (at_key m ''content'')
      then AiRefused ''role and content must be strings''
      else accepted_then (parse_messages ms) (\<lambda>rest. AiAccepted
        (\<lparr>cm_role = text_of (at_key m ''role''), cm_content = text_of (at_key m ''content'')\<rparr> # rest)))"

definition parseChatRequest :: "(string \<Rightarrow> JsonText) \<Rightarrow> string \<Rightarrow> OpenAiChatRequest OpenAiParseResult" where
  "parseChatRequest parse body = parse_object parse body (\<lambda>j model.
     if \<not> contains j ''messages'' \<or> \<not> is_array (at_key j ''messages'') then AiRefused ''messages must be an array''
     else if elements (at_key j ''messages'') = [] then AiRefused ''messages must not be empty''
     else accepted_then (parse_messages (elements (at_key j ''messages'')))
       (\<lambda>messages. AiAccepted \<lparr>oh_model = model, oh_messages = messages, oh_sampling = parse_sampling j\<rparr>))"

definition parseEmbeddingRequest :: "(string \<Rightarrow> JsonText) \<Rightarrow> string \<Rightarrow> OpenAiEmbeddingRequest OpenAiParseResult" where
  "parseEmbeddingRequest parse body = parse_object parse body (\<lambda>j model.
     if \<not> contains j ''input'' then AiRefused ''input is required''
     else if is_string (at_key j ''input'') then AiAccepted \<lparr>oe_model = model, oe_input = text_of (at_key j ''input'')\<rparr>
     else AiRefused ''input must be a string'')"

section \<open>Responses\<close>

definition usage_json :: "size_t \<Rightarrow> size_t \<Rightarrow> Json" where
  "usage_json prompt_tokens completion_tokens =
     JObject [(''completion_tokens'', JUnsigned completion_tokens), (''prompt_tokens'', JUnsigned prompt_tokens),
              (''total_tokens'', JUnsigned (size_add prompt_tokens completion_tokens))]"

definition completionResponseJson :: "(Json \<Rightarrow> string + string) \<Rightarrow> OpenAiCompletionResponse \<Rightarrow> string + string" where
  "completionResponseJson dump r = dump (JObject
     [(''choices'', JArray [JObject [(''finish_reason'', JString (cr_finish_reason r)), (''index'', JInteger 0),
                                     (''text'', JString (cr_text r))]]),
      (''created'', JInteger (cr_created r)), (''id'', JString (cr_id r)), (''model'', JString (cr_model r)),
      (''object'', JString (cr_object r)), (''usage'', usage_json (cr_prompt_tokens r) (cr_completion_tokens r))])"

definition chatResponseJson :: "(Json \<Rightarrow> string + string) \<Rightarrow> OpenAiChatResponse \<Rightarrow> string + string" where
  "chatResponseJson dump r = dump (JObject
     [(''choices'', JArray [JObject [(''finish_reason'', JString (hc_finish_reason r)), (''index'', JInteger 0),
         (''message'', JObject [(''content'', JString (cm_content (hc_message r))),
                                (''role'', JString (cm_role (hc_message r)))])]]),
      (''created'', JInteger (hc_created r)), (''id'', JString (hc_id r)), (''model'', JString (hc_model r)),
      (''object'', JString (hc_object r)), (''usage'', usage_json (hc_prompt_tokens r) (hc_completion_tokens r))])"

definition embeddingResponseJson :: "(Json \<Rightarrow> string + string) \<Rightarrow> OpenAiEmbeddingResponse \<Rightarrow> string + string" where
  "embeddingResponseJson dump r = dump (JObject
     [(''data'', JArray [JObject [(''embedding'', JArray (map number_json (mb_embedding r))), (''index'', JInteger 0),
                                  (''object'', JString ''embedding'')]]),
      (''model'', JString (mb_model r)), (''object'', JString ''list''),
      (''usage'', JObject [(''prompt_tokens'', JUnsigned (mb_prompt_tokens r)),
                           (''total_tokens'', JUnsigned (mb_prompt_tokens r))])])"

abbreviation event_end :: string where
  "event_end \<equiv> [CHR 0x0A, CHR 0x0A]"

definition chunk_json :: "string \<Rightarrow> string \<Rightarrow> string \<Rightarrow> int64_t \<Rightarrow> string \<Rightarrow> string \<Rightarrow> Json" where
  "chunk_json chunk_id obj model created delta_content finish_reason = JObject
     [(''choices'', JArray [JObject [(''delta'', JObject [(''content'', JString delta_content)]),
         (''finish_reason'', if finish_reason \<noteq> [] then JString finish_reason else JNull), (''index'', JInteger 0)]]),
      (''created'', JInteger created), (''id'', JString chunk_id), (''model'', JString model),
      (''object'', JString obj)]"

definition streamingChunkJson ::
  "(Json \<Rightarrow> string + string) \<Rightarrow> string \<Rightarrow> string \<Rightarrow> string \<Rightarrow> int64_t \<Rightarrow> string \<Rightarrow> string \<Rightarrow> string + string" where
  "streamingChunkJson dump chunk_id obj model created delta_content finish_reason =
     map_sum id (\<lambda>t. ''data: '' @ t @ event_end) (dump (chunk_json chunk_id obj model created delta_content finish_reason))"

definition streamingDoneJson :: string where
  "streamingDoneJson = ''data: [DONE]'' @ event_end"

end
