(* ===== verification/Logging.thy ===== *)
theory Logging
  imports Json
begin

text \<open>
  \<open>Logging.cpp\<close>: log events and the line each is written as. The clock is the text of the timestamp.
\<close>

record LogEvent =
  le_severity :: string
  le_message :: string
  le_request_id :: string
  le_model :: string
  le_model_version :: string
  le_backend :: string
  le_route :: string
  le_status :: int
  le_queue_latency_ns :: uint64_t
  le_infer_latency_ns :: uint64_t
  le_total_latency_ns :: uint64_t
  le_batch_size :: uint64_t
  le_error_code :: string
  le_request_bytes :: size_t
  le_response_bytes :: size_t

definition new_event :: LogEvent where
  "new_event = \<lparr>le_severity = ''info'', le_message = [], le_request_id = [], le_model = [], le_model_version = [],
     le_backend = [], le_route = [], le_status = 0, le_queue_latency_ns = 0, le_infer_latency_ns = 0,
     le_total_latency_ns = 0, le_batch_size = 0, le_error_code = [], le_request_bytes = 0, le_response_bytes = 0\<rparr>"

definition text_member :: "string \<Rightarrow> string \<Rightarrow> (string \<times> Json) list" where
  "text_member key v = (if v = [] then [] else [(key, JString v)])"

definition count_member :: "string \<Rightarrow> nat \<Rightarrow> (string \<times> Json) list" where
  "count_member key n = (if n > 0 then [(key, JUnsigned n)] else [])"

text \<open>The members in the order of their keys.\<close>

definition event_json :: "string \<Rightarrow> LogEvent \<Rightarrow> Json" where
  "event_json timestamp e = JObject
     (text_member ''backend'' (le_backend e) @
      count_member ''batch_size'' (unat (le_batch_size e)) @
      text_member ''error_code'' (le_error_code e) @
      count_member ''infer_latency_ns'' (unat (le_infer_latency_ns e)) @
      [(''message'', JString (le_message e))] @
      text_member ''model'' (le_model e) @
      text_member ''model_version'' (le_model_version e) @
      count_member ''queue_latency_ns'' (unat (le_queue_latency_ns e)) @
      count_member ''request_bytes'' (le_request_bytes e) @
      text_member ''request_id'' (le_request_id e) @
      count_member ''response_bytes'' (le_response_bytes e) @
      text_member ''route'' (le_route e) @
      [(''severity'', JString (le_severity e))] @
      (if le_status e \<noteq> 0 then [(''status'', JInteger (le_status e))] else []) @
      [(''timestamp'', JString timestamp)] @
      count_member ''total_latency_ns'' (unat (le_total_latency_ns e)))"

text \<open>\<open>writeEvent\<close>: the line, or the exception of the printer, which leaves the logger.\<close>

definition writeEvent :: "(Json \<Rightarrow> string + string) \<Rightarrow> string \<Rightarrow> LogEvent \<Rightarrow> string + string" where
  "writeEvent dump timestamp e = map_sum id (\<lambda>t. t @ [CHR 0x0A]) (dump (event_json timestamp e))"

definition log_info :: "string \<Rightarrow> LogEvent" where
  "log_info msg = new_event\<lparr>le_severity := ''info'', le_message := msg\<rparr>"

definition log_warn :: "string \<Rightarrow> LogEvent" where
  "log_warn msg = new_event\<lparr>le_severity := ''warn'', le_message := msg\<rparr>"

definition log_error :: "string \<Rightarrow> LogEvent" where
  "log_error msg = new_event\<lparr>le_severity := ''error'', le_message := msg\<rparr>"

end
