(* ===== verification/Kserve_Runtime.thy ===== *)
theory Kserve_Runtime
  imports Registry Metrics_Registry OpenAi_Codec Admin_Codec Model_Repository Logging Http
begin

text \<open>
  \<open>KServeRuntime.cpp\<close>, \<open>RequestPipeline.hpp\<close> and \<open>KServeErrors.hpp\<close>: the handler behind the HTTP server. It
  finds the route of a request and answers it from the model registry and the metrics registry.

  A handler works on the state below. What it takes from elsewhere is an environment: the JSON library, the
  clocks, the random bytes, the files of the repository, the builder of pipeline executors, and
  \<open>Scheduler::submit\<close> as its caller sees it, whose threads are modelled with the schedulers. A handler that
  waits for another thread's load is \<open>Blocked\<close>.
\<close>

section \<open>State and environment\<close>

record RuntimeState =
  ru_registry :: ModelRegistry
  ru_metrics :: MetricsRegistry
  ru_log :: "LogEvent list"
  ru_draws :: nat \<comment> \<open>how often the random generator was asked for an identifier\<close>

text \<open>
  \<open>en_submit\<close> is given the scheduler, the request and, for a streaming request, which tokens the callback
  takes; it gives the tokens the callback took and the result.
\<close>

record RuntimeEnv =
  en_parse :: "string \<Rightarrow> JsonText"
  en_dump :: "Json \<Rightarrow> string + string"
  en_dump_replace :: "Json \<Rightarrow> string"
  en_timestamp :: string
  en_created :: int64_t
  en_now :: time_point
  en_version :: string
  en_random :: "nat \<Rightarrow> nat list"
  en_memory :: uint64_t
  en_library :: NeuriploLibrary
  en_backends :: BackendRegistry
  en_pipeline :: "RuntimeConfig \<Rightarrow> (string \<Rightarrow> string \<Rightarrow> InferSnapshot option) \<Rightarrow> string \<Rightarrow> FactoryOutcome"
  en_files :: FileSystem
  en_priority :: "string option"
  en_submit :: "nat \<Rightarrow> ExecutionRequest \<Rightarrow> (string \<Rightarrow> bool) \<Rightarrow> SchedulerStore \<Rightarrow>
                  (string list \<times> SchedulerResult) \<times> SchedulerStore"

type_synonym Response = "RuntimeState HttpResponse"
type_synonym 'a action = "(RuntimeState, 'a) run"

definition registry :: "ModelRegistry action" where
  "registry s = (Value (ru_registry s), s)"

definition on_metrics :: "(MetricsRegistry \<Rightarrow> MetricsRegistry) \<Rightarrow> unit action" where
  "on_metrics f s = (Value (), s\<lparr>ru_metrics := f (ru_metrics s)\<rparr>)"

text \<open>\<open>defaultLogger().event\<close>: the printer of the line may throw.\<close>

definition log_event :: "RuntimeEnv \<Rightarrow> LogEvent \<Rightarrow> unit action" where
  "log_event env e s =
     (case writeEvent (en_dump env) (en_timestamp env) e of
        Inl what \<Rightarrow> (Exception what, s)
      | Inr _ \<Rightarrow> (Value (), s\<lparr>ru_log := ru_log s @ [e]\<rparr>))"

section \<open>KServeErrors.hpp\<close>

definition httpStatusForCode :: "string \<Rightarrow> int" where
  "httpStatusForCode code =
     (if code = ''INVALID_ARGUMENT'' then 400 else if code = ''MODEL_NOT_FOUND'' then 404
      else if code = ''MODEL_NOT_READY'' then 409 else if code = ''QUEUE_FULL'' then 429
      else if code = ''DEADLINE_EXCEEDED'' then 504 else if code = ''BACKEND_ERROR'' \<or> code = ''INTERNAL'' then 500
      else if code = ''UNAVAILABLE'' then 503 else if code = ''NOT_FOUND'' then 404
      else if code = ''METHOD_NOT_ALLOWED'' then 405 else if code = ''PAYLOAD_TOO_LARGE'' then 413 else 500)"

section \<open>Helpers\<close>

definition json_response :: "int \<Rightarrow> string \<Rightarrow> Response" where
  "json_response status body =
     new_response\<lparr>hr_status := status, hr_content_type := ''application/json'', hr_body := body\<rparr>"

definition error_response :: "RuntimeEnv \<Rightarrow> int \<Rightarrow> string \<Rightarrow> string \<Rightarrow> Response action" where
  "error_response env status code message =
     bind_run (of_sum (en_dump env (error_json code message))) (\<lambda>body. give (json_response status body))"

text \<open>\<open>std::strtoull\<close> to the end of the text, as C sees it: up to the first NUL; the largest value on overflow.\<close>

definition inferenceHeaderLength :: "HttpRequest \<Rightarrow> size_t option" where
  "inferenceHeaderLength request =
     (case map_of (hq_headers request) ''Inference-Header-Content-Length'' of
        None \<Rightarrow> None
      | Some v \<Rightarrow>
          let t = dropWhile is_space (takeWhile (\<lambda>c. c \<noteq> CHR 0x00) v);
              negative = (t \<noteq> [] \<and> hd t = CHR ''-'');
              u = (if t \<noteq> [] \<and> hd t \<in> {CHR ''-'', CHR ''+''} then tl t else t)
          in if u = [] \<or> \<not> list_all is_digit u then None
             else if digits_value u \<ge> size_limit then Some (size_limit - 1)
             else Some (if negative then (size_limit - digits_value u) mod size_limit else digits_value u))"

definition extractModelRouteTail :: "string \<Rightarrow> string" where
  "extractModelRouteTail path = (if startsWith path ''/v2/models/'' then drop 11 path else [])"

text \<open>A text up to the first slash, and from it on.\<close>

definition split_slash :: "string \<Rightarrow> string \<times> string" where
  "split_slash s = (case find_char (CHR ''/'') s of None \<Rightarrow> (s, []) | Some i \<Rightarrow> (take i s, drop i s))"

definition parseVersionedRoute :: "string \<Rightarrow> (string \<times> string) option" where
  "parseVersionedRoute route = (if startsWith route ''/versions/'' then Some (split_slash (drop 10 route)) else None)"

definition modelStateError :: "RuntimeEnv \<Rightarrow> InferSnapshot \<Rightarrow> Response action" where
  "modelStateError env n =
     (case sn_state n of
        Failed \<Rightarrow> error_response env 503 ''UNAVAILABLE''
          (case sn_load_error n of Some e \<Rightarrow> e | None \<Rightarrow> ''model failed to load'')
      | Unloaded \<Rightarrow> error_response env 503 ''UNAVAILABLE'' ''model has been unloaded''
      | Loading \<Rightarrow> error_response env 503 ''UNAVAILABLE'' ''model is still loading''
      | Unavailable \<Rightarrow> error_response env 503 ''UNAVAILABLE'' ''model is unavailable''
      | _ \<Rightarrow> error_response env 409 ''MODEL_NOT_READY'' (''model is not ready: '' @ sn_name n))"

fun errorCodeFor :: "SchedulerError \<Rightarrow> string" where
  "errorCodeFor Overloaded = ''QUEUE_FULL''"
| "errorCodeFor Timeout = ''DEADLINE_EXCEEDED''"
| "errorCodeFor Draining = ''UNAVAILABLE''"
| "errorCodeFor SchedulerUnavailable = ''UNAVAILABLE''"
| "errorCodeFor NoError = ''INTERNAL''"

fun errorMessageFor :: "SchedulerError \<Rightarrow> string" where
  "errorMessageFor Overloaded = ''request queue is full''"
| "errorMessageFor Timeout = ''request exceeded deadline''"
| "errorMessageFor Draining = ''model is unavailable''"
| "errorMessageFor SchedulerUnavailable = ''model is unavailable''"
| "errorMessageFor NoError = ''internal error''"

text \<open>An identifier from sixteen random bytes: a version 4 UUID.\<close>

definition hex_char :: "nat \<Rightarrow> char" where
  "hex_char d = ''0123456789abcdef'' ! d"

definition hex2 :: "nat \<Rightarrow> string" where
  "hex2 b = [hex_char (b div 16 mod 16), hex_char (b mod 16)]"

definition uuid_text :: "nat list \<Rightarrow> string" where
  "uuid_text bytes =
     (let b = bytes[6 := bytes ! 6 mod 16 + 64, 8 := bytes ! 8 mod 64 + 128];
          part = (\<lambda>i n. concat (map hex2 (take n (drop i b))))
      in part 0 4 @ ''-'' @ part 4 2 @ ''-'' @ part 6 2 @ ''-'' @ part 8 2 @ ''-'' @ part 10 6)"

definition generateRequestId :: "RuntimeEnv \<Rightarrow> string action" where
  "generateRequestId env s = (Value (uuid_text (en_random env (ru_draws s))), s\<lparr>ru_draws := ru_draws s + 1\<rparr>)"

definition request_id_of :: "RuntimeEnv \<Rightarrow> string option \<Rightarrow> string action" where
  "request_id_of env rid = (case rid of Some i \<Rightarrow> give i | None \<Rightarrow> generateRequestId env)"

definition modelIsLlm :: "RuntimeEnv \<Rightarrow> InferSnapshot \<Rightarrow> string \<Rightarrow> bool" where
  "modelIsLlm env n backend =
     usesLlmScheduler (backendKind (en_library env) (en_backends env))
       (if find_text ''llamacpp'' (mm_platform (sn_metadata n)) \<noteq> None \<or>
           find_text ''cactus'' (mm_platform (sn_metadata n)) \<noteq> None \<or>
           find_text ''ggml'' (mm_platform (sn_metadata n)) \<noteq> None then ''llm'' else ''tensor'') backend"

definition backendIsLlm :: "RuntimeEnv \<Rightarrow> string \<Rightarrow> bool" where
  "backendIsLlm env backend =
     (case findBackendCapability (en_library env) (en_backends env) backend of
        None \<Rightarrow> False | Some c \<Rightarrow> bc_kind c = LlmKind)"

text \<open>The conversion to \<open>size_t\<close> is undefined outside its range.\<close>

definition estimateTokens :: "string \<Rightarrow> double \<Rightarrow> size_t action" where
  "estimateTokens txt tokens_per_char s =
     (let d = nearest_double (nearest_double (double_of_int (int (length txt)) * tokens_per_char) + 1 / 2)
      in if 0 \<le> trunc d \<and> trunc d < 2 ^ 64 then (Value (nat (trunc d)), s) else (Undefined, s))"

fun sched_isDraining :: "SchedulerObject \<Rightarrow> bool" where
  "sched_isDraining (TensorScheduler s) = core_isDraining s"
| "sched_isDraining (GenerationScheduler s) = core_isDraining s"

definition snapshot_isDraining :: "SchedulerStore \<Rightarrow> InferSnapshot \<Rightarrow> bool" where
  "snapshot_isDraining st n \<longleftrightarrow> (case sn_scheduler n of None \<Rightarrow> False | Some p \<Rightarrow> sched_isDraining (st ! p))"

text \<open>A call of \<open>submit\<close> through a scheduler pointer; a null pointer is undefined behaviour.\<close>

definition submit_to ::
  "RuntimeEnv \<Rightarrow> nat option \<Rightarrow> ExecutionRequest \<Rightarrow> (string \<Rightarrow> bool) \<Rightarrow> (string list \<times> SchedulerResult) action" where
  "submit_to env scheduler request accepts s =
     (case scheduler of
        None \<Rightarrow> (Undefined, s)
      | Some p \<Rightarrow>
          (let (r, st) = en_submit env p request accepts (rg_schedulers (ru_registry s))
           in (Value r, s\<lparr>ru_registry := (ru_registry s)\<lparr>rg_schedulers := st\<rparr>\<rparr>)))"

section \<open>Calls on the registry\<close>

definition of_call :: "'a Call \<Rightarrow> 'a action" where
  "of_call c s = (case c of Returns x \<Rightarrow> (Value x, s) | Throws what \<Rightarrow> (Exception what, s) | ThrowsOther \<Rightarrow> (OtherException, s))"

definition on_registry :: "(ModelRegistry \<Rightarrow> bool \<times> ModelRegistry) \<Rightarrow> bool action" where
  "on_registry f s = (let (b, r) = f (ru_registry s) in (Value b, s\<lparr>ru_registry := r\<rparr>))"

definition build_call ::
  "RuntimeEnv \<Rightarrow> RuntimeConfig \<Rightarrow> (ExecutorFactory \<Rightarrow> ModelRegistry \<Rightarrow> (bool \<times> ModelRegistry) option) \<Rightarrow> bool action" where
  "build_call env config call s =
     (case factory_for (en_library env) (en_backends env) (en_pipeline env) config (ru_registry s) of
        Throws what \<Rightarrow> (Exception what, s)
      | ThrowsOther \<Rightarrow> (OtherException, s)
      | Returns factory \<Rightarrow>
          (case call factory (ru_registry s) of
             None \<Rightarrow> (Blocked, s)
           | Some (b, r) \<Rightarrow> (Value b, s\<lparr>ru_registry := r\<rparr>)))"

definition kind_of :: "RuntimeEnv \<Rightarrow> string \<Rightarrow> BackendKind" where
  "kind_of env = backendKind (en_library env) (en_backends env)"

definition load_call :: "RuntimeEnv \<Rightarrow> RuntimeConfig \<Rightarrow> bool action" where
  "load_call env config = build_call env config (\<lambda>factory. loadModel (kind_of env) (en_now env) factory config)"

definition reload_call :: "RuntimeEnv \<Rightarrow> string \<Rightarrow> RuntimeConfig \<Rightarrow> bool action" where
  "reload_call env model_name config =
     build_call env config (\<lambda>factory. reload (kind_of env) (en_now env) factory model_name config)"

definition switch_call :: "RuntimeEnv \<Rightarrow> string \<Rightarrow> string \<Rightarrow> RuntimeConfig \<Rightarrow> bool action" where
  "switch_call env model_name version config =
     build_call env config (\<lambda>factory. switchVersion (kind_of env) (en_now env) factory model_name version config)"

section \<open>Health, metadata, metrics\<close>

definition serverMetadata :: "RuntimeEnv \<Rightarrow> Response action" where
  "serverMetadata env =
     bind_run (of_sum (en_dump env (JObject [(''extensions'', JArray []), (''name'', JString ''neuriplo-kserve-runtime''),
                                             (''version'', JString (en_version env))])))
       (\<lambda>body. give (json_response 200 body))"

definition flag_text :: "string \<Rightarrow> string" where
  "flag_text name = ''{'' @ [CHR 0x22] @ name @ [CHR 0x22] @ '':true}''"

definition live :: "Response action" where
  "live = give (json_response 200 (flag_text ''live''))"

definition ready_route :: "RuntimeEnv \<Rightarrow> Response action" where
  "ready_route env = bind_run registry (\<lambda>r.
     if \<not> allReady r then error_response env 503 ''UNAVAILABLE'' ''runtime is not ready''
     else give (json_response 200 (flag_text ''ready'')))"

text \<open>The loop of \<open>metricsPage\<close> over the models.\<close>

definition publish_metrics :: "ModelRegistry \<Rightarrow> string \<Rightarrow> MetricsRegistry \<Rightarrow> MetricsRegistry" where
  "publish_metrics r name mr =
     (let version = (if length (listModels r) = 1 \<and> \<not> rg_repository_mode r then mr_model_version mr
                     else case defaultVersion r name of Some v \<Rightarrow> v | None \<Rightarrow> ''1'')
      in setSchedulerMetrics name version (schedulerMetrics r name) mr)"

definition metricsPage :: "RuntimeEnv \<Rightarrow> Response action" where
  "metricsPage env s =
     (let r = ru_registry s; mr = fold (publish_metrics r) (listModels r) (ru_metrics s)
      in (Value (new_response\<lparr>hr_status := 200, hr_content_type := ''text/plain; version=0.0.4'',
                   hr_body := renderMetrics (en_memory env) mr\<rparr>), s\<lparr>ru_metrics := mr\<rparr>))"

definition not_found_model :: "RuntimeEnv \<Rightarrow> string \<Rightarrow> Response action" where
  "not_found_model env model_name = error_response env 404 ''MODEL_NOT_FOUND'' (''model not found: '' @ model_name)"

definition modelMetadata :: "RuntimeEnv \<Rightarrow> string \<Rightarrow> string \<Rightarrow> Response action" where
  "modelMetadata env model_name model_version = bind_run registry (\<lambda>r.
     case (if model_version = [] then find_model r model_name else findVersion r model_name model_version) of
       None \<Rightarrow> not_found_model env model_name
     | Some md \<Rightarrow> bind_run (of_sum (modelMetadataJson (en_dump env) md)) (\<lambda>body. give (json_response 200 body)))"

definition not_ready_error :: "RuntimeEnv \<Rightarrow> ModelRegistry \<Rightarrow> InferSnapshot \<Rightarrow> Response action" where
  "not_ready_error env r n =
     (if snapshot_isDraining (rg_schedulers r) n then error_response env 503 ''UNAVAILABLE'' ''model is draining''
      else modelStateError env n)"

definition modelReady :: "RuntimeEnv \<Rightarrow> string \<Rightarrow> string \<Rightarrow> Response action" where
  "modelReady env model_name model_version = bind_run registry (\<lambda>r.
     case (if model_version = [] then findHandle r model_name else findHandleVersion r model_name model_version) of
       None \<Rightarrow> not_found_model env model_name
     | Some n \<Rightarrow> if \<not> snapshot_isReady (rg_schedulers r) n then not_ready_error env r n
                 else give (json_response 200 (flag_text ''ready'')))"

end
