(* ===== verification/Runtime_Infer.thy ===== *)
theory Runtime_Infer
  imports Kserve_Runtime
begin

text \<open>
  The inference routes of \<open>KServeRuntime.cpp\<close>: the V2 route with its stages (\<open>RequestPipeline.hpp\<close>) and the
  OpenAI-compatible ones, streaming included.
\<close>

section \<open>Stages\<close>

record InferContext =
  ic_request :: HttpRequest
  ic_model_name :: string
  ic_model_version :: string
  ic_handle :: "InferSnapshot option"
  ic_parsed :: InferenceRequest
  ic_scheduled :: SchedulerResult

definition empty_inference :: InferenceRequest where
  "empty_inference = \<lparr>ir_id = None, ir_inputs = [], ir_requested_outputs = [], ir_llm_params = None\<rparr>"

type_synonym PipelineStage = "InferContext \<Rightarrow> (Response option \<times> InferContext) action"

text \<open>\<open>RequestPipeline::run\<close>: the first stage that answers ends the run.\<close>

fun run_pipeline :: "PipelineStage list \<Rightarrow> InferContext \<Rightarrow> Response action" where
  "run_pipeline [] ctx = give new_response"
| "run_pipeline (stage # stages) ctx =
     bind_run (stage ctx) (\<lambda>(response, ctx1). case response of Some r \<Rightarrow> give r | None \<Rightarrow> run_pipeline stages ctx1)"

definition refuse_with :: "'a \<Rightarrow> Response action \<Rightarrow> (Response option \<times> 'a) action" where
  "refuse_with x m = bind_run m (\<lambda>r. give (Some r, x))"

definition validateInferModel :: "RuntimeEnv \<Rightarrow> string \<Rightarrow> string \<Rightarrow> (Response option \<times> InferSnapshot option) action" where
  "validateInferModel env model_name model_version = bind_run registry (\<lambda>r.
     let handle = findHandleVersion r model_name model_version in
     case handle of
       None \<Rightarrow> refuse_with handle (not_found_model env model_name)
     | Some n \<Rightarrow>
         if \<not> snapshot_isReady (rg_schedulers r) n then refuse_with handle (not_ready_error env r n)
         else if sn_scheduler n = None
         then refuse_with handle (error_response env 503 ''UNAVAILABLE'' ''model scheduler is unavailable'')
         else give (None, handle))"

definition with_payload :: "ModelRegistry \<Rightarrow> string \<Rightarrow> string \<Rightarrow> string" where
  "with_payload r message body = message @ (if rg_log_payloads r then '' - payload: '' @ body else [])"

definition decode_body :: "RuntimeEnv \<Rightarrow> HttpRequest \<Rightarrow> ModelMetadata \<Rightarrow> InferenceRequest InferenceParseResult" where
  "decode_body env request md =
     (case inferenceHeaderLength request of
        Some n \<Rightarrow> parseInferenceRequest_framed (en_parse env) (hq_body request) md n
      | None \<Rightarrow> parseInferenceRequest (en_parse env) (en_dump env) (hq_body request) md)"

definition decodeAndAdmit ::
  "RuntimeEnv \<Rightarrow> HttpRequest \<Rightarrow> string \<Rightarrow> string \<Rightarrow> InferSnapshot \<Rightarrow> (Response option \<times> InferenceRequest) action" where
  "decodeAndAdmit env request model_name model_version n =
     (case decode_body env request (sn_metadata n) of
        Rejected message \<Rightarrow> refuse_with empty_inference (error_response env 400 ''INVALID_ARGUMENT'' message)
      | Raised what \<Rightarrow> (\<lambda>s. (Exception what, s))
      | UndefinedCast \<Rightarrow> (\<lambda>s. (Undefined, s))
      | Decoded parsed \<Rightarrow>
          bind_run (request_id_of env (ir_id parsed)) (\<lambda>rid.
          bind_run registry (\<lambda>r.
          bind_run (log_event env (new_event\<lparr>le_request_id := rid, le_model := model_name,
                      le_model_version := model_version, le_route := hq_path request,
                      le_request_bytes := length (hq_body request),
                      le_message := with_payload r ''span: admit'' (hq_body request)\<rparr>)) (\<lambda>_.
          give (None, parsed)))))"

definition execution_request :: "InferenceRequest \<Rightarrow> ExecutionRequest" where
  "execution_request parsed = empty_request\<lparr>er_id := ir_id parsed, er_inputs := ir_inputs parsed,
     er_requested_outputs := ir_requested_outputs parsed, er_llm_params := ir_llm_params parsed\<rparr>"

definition scheduleInfer ::
  "RuntimeEnv \<Rightarrow> string \<Rightarrow> string \<Rightarrow> InferenceRequest \<Rightarrow> InferSnapshot \<Rightarrow> SchedulerResult action" where
  "scheduleInfer env model_name model_version parsed n =
     bind_run (request_id_of env (ir_id parsed)) (\<lambda>rid.
     let span = (\<lambda>message. new_event\<lparr>le_message := message, le_request_id := rid, le_model := model_name,
                   le_model_version := model_version\<rparr>) in
     bind_run (log_event env (span ''span: queue'')) (\<lambda>_.
     bind_run (submit_to env (sn_scheduler n) (execution_request parsed) (\<lambda>_. True)) (\<lambda>(_, scheduled).
     bind_run (log_event env ((span ''span: batch form'')\<lparr>le_batch_size := sr_batch_size scheduled,
                 le_queue_latency_ns := sr_queue_latency_ns scheduled\<rparr>)) (\<lambda>_.
     bind_run (log_event env ((span ''span: infer'')\<lparr>le_batch_size := sr_batch_size scheduled,
                 le_infer_latency_ns := sr_execution_latency_ns scheduled\<rparr>)) (\<lambda>_.
     bind_run (log_event env ((span ''span: split'')\<lparr>le_batch_size := sr_batch_size scheduled\<rparr>)) (\<lambda>_.
     give scheduled))))))"

section \<open>Answers\<close>

definition result_code :: "SchedulerResult \<Rightarrow> string" where
  "result_code scheduled =
     (if sr_error_code scheduled = [] then errorCodeFor (sr_scheduler_error scheduled) else sr_error_code scheduled)"

definition respond_event :: "string \<Rightarrow> string \<Rightarrow> HttpRequest \<Rightarrow> string \<Rightarrow> int \<Rightarrow> Response \<Rightarrow> LogEvent" where
  "respond_event model_name model_version request rid status res =
     new_event\<lparr>le_request_id := rid, le_model := model_name, le_model_version := model_version,
       le_route := hq_path request, le_status := status, le_request_bytes := length (hq_body request),
       le_response_bytes := length (hr_body res)\<rparr>"

definition with_latencies :: "SchedulerResult \<Rightarrow> LogEvent \<Rightarrow> LogEvent" where
  "with_latencies scheduled e = e\<lparr>le_queue_latency_ns := sr_queue_latency_ns scheduled,
     le_infer_latency_ns := sr_execution_latency_ns scheduled, le_total_latency_ns := sr_total_latency_ns scheduled,
     le_batch_size := sr_batch_size scheduled\<rparr>"

definition failure_text :: "string \<Rightarrow> string" where
  "failure_text code = ''span: respond (failed) - infer request '' @ code"

text \<open>The scheduler reports a failure.\<close>

definition encode_scheduler_failure ::
  "RuntimeEnv \<Rightarrow> string \<Rightarrow> string \<Rightarrow> HttpRequest \<Rightarrow> string \<Rightarrow> SchedulerResult \<Rightarrow> Response action" where
  "encode_scheduler_failure env model_name model_version request rid scheduled =
     (let code = result_code scheduled;
          msg = (if sr_error_message scheduled = [] then errorMessageFor (sr_scheduler_error scheduled)
                 else sr_error_message scheduled);
          status = httpStatusForCode code
      in bind_run (on_metrics (recordInferRequest model_name (hq_method request) status 0 0 0 0)) (\<lambda>_.
         bind_run (error_response env status code msg) (\<lambda>err_res.
         bind_run registry (\<lambda>r.
         bind_run (log_event env ((respond_event model_name model_version request rid status err_res)\<lparr>
           le_severity := ''warn'', le_error_code := code,
           le_message := with_payload r (failure_text code) (hr_body err_res)\<rparr>)) (\<lambda>_.
         give err_res)))))"

text \<open>The scheduler reports success and the executor's response a failure.\<close>

definition encode_backend_failure ::
  "RuntimeEnv \<Rightarrow> string \<Rightarrow> string \<Rightarrow> HttpRequest \<Rightarrow> string \<Rightarrow> SchedulerResult \<Rightarrow> Response action" where
  "encode_backend_failure env model_name model_version request rid scheduled =
     (let response = sr_response scheduled;
          status = (if rs_error_code response = ''INVALID_ARGUMENT'' then 400 else 500);
          code = (if rs_error_code response = [] then ''BACKEND_ERROR'' else rs_error_code response);
          message = (if rs_error_message response = [] then ''backend inference failed'' else rs_error_message response)
      in bind_run (on_metrics (recordInferRequest model_name (hq_method request) status (sr_queue_latency_ns scheduled)
           (sr_execution_latency_ns scheduled) (sr_total_latency_ns scheduled) (sr_batch_size scheduled))) (\<lambda>_.
         bind_run (error_response env status code message) (\<lambda>err_res.
         bind_run registry (\<lambda>r.
         bind_run (log_event env ((with_latencies scheduled
             (respond_event model_name model_version request rid status err_res))\<lparr>
           le_severity := ''error'', le_error_code := code,
           le_message := with_payload r ''span: respond (failed) - infer request failed'' (hr_body err_res)\<rparr>)) (\<lambda>_.
         give err_res)))))"

definition success_response ::
  "RuntimeEnv \<Rightarrow> string \<Rightarrow> string \<Rightarrow> HttpRequest \<Rightarrow> InferenceRequest \<Rightarrow> ExecutionResponse \<Rightarrow> Response action" where
  "success_response env model_name model_version request parsed response =
     (if inferenceHeaderLength request \<noteq> None
      then bind_run (of_sum (inferenceResponseBinary (en_dump env) model_name model_version parsed response)) (\<lambda>framed.
        give (new_response\<lparr>hr_status := 200, hr_content_type := ''application/octet-stream'', hr_body := bi_body framed,
          hr_headers := [(''Inference-Header-Content-Length'', to_string (bi_header_length framed))]\<rparr>))
      else bind_run (of_sum (inferenceResponseJson (en_dump env) model_name model_version parsed response)) (\<lambda>body.
        give (json_response 200 body)))"

definition encode_success ::
  "RuntimeEnv \<Rightarrow> string \<Rightarrow> string \<Rightarrow> HttpRequest \<Rightarrow> string \<Rightarrow> InferenceRequest \<Rightarrow> SchedulerResult \<Rightarrow> Response action" where
  "encode_success env model_name model_version request rid parsed scheduled =
     bind_run (on_metrics (recordInferRequest model_name (hq_method request) 200 (sr_queue_latency_ns scheduled)
       (sr_execution_latency_ns scheduled) (sr_total_latency_ns scheduled) (sr_batch_size scheduled))) (\<lambda>_.
     bind_run (success_response env model_name model_version request parsed (sr_response scheduled)) (\<lambda>res.
     bind_run registry (\<lambda>r.
     bind_run (log_event env ((with_latencies scheduled (respond_event model_name model_version request rid 200 res))\<lparr>
       le_message := with_payload r ''span: respond'' (hr_body res)\<rparr>)) (\<lambda>_.
     give res))))"

definition encodeInferResponse ::
  "RuntimeEnv \<Rightarrow> string \<Rightarrow> string \<Rightarrow> HttpRequest \<Rightarrow> InferenceRequest \<Rightarrow> SchedulerResult \<Rightarrow> Response action" where
  "encodeInferResponse env model_name model_version request parsed scheduled =
     bind_run (request_id_of env (ir_id parsed)) (\<lambda>rid.
       if \<not> sr_ok scheduled then encode_scheduler_failure env model_name model_version request rid scheduled
       else if \<not> rs_ok (sr_response scheduled) then encode_backend_failure env model_name model_version request rid scheduled
       else encode_success env model_name model_version request rid parsed scheduled)"

section \<open>The V2 route\<close>

definition infer_stages :: "RuntimeEnv \<Rightarrow> PipelineStage list" where
  "infer_stages env =
     [\<lambda>ctx. bind_run (validateInferModel env (ic_model_name ctx) (ic_model_version ctx))
        (\<lambda>(response, handle). give (response, ctx\<lparr>ic_handle := handle\<rparr>)),
      \<lambda>ctx. (case ic_handle ctx of
          None \<Rightarrow> (\<lambda>s. (Undefined, s))
        | Some n \<Rightarrow> bind_run (decodeAndAdmit env (ic_request ctx) (ic_model_name ctx) (ic_model_version ctx) n)
            (\<lambda>(response, parsed). give (response, ctx\<lparr>ic_parsed := parsed\<rparr>))),
      \<lambda>ctx. (case ic_handle ctx of
          None \<Rightarrow> (\<lambda>s. (Undefined, s))
        | Some n \<Rightarrow> bind_run (scheduleInfer env (ic_model_name ctx) (ic_model_version ctx) (ic_parsed ctx) n)
            (\<lambda>scheduled. give (None, ctx\<lparr>ic_scheduled := scheduled\<rparr>))),
      \<lambda>ctx. bind_run (encodeInferResponse env (ic_model_name ctx) (ic_model_version ctx) (ic_request ctx)
                        (ic_parsed ctx) (ic_scheduled ctx))
        (\<lambda>response. give (Some response, ctx))]"

definition infer :: "RuntimeEnv \<Rightarrow> string \<Rightarrow> string \<Rightarrow> HttpRequest \<Rightarrow> Response action" where
  "infer env model_name model_version request =
     run_pipeline (infer_stages env) \<lparr>ic_request = request, ic_model_name = model_name, ic_model_version = model_version,
       ic_handle = None, ic_parsed = empty_inference, ic_scheduled = new_result\<rparr>"

section \<open>OpenAI-compatible routes\<close>

definition generation_params :: "Sampling \<Rightarrow> bool \<Rightarrow> LlmGenerationParams" where
  "generation_params sa streaming =
     \<lparr>lp_max_tokens = sa_max_tokens sa, lp_temperature = sa_temperature sa, lp_top_p = sa_top_p sa,
      lp_top_k = None, lp_streaming = streaming\<rparr>"

definition text_tensor :: "string \<Rightarrow> string \<Rightarrow> InputTensor" where
  "text_tensor name content =
     \<lparr>it_name = name, it_datatype = ''BYTES'', it_shape = [1], it_bytes = [], it_string_data = [content]\<rparr>"

definition usable_model :: "RuntimeEnv \<Rightarrow> string \<Rightarrow> (InferSnapshot \<Rightarrow> Response action) \<Rightarrow> Response action" where
  "usable_model env model rest = bind_run registry (\<lambda>r.
     case findHandle r model of
       None \<Rightarrow> not_found_model env model
     | Some n \<Rightarrow>
         if \<not> snapshot_isReady (rg_schedulers r) n then error_response env 503 ''UNAVAILABLE'' ''model is not ready''
         else if sn_scheduler n = None then error_response env 503 ''UNAVAILABLE'' ''model scheduler is unavailable''
         else rest n)"

text \<open>The two errors of a submission, or what follows.\<close>

definition checked_result :: "RuntimeEnv \<Rightarrow> SchedulerResult \<Rightarrow> Response action \<Rightarrow> Response action" where
  "checked_result env scheduled rest =
     (if \<not> sr_ok scheduled
      then error_response env (httpStatusForCode (result_code scheduled)) (result_code scheduled) (sr_error_message scheduled)
      else if \<not> rs_ok (sr_response scheduled)
      then error_response env 500 ''BACKEND_ERROR'' (rs_error_message (sr_response scheduled))
      else rest)"

definition generated_text :: "OutputTensor list \<Rightarrow> string" where
  "generated_text outputs =
     concat (map (\<lambda>t. if ot_datatype t = ''BYTES'' \<and> ot_string_data t \<noteq> [] then hd (ot_string_data t) else []) outputs)"

text \<open>Prompt and completion tokens: estimated, unless the executor counted them.\<close>

definition token_usage :: "string \<Rightarrow> string \<Rightarrow> ExecutionResponse \<Rightarrow> (size_t \<times> size_t) action" where
  "token_usage prompt generated response =
     bind_run registry (\<lambda>r.
     bind_run (estimateTokens prompt (rg_tokens_per_char r)) (\<lambda>p.
     bind_run (estimateTokens generated (rg_tokens_per_char r)) (\<lambda>c.
     give (case rs_llm_metadata response of
             Some m \<Rightarrow> (lm_prompt_tokens m, lm_completion_tokens m) | None \<Rightarrow> (p, c)))))"

definition finish_reason :: "ExecutionResponse \<Rightarrow> string" where
  "finish_reason response = (case rs_llm_metadata response of Some m \<Rightarrow> lm_finish_reason m | None \<Rightarrow> ''stop'')"

text \<open>
  The stream callback keeps a reference to the snapshot the request found, which the registry may have let go
  by the time it runs.
\<close>

definition snapshot_held :: "InferSnapshot \<Rightarrow> ModelRegistry \<Rightarrow> bool" where
  "snapshot_held n r \<longleftrightarrow>
     list_ex (\<lambda>(_, slot). sl_active_snapshot slot = Some n \<or> list_ex (\<lambda>(_, m). m = n) (sl_version_snapshots slot))
       (rg_models r)"

definition stream_callback ::
  "RuntimeEnv \<Rightarrow> InferSnapshot \<Rightarrow> string \<Rightarrow> string \<Rightarrow> string \<Rightarrow> string \<Rightarrow> Sampling \<Rightarrow> int64_t \<Rightarrow>
     RuntimeState \<Rightarrow> (string list \<times> unit Outcome) \<times> RuntimeState" where
  "stream_callback env n rid obj model prompt sa created s =
     (let chunk = (\<lambda>token finish. streamingChunkJson (en_dump env) rid obj model created token finish);
          accepts = (\<lambda>token. \<not> isl (chunk token []));
          request = empty_request\<lparr>er_id := Some rid, er_inputs := [text_tensor ''prompt'' prompt],
            er_llm_params := Some (generation_params sa True), er_cancel_token := Some (CallerToken (ru_draws s)),
            er_streaming_callback := Some (ru_draws s)\<rparr>
      in if \<not> snapshot_held n (ru_registry s) then (([], Undefined), s)
         else
           case submit_to env (sn_scheduler n) request accepts s of
             (Value (tokens, scheduled), s1) \<Rightarrow>
               let pieces = concat (map (\<lambda>token. case chunk token [] of Inr piece \<Rightarrow> [piece] | Inl _ \<Rightarrow> []) tokens);
                   final = (if \<not> sr_ok scheduled
                     then map_sum id (\<lambda>t. ''data: '' @ t @ event_end)
                            (en_dump env (JObject [(''error'', JString (sr_error_message scheduled))]))
                     else chunk [] ''stop'')
               in (case final of
                     Inl what \<Rightarrow> ((pieces, Exception what), s1)
                   | Inr piece \<Rightarrow> ((pieces @ [piece], Value ()), s1))
           | (Exception what, s1) \<Rightarrow> (([], Exception what), s1)
           | (_, s1) \<Rightarrow> (([], Undefined), s1))"

definition streaming_response ::
  "RuntimeEnv \<Rightarrow> InferSnapshot \<Rightarrow> string \<Rightarrow> string \<Rightarrow> string \<Rightarrow> string \<Rightarrow> Sampling \<Rightarrow> Response action" where
  "streaming_response env n id_start obj model prompt sa =
     bind_run (generateRequestId env) (\<lambda>i.
     give (new_response\<lparr>hr_streaming := True,
       hr_stream_callback := Some (stream_callback env n (id_start @ i) obj model prompt sa (en_created env))\<rparr>))"

definition generation_request :: "string \<Rightarrow> string \<Rightarrow> Sampling \<Rightarrow> ExecutionRequest" where
  "generation_request rid prompt sa = empty_request\<lparr>er_id := Some rid, er_inputs := [text_tensor ''prompt'' prompt],
     er_llm_params := Some (generation_params sa False)\<rparr>"

definition completionsStreaming :: "RuntimeEnv \<Rightarrow> OpenAiCompletionRequest \<Rightarrow> InferSnapshot \<Rightarrow> Response action" where
  "completionsStreaming env q n =
     streaming_response env n ''cmpl-'' ''text_completion'' (oc_model q) (oc_prompt q) (oc_sampling q)"

definition completions :: "RuntimeEnv \<Rightarrow> HttpRequest \<Rightarrow> Response action" where
  "completions env request =
     (case parseCompletionRequest (en_parse env) (hq_body request) of
        AiRefused message \<Rightarrow> error_response env 400 ''INVALID_ARGUMENT'' message
      | AiRaised what \<Rightarrow> (\<lambda>s. (Exception what, s))
      | AiAccepted q \<Rightarrow> usable_model env (oc_model q) (\<lambda>n.
          if sa_stream (oc_sampling q) then completionsStreaming env q n
          else
            bind_run (generateRequestId env) (\<lambda>rid.
            bind_run (submit_to env (sn_scheduler n) (generation_request rid (oc_prompt q) (oc_sampling q)) (\<lambda>_. True))
              (\<lambda>(_, scheduled). checked_result env scheduled
                (let response = sr_response scheduled; generated = generated_text (rs_outputs response) in
                 bind_run (token_usage (oc_prompt q) generated response) (\<lambda>(p, c).
                 bind_run (of_sum (completionResponseJson (en_dump env)
                   \<lparr>cr_id = ''cmpl-'' @ rid, cr_object = ''text_completion'', cr_created = en_created env,
                    cr_model = oc_model q, cr_text = generated, cr_finish_reason = finish_reason response,
                    cr_prompt_tokens = p, cr_completion_tokens = c\<rparr>)) (\<lambda>body.
                 give (json_response 200 body))))))))"

definition chat_prompt :: "ChatMessage list \<Rightarrow> string" where
  "chat_prompt messages = concat (map (\<lambda>m. cm_role m @ '': '' @ cm_content m @ [CHR 0x0A]) messages) @ ''assistant: ''"

definition chatCompletionsStreaming :: "RuntimeEnv \<Rightarrow> OpenAiChatRequest \<Rightarrow> InferSnapshot \<Rightarrow> Response action" where
  "chatCompletionsStreaming env q n =
     streaming_response env n ''chatcmpl-'' ''chat.completion.chunk'' (oh_model q) (chat_prompt (oh_messages q)) (oh_sampling q)"

definition chatCompletions :: "RuntimeEnv \<Rightarrow> HttpRequest \<Rightarrow> Response action" where
  "chatCompletions env request =
     (case parseChatRequest (en_parse env) (hq_body request) of
        AiRefused message \<Rightarrow> error_response env 400 ''INVALID_ARGUMENT'' message
      | AiRaised what \<Rightarrow> (\<lambda>s. (Exception what, s))
      | AiAccepted q \<Rightarrow> usable_model env (oh_model q) (\<lambda>n.
          if sa_stream (oh_sampling q) then chatCompletionsStreaming env q n
          else
            bind_run (generateRequestId env) (\<lambda>rid.
            bind_run (submit_to env (sn_scheduler n)
                (generation_request rid (chat_prompt (oh_messages q)) (oh_sampling q)) (\<lambda>_. True))
              (\<lambda>(_, scheduled). checked_result env scheduled
                (let response = sr_response scheduled; generated = generated_text (rs_outputs response) in
                 bind_run (token_usage (cm_content (hd (oh_messages q))) generated response) (\<lambda>(p, c).
                 bind_run (of_sum (chatResponseJson (en_dump env)
                   \<lparr>hc_id = ''chatcmpl-'' @ rid, hc_object = ''chat.completion'', hc_created = en_created env,
                    hc_model = oh_model q, hc_message = \<lparr>cm_role = ''assistant'', cm_content = generated\<rparr>,
                    hc_finish_reason = finish_reason response, hc_prompt_tokens = p, hc_completion_tokens = c\<rparr>)) (\<lambda>body.
                 give (json_response 200 body))))))))"

text \<open>The first output that is not text.\<close>

definition embedding_of :: "OutputTensor list \<Rightarrow> double option list" where
  "embedding_of outputs =
     (case find_first (\<lambda>t. ot_datatype t \<noteq> ''BYTES'') outputs of
        None \<Rightarrow> [] | Some t \<Rightarrow> tensorValuesAsDoubles (ot_datatype t) (ot_bytes t))"

definition embeddings :: "RuntimeEnv \<Rightarrow> HttpRequest \<Rightarrow> Response action" where
  "embeddings env request =
     (case parseEmbeddingRequest (en_parse env) (hq_body request) of
        AiRefused message \<Rightarrow> error_response env 400 ''INVALID_ARGUMENT'' message
      | AiRaised what \<Rightarrow> (\<lambda>s. (Exception what, s))
      | AiAccepted q \<Rightarrow> usable_model env (oe_model q) (\<lambda>n.
          bind_run (generateRequestId env) (\<lambda>rid.
          bind_run (submit_to env (sn_scheduler n)
              (empty_request\<lparr>er_id := Some rid, er_inputs := [text_tensor ''input'' (oe_input q)]\<rparr>) (\<lambda>_. True))
            (\<lambda>(_, scheduled). checked_result env scheduled
              (bind_run registry (\<lambda>r.
               bind_run (estimateTokens (oe_input q) (rg_tokens_per_char r)) (\<lambda>p.
               bind_run (of_sum (embeddingResponseJson (en_dump env)
                 \<lparr>mb_model = oe_model q, mb_embedding = embedding_of (rs_outputs (sr_response scheduled)),
                  mb_prompt_tokens = p\<rparr>)) (\<lambda>body.
               give (json_response 200 body)))))))))"

end
