(* ===== verification/Runtime_Admin.thy ===== *)
theory Runtime_Admin
  imports Runtime_Infer
begin

text \<open>
  The repository and admin routes of \<open>KServeRuntime.cpp\<close> and \<open>KServeRuntime::handle\<close>, which finds the route.
\<close>

section \<open>Repository routes\<close>

text \<open>The filter of the index: an error, or whether only ready models are listed.\<close>

definition ready_filter :: "RuntimeEnv \<Rightarrow> string \<Rightarrow> string + bool" where
  "ready_filter env body =
     (if body = [] then Inr False
      else case en_parse env body of
             JsonParseError what \<Rightarrow> Inl (''invalid JSON: '' @ what)
           | JsonOutOfRange what \<Rightarrow> Inl (''invalid JSON: '' @ what)
           | JsonValue j \<Rightarrow>
               if contains j ''ready'' then
                 if is_boolean (at_key j ''ready'') then Inr (get_bool (at_key j ''ready'')) else Inl ''ready must be a boolean''
               else Inr False)"

definition index_names :: "ModelRegistry \<Rightarrow> string list" where
  "index_names r =
     sort (fold (\<lambda>name names. if name \<in> set names then names else names @ [name]) (catalogModels r) (listModels r))"

definition index_state :: "ModelRegistry \<Rightarrow> string \<Rightarrow> ModelState" where
  "index_state r name =
     (case findHandle r name of
        None \<Rightarrow> Unavailable
      | Some n \<Rightarrow>
          if sn_state n = Ready \<and> \<not> snapshot_isReady (rg_schedulers r) n then Unavailable
          else if sn_state n = Failed then Unavailable else sn_state n)"

definition index_version :: "ModelRegistry \<Rightarrow> string \<Rightarrow> string" where
  "index_version r name =
     (let version = (case defaultVersion r name of Some v \<Rightarrow> v | None \<Rightarrow> [])
      in if version \<noteq> [] then version
         else case catalogConfig r name of Some c \<Rightarrow> rc_model_version c | None \<Rightarrow> version)"

definition index_entry :: "ModelRegistry \<Rightarrow> string \<Rightarrow> Json" where
  "index_entry r name = JObject
     [(''name'', JString name),
      (''reason'', JString (case findHandle r name of
          Some n \<Rightarrow> (case sn_load_error n of Some e \<Rightarrow> e | None \<Rightarrow> []) | None \<Rightarrow> [])),
      (''state'', JString (modelStateName (index_state r name))),
      (''version'', JString (index_version r name))]"

definition repository_index :: "ModelRegistry \<Rightarrow> bool \<Rightarrow> Json" where
  "repository_index r only_ready =
     JArray (map (index_entry r) (filter (\<lambda>name. only_ready \<longrightarrow> index_state r name = Ready) (index_names r)))"

definition indexRoute :: "RuntimeEnv \<Rightarrow> HttpRequest \<Rightarrow> Response action" where
  "indexRoute env request =
     (if hq_method request \<noteq> ''POST''
      then error_response env 405 ''METHOD_NOT_ALLOWED'' ''method not allowed: use POST /v2/repository/index''
      else case ready_filter env (hq_body request) of
             Inl message \<Rightarrow> error_response env 400 ''INVALID_ARGUMENT'' message
           | Inr only_ready \<Rightarrow> bind_run registry (\<lambda>r.
               give (json_response 200 (en_dump_replace env (repository_index r only_ready)))))"

definition unload_route :: "RuntimeEnv \<Rightarrow> string \<Rightarrow> string \<Rightarrow> Response action" where
  "unload_route env model_name success_body =
     bind_run (on_registry (unloadModel model_name)) (\<lambda>unloaded.
       if unloaded then give (json_response 200 success_body)
       else bind_run registry (\<lambda>r.
         if loadOrReloadInProgress r model_name
         then error_response env 409 ''UNAVAILABLE'' (''load/reload in progress: '' @ model_name)
         else not_found_model env model_name))"

text \<open>The reason a load failed, or the message given.\<close>

definition load_message :: "ModelRegistry \<Rightarrow> string \<Rightarrow> string \<Rightarrow> string" where
  "load_message r model_name dflt =
     (case findHandle r model_name of
        Some n \<Rightarrow> (case sn_load_error n of Some e \<Rightarrow> e | None \<Rightarrow> dflt) | None \<Rightarrow> dflt)"

definition load_failed :: "RuntimeEnv \<Rightarrow> string \<Rightarrow> string \<Rightarrow> Response action" where
  "load_failed env model_name message =
     bind_run (on_metrics (recordModelLoadFailure model_name)) (\<lambda>_. error_response env 409 ''UNAVAILABLE'' message)"

definition load_succeeded :: "string \<Rightarrow> string \<Rightarrow> Response action" where
  "load_succeeded model_name body =
     bind_run (on_metrics (recordModelLoadSuccess model_name)) (\<lambda>_. give (json_response 200 body))"

text \<open>After a registered load: success when the model is ready, otherwise its slot is dropped.\<close>

definition settle_load :: "RuntimeEnv \<Rightarrow> string \<Rightarrow> string \<Rightarrow> Response action" where
  "settle_load env model_name success_body = bind_run registry (\<lambda>r.
     if ready r model_name then load_succeeded model_name success_body
     else
       let message = load_message r model_name (''failed to load model: '' @ model_name) in
       bind_run (on_registry (unloadModel model_name)) (\<lambda>_. load_failed env model_name message))"

definition parsed_or_error :: "RuntimeEnv \<Rightarrow> AdminParseResult Call \<Rightarrow> (AdminParseResult \<Rightarrow> Response action) \<Rightarrow> Response action" where
  "parsed_or_error env result rest = bind_run (of_call result) (\<lambda>parsed.
     if \<not> ap_ok parsed then error_response env 400 ''INVALID_ARGUMENT'' (ap_error_message parsed) else rest parsed)"

definition repository_load :: "RuntimeEnv \<Rightarrow> HttpRequest \<Rightarrow> string \<Rightarrow> Response action" where
  "repository_load env request model_name = bind_run registry (\<lambda>r.
     let loaded = modelConfig r model_name; catalog = catalogConfig r model_name;
         defaults = (case loaded of Some c \<Rightarrow> c | None \<Rightarrow> (case catalog of Some c \<Rightarrow> c | None \<Rightarrow> default_config));
         known = (loaded \<noteq> None)
     in parsed_or_error env (parseReloadModelRequest (en_parse env) (en_dump env) (hq_body request) defaults) (\<lambda>parsed.
          if \<not> known \<and> catalog = None \<and> \<not> ap_backend_provided parsed
          then error_response env 404 ''MODEL_NOT_FOUND''
            (''model is not in the repository and not loaded: '' @ model_name @
             ''; provide its backend and model_path in the request body to load a model the repository does not contain'')
          else
            let config = (ap_config parsed)\<lparr>rc_model_name := model_name\<rparr> in
            bind_run (if known then reload_call env model_name config else load_call env config) (\<lambda>registered.
              if registered then settle_load env model_name ''{}''
              else bind_run registry (\<lambda>r1.
                if \<not> known \<and> ready r1 model_name then load_succeeded model_name ''{}''
                else load_failed env model_name
                       (load_message r1 model_name (''failed to load model: '' @ model_name))))))"

definition handleRepository :: "RuntimeEnv \<Rightarrow> HttpRequest \<Rightarrow> Response action" where
  "handleRepository env request =
     (let path = hq_path request; no_route = error_response env 404 ''NOT_FOUND'' ''repository route not found'' in
      if path = ''/v2/repository/index'' then indexRoute env request
      else if \<not> startsWith path ''/v2/repository/models/'' then no_route
      else
        let rest = drop 22 path in
        case find_char (CHR ''/'') rest of
          None \<Rightarrow> no_route
        | Some slash \<Rightarrow>
            let model_name = take slash rest; action = drop (slash + 1) rest in
            if model_name = [] then error_response env 400 ''INVALID_ARGUMENT'' ''model name is required''
            else if action \<noteq> ''load'' \<and> action \<noteq> ''unload'' then no_route
            else if hq_method request \<noteq> ''POST''
            then error_response env 405 ''METHOD_NOT_ALLOWED'' ''method not allowed: use POST''
            else if action = ''unload'' then unload_route env model_name ''{}''
            else repository_load env request model_name)"

section \<open>Admin routes\<close>

definition admin_listing :: "RuntimeEnv \<Rightarrow> ModelRegistry \<Rightarrow> Json" where
  "admin_listing env r = JObject
     [(''backends'', JArray (map JString (availableBackendIds (en_library env) (en_backends env) []))),
      (''models'', JArray (map (\<lambda>name. JObject
          ((case defaultVersion r name of Some v \<Rightarrow> [(''default_version'', JString v)] | None \<Rightarrow> []) @
           [(''name'', JString name), (''ready'', JBool (ready r name))])) (listModels r)))]"

text \<open>A load the registry refused: already loaded, or joined to a load that failed.\<close>

definition load_refused :: "RuntimeEnv \<Rightarrow> string \<Rightarrow> Response action" where
  "load_refused env model_name = bind_run registry (\<lambda>r.
     case findHandle r model_name of
       None \<Rightarrow> error_response env 409 ''UNAVAILABLE'' (''concurrent load failed: '' @ model_name)
     | Some n \<Rightarrow>
         if \<not> snapshot_isReady (rg_schedulers r) n
         then error_response env 409 ''UNAVAILABLE''
           (case sn_load_error n of Some e \<Rightarrow> e | None \<Rightarrow> ''concurrent load failed: '' @ model_name)
         else error_response env 409 ''UNAVAILABLE'' (''model already loaded; use reload: '' @ model_name))"

definition admin_load :: "RuntimeEnv \<Rightarrow> HttpRequest \<Rightarrow> Response action" where
  "admin_load env request =
     parsed_or_error env (parseLoadModelRequest (en_parse env) (en_dump env) (hq_body request)
         (default_config\<lparr>rc_backend := ''stub''\<rparr>)) (\<lambda>parsed.
       let name = rc_model_name (ap_config parsed) in
       bind_run (load_call env (ap_config parsed)) (\<lambda>registered.
         if registered then settle_load env name (flag_text ''loaded'')
         else bind_run (on_metrics (recordModelLoadFailure name)) (\<lambda>_. load_refused env name)))"

definition admin_reload :: "RuntimeEnv \<Rightarrow> HttpRequest \<Rightarrow> string \<Rightarrow> Response action" where
  "admin_reload env request model_name = bind_run registry (\<lambda>r.
     let defaults = (case modelConfig r model_name of Some c \<Rightarrow> c | None \<Rightarrow> default_config\<lparr>rc_backend := ''stub''\<rparr>) in
     parsed_or_error env (parseReloadModelRequest (en_parse env) (en_dump env) (hq_body request) defaults) (\<lambda>parsed.
       bind_run (reload_call env model_name ((ap_config parsed)\<lparr>rc_model_name := model_name\<rparr>)) (\<lambda>reloaded.
         if reloaded then give (json_response 200 (flag_text ''reloaded''))
         else bind_run registry (\<lambda>r1. error_response env 409 ''UNAVAILABLE''
                (load_message r1 model_name (''failed to reload model: '' @ model_name))))))"

text \<open>The root a model was found under, empty for a model that is not from a repository.\<close>

definition repository_root :: "ModelRegistry \<Rightarrow> string \<Rightarrow> string" where
  "repository_root r model_name =
     (case modelConfig r model_name of
        Some c \<Rightarrow> if rc_model_repository c \<noteq> [] then rc_model_repository c
                  else (case catalogConfig r model_name of Some k \<Rightarrow> rc_model_repository k | None \<Rightarrow> [])
      | None \<Rightarrow> (case catalogConfig r model_name of Some k \<Rightarrow> rc_model_repository k | None \<Rightarrow> []))"

definition activate_version :: "RuntimeEnv \<Rightarrow> string \<Rightarrow> string \<Rightarrow> RuntimeConfig \<Rightarrow> Response action" where
  "activate_version env model_name version config =
     bind_run (switch_call env model_name version config) (\<lambda>activated.
       if activated then give (json_response 200 (flag_text ''activated''))
       else error_response env 409 ''UNAVAILABLE''
              (''failed to activate version '' @ version @ '' for model: '' @ model_name))"

definition admin_activate :: "RuntimeEnv \<Rightarrow> HttpRequest \<Rightarrow> string \<Rightarrow> string \<Rightarrow> Response action" where
  "admin_activate env request model_name version_tail =
     (if \<not> endsWith version_tail ''/activate'' then error_response env 404 ''NOT_FOUND'' ''admin route not found''
      else
        let version = take (length version_tail - 9) version_tail in
        if version = [] then error_response env 400 ''INVALID_ARGUMENT'' ''version is required''
        else bind_run registry (\<lambda>r.
          let defaults = (case modelConfig r model_name of Some c \<Rightarrow> c | None \<Rightarrow> default_config\<lparr>rc_backend := ''stub''\<rparr>);
              dir = repository_root r model_name
          in parsed_or_error env (parseSwitchVersionRequest (en_parse env) (en_dump env) (hq_body request) defaults) (\<lambda>parsed.
            if ap_version parsed \<noteq> version
            then error_response env 400 ''INVALID_ARGUMENT''
              (''version mismatch: URL version '' @ quoted version @ '' does not match body version '' @ quoted (ap_version parsed))
            else
              let config = (ap_config parsed)\<lparr>rc_model_name := model_name, rc_model_version := version\<rparr> in
              if dir = [] then activate_version env model_name version config
              else case resolveRepositoryModelVersion (en_files env) (en_priority env) dir model_name version of
                     None \<Rightarrow> error_response env 404 ''NOT_FOUND''
                       (''version '' @ version @ '' has no recognized model file for model: '' @ model_name)
                   | Some v \<Rightarrow> activate_version env model_name (rv_canonical_version v)
                       (config\<lparr>rc_model_path := rv_model_path v, rc_backend := rv_backend v,
                          rc_model_version := rv_canonical_version v\<rparr>))))"

definition handleAdmin :: "RuntimeEnv \<Rightarrow> HttpRequest \<Rightarrow> Response action" where
  "handleAdmin env request =
     (let path = hq_path request; no_route = error_response env 404 ''NOT_FOUND'' ''admin route not found'' in
      if \<not> startsWith path ''/v2/admin/models'' then no_route
      else if hq_method request = ''GET'' \<and> path = ''/v2/admin/models''
      then bind_run registry (\<lambda>r. bind_run (of_sum (en_dump env (admin_listing env r))) (\<lambda>body. give (json_response 200 body)))
      else if hq_method request = ''POST'' \<and> path = ''/v2/admin/models/load'' then admin_load env request
      else
        let admin_tail = drop 17 path in
        if admin_tail = [] then no_route
        else
          let model_name = fst (split_slash admin_tail); action = drop 1 (snd (split_slash admin_tail)) in
          if hq_method request = ''DELETE'' \<and> action = [] then unload_route env model_name (flag_text ''unloaded'')
          else if hq_method request = ''POST'' \<and> action = ''reload'' then admin_reload env request model_name
          else if hq_method request = ''POST'' \<and> startsWith action ''versions/''
          then admin_activate env request model_name (drop 9 action)
          else no_route)"

section \<open>Routing\<close>

definition method_not_allowed :: "RuntimeEnv \<Rightarrow> Response action" where
  "method_not_allowed env = error_response env 405 ''METHOD_NOT_ALLOWED'' ''method not allowed for route''"

definition model_route :: "RuntimeEnv \<Rightarrow> HttpRequest \<Rightarrow> string \<Rightarrow> Response action" where
  "model_route env request route_tail =
     (let method = hq_method request; (model_name, action) = split_slash route_tail;
          no_route = error_response env 404 ''NOT_FOUND'' ''route not found'';
          plain = (if action = [] \<or> action = ''/ready'' \<or> action = ''/infer'' then method_not_allowed env else no_route)
      in if method = ''GET'' \<and> action = [] then modelMetadata env model_name []
         else if method = ''GET'' \<and> action = ''/ready'' then modelReady env model_name []
         else if method = ''POST'' \<and> action = ''/infer'' then bind_run registry (\<lambda>r.
           case defaultVersion r model_name of
             None \<Rightarrow> not_found_model env model_name
           | Some version \<Rightarrow> infer env model_name version request)
         else case parseVersionedRoute action of
           None \<Rightarrow> plain
         | Some (version, version_action) \<Rightarrow>
             if method = ''GET'' \<and> version_action = [] then modelMetadata env model_name version
             else if method = ''GET'' \<and> version_action = ''/ready'' then modelReady env model_name version
             else if method = ''POST'' \<and> version_action = ''/infer'' then infer env model_name version request
             else if version_action = [] \<or> version_action = ''/ready'' \<or> version_action = ''/infer''
             then method_not_allowed env
             else plain)"

definition handle :: "RuntimeEnv \<Rightarrow> HttpRequest \<Rightarrow> Response action" where
  "handle env request =
     (let method = hq_method request; path = hq_path request in
      if method = [] then error_response env 400 ''INVALID_ARGUMENT'' ''malformed HTTP request''
      else if method = ''GET'' \<and> path = ''/v2'' then serverMetadata env
      else if method = ''GET'' \<and> path = ''/v2/health/live'' then live
      else if method = ''GET'' \<and> path = ''/v2/health/ready'' then ready_route env
      else if method = ''GET'' \<and> path = ''/metrics'' then metricsPage env
      else if method = ''POST'' \<and> path = ''/v1/completions'' then completions env request
      else if method = ''POST'' \<and> path = ''/v1/chat/completions'' then chatCompletions env request
      else if method = ''POST'' \<and> path = ''/v1/embeddings'' then embeddings env request
      else if startsWith path ''/v2/admin/'' then handleAdmin env request
      else if startsWith path ''/v2/repository/'' then handleRepository env request
      else
        let route_tail = extractModelRouteTail path in
        if route_tail \<noteq> [] then model_route env request route_tail
        else error_response env 404 ''NOT_FOUND'' ''route not found'')"

end
