(* ===== verification/Grpc_Codec.thy ===== *)
theory Grpc_Codec
  imports V2_Codec
begin

text \<open>
  The messages of \<open>kserve_grpc.proto\<close> that the gRPC service reads and writes, and \<open>GrpcV2Codec.cpp\<close>, which
  converts between them and the requests and responses of the runtime. A \<open>float\<close> is a finite number, as a
  \<open>double\<close> is; a field that is absent has the value protobuf gives it: empty, zero or false.
\<close>

section \<open>Messages\<close>

text \<open>The \<open>oneof\<close> of a parameter; \<open>NoParam\<close> is a parameter with no choice set.\<close>

datatype InferParameter =
  BoolParam bool | Int64Param int64_t | StringParam string | DoubleParam double
| Int64ArrayParam "int64_t list" | StringArrayParam "string list" | NoParam

fun bool_param :: "InferParameter \<Rightarrow> bool" where
  "bool_param (BoolParam b) = b" | "bool_param _ = False"

fun int64_param :: "InferParameter \<Rightarrow> int64_t" where
  "int64_param (Int64Param i) = i" | "int64_param _ = 0"

fun double_param :: "InferParameter \<Rightarrow> double" where
  "double_param (DoubleParam d) = d" | "double_param _ = 0"

record InferTensorContents =
  tc_bool :: "bool list"
  tc_int :: "int list"
  tc_int64 :: "int64_t list"
  tc_uint :: "nat list"
  tc_uint64 :: "nat list"
  tc_fp32 :: "rat list"
  tc_fp64 :: "double list"
  tc_bytes :: "string list"

definition no_contents :: InferTensorContents where
  "no_contents = \<lparr>tc_bool = [], tc_int = [], tc_int64 = [], tc_uint = [], tc_uint64 = [], tc_fp32 = [], tc_fp64 = [],
     tc_bytes = []\<rparr>"

text \<open>\<open>InferInputTensor\<close> and \<open>InferOutputTensor\<close>, which have the same fields.\<close>

record InferTensor =
  pt_name :: string
  pt_datatype :: string
  pt_shape :: "int64_t list"
  pt_contents :: InferTensorContents

record ModelInferRequest =
  mi_model_name :: string
  mi_model_version :: string
  mi_id :: string
  mi_parameters :: "(string \<times> InferParameter) list"
  mi_inputs :: "InferTensor list"
  mi_outputs :: "string list"
  mi_raw_input_contents :: "byte list list"

record ModelInferResponse =
  mo_model_name :: string
  mo_model_version :: string
  mo_id :: string
  mo_parameters :: "(string \<times> InferParameter) list"
  mo_outputs :: "InferTensor list"
  mo_raw_output_contents :: "byte list list"

record ModelMetadataResponse =
  mp_name :: string
  mp_versions :: "string list"
  mp_platform :: string
  mp_inputs :: "TensorMetadata list"
  mp_outputs :: "TensorMetadata list"

section \<open>Metadata\<close>

definition buildModelMetadataResponse :: "ModelMetadata \<Rightarrow> ModelMetadataResponse" where
  "buildModelMetadataResponse md =
     \<lparr>mp_name = mm_name md, mp_versions = mm_versions md, mp_platform = mm_platform md,
      mp_inputs = mm_inputs md, mp_outputs = mm_outputs md\<rparr>"

section \<open>Requests\<close>

text \<open>
  \<open>static_cast<T>\<close> of an integer, as the bits of the result: reduced to the width of an integer type, rounded
  to the nearest number of a floating-point type.
\<close>

definition cast_integer :: "ElementType \<Rightarrow> int \<Rightarrow> nat" where
  "cast_integer T i =
     (case integer_range T of
        Some _ \<Rightarrow> nat (i mod 2 ^ (8 * sizeof T))
      | None \<Rightarrow> if T = T_float then ieee_encode 23 8 (of_int i) else ieee_encode 52 11 (of_int i))"

text \<open>
  \<open>appendContents\<close> with the cast of one value; a type name it does not know leaves the tensor as it is, and
  \<open>None\<close> is a conversion the language leaves undefined.
\<close>

definition appendContents :: "(ElementType \<Rightarrow> 'a \<Rightarrow> nat option) \<Rightarrow> InputTensor \<Rightarrow> 'a list \<Rightarrow> InputTensor option" where
  "appendContents cast tensor values =
     (case withTensorElementType (it_datatype tensor) of
        None \<Rightarrow> Some tensor
      | Some T \<Rightarrow> map_option (\<lambda>typed. tensor\<lparr>it_bytes := foldl (appendTensorScalar T) (it_bytes tensor) typed\<rparr>)
                    (those (map (cast T) values)))"

definition append_integers :: "InputTensor \<Rightarrow> int list \<Rightarrow> InputTensor option" where
  "append_integers = appendContents (\<lambda>T i. Some (cast_integer T i))"

definition append_reals :: "InputTensor \<Rightarrow> rat list \<Rightarrow> InputTensor option" where
  "append_reals = appendContents cast_double"

text \<open>One input, at its position in the request.\<close>

definition convert_input :: "byte list list \<Rightarrow> nat \<Rightarrow> InferTensor \<Rightarrow> InputTensor option" where
  "convert_input raw input_index t =
     (let contents = pt_contents t;
          tensor = \<lparr>it_name = pt_name t, it_datatype = pt_datatype t, it_shape = pt_shape t, it_bytes = [],
                    it_string_data = []\<rparr>
      in if isBytesDatatype (pt_datatype t) then Some (tensor\<lparr>it_string_data := tc_bytes contents\<rparr>)
         else if input_index < length raw then Some (tensor\<lparr>it_bytes := raw ! input_index\<rparr>)
         else if tc_fp64 contents \<noteq> [] then append_reals tensor (tc_fp64 contents)
         else if tc_fp32 contents \<noteq> [] then append_reals tensor (tc_fp32 contents)
         else if tc_int64 contents \<noteq> [] then append_integers tensor (tc_int64 contents)
         else if tc_int contents \<noteq> [] then append_integers tensor (tc_int contents)
         else if tc_uint64 contents \<noteq> [] then append_integers tensor (map int (tc_uint64 contents))
         else if tc_uint contents \<noteq> [] then append_integers tensor (map int (tc_uint contents))
         else Some tensor)"

definition convert_inputs :: "byte list list \<Rightarrow> InferTensor list \<Rightarrow> InputTensor list option" where
  "convert_inputs raw ts = those (map (\<lambda>(i, t). convert_input raw i t) (enumerate 0 ts))"

definition convert_parameters :: "(string \<times> InferParameter) list \<Rightarrow> LlmGenerationParams" where
  "convert_parameters ps =
     \<lparr>lp_max_tokens = map_option (\<lambda>v. size_of_int64 (int64_param v)) (map_of ps ''max_tokens''),
      lp_temperature = map_option double_param (map_of ps ''temperature''),
      lp_top_p = map_option double_param (map_of ps ''top_p''),
      lp_top_k = map_option (\<lambda>v. size_of_int64 (int64_param v)) (map_of ps ''top_k''),
      lp_streaming = (case map_of ps ''stream'' of Some v \<Rightarrow> bool_param v | None \<Rightarrow> False)\<rparr>"

definition convertInferRequest :: "ModelInferRequest \<Rightarrow> ExecutionRequest option" where
  "convertInferRequest q = map_option (\<lambda>tensors.
     empty_request\<lparr>er_id := (if mi_id q = [] then None else Some (mi_id q)), er_inputs := tensors,
       er_requested_outputs := mi_outputs q,
       er_llm_params := (if mi_parameters q = [] then None else Some (convert_parameters (mi_parameters q)))\<rparr>)
     (convert_inputs (mi_raw_input_contents q) (mi_inputs q))"

section \<open>Responses\<close>

text \<open>The message of one output; the payload of an output that is not \<open>BYTES\<close> goes behind the message.\<close>

definition fillBytesContents :: "InferTensorContents \<Rightarrow> string list \<Rightarrow> InferTensorContents" where
  "fillBytesContents contents string_data = contents\<lparr>tc_bytes := tc_bytes contents @ string_data\<rparr>"

definition output_message :: "OutputTensor \<Rightarrow> InferTensor" where
  "output_message t = \<lparr>pt_name = ot_name t, pt_datatype = ot_datatype t, pt_shape = ot_shape t,
     pt_contents = (if isBytesDatatype (ot_datatype t) then fillBytesContents no_contents (ot_string_data t)
                    else no_contents)\<rparr>"

definition llm_parameters :: "LlmResultMetadata option \<Rightarrow> (string \<times> InferParameter) list" where
  "llm_parameters md =
     (case md of
        None \<Rightarrow> []
      | Some m \<Rightarrow> [(''prompt_tokens'', Int64Param (int64_of_size (lm_prompt_tokens m))),
                   (''completion_tokens'', Int64Param (int64_of_size (lm_completion_tokens m))),
                   (''finish_reason'', StringParam (lm_finish_reason m))])"

definition buildInferResponse :: "ExecutionResponse \<Rightarrow> string \<Rightarrow> string \<Rightarrow> string option \<Rightarrow> ModelInferResponse" where
  "buildInferResponse response model_name model_version request_id =
     \<lparr>mo_model_name = model_name, mo_model_version = model_version,
      mo_id = (case request_id of Some i \<Rightarrow> i | None \<Rightarrow> []), mo_parameters = llm_parameters (rs_llm_metadata response),
      mo_outputs = map output_message (rs_outputs response),
      mo_raw_output_contents =
        map ot_bytes (filter (\<lambda>t. \<not> isBytesDatatype (ot_datatype t)) (rs_outputs response))\<rparr>"

section \<open>Lemmas\<close>

text \<open>How a client reads a response: the next raw payload for every output that is not \<open>BYTES\<close>.\<close>

fun read_grpc_outputs :: "InferTensor list \<Rightarrow> byte list list \<Rightarrow> OutputTensor list" where
  "read_grpc_outputs [] raw = []"
| "read_grpc_outputs (t # ts) raw =
     (if isBytesDatatype (pt_datatype t)
      then \<lparr>ot_name = pt_name t, ot_datatype = pt_datatype t, ot_shape = pt_shape t, ot_bytes = [],
            ot_string_data = tc_bytes (pt_contents t)\<rparr> # read_grpc_outputs ts raw
      else \<lparr>ot_name = pt_name t, ot_datatype = pt_datatype t, ot_shape = pt_shape t, ot_bytes = hd raw,
            ot_string_data = []\<rparr> # read_grpc_outputs ts (tl raw))"

lemma read_outputs_grpc:
  "list_all plain_output ts \<Longrightarrow>
     read_grpc_outputs (map output_message ts) (map ot_bytes (filter (\<lambda>t. \<not> isBytesDatatype (ot_datatype t)) ts)) = ts"
  by (induction ts) (auto simp: output_message_def plain_output_def fillBytesContents_def no_contents_def)

lemma cast_integer_back:
  assumes "integer_range T = Some (lo, hi)" "lo \<le> i" "i < hi"
  shows "(if int (cast_integer T i) < hi then int (cast_integer T i) else int (cast_integer T i) - 2 ^ (8 * sizeof T)) = i"
proof (cases "i < 0")
  case True
  then have "i mod 2 ^ (8 * sizeof T) = i + 2 ^ (8 * sizeof T)"
    using assms(1,2) by (intro mod_negative) (cases T; simp)+
  then show ?thesis using assms True by (cases T) (auto simp: cast_integer_def)
next
  case False
  then have "i mod 2 ^ (8 * sizeof T) = i" using assms(1,3) by (cases T) auto
  then show ?thesis using assms False by (simp add: cast_integer_def)
qed

lemma those_Some_map: "those (map (\<lambda>x. Some (f x)) xs) = Some (map f xs)"
  by (induction xs) auto

lemma append_integers_read:
  assumes "withTensorElementType (it_datatype t) = Some T" "integer_range T = Some (lo, hi)" "it_bytes t = []"
  obtains u where "append_integers t xs = Some u"
    "\<And>k. k < length xs \<Longrightarrow> tensorScalarAt T (it_bytes u) k = Some (cast_integer T (xs ! k))"
    "length (it_bytes u) = length xs * sizeof T"
proof -
  let ?vs = "map (cast_integer T) xs"
  have "v < 256 ^ sizeof T" if "v \<in> set ?vs" for v
  proof -
    from that assms(2) obtain i where v: "v = nat (i mod 2 ^ (8 * sizeof T))" by (auto simp: cast_integer_def)
    have "(2::int) ^ (8 * sizeof T) = 256 ^ sizeof T" by (simp add: power_mult)
    then show ?thesis by (simp add: v nat_less_iff)
  qed
  then have len: "length (foldl (appendTensorScalar T) [] ?vs) = length ?vs * sizeof T"
    and nth: "\<And>i. i < length ?vs \<Longrightarrow> tensorScalarAt T (foldl (appendTensorScalar T) [] ?vs) i = Some (?vs ! i)"
    using append_scalars [of ?vs T] by auto
  show thesis
  proof (rule that)
    show "append_integers t xs = Some (t\<lparr>it_bytes := foldl (appendTensorScalar T) [] ?vs\<rparr>)"
      using assms by (simp add: append_integers_def appendContents_def those_Some_map)
  qed (use len nth in simp_all)
qed

section \<open>Properties\<close>

text \<open>
  A client reads back the outputs of every response: the messages of the outputs and the raw payloads,
  taken in order for the outputs that are not \<open>BYTES\<close>, are the tensors the executor returned.
\<close>

theorem grpc_response_roundtrip:
  assumes "list_all plain_output (rs_outputs response)"
  shows "read_grpc_outputs (mo_outputs (buildInferResponse response m v i))
      (mo_raw_output_contents (buildInferResponse response m v i)) = rs_outputs response"
  using read_outputs_grpc [OF assms] by (simp add: buildInferResponse_def)

definition two_outputs :: "OutputTensor list" where
  "two_outputs = [\<lparr>ot_name = ''text'', ot_datatype = ''BYTES'', ot_shape = [1], ot_bytes = [], ot_string_data = [''hi'']\<rparr>,
     \<lparr>ot_name = ''score'', ot_datatype = ''UINT8'', ot_shape = [1], ot_bytes = [7], ot_string_data = []\<rparr>]"

theorem grpc_response_roundtrip_witness:
  "read_grpc_outputs (mo_outputs (buildInferResponse (empty_response\<lparr>rs_outputs := two_outputs\<rparr>) ''m'' ''1'' None))
     (mo_raw_output_contents (buildInferResponse (empty_response\<lparr>rs_outputs := two_outputs\<rparr>) ''m'' ''1'' None)) = two_outputs"
  using grpc_response_roundtrip [of "empty_response\<lparr>rs_outputs := two_outputs\<rparr>"]
  by (simp add: two_outputs_def plain_output_def isBytesDatatype_def)

text \<open>
  Integers sent as numbers arrive exactly: for every integer type of a tensor and every value of that
  type, 64-bit values included, the payload holds one scalar per number and each reads back as the number.
\<close>

theorem grpc_integers_exact:
  assumes "withTensorElementType (it_datatype t) = Some T" "integer_range T = Some (lo, hi)" "it_bytes t = []"
    "\<And>i. i \<in> set xs \<Longrightarrow> lo \<le> i \<and> i < hi"
  shows "\<exists>u. append_integers t xs = Some u \<and> length (it_bytes u) = length xs * sizeof T \<and>
    (\<forall>k < length xs. \<exists>b. tensorScalarAt T (it_bytes u) k = Some b \<and>
       (if int b < hi then int b else int b - 2 ^ (8 * sizeof T)) = xs ! k)"
proof -
  obtain u where u: "append_integers t xs = Some u" "length (it_bytes u) = length xs * sizeof T"
    "\<And>k. k < length xs \<Longrightarrow> tensorScalarAt T (it_bytes u) k = Some (cast_integer T (xs ! k))"
    using append_integers_read [OF assms(1-3)] by metis
  have "\<exists>b. tensorScalarAt T (it_bytes u) k = Some b \<and>
      (if int b < hi then int b else int b - 2 ^ (8 * sizeof T)) = xs ! k" if "k < length xs" for k
    using u(3) [OF that] cast_integer_back [OF assms(2), of "xs ! k"] assms(4) [OF nth_mem [OF that]] by blast
  with u(1,2) show ?thesis by blast
qed

theorem grpc_integers_exact_witness:
  "\<exists>u b. append_integers \<lparr>it_name = ''x'', it_datatype = ''INT64'', it_shape = [1], it_bytes = [], it_string_data = []\<rparr>
     [-9223372036854775807] = Some u \<and> tensorScalarAt T_int64 (it_bytes u) 0 = Some b \<and> int b - 2 ^ 64 = -9223372036854775807"
proof -
  let ?t = "\<lparr>it_name = ''x'', it_datatype = ''INT64'', it_shape = [1], it_bytes = [], it_string_data = []\<rparr>"
  have "withTensorElementType (it_datatype ?t) = Some T_int64" by (simp add: withTensorElementType_def)
  from grpc_integers_exact [OF this, of "- (2 ^ 63)" "2 ^ 63" "[-9223372036854775807]"]
  obtain u b where ub: "append_integers ?t [-9223372036854775807] = Some u" "tensorScalarAt T_int64 (it_bytes u) 0 = Some b"
    "(if int b < 2 ^ 63 then int b else int b - 2 ^ (8 * sizeof T_int64)) = -9223372036854775807" by auto
  then have "int b - 2 ^ 64 = -9223372036854775807" by (simp split: if_splits)
  with ub show ?thesis by blast
qed

section \<open>What is not converted\<close>

text \<open>\<open>bool_contents\<close> is not read: a \<open>BOOL\<close> tensor sent that way has no payload.\<close>

lemma bool_contents_dropped:
  "convert_input [] k \<lparr>pt_name = ''mask'', pt_datatype = ''BOOL'', pt_shape = [2],
       pt_contents = no_contents\<lparr>tc_bool := [True, False]\<rparr>\<rparr> =
     Some \<lparr>it_name = ''mask'', it_datatype = ''BOOL'', it_shape = [2], it_bytes = [], it_string_data = []\<rparr>"
  by (simp add: convert_input_def no_contents_def isBytesDatatype_def)

text \<open>The raw payload of a \<open>BYTES\<close> input is not read either, although it replaces the contents.\<close>

lemma raw_bytes_dropped:
  assumes "isBytesDatatype (pt_datatype t)"
  shows "convert_input raw k t = convert_input [] k t"
  using assms by (simp add: convert_input_def)

text \<open>Raw inputs are counted by input, raw outputs by output that is not \<open>BYTES\<close>: here the second output is the first.\<close>

lemma raw_positions_differ:
  "mo_raw_output_contents (buildInferResponse (empty_response\<lparr>rs_outputs := two_outputs\<rparr>) m v i) = [[7]]"
  "convert_input [[1], [7]] 1 (output_message (two_outputs ! 1)) =
     Some \<lparr>it_name = ''score'', it_datatype = ''UINT8'', it_shape = [1], it_bytes = [7], it_string_data = []\<rparr>"
  by (simp_all add: buildInferResponse_def two_outputs_def isBytesDatatype_def convert_input_def output_message_def)

text \<open>A negative token limit becomes a very large one.\<close>

lemma negative_max_tokens_wraps:
  "lp_max_tokens (convert_parameters [(''max_tokens'', Int64Param (-1))]) = Some (2 ^ 64 - 1)"
  by (simp add: convert_parameters_def size_of_int64_def)

end
