(* ===== verification/Grpc_Service.thy ===== *)
theory Grpc_Service
  imports Runtime_Infer Grpc_Codec
begin

text \<open>
  \<open>GrpcServer.cpp\<close>: the calls of the gRPC service on the registry and the metrics the HTTP routes use. The
  transport itself is the gRPC library; a call here is the method it runs, from the request message to the
  status and the reply message.
\<close>

section \<open>Statuses\<close>

text \<open>The \<open>grpc::StatusCode\<close>s the service uses, with their numbers.\<close>

datatype StatusCode =
  StatusOk | InvalidArgument | DeadlineExceeded | NotFound | ResourceExhausted | InternalError | ServiceUnavailable

fun status_number :: "StatusCode \<Rightarrow> int" where
  "status_number StatusOk = 0" | "status_number InvalidArgument = 3" | "status_number DeadlineExceeded = 4"
| "status_number NotFound = 5" | "status_number ResourceExhausted = 8" | "status_number InternalError = 13"
| "status_number ServiceUnavailable = 14"

definition gRpcStatusForCode :: "string \<Rightarrow> int" where
  "gRpcStatusForCode code =
     (if code = ''INVALID_ARGUMENT'' then status_number InvalidArgument
      else if code = ''MODEL_NOT_FOUND'' then status_number NotFound
      else if code = ''MODEL_NOT_READY'' then status_number ServiceUnavailable
      else if code = ''QUEUE_FULL'' then status_number ResourceExhausted
      else if code = ''DEADLINE_EXCEEDED'' then status_number DeadlineExceeded
      else if code = ''BACKEND_ERROR'' \<or> code = ''INTERNAL'' then status_number InternalError
      else if code = ''UNAVAILABLE'' then status_number ServiceUnavailable
      else if code = ''NOT_FOUND'' then status_number NotFound else status_number InternalError)"

definition gRpcErrorFromCode :: "string \<Rightarrow> string \<Rightarrow> StatusCode \<times> string" where
  "gRpcErrorFromCode code message =
     (if code = ''INVALID_ARGUMENT'' then (InvalidArgument, message)
      else if code = ''MODEL_NOT_FOUND'' then (NotFound, message)
      else if code = ''MODEL_NOT_READY'' then (ServiceUnavailable, message)
      else if code = ''QUEUE_FULL'' then (ResourceExhausted, message)
      else if code = ''DEADLINE_EXCEEDED'' then (DeadlineExceeded, message)
      else if code = ''BACKEND_ERROR'' \<or> code = ''INTERNAL'' then (InternalError, message)
      else if code = ''UNAVAILABLE'' then (ServiceUnavailable, message)
      else if code = ''NOT_FOUND'' then (NotFound, message) else (InternalError, message))"

section \<open>Calls\<close>

datatype GrpcCall =
  ServerLive | ServerReady | ModelReadyCall string string | ServerMetadataCall | ModelMetadataCall string string
| ModelInferCall ModelInferRequest

datatype GrpcReply =
  LiveReply bool | ReadyReply bool | ModelReadyReply bool | ServerMetadataReply string string
| ModelMetadataReply ModelMetadataResponse | ModelInferReply ModelInferResponse

text \<open>A status that is not OK with its message, or the reply of a call that is OK.\<close>

type_synonym GrpcAnswer = "(StatusCode \<times> string) + GrpcReply"

definition grpc_ModelReady :: "string \<Rightarrow> string \<Rightarrow> GrpcAnswer action" where
  "grpc_ModelReady name version = bind_run registry (\<lambda>r.
     give (Inr (ModelReadyReply (if version = [] then ready r name else readyVersion r name version))))"

definition grpc_ModelMetadata :: "string \<Rightarrow> string \<Rightarrow> GrpcAnswer action" where
  "grpc_ModelMetadata name version = bind_run registry (\<lambda>r.
     case (if version = [] then find_model r name else findVersion r name version) of
       None \<Rightarrow> give (Inl (NotFound, ''model not found: '' @ name))
     | Some md \<Rightarrow> give (Inr (ModelMetadataReply (buildModelMetadataResponse md))))"

text \<open>A log event of a request.\<close>

definition grpc_event :: "string \<Rightarrow> string \<Rightarrow> string \<Rightarrow> string \<Rightarrow> LogEvent" where
  "grpc_event message rid model_name model_version =
     new_event\<lparr>le_message := message, le_request_id := rid, le_model := model_name, le_model_version := model_version\<rparr>"

definition grpc_route :: string where
  "grpc_route = ''grpc://ModelInfer''"

definition grpc_failure_text :: "string \<Rightarrow> string" where
  "grpc_failure_text code = ''span: respond (grpc, failed) - '' @ code"

text \<open>The scheduler reports a failure.\<close>

definition grpc_scheduler_failure ::
  "RuntimeEnv \<Rightarrow> string \<Rightarrow> string \<Rightarrow> string \<Rightarrow> SchedulerResult \<Rightarrow> GrpcAnswer action" where
  "grpc_scheduler_failure env model_name model_version rid scheduled =
     (let code = (if sr_error_code scheduled = [] then ''INTERNAL'' else sr_error_code scheduled)
      in bind_run (on_metrics (recordInferRequest model_name ''GRPC'' (gRpcStatusForCode code) 0 0 0 0)) (\<lambda>_.
         bind_run (log_event env ((grpc_event (grpc_failure_text code) rid model_name model_version)\<lparr>
           le_severity := ''warn'', le_route := grpc_route, le_status := gRpcStatusForCode code,
           le_error_code := code\<rparr>)) (\<lambda>_.
         give (Inl (gRpcErrorFromCode code (sr_error_message scheduled))))))"

text \<open>The scheduler reports success and the executor's response a failure.\<close>

definition grpc_backend_failure ::
  "RuntimeEnv \<Rightarrow> string \<Rightarrow> string \<Rightarrow> string \<Rightarrow> SchedulerResult \<Rightarrow> GrpcAnswer action" where
  "grpc_backend_failure env model_name model_version rid scheduled =
     (let response = sr_response scheduled;
          code = (if rs_error_code response = [] then ''BACKEND_ERROR'' else rs_error_code response)
      in bind_run (on_metrics (recordInferRequest model_name ''GRPC'' (gRpcStatusForCode code)
           (sr_queue_latency_ns scheduled) (sr_execution_latency_ns scheduled) (sr_total_latency_ns scheduled)
           (sr_batch_size scheduled))) (\<lambda>_.
         bind_run (log_event env ((grpc_event (grpc_failure_text code) rid model_name model_version)\<lparr>
           le_severity := ''error'', le_route := grpc_route, le_status := gRpcStatusForCode code,
           le_error_code := code, le_queue_latency_ns := sr_queue_latency_ns scheduled,
           le_infer_latency_ns := sr_execution_latency_ns scheduled\<rparr>)) (\<lambda>_.
         give (Inl (gRpcErrorFromCode code (rs_error_message response))))))"

definition grpc_success ::
  "RuntimeEnv \<Rightarrow> ModelInferRequest \<Rightarrow> string option \<Rightarrow> SchedulerResult \<Rightarrow> GrpcAnswer action" where
  "grpc_success env q request_id scheduled =
     (let rid = (case request_id of Some i \<Rightarrow> i | None \<Rightarrow> []) in
      bind_run (on_metrics (recordInferRequest (mi_model_name q) ''GRPC'' (status_number StatusOk)
        (sr_queue_latency_ns scheduled) (sr_execution_latency_ns scheduled) (sr_total_latency_ns scheduled)
        (sr_batch_size scheduled))) (\<lambda>_.
      bind_run (log_event env (with_latencies scheduled
        ((grpc_event ''span: respond (grpc)'' rid (mi_model_name q) (mi_model_version q))\<lparr>
           le_route := grpc_route, le_status := status_number StatusOk\<rparr>))) (\<lambda>_.
      give (Inr (ModelInferReply
        (buildInferResponse (sr_response scheduled) (mi_model_name q) (mi_model_version q) request_id))))))"

definition grpc_respond ::
  "RuntimeEnv \<Rightarrow> ModelInferRequest \<Rightarrow> string option \<Rightarrow> SchedulerResult \<Rightarrow> GrpcAnswer action" where
  "grpc_respond env q request_id scheduled =
     (let rid = (case request_id of Some i \<Rightarrow> i | None \<Rightarrow> []) in
      if \<not> sr_ok scheduled then grpc_scheduler_failure env (mi_model_name q) (mi_model_version q) rid scheduled
      else if \<not> rs_ok (sr_response scheduled)
      then grpc_backend_failure env (mi_model_name q) (mi_model_version q) rid scheduled
      else grpc_success env q request_id scheduled)"

text \<open>The converted request goes through the scheduler of the snapshot.\<close>

definition grpc_submit ::
  "RuntimeEnv \<Rightarrow> ModelInferRequest \<Rightarrow> string option \<Rightarrow> InferSnapshot \<Rightarrow> ExecutionRequest \<Rightarrow> GrpcAnswer action" where
  "grpc_submit env q request_id n exec_request =
     (let span = (\<lambda>message. grpc_event message (case request_id of Some i \<Rightarrow> i | None \<Rightarrow> [])
                    (mi_model_name q) (mi_model_version q)) in
      bind_run (log_event env ((span ''span: admit (grpc)'')\<lparr>le_route := grpc_route\<rparr>)) (\<lambda>_.
      bind_run (log_event env (span ''span: queue (grpc)'')) (\<lambda>_.
      bind_run (submit_to env (sn_scheduler n) exec_request (\<lambda>_. True)) (\<lambda>(_, scheduled).
      bind_run (log_event env ((span ''span: batch form (grpc)'')\<lparr>le_batch_size := sr_batch_size scheduled,
                  le_queue_latency_ns := sr_queue_latency_ns scheduled\<rparr>)) (\<lambda>_.
      bind_run (log_event env ((span ''span: infer (grpc)'')\<lparr>le_batch_size := sr_batch_size scheduled,
                  le_infer_latency_ns := sr_execution_latency_ns scheduled\<rparr>)) (\<lambda>_.
      grpc_respond env q request_id scheduled))))))"

definition grpc_handle :: "ModelRegistry \<Rightarrow> ModelInferRequest \<Rightarrow> InferSnapshot option" where
  "grpc_handle r q =
     (if mi_model_version q = [] then findHandle r (mi_model_name q)
      else findHandleVersion r (mi_model_name q) (mi_model_version q))"

definition grpc_ModelInfer :: "RuntimeEnv \<Rightarrow> ModelInferRequest \<Rightarrow> GrpcAnswer action" where
  "grpc_ModelInfer env q =
     (let request_id = (if mi_id q = [] then None else Some (mi_id q)) in
      bind_run registry (\<lambda>r.
        case grpc_handle r q of
          None \<Rightarrow> give (Inl (NotFound, ''model not found: '' @ mi_model_name q))
        | Some n \<Rightarrow>
            if \<not> snapshot_isReady (rg_schedulers r) n
            then give (Inl (ServiceUnavailable,
                   if snapshot_isDraining (rg_schedulers r) n then ''model is draining'' else ''model is not ready''))
            else if sn_scheduler n = None then give (Inl (ServiceUnavailable, ''model scheduler is unavailable''))
            else case convertInferRequest q of
                   None \<Rightarrow> (\<lambda>s. (Undefined, s))
                 | Some exec_request \<Rightarrow> grpc_submit env q request_id n exec_request))"

fun grpc_call :: "RuntimeEnv \<Rightarrow> GrpcCall \<Rightarrow> GrpcAnswer action" where
  "grpc_call env ServerLive = give (Inr (LiveReply True))"
| "grpc_call env ServerReady = bind_run registry (\<lambda>r. give (Inr (ReadyReply (allReady r))))"
| "grpc_call env (ModelReadyCall name version) = grpc_ModelReady name version"
| "grpc_call env ServerMetadataCall = give (Inr (ServerMetadataReply ''neuriplo-kserve-runtime'' (en_version env)))"
| "grpc_call env (ModelMetadataCall name version) = grpc_ModelMetadata name version"
| "grpc_call env (ModelInferCall q) = grpc_ModelInfer env q"

end
