(* ===== verification/Runtime_Invariants.thy ===== *)
theory Runtime_Invariants
  imports Runtime_Admin Grpc_Service
begin

text \<open>
  What every handler keeps. The interface is a locale: a property of the runtime state that each elementary
  effect of a handler keeps is kept by every route, by the streams they start, and so by a server that
  handles any sequence of requests.
\<close>

section \<open>Actions that keep a property\<close>

text \<open>The state property \<open>P\<close> is kept, and a value that is returned has the property \<open>Q\<close>.\<close>

definition keeps :: "('s \<Rightarrow> bool) \<Rightarrow> ('a \<Rightarrow> bool) \<Rightarrow> ('s, 'a) run \<Rightarrow> bool" where
  "keeps P Q m \<longleftrightarrow> (\<forall>s. P s \<longrightarrow> P (snd (m s)) \<and> (\<forall>x. fst (m s) = Value x \<longrightarrow> Q x))"

named_theorems keeps_intros

lemma keepsD: "keeps P Q m \<Longrightarrow> P s \<Longrightarrow> m s = (out, t) \<Longrightarrow> P t"
  by (force simp: keeps_def)

lemma keeps_give [keeps_intros]: "Q x \<Longrightarrow> keeps P Q (give x)"
  by (simp add: keeps_def give_def)

lemma keeps_bind [keeps_intros]:
  assumes "keeps P R m" "\<And>x. R x \<Longrightarrow> keeps P Q (f x)"
  shows "keeps P Q (bind_run m f)"
  unfolding keeps_def bind_run_def
proof (intro allI impI)
  fix s assume "P s"
  with assms(1) have "P (snd (m s))" "\<And>x. fst (m s) = Value x \<Longrightarrow> R x" by (auto simp: keeps_def)
  with assms(2) show "P (snd (case m s of (Value x, s1) \<Rightarrow> f x s1 | (Exception what, s1) \<Rightarrow> (Exception what, s1)
      | (OtherException, s1) \<Rightarrow> (OtherException, s1) | (Undefined, s1) \<Rightarrow> (Undefined, s1) | (Blocked, s1) \<Rightarrow> (Blocked, s1))) \<and>
    (\<forall>x. fst (case m s of (Value x, s1) \<Rightarrow> f x s1 | (Exception what, s1) \<Rightarrow> (Exception what, s1)
      | (OtherException, s1) \<Rightarrow> (OtherException, s1) | (Undefined, s1) \<Rightarrow> (Undefined, s1) | (Blocked, s1) \<Rightarrow> (Blocked, s1)) = Value x
      \<longrightarrow> Q x)"
    by (cases "m s"; cases "fst (m s)") (auto simp: keeps_def)
qed

lemma keeps_of_sum [keeps_intros]: "keeps P (\<lambda>_. True) (of_sum r)"
  by (simp add: keeps_def of_sum_def split: sum.split)

lemma keeps_of_call [keeps_intros]: "keeps P (\<lambda>_. True) (of_call c)"
  by (simp add: keeps_def of_call_def split: Call.split)

lemma keeps_throw [keeps_intros]: "keeps P Q (\<lambda>s. (Exception what, s))" "keeps P Q (\<lambda>s. (Undefined, s))"
  by (simp_all add: keeps_def)

lemma keeps_if [keeps_intros]: "(b \<Longrightarrow> keeps P Q m) \<Longrightarrow> (\<not> b \<Longrightarrow> keeps P Q n) \<Longrightarrow> keeps P Q (if b then m else n)"
  by simp

lemma keeps_option [keeps_intros]:
  "(x = None \<Longrightarrow> keeps P Q m) \<Longrightarrow> (\<And>y. x = Some y \<Longrightarrow> keeps P Q (f y)) \<Longrightarrow> keeps P Q (case_option m f x)"
  by (simp split: option.split)

lemma keeps_sum [keeps_intros]:
  "(\<And>y. x = Inl y \<Longrightarrow> keeps P Q (f y)) \<Longrightarrow> (\<And>y. x = Inr y \<Longrightarrow> keeps P Q (g y)) \<Longrightarrow> keeps P Q (case_sum f g x)"
  by (simp split: sum.split)

lemma keeps_prod [keeps_intros]: "(\<And>a b. x = (a, b) \<Longrightarrow> keeps P Q (f a b)) \<Longrightarrow> keeps P Q (case_prod f x)"
  by (simp split: prod.split)

lemma keeps_state [keeps_intros]:
  "keeps P Q a \<Longrightarrow> keeps P Q b \<Longrightarrow> keeps P Q c \<Longrightarrow> keeps P Q d \<Longrightarrow> keeps P Q e \<Longrightarrow> keeps P Q f \<Longrightarrow>
     keeps P Q (case_ModelState a b c d e f x)"
  by (simp split: ModelState.split)

lemma keeps_ai [keeps_intros]:
  "(\<And>y. x = AiAccepted y \<Longrightarrow> keeps P Q (f y)) \<Longrightarrow> (\<And>m. keeps P Q (g m)) \<Longrightarrow> (\<And>m. keeps P Q (h m)) \<Longrightarrow>
     keeps P Q (case_OpenAiParseResult f g h x)"
  by (simp split: OpenAiParseResult.split)

lemma keeps_decoded [keeps_intros]:
  "(\<And>y. x = Decoded y \<Longrightarrow> keeps P Q (f y)) \<Longrightarrow> (\<And>m. keeps P Q (g m)) \<Longrightarrow> (\<And>m. keeps P Q (h m)) \<Longrightarrow> keeps P Q u \<Longrightarrow>
     keeps P Q (case_InferenceParseResult f g h u x)"
  by (simp split: InferenceParseResult.split)

text \<open>A response whose stream, when it is run later, keeps the property; and the answer of a stage.\<close>

definition stream_ok :: "(RuntimeState \<Rightarrow> bool) \<Rightarrow> Response \<Rightarrow> bool" where
  "stream_ok P r \<longleftrightarrow> (\<forall>cb. hr_stream_callback r = Some cb \<longrightarrow> (\<forall>s. P s \<longrightarrow> P (snd (cb s))))"

definition stage_ok :: "(RuntimeState \<Rightarrow> bool) \<Rightarrow> Response option \<times> 'a \<Rightarrow> bool" where
  "stage_ok P x \<longleftrightarrow> (\<forall>r. fst x = Some r \<longrightarrow> stream_ok P r)"

lemma stream_ok_json [simp]: "stream_ok P (json_response status body)"
  by (simp add: stream_ok_def json_response_def new_response_def)

lemma stream_ok_new [simp]: "stream_ok P new_response"
  by (simp add: stream_ok_def new_response_def)

lemma stage_ok_simps [simp]: "stage_ok P (None, x)" "stage_ok P (Some r, x) \<longleftrightarrow> stream_ok P r"
  by (simp_all add: stage_ok_def)

lemma run_pipeline_keeps:
  "(\<And>stage ctx. stage \<in> set stages \<Longrightarrow> keeps P (stage_ok P) (stage ctx)) \<Longrightarrow>
     keeps P (stream_ok P) (run_pipeline stages ctx)"
proof (induction stages arbitrary: ctx)
  case Nil
  show ?case by (simp add: keeps_give)
next
  case (Cons stage stages)
  show ?case
    unfolding run_pipeline.simps
    by (intro keeps_bind [where R = "stage_ok P"] keeps_prod keeps_option Cons.prems keeps_give Cons.IH)
      (auto simp: stage_ok_def)
qed

section \<open>Messages\<close>

text \<open>
  The messages the handlers log: one of a few texts, or the failure text with the code of the error, each
  followed by a payload only when payloads are logged.
\<close>

definition span_texts :: "string set" where
  "span_texts = {''span: admit'', ''span: queue'', ''span: batch form'', ''span: infer'', ''span: split'',
     ''span: respond (failed) - infer request failed'', ''span: respond'', ''span: admit (grpc)'', ''span: queue (grpc)'',
     ''span: batch form (grpc)'', ''span: infer (grpc)'', ''span: respond (grpc)''}"

text \<open>The texts that carry the code of an error, one for each transport.\<close>

definition code_texts :: "string \<Rightarrow> string set" where
  "code_texts code = {failure_text code, grpc_failure_text code}"

definition span_event :: "bool \<Rightarrow> LogEvent \<Rightarrow> bool" where
  "span_event logs e \<longleftrightarrow>
     (\<exists>m. m \<in> span_texts \<union> code_texts (le_error_code e) \<and>
          (le_message e = m \<or> logs \<and> (\<exists>payload. le_message e = m @ '' - payload: '' @ payload)))"

lemma span_event_text: "le_message e \<in> span_texts \<Longrightarrow> span_event logs e"
  by (auto simp: span_event_def)

lemma span_members:
  "''span: admit'' \<in> span_texts" "''span: queue'' \<in> span_texts" "''span: batch form'' \<in> span_texts"
  "''span: infer'' \<in> span_texts" "''span: split'' \<in> span_texts" "''span: respond'' \<in> span_texts"
  "''span: respond (failed) - infer request failed'' \<in> span_texts"
  "''span: admit (grpc)'' \<in> span_texts" "''span: queue (grpc)'' \<in> span_texts" "''span: batch form (grpc)'' \<in> span_texts"
  "''span: infer (grpc)'' \<in> span_texts" "''span: respond (grpc)'' \<in> span_texts"
  unfolding span_texts_def by (rule insertI1 | rule insertI2)+

lemma span_event_payload:
  "rg_log_payloads r = logs \<Longrightarrow> m \<in> span_texts \<Longrightarrow> span_event logs (e\<lparr>le_message := with_payload r m body\<rparr>)"
  unfolding span_event_def with_payload_def by (cases logs) auto

lemma span_event_code:
  assumes "rg_log_payloads r = logs" "le_error_code e = code"
  shows "span_event logs (e\<lparr>le_message := with_payload r (failure_text code) body\<rparr>)"
  unfolding span_event_def
proof (intro exI conjI)
  show "failure_text code \<in>
      span_texts \<union> code_texts (le_error_code (e\<lparr>le_message := with_payload r (failure_text code) body\<rparr>))"
    using assms(2) by (simp add: code_texts_def)
  show "le_message (e\<lparr>le_message := with_payload r (failure_text code) body\<rparr>) = failure_text code \<or>
      logs \<and> (\<exists>payload. le_message (e\<lparr>le_message := with_payload r (failure_text code) body\<rparr>) =
        failure_text code @ '' - payload: '' @ payload)"
    using assms(1) by (simp add: with_payload_def)
qed

lemma span_event_grpc_code:
  "le_message e = grpc_failure_text (le_error_code e) \<Longrightarrow> span_event logs e"
  by (auto simp: span_event_def code_texts_def)

section \<open>A server\<close>

text \<open>
  A server that handles what arrives over HTTP and gRPC in some order, running the stream of a response before
  the next.
\<close>

datatype Incoming = HttpIn HttpRequest | GrpcIn GrpcCall

fun serve_one :: "RuntimeEnv \<Rightarrow> Incoming \<Rightarrow> RuntimeState \<Rightarrow> RuntimeState" where
  "serve_one env (HttpIn request) s =
     (case handle env request s of (Value r, s1) \<Rightarrow> snd (answer r s1) | (_, s1) \<Rightarrow> s1)"
| "serve_one env (GrpcIn call) s = snd (grpc_call env call s)"

definition serve :: "RuntimeEnv \<Rightarrow> Incoming list \<Rightarrow> RuntimeState \<Rightarrow> RuntimeState" where
  "serve env requests s = fold (serve_one env) requests s"

section \<open>The interface\<close>

locale runtime_invariant =
  fixes env :: RuntimeEnv and logs :: bool and P :: "RuntimeState \<Rightarrow> bool"
  assumes inv_logs: "P s \<Longrightarrow> rg_log_payloads (ru_registry s) = logs"
    and inv_metrics: "P s \<Longrightarrow> P (s\<lparr>ru_metrics := metrics_call c (ru_metrics s)\<rparr>)"
    and inv_log: "P s \<Longrightarrow> span_event logs e \<Longrightarrow> P (s\<lparr>ru_log := ru_log s @ [e]\<rparr>)"
    and inv_draw: "P s \<Longrightarrow> P (s\<lparr>ru_draws := ru_draws s + 1\<rparr>)"
    and inv_submit: "P s \<Longrightarrow> en_submit env p q accepts (rg_schedulers (ru_registry s)) = (res, st) \<Longrightarrow>
      P (s\<lparr>ru_registry := (ru_registry s)\<lparr>rg_schedulers := st\<rparr>\<rparr>)"
    and inv_unload: "P s \<Longrightarrow> unloadModel name (ru_registry s) = (b, r) \<Longrightarrow> P (s\<lparr>ru_registry := r\<rparr>)"
    and inv_load: "P s \<Longrightarrow> loadModel kind now factory config (ru_registry s) = Some (b, r) \<Longrightarrow> P (s\<lparr>ru_registry := r\<rparr>)"
    and inv_reload: "P s \<Longrightarrow> reload kind now factory name config (ru_registry s) = Some (b, r) \<Longrightarrow>
      P (s\<lparr>ru_registry := r\<rparr>)"
    and inv_switch: "P s \<Longrightarrow> switchVersion kind now factory name version config (ru_registry s) = Some (b, r) \<Longrightarrow>
      P (s\<lparr>ru_registry := r\<rparr>)"
begin

lemma registry_keeps: "keeps P (\<lambda>r. rg_log_payloads r = logs) registry"
  by (simp add: keeps_def registry_def inv_logs)

lemma metrics_keeps: "(\<And>mr. \<exists>c. f mr = metrics_call c mr) \<Longrightarrow> keeps P (\<lambda>_. True) (on_metrics f)"
  unfolding keeps_def on_metrics_def by (metis inv_metrics snd_conv)

lemma log_keeps: "span_event logs e \<Longrightarrow> keeps P (\<lambda>_. True) (log_event env e)"
  by (simp add: keeps_def log_event_def inv_log split: sum.split)

lemma draw_keeps: "keeps P (\<lambda>_. True) (generateRequestId env)"
  using inv_draw by (simp add: keeps_def generateRequestId_def)

lemma submit_keeps: "keeps P (\<lambda>_. True) (submit_to env scheduler q accepts)"
  unfolding keeps_def submit_to_def by (auto split: option.split prod.split intro: inv_submit)

lemma unload_keeps: "keeps P (\<lambda>_. True) (on_registry (unloadModel name))"
  unfolding keeps_def on_registry_def by (auto split: prod.split intro: inv_unload)

lemma load_keeps: "keeps P (\<lambda>_. True) (load_call env config)"
  unfolding keeps_def load_call_def build_call_def by (auto split: Call.split option.split intro: inv_load)

lemma reload_keeps: "keeps P (\<lambda>_. True) (reload_call env name config)"
  unfolding keeps_def reload_call_def build_call_def by (auto split: Call.split option.split intro: inv_reload)

lemma switch_keeps: "keeps P (\<lambda>_. True) (switch_call env name version config)"
  unfolding keeps_def switch_call_def build_call_def by (auto split: Call.split option.split intro: inv_switch)

lemma error_keeps: "keeps P (stream_ok P) (error_response env status code message)"
  unfolding error_response_def by (rule keeps_intros | simp)+

lemma estimate_keeps: "keeps P (\<lambda>_. True) (estimateTokens txt ratio)"
  by (simp add: keeps_def estimateTokens_def Let_def)

lemmas basics = registry_keeps metrics_keeps log_keeps draw_keeps submit_keeps unload_keeps load_keeps reload_keeps
  switch_keeps error_keeps estimate_keeps keeps_intros

subsection \<open>Health, metadata, metrics\<close>

lemma not_found_keeps: "keeps P (stream_ok P) (not_found_model env name)"
  unfolding not_found_model_def by (rule error_keeps)

lemma not_ready_keeps: "keeps P (stream_ok P) (not_ready_error env r n)"
  unfolding not_ready_error_def modelStateError_def by (rule basics)+

lemma publish_keeps: "P s \<Longrightarrow> P (s\<lparr>ru_metrics := fold (publish_metrics r) names (ru_metrics s)\<rparr>)"
proof (induction names arbitrary: s)
  case Nil
  then show ?case by simp
next
  case (Cons name names)
  obtain version where "publish_metrics r name (ru_metrics s) =
      metrics_call (SchedulerMetricsOf name version (schedulerMetrics r name)) (ru_metrics s)"
    by (simp add: publish_metrics_def Let_def)
  with inv_metrics [OF Cons.prems] have "P (s\<lparr>ru_metrics := publish_metrics r name (ru_metrics s)\<rparr>)" by metis
  from Cons.IH [OF this] show ?case by simp
qed

lemma metrics_page_keeps: "keeps P (stream_ok P) (metricsPage env)"
  by (auto simp: keeps_def metricsPage_def Let_def publish_keeps stream_ok_def new_response_def)

lemma metadata_keeps: "keeps P (stream_ok P) (modelMetadata env name version)"
  unfolding modelMetadata_def by (rule basics not_found_keeps | simp)+

lemma ready_keeps: "keeps P (stream_ok P) (modelReady env name version)"
  unfolding modelReady_def by (rule basics not_found_keeps not_ready_keeps | simp)+

lemma health_keeps:
  "keeps P (stream_ok P) (serverMetadata env)" "keeps P (stream_ok P) live" "keeps P (stream_ok P) (ready_route env)"
  unfolding serverMetadata_def live_def ready_route_def by (rule basics | simp)+

subsection \<open>Inference\<close>

lemma refuse_keeps: "keeps P (stream_ok P) m \<Longrightarrow> keeps P (stage_ok P) (refuse_with x m)"
  unfolding refuse_with_def by (rule keeps_bind keeps_give | assumption | simp)+

lemma request_id_keeps: "keeps P (\<lambda>_. True) (request_id_of env rid)"
  unfolding request_id_of_def by (rule basics | simp)+

lemma validate_keeps: "keeps P (stage_ok P) (validateInferModel env name version)"
  unfolding validateInferModel_def Let_def by (rule refuse_keeps basics not_found_keeps not_ready_keeps | simp)+

lemma decode_keeps: "keeps P (stage_ok P) (decodeAndAdmit env request name version n)"
  unfolding decodeAndAdmit_def
  by (rule refuse_keeps request_id_keeps basics span_event_payload span_members stage_ok_simps | assumption)+

lemma schedule_keeps: "keeps P (\<lambda>_. True) (scheduleInfer env name version parsed n)"
  unfolding scheduleInfer_def Let_def
  by (rule request_id_keeps basics span_event_text TrueI | simp add: span_members)+

lemma recorded: "\<exists>c. recordInferRequest m q st a b d e mr = metrics_call c mr"
  by (rule exI [where x = "RecordInfer m q st a b d e"]) simp

lemma encode_scheduler_failure_keeps:
  "keeps P (stream_ok P) (encode_scheduler_failure env name version request rid scheduled)"
  unfolding encode_scheduler_failure_def Let_def
  by (rule basics recorded span_event_code | assumption | simp)+

lemma encode_backend_failure_keeps:
  "keeps P (stream_ok P) (encode_backend_failure env name version request rid scheduled)"
  unfolding encode_backend_failure_def Let_def
  by (rule basics recorded span_event_payload span_members | assumption)+

lemma success_keeps: "keeps P (stream_ok P) (success_response env name version request parsed response)"
  unfolding success_response_def by (rule basics | simp add: stream_ok_def new_response_def json_response_def)+

lemma encode_success_keeps: "keeps P (stream_ok P) (encode_success env name version request rid parsed scheduled)"
  unfolding encode_success_def
  by (rule basics success_keeps recorded span_event_payload span_members | assumption)+

lemma encode_keeps: "keeps P (stream_ok P) (encodeInferResponse env name version request parsed scheduled)"
  unfolding encodeInferResponse_def
  by (rule request_id_keeps encode_scheduler_failure_keeps encode_backend_failure_keeps encode_success_keeps basics)+

lemma infer_keeps: "keeps P (stream_ok P) (infer env name version request)"
  unfolding infer_def
proof (rule run_pipeline_keeps)
  fix stage :: PipelineStage and ctx
  have pass: "keeps P (stage_ok P) m \<Longrightarrow> keeps P (stage_ok P) (bind_run m (\<lambda>(r, x). give (r, f x)))"
    for m :: "(Response option \<times> 'b) action" and f :: "'b \<Rightarrow> 'c"
    by (rule keeps_bind [where R = "stage_ok P"] keeps_prod keeps_give | assumption | simp add: stage_ok_def)+
  assume "stage \<in> set (infer_stages env)"
  then consider "stage = infer_stages env ! 0" | "stage = infer_stages env ! 1" | "stage = infer_stages env ! 2"
    | "stage = infer_stages env ! 3"
    by (auto simp: infer_stages_def)
  then show "keeps P (stage_ok P) (stage ctx)"
  proof cases
    case 1
    then show ?thesis using pass [OF validate_keeps] by (simp add: infer_stages_def)
  next
    case 2
    then show ?thesis
      by (simp add: infer_stages_def) (rule keeps_option keeps_throw pass decode_keeps)+
  next
    case 3
    then show ?thesis
      by (simp add: infer_stages_def) (rule schedule_keeps keeps_intros stage_ok_simps)+
  next
    case 4
    then show ?thesis
      by (simp add: infer_stages_def) (rule encode_keeps keeps_intros | simp)+
  qed
qed

subsection \<open>OpenAI-compatible routes\<close>

lemma usable_keeps: "(\<And>n. keeps P (stream_ok P) (rest n)) \<Longrightarrow> keeps P (stream_ok P) (usable_model env model rest)"
  unfolding usable_model_def by (rule basics not_found_keeps | assumption)+

lemma checked_keeps: "keeps P (stream_ok P) rest \<Longrightarrow> keeps P (stream_ok P) (checked_result env scheduled rest)"
  unfolding checked_result_def by (rule basics | assumption)+

lemma stream_callback_keeps: "P s \<Longrightarrow> P (snd (stream_callback env n rid obj model prompt sa created s))"
proof -
  assume s: "P s"
  define q where "q = empty_request\<lparr>er_id := Some rid, er_inputs := [text_tensor ''prompt'' prompt],
    er_llm_params := Some (generation_params sa True), er_cancel_token := Some (CallerToken (ru_draws s)),
    er_streaming_callback := Some (ru_draws s)\<rparr>"
  define a where "a = (\<lambda>token. \<not> isl (streamingChunkJson (en_dump env) rid obj model created token []))"
  obtain out t where step: "submit_to env (sn_scheduler n) q a s = (out, t)" by fastforce
  then have t: "P t" using keepsD [OF submit_keeps s] by blast
  show ?thesis
  proof (cases "snapshot_held n (ru_registry s)")
    case True
    then show ?thesis
      using step t unfolding stream_callback_def Let_def q_def [symmetric] a_def [symmetric]
      by (cases out) (simp_all split: prod.split sum.split)
  next
    case False
    with s show ?thesis by (simp add: stream_callback_def)
  qed
qed

lemma streaming_keeps: "keeps P (stream_ok P) (streaming_response env n start obj model prompt sa)"
  unfolding streaming_response_def
  by (rule basics | simp add: stream_ok_def stream_callback_keeps)+

lemma usage_keeps: "keeps P (\<lambda>_. True) (token_usage prompt generated response)"
  unfolding token_usage_def by (rule basics TrueI)+

lemma completions_keeps: "keeps P (stream_ok P) (completions env request)"
  unfolding completions_def completionsStreaming_def Let_def
  by (rule usable_keeps checked_keeps usage_keeps streaming_keeps basics | simp)+

lemma chat_keeps: "keeps P (stream_ok P) (chatCompletions env request)"
  unfolding chatCompletions_def chatCompletionsStreaming_def Let_def
  by (rule usable_keeps checked_keeps usage_keeps streaming_keeps basics | simp)+

lemma embeddings_keeps: "keeps P (stream_ok P) (embeddings env request)"
  unfolding embeddings_def by (rule usable_keeps checked_keeps basics | simp)+

subsection \<open>Repository and admin routes\<close>

lemma load_recorded:
  "\<exists>c. recordModelLoadSuccess name mr = metrics_call c mr" "\<exists>c. recordModelLoadFailure name mr = metrics_call c mr"
  by (rule exI [where x = "LoadSuccess name"], simp, rule exI [where x = "LoadFailure name"], simp)

lemma index_keeps: "keeps P (stream_ok P) (indexRoute env request)"
  unfolding indexRoute_def by (rule basics | simp)+

lemma unload_route_keeps: "keeps P (stream_ok P) (unload_route env name body)"
  unfolding unload_route_def by (rule basics not_found_keeps | simp)+

lemma settled_keeps:
  "keeps P (stream_ok P) (load_failed env name message)" "keeps P (stream_ok P) (load_succeeded name body)"
  unfolding load_failed_def load_succeeded_def by (rule basics load_recorded | simp)+

lemma settle_load_keeps: "keeps P (stream_ok P) (settle_load env name body)"
  unfolding settle_load_def Let_def by (rule basics settled_keeps)+

lemma parsed_keeps:
  "(\<And>parsed. keeps P (stream_ok P) (rest parsed)) \<Longrightarrow> keeps P (stream_ok P) (parsed_or_error env result rest)"
  unfolding parsed_or_error_def by (rule basics | assumption)+

lemma repository_load_keeps: "keeps P (stream_ok P) (repository_load env request name)"
  unfolding repository_load_def Let_def by (rule parsed_keeps settle_load_keeps settled_keeps basics)+

lemma repository_keeps: "keeps P (stream_ok P) (handleRepository env request)"
  unfolding handleRepository_def Let_def by (rule index_keeps unload_route_keeps repository_load_keeps basics)+

lemma admin_load_keeps: "keeps P (stream_ok P) (admin_load env request)"
  unfolding admin_load_def load_refused_def Let_def by (rule parsed_keeps settle_load_keeps basics load_recorded)+

lemma admin_reload_keeps: "keeps P (stream_ok P) (admin_reload env request name)"
  unfolding admin_reload_def Let_def by (rule parsed_keeps basics | simp)+

lemma admin_activate_keeps: "keeps P (stream_ok P) (admin_activate env request name tail)"
  unfolding admin_activate_def activate_version_def Let_def by (rule parsed_keeps basics | simp)+

lemma admin_keeps: "keeps P (stream_ok P) (handleAdmin env request)"
  unfolding handleAdmin_def Let_def
  by (rule admin_load_keeps admin_reload_keeps admin_activate_keeps unload_route_keeps basics | simp)+

subsection \<open>Every request\<close>

lemma model_route_keeps: "keeps P (stream_ok P) (model_route env request tail)"
  unfolding model_route_def method_not_allowed_def Let_def
  by (rule metadata_keeps ready_keeps infer_keeps not_found_keeps basics)+

lemma handle_keeps: "keeps P (stream_ok P) (handle env request)"
  unfolding handle_def Let_def
  by (rule health_keeps metrics_page_keeps completions_keeps chat_keeps embeddings_keeps admin_keeps repository_keeps
      model_route_keeps basics)+

lemma serve_http_keeps: "P s \<Longrightarrow> P (serve_one env (HttpIn request) s)"
proof -
  assume s: "P s"
  obtain out t where step: "handle env request s = (out, t)" by fastforce
  then have t: "P t" using keepsD [OF handle_keeps s] by blast
  show ?thesis
  proof (cases out)
    case (Value r)
    with step have "fst (handle env request s) = Value r" by simp
    with handle_keeps [of request] s have "stream_ok P r" by (simp add: keeps_def)
    then have "P (snd (answer r t))"
      using t unfolding answer_def stream_ok_def
      by (cases "hr_stream_callback r"; cases "hr_streaming r") (auto simp: split_beta Let_def)
    with step Value show ?thesis by simp
  qed (use step t in simp_all)
qed

subsection \<open>gRPC\<close>

lemmas grpc_texts = span_event_text span_event_grpc_code grpc_event_def with_latencies_def span_members

lemma grpc_respond_keeps: "keeps P (\<lambda>_. True) (grpc_respond env q request_id scheduled)"
  unfolding grpc_respond_def grpc_scheduler_failure_def grpc_backend_failure_def grpc_success_def Let_def
  by (rule basics recorded TrueI | simp add: grpc_texts)+

lemma grpc_infer_keeps: "keeps P (\<lambda>_. True) (grpc_ModelInfer env q)"
  unfolding grpc_ModelInfer_def grpc_submit_def Let_def
  by (rule grpc_respond_keeps basics TrueI | simp add: grpc_texts)+

lemma grpc_keeps: "keeps P (\<lambda>_. True) (grpc_call env call)"
  by (cases call) (simp_all add: grpc_ModelReady_def grpc_ModelMetadata_def grpc_infer_keeps,
    (rule basics TrueI)+)

subsection \<open>The server\<close>

lemma serve_one_keeps: "P s \<Longrightarrow> P (serve_one env arrival s)"
  using serve_http_keeps grpc_keeps by (cases arrival) (auto simp: keeps_def)

lemma serve_keeps: "P s \<Longrightarrow> P (serve env arrivals s)"
  unfolding serve_def by (induction arrivals arbitrary: s) (simp_all add: serve_one_keeps del: serve_one.simps)

end

end
