(* ===== verification/Runtime_Answers.thy ===== *)
theory Runtime_Answers
  imports Runtime_Invariants Registry_Props
begin

text \<open>
  The answers of the runtime, route by route: what an inference does to the state and which answer it gives,
  what a refused one leaves alone, which operation a path names, and what the load and index routes report.
\<close>

section \<open>What an action runs to\<close>

text \<open>
  An action that serves a request stops in two ways: with a value, or because the JSON library throws while it
  prints a document of the answer or a line of the log, as the library does for a text that is not UTF-8.
  \<open>runs_to env E m Q s\<close>: from \<open>s\<close>, \<open>m\<close> ends with a value and a state for which \<open>Q\<close> holds, or with such an
  exception in a state for which \<open>E\<close> holds.
\<close>

definition unprintable :: "RuntimeEnv \<Rightarrow> string \<Rightarrow> bool" where
  "unprintable env what \<longleftrightarrow> (\<exists>j. en_dump env j = Inl what)"

definition runs_to ::
  "RuntimeEnv \<Rightarrow> (RuntimeState \<Rightarrow> bool) \<Rightarrow> 'a action \<Rightarrow> ('a \<Rightarrow> RuntimeState \<Rightarrow> bool) \<Rightarrow> RuntimeState \<Rightarrow> bool" where
  "runs_to env E m Q s \<longleftrightarrow>
     (case m s of
        (Value x, t) \<Rightarrow> Q x t
      | (Exception what, t) \<Rightarrow> unprintable env what \<and> E t
      | (OtherException, t) \<Rightarrow> False
      | (Undefined, t) \<Rightarrow> False
      | (Blocked, t) \<Rightarrow> False)"

definition printable_event :: "RuntimeEnv \<Rightarrow> LogEvent \<Rightarrow> bool" where
  "printable_event env e \<longleftrightarrow> (\<exists>text. en_dump env (event_json (en_timestamp env) e) = Inr text)"

named_theorems runs

lemma runs_bind [runs]:
  "runs_to env E (bind_run m f) Q s = runs_to env E m (\<lambda>x. runs_to env E (f x) Q) s"
  by (simp add: runs_to_def bind_run_def split: prod.split Outcome.split)

lemma runs_give [runs]: "runs_to env E (give x) Q s = Q x s"
  by (simp add: runs_to_def give_def)

lemma runs_registry [runs]: "runs_to env E registry Q s = Q (ru_registry s) s"
  by (simp add: runs_to_def registry_def)

lemma runs_metrics [runs]:
  "runs_to env E (on_metrics g) Q s = Q () (s\<lparr>ru_metrics := g (ru_metrics s)\<rparr>)"
  by (simp add: runs_to_def on_metrics_def)

lemma runs_log [runs]:
  "runs_to env E (log_event env e) Q s = (if printable_event env e then Q () (s\<lparr>ru_log := ru_log s @ [e]\<rparr>) else E s)"
  by (cases "en_dump env (event_json (en_timestamp env) e)")
    (auto simp: runs_to_def log_event_def writeEvent_def printable_event_def unprintable_def)

lemma runs_sum:
  assumes "\<And>what. r = Inl what \<Longrightarrow> unprintable env what"
  shows "runs_to env E (of_sum r) Q s = (case r of Inl what \<Rightarrow> E s | Inr x \<Rightarrow> Q x s)"
  using assms by (cases r) (simp_all add: runs_to_def of_sum_def)

lemma runs_dump [runs]:
  "runs_to env E (of_sum (en_dump env j)) Q s = (case en_dump env j of Inl what \<Rightarrow> E s | Inr text \<Rightarrow> Q text s)"
  by (rule runs_sum) (auto simp: unprintable_def)

lemma runs_binary [runs]:
  "runs_to env E (of_sum (inferenceResponseBinary (en_dump env) m v parsed response)) Q s =
     (case inferenceResponseBinary (en_dump env) m v parsed response of Inl what \<Rightarrow> E s | Inr framed \<Rightarrow> Q framed s)"
  by (rule runs_sum) (auto simp: unprintable_def inferenceResponseBinary_def Let_def split: sum.splits)

lemma runs_request_id [runs]:
  "runs_to env E (request_id_of env i) Q s =
     (case i of Some rid \<Rightarrow> Q rid s
      | None \<Rightarrow> Q (uuid_text (en_random env (ru_draws s))) (s\<lparr>ru_draws := ru_draws s + 1\<rparr>))"
  by (simp add: runs_to_def request_id_of_def generateRequestId_def give_def split: option.split)

lemma runs_submit [runs]:
  "runs_to env E (submit_to env (Some p) q accepts) Q s =
     (let (r, st) = en_submit env p q accepts (rg_schedulers (ru_registry s))
      in Q r (s\<lparr>ru_registry := (ru_registry s)\<lparr>rg_schedulers := st\<rparr>\<rparr>))"
  by (simp add: runs_to_def submit_to_def split: prod.split)

lemma runs_error [runs]:
  "runs_to env E (error_response env status code message) Q s =
     (case en_dump env (error_json code message) of
        Inl what \<Rightarrow> E s | Inr body \<Rightarrow> Q (json_response status body) s)"
  by (simp add: error_response_def runs split: sum.split)

text \<open>The same as rules that work backwards through an action.\<close>

named_theorems vcg

lemma vcg_bind [vcg]:
  "runs_to env E m (\<lambda>x. runs_to env E (f x) Q) s \<Longrightarrow> runs_to env E (bind_run m f) Q s"
  by (simp add: runs)

lemma vcg_give [vcg]: "Q x s \<Longrightarrow> runs_to env E (give x) Q s"
  by (simp add: runs)

lemma vcg_registry [vcg]: "Q (ru_registry s) s \<Longrightarrow> runs_to env E registry Q s"
  by (simp add: runs)

lemma vcg_metrics [vcg]:
  "Q () (s\<lparr>ru_metrics := g (ru_metrics s)\<rparr>) \<Longrightarrow> runs_to env E (on_metrics g) Q s"
  by (simp add: runs)

lemma vcg_log [vcg]:
  "E s \<Longrightarrow> Q () (s\<lparr>ru_log := ru_log s @ [e]\<rparr>) \<Longrightarrow> runs_to env E (log_event env e) Q s"
  by (simp add: runs)

lemma vcg_request_id [vcg]:
  "(\<And>rid k. Q rid (s\<lparr>ru_draws := k\<rparr>)) \<Longrightarrow> runs_to env E (request_id_of env i) Q s"
proof (cases i)
  case (Some j)
  assume "\<And>rid k. Q rid (s\<lparr>ru_draws := k\<rparr>)"
  from this [of j "ru_draws s"] Some show ?thesis by (simp add: runs)
qed (simp add: runs)

lemma vcg_error [vcg]:
  "E s \<Longrightarrow> (\<And>body. Q (json_response status body) s) \<Longrightarrow> runs_to env E (error_response env status code message) Q s"
  by (simp add: runs split: sum.split)

lemma vcg_submit:
  assumes "en_submit env p q accepts (rg_schedulers (ru_registry s)) = ((tokens, scheduled), st)"
    and "Q (tokens, scheduled) (s\<lparr>ru_registry := (ru_registry s)\<lparr>rg_schedulers := st\<rparr>\<rparr>)"
  shows "runs_to env E (submit_to env (Some p) q accepts) Q s"
  using assms by (simp add: runs)

lemma vcg_pair [vcg]: "runs_to env E (f x y) Q s \<Longrightarrow> runs_to env E (case (x, y) of (x, y) \<Rightarrow> f x y) Q s"
  by simp

lemma status_of_json [simp]: "hr_status (json_response status body) = status"
  "hr_body (json_response status body) = body" "\<not> hr_streaming (json_response status body)"
  by (simp_all add: json_response_def new_response_def)

section \<open>Inference\<close>

text \<open>The status of an inference, by the result of the scheduler.\<close>

definition infer_status :: "SchedulerResult \<Rightarrow> int" where
  "infer_status scheduled =
     (if \<not> sr_ok scheduled then httpStatusForCode (result_code scheduled)
      else if \<not> rs_ok (sr_response scheduled)
      then (if rs_error_code (sr_response scheduled) = ''INVALID_ARGUMENT'' then 400 else 500) else 200)"

text \<open>The latencies and the batch size that are recorded: none for a failure the scheduler reports.\<close>

definition recorded_infer :: "string \<Rightarrow> string \<Rightarrow> SchedulerResult \<Rightarrow> MetricsRegistry \<Rightarrow> MetricsRegistry" where
  "recorded_infer m meth scheduled =
     (if sr_ok scheduled
      then recordInferRequest m meth (infer_status scheduled) (sr_queue_latency_ns scheduled)
             (sr_execution_latency_ns scheduled) (sr_total_latency_ns scheduled) (sr_batch_size scheduled)
      else recordInferRequest m meth (infer_status scheduled) 0 0 0 0)"

text \<open>How an inference may stop short: before the submission, before the count, or after it.\<close>

definition stopped_short :: "SchedulerStore \<Rightarrow> (MetricsRegistry \<Rightarrow> MetricsRegistry) \<Rightarrow> RuntimeState \<Rightarrow> RuntimeState \<Rightarrow> bool" where
  "stopped_short st record s t \<longleftrightarrow>
     ru_registry t = ru_registry s \<and> ru_metrics t = ru_metrics s \<or>
     ru_registry t = (ru_registry s)\<lparr>rg_schedulers := st\<rparr> \<and>
       (ru_metrics t = ru_metrics s \<or> ru_metrics t = record (ru_metrics s))"

text \<open>The answer to an inference.\<close>

definition answered ::
  "RuntimeEnv \<Rightarrow> string \<Rightarrow> string \<Rightarrow> HttpRequest \<Rightarrow> InferenceRequest \<Rightarrow> SchedulerResult \<Rightarrow> Response \<Rightarrow> bool" where
  "answered env m v q parsed scheduled res \<longleftrightarrow>
     hr_status res = infer_status scheduled \<and> \<not> hr_streaming res \<and>
     (sr_ok scheduled \<and> rs_ok (sr_response scheduled) \<and> inferenceHeaderLength q = None \<longrightarrow>
        inferenceResponseJson (en_dump env) m v parsed (sr_response scheduled) = Inr (hr_body res))"

lemma success_runs:
  assumes "E s" and "\<And>res. hr_status res = 200 \<Longrightarrow> \<not> hr_streaming res \<Longrightarrow>
      (inferenceHeaderLength q = None \<Longrightarrow> inferenceResponseJson (en_dump env) m v parsed response = Inr (hr_body res)) \<Longrightarrow> Q res s"
  shows "runs_to env E (success_response env m v q parsed response) Q s"
proof (cases "inferenceHeaderLength q")
  case None
  then show ?thesis
    using assms by (auto simp: success_response_def runs inferenceResponseJson_def split: sum.split)
next
  case (Some n)
  have "Q (new_response\<lparr>hr_status := 200, hr_content_type := c, hr_body := b, hr_headers := h\<rparr>) s" for c b h
    by (rule assms(2)) (simp_all add: Some new_response_def)
  with Some assms(1) show ?thesis
    by (simp add: success_response_def runs split: sum.split)
qed

lemma encode_runs:
  assumes E: "\<And>t. ru_registry t = ru_registry s \<Longrightarrow>
      ru_metrics t = ru_metrics s \<or> ru_metrics t = recorded_infer m (hq_method q) scheduled (ru_metrics s) \<Longrightarrow> E t"
    and Q: "\<And>res t. answered env m v q parsed scheduled res \<Longrightarrow> ru_registry t = ru_registry s \<Longrightarrow>
      ru_metrics t = recorded_infer m (hq_method q) scheduled (ru_metrics s) \<Longrightarrow> length (ru_log t) = length (ru_log s) + 1 \<Longrightarrow> Q res t"
  shows "runs_to env E (encodeInferResponse env m v q parsed scheduled) Q s"
proof -
  consider "\<not> sr_ok scheduled" | "sr_ok scheduled" "\<not> rs_ok (sr_response scheduled)"
    | "sr_ok scheduled" "rs_ok (sr_response scheduled)" by blast
  then show ?thesis
  proof cases
    case 1
    then have "recorded_infer m (hq_method q) scheduled =
        recordInferRequest m (hq_method q) (httpStatusForCode (result_code scheduled)) 0 0 0 0"
      and "\<And>body. answered env m v q parsed scheduled (json_response (httpStatusForCode (result_code scheduled)) body)"
      by (simp_all add: recorded_infer_def infer_status_def answered_def)
    with 1 show ?thesis
      by (simp only: encodeInferResponse_def encode_scheduler_failure_def Let_def if_True if_False not_False_eq_True)
        (intro vcg E Q; simp)
  next
    case 2
    then have "recorded_infer m (hq_method q) scheduled =
        recordInferRequest m (hq_method q) (if rs_error_code (sr_response scheduled) = ''INVALID_ARGUMENT'' then 400 else 500)
        (sr_queue_latency_ns scheduled) (sr_execution_latency_ns scheduled) (sr_total_latency_ns scheduled) (sr_batch_size scheduled)"
      and "\<And>body. answered env m v q parsed scheduled
        (json_response (if rs_error_code (sr_response scheduled) = ''INVALID_ARGUMENT'' then 400 else 500) body)"
      by (simp_all add: recorded_infer_def infer_status_def answered_def)
    with 2 show ?thesis
      by (simp only: encodeInferResponse_def encode_backend_failure_def Let_def if_True if_False not_False_eq_True not_True_eq_False)
        (intro vcg E Q; simp)
  next
    case 3
    then have "recorded_infer m (hq_method q) scheduled = recordInferRequest m (hq_method q) 200
        (sr_queue_latency_ns scheduled) (sr_execution_latency_ns scheduled) (sr_total_latency_ns scheduled) (sr_batch_size scheduled)"
      and "\<And>res. hr_status res = 200 \<Longrightarrow> \<not> hr_streaming res \<Longrightarrow> (inferenceHeaderLength q = None \<Longrightarrow>
        inferenceResponseJson (en_dump env) m v parsed (sr_response scheduled) = Inr (hr_body res)) \<Longrightarrow>
        answered env m v q parsed scheduled res"
      by (simp_all add: recorded_infer_def infer_status_def answered_def)
    with 3 show ?thesis
      by (simp only: encodeInferResponse_def encode_success_def Let_def if_True if_False not_True_eq_False)
        (intro vcg success_runs E Q; simp)
  qed
qed

lemma schedule_runs:
  assumes p: "sn_scheduler n = Some p"
    and st: "en_submit env p (execution_request parsed) (\<lambda>_. True) (rg_schedulers (ru_registry s)) = ((tokens, scheduled), st)"
    and E: "\<And>t. ru_registry t = ru_registry s \<or> ru_registry t = (ru_registry s)\<lparr>rg_schedulers := st\<rparr> \<Longrightarrow>
      ru_metrics t = ru_metrics s \<Longrightarrow> E t"
    and Q: "\<And>t. ru_registry t = (ru_registry s)\<lparr>rg_schedulers := st\<rparr> \<Longrightarrow> ru_metrics t = ru_metrics s \<Longrightarrow>
      length (ru_log t) = length (ru_log s) + 4 \<Longrightarrow> Q scheduled t"
  shows "runs_to env E (scheduleInfer env m v parsed n) Q s"
proof -
  have submit: "runs_to env E (submit_to env (Some p) (execution_request parsed) (\<lambda>_. True)) Q' t"
    if "ru_registry t = ru_registry s" "Q' (tokens, scheduled) (t\<lparr>ru_registry := (ru_registry s)\<lparr>rg_schedulers := st\<rparr>\<rparr>)" for Q' t
    using vcg_submit [of env p _ _ t, OF st [folded that(1)]] that by simp
  show ?thesis
    unfolding scheduleInfer_def Let_def p by (intro vcg submit E Q; simp)
qed

lemma decode_runs:
  assumes decoded: "decode_body env q (sn_metadata n) = Decoded parsed"
    and E: "\<And>t. ru_registry t = ru_registry s \<Longrightarrow> ru_metrics t = ru_metrics s \<Longrightarrow> E t"
    and Q: "\<And>t. ru_registry t = ru_registry s \<Longrightarrow> ru_metrics t = ru_metrics s \<Longrightarrow>
      length (ru_log t) = length (ru_log s) + 1 \<Longrightarrow> Q (None, parsed) t"
  shows "runs_to env E (decodeAndAdmit env q m v n) Q s"
  by (simp only: decodeAndAdmit_def decoded InferenceParseResult.case) (intro vcg E Q; simp)

lemma validate_runs:
  assumes "findHandleVersion (ru_registry s) m v = Some n" "snapshot_isReady (rg_schedulers (ru_registry s)) n"
    "sn_scheduler n = Some p" "Q (None, Some n) s"
  shows "runs_to env E (validateInferModel env m v) Q s"
  using assms by (simp add: validateInferModel_def runs Let_def)

lemma infer_runs:
  assumes found: "findHandleVersion (ru_registry s) m v = Some n" "snapshot_isReady (rg_schedulers (ru_registry s)) n"
      "sn_scheduler n = Some p"
    and decoded: "decode_body env q (sn_metadata n) = Decoded parsed"
    and st: "en_submit env p (execution_request parsed) (\<lambda>_. True) (rg_schedulers (ru_registry s)) = ((tokens, scheduled), st)"
  shows "runs_to env (stopped_short st (recorded_infer m (hq_method q) scheduled) s) (infer env m v q)
    (\<lambda>res t. answered env m v q parsed scheduled res \<and> ru_registry t = (ru_registry s)\<lparr>rg_schedulers := st\<rparr> \<and>
       ru_metrics t = recorded_infer m (hq_method q) scheduled (ru_metrics s) \<and> length (ru_log t) = length (ru_log s) + 6) s"
  by (simp add: infer_def infer_stages_def runs_bind, rule validate_runs [OF found], simp add: runs,
    rule decode_runs [OF decoded], simp add: stopped_short_def,
    simp add: runs, rule schedule_runs [OF found(3)], simp add: st, force simp: stopped_short_def)
    (simp add: runs, rule encode_runs; simp add: runs stopped_short_def)

text \<open>A request that is not run: the model is missing, not ready or without a scheduler, or the request is not one for it.\<close>

definition infer_refused :: "RuntimeEnv \<Rightarrow> ModelRegistry \<Rightarrow> string \<Rightarrow> string \<Rightarrow> HttpRequest \<Rightarrow> bool" where
  "infer_refused env r m v q \<longleftrightarrow>
     (case findHandleVersion r m v of
        None \<Rightarrow> True
      | Some n \<Rightarrow> \<not> snapshot_isReady (rg_schedulers r) n \<or> sn_scheduler n = None \<or>
          (case decode_body env q (sn_metadata n) of Rejected _ \<Rightarrow> True | _ \<Rightarrow> False))"

lemma not_ready_runs:
  "E s \<Longrightarrow> (\<And>res. hr_status res \<in> {409, 503} \<Longrightarrow> Q res s) \<Longrightarrow> runs_to env E (not_ready_error env r n) Q s"
  by (cases "sn_state n") (simp_all add: not_ready_error_def modelStateError_def runs split: sum.split)

lemma refused_runs:
  assumes "infer_refused env (ru_registry s) m v q"
  shows "runs_to env (\<lambda>t. t = s) (infer env m v q)
    (\<lambda>res t. t = s \<and> hr_status res \<in> {400, 404, 409, 503} \<and>
       (hr_status res = 404 \<longleftrightarrow> findHandleVersion (ru_registry s) m v = None)) s"
proof -
  note run = infer_def infer_stages_def runs validateInferModel_def refuse_with_def Let_def
  show ?thesis
  proof (cases "findHandleVersion (ru_registry s) m v")
    case None
    then show ?thesis by (simp add: run not_found_model_def split: sum.split)
  next
    case (Some n)
    consider "\<not> snapshot_isReady (rg_schedulers (ru_registry s)) n"
      | "snapshot_isReady (rg_schedulers (ru_registry s)) n" "sn_scheduler n = None"
      | message where "snapshot_isReady (rg_schedulers (ru_registry s)) n" "sn_scheduler n \<noteq> None"
          "decode_body env q (sn_metadata n) = Rejected message"
      using assms Some by (auto simp: infer_refused_def split: InferenceParseResult.splits)
    then show ?thesis
      by cases (use Some in \<open>auto simp: run decodeAndAdmit_def split: sum.split intro!: not_ready_runs\<close>)
  qed
qed

section \<open>An environment\<close>

text \<open>A printer that prints one text, a scheduler that answers at once, no library and no files.\<close>

definition demo_env :: RuntimeEnv where
  "demo_env = \<lparr>en_parse = (\<lambda>_. JsonParseError ''?''), en_dump = (\<lambda>_. Inr ''{}''), en_dump_replace = (\<lambda>_. ''[]''),
     en_timestamp = ''t'', en_created = 0, en_now = 0, en_version = ''1'', en_random = (\<lambda>_. replicate 16 0), en_memory = 0,
     en_library = \<lparr>nb_enabled = False, nb_available = (\<lambda>_. []), nb_adapter = Returns None\<rparr>, en_backends = new_backends,
     en_pipeline = (\<lambda>_ _ err. NoExecutor err), en_files = \<lparr>fs_is_directory = (\<lambda>_. False), fs_entries = (\<lambda>_. [])\<rparr>,
     en_priority = None, en_submit = (\<lambda>p q accepts st. (([], new_result), st))\<rparr>"

definition demo_state :: RuntimeState where
  "demo_state = \<lparr>ru_registry = empty_registry False False False (1 / 4), ru_metrics = new_metrics, ru_log = [], ru_draws = 0\<rparr>"

definition get_request :: "string \<Rightarrow> HttpRequest" where
  "get_request path = \<lparr>hq_method = ''GET'', hq_path = path, hq_body = [], hq_headers = []\<rparr>"

text \<open>A text model that is ready, a request for it, and an environment that reads and prints it.\<close>

definition text_handle :: ModelHandle where
  "text_handle = (stub_handle default_config ''1'' 0)\<lparr>mh_metadata := llmStubMetadata default_config\<rparr>"

definition text_state :: RuntimeState where
  "text_state = demo_state\<lparr>ru_registry := solo (ready_slot\<lparr>sl_handle := text_handle,
     sl_active_snapshot := Some (fromHandle text_handle)\<rparr>) [stub_scheduler default_config] []\<rparr>"

definition text_body :: Json where
  "text_body = JObject [(''inputs'', JArray [JObject [(''data'', JArray [JString ''hi'']), (''datatype'', JString ''BYTES''),
     (''name'', JString ''prompt''), (''shape'', JArray [JUnsigned 1])]])]"

definition text_request :: InferenceRequest where
  "text_request = \<lparr>ir_id = None, ir_inputs = [\<lparr>it_name = ''prompt'', it_datatype = ''BYTES'', it_shape = [1], it_bytes = [],
     it_string_data = [''hi'']\<rparr>], ir_requested_outputs = [''text''], ir_llm_params = None\<rparr>"

definition text_env :: RuntimeEnv where
  "text_env = demo_env\<lparr>en_parse := (\<lambda>_. JsonValue text_body)\<rparr>"

definition infer_post :: HttpRequest where
  "infer_post = (get_request ''/v2/models/demo/versions/1/infer'')\<lparr>hq_method := ''POST''\<rparr>"

lemma text_env_prints [simp]: "\<not> unprintable text_env what"
  by (simp add: unprintable_def text_env_def demo_env_def)

lemma text_found:
  "findHandleVersion (ru_registry text_state) ''demo'' ''1'' = Some (fromHandle text_handle)"
  "snapshot_isReady (rg_schedulers (ru_registry text_state)) (fromHandle text_handle)"
  "sn_scheduler (fromHandle text_handle) = Some 0"
  by (simp_all add: findHandleVersion_def findSlot_def text_state_def solo_def ready_slot_def fromHandle_def text_handle_def
      stub_handle_def llmStubMetadata_def snapshot_isReady_def)

lemma text_decoded: "decode_body text_env infer_post (sn_metadata (fromHandle text_handle)) = Decoded text_request"
  by (simp add: decode_body_def inferenceHeaderLength_def infer_post_def get_request_def parseInferenceRequest_def
      parseInferenceRequest_framed_def text_env_def demo_env_def decode_request_def text_body_def parse_input_def
      parse_payload_def binaryDataSize_def shapeMatches_def parseShape_def findTensor_def contains_def at_key_def
      allOutputNames_def isBytesDatatype_def parseStringData_def text_request_def size_of_int64_def size_limit_def
      size_mul_def get_int64_def fromHandle_def text_handle_def stub_handle_def llmStubMetadata_def)

lemma text_submit:
  "en_submit text_env 0 (execution_request text_request) (\<lambda>_. True) st = (([], new_result), st)"
  by (simp add: text_env_def demo_env_def)

section \<open>Routes\<close>

lemma split_slash_append: "CHR ''/'' \<notin> set m \<Longrightarrow> split_slash (m @ CHR ''/'' # rest) = (m, CHR ''/'' # rest)"
  by (simp add: split_slash_def find_char_append)

lemma split_slash_action:
  "CHR ''/'' \<notin> set v \<Longrightarrow> action \<in> {[], ''/ready'', ''/infer''} \<Longrightarrow> split_slash (v @ action) = (v, action)"
  by (auto simp: split_slash_def find_char_append iffD2 [OF find_char_None])

lemma model_path:
  assumes "hq_path q = ''/v2/models/'' @ rest" "hq_method q \<noteq> []" "rest \<noteq> []"
  shows "handle env q = model_route env q rest"
  using assms by (simp add: handle_def extractModelRouteTail_def startsWith_def Let_def)

lemma parse_versioned: "parseVersionedRoute (''/versions/'' @ rest) = Some (split_slash rest)"
  by (simp add: parseVersionedRoute_def startsWith_def)

text \<open>
  (C31) A path that names a model, a version and an action reaches exactly the operation it names, for every
  name and version without a slash: metadata and readiness by GET, inference by POST, and nothing else.
\<close>

theorem versioned_routes:
  assumes "hq_path q = ''/v2/models/'' @ m @ ''/versions/'' @ v @ action" "hq_method q \<noteq> []"
    "CHR ''/'' \<notin> set m" "CHR ''/'' \<notin> set v" "action \<in> {[], ''/ready'', ''/infer''}"
  shows "handle env q =
    (if hq_method q = ''GET'' \<and> action = [] then modelMetadata env m v
     else if hq_method q = ''GET'' \<and> action = ''/ready'' then modelReady env m v
     else if hq_method q = ''POST'' \<and> action = ''/infer'' then infer env m v q
     else method_not_allowed env)"
proof -
  have "split_slash (m @ ''/versions/'' @ v @ action) = (m, ''/versions/'' @ v @ action)"
    using split_slash_append [OF assms(3), of "''versions/'' @ v @ action"] by simp
  then have "handle env q =
    (if hq_method q = ''GET'' \<and> action = [] then modelMetadata env m v
     else if hq_method q = ''GET'' \<and> action = ''/ready'' then modelReady env m v
     else if hq_method q = ''POST'' \<and> action = ''/infer'' then infer env m v q
     else if action = [] \<or> action = ''/ready'' \<or> action = ''/infer'' then method_not_allowed env
     else error_response env 404 ''NOT_FOUND'' ''route not found'')"
    using model_path [OF assms(1,2)] parse_versioned [of "v @ action"] split_slash_action [OF assms(4,5)]
    by (simp add: model_route_def)
  then show ?thesis using assms(5) by auto
qed

theorem versioned_routes_witness: "handle text_env infer_post = infer text_env ''demo'' ''1'' infer_post"
  using versioned_routes [of infer_post "''demo''" "''1''" "''/infer''" text_env] by (simp add: infer_post_def get_request_def)

lemma text_route: "handle text_env infer_post = infer text_env ''demo'' ''1'' infer_post"
  by (simp add: model_path [of _ "''demo/versions/1/infer''"] infer_post_def get_request_def model_route_def split_slash_def
      parseVersionedRoute_def startsWith_def)

section \<open>What an inference does\<close>

lemma recorded_counters:
  "counter (mr_requests_total (recorded_infer m meth scheduled mr)) k =
     counter (mr_requests_total mr) k + (if k = m then 1 else 0)"
  "counter (mr_requests_success (recorded_infer m meth scheduled mr)) k =
     counter (mr_requests_success mr) k + (if k = m \<and> infer_status scheduled = 200 then 1 else 0)"
  "counter (mr_requests_failure (recorded_infer m meth scheduled mr)) k =
     counter (mr_requests_failure mr) k + (if k = m \<and> infer_status scheduled \<noteq> 200 then 1 else 0)"
proof -
  have "infer_status scheduled = 200 \<or> infer_status scheduled \<ge> 300"
    by (simp add: infer_status_def httpStatusForCode_def)
  then show "counter (mr_requests_total (recorded_infer m meth scheduled mr)) k =
      counter (mr_requests_total mr) k + (if k = m then 1 else 0)"
    "counter (mr_requests_success (recorded_infer m meth scheduled mr)) k =
      counter (mr_requests_success mr) k + (if k = m \<and> infer_status scheduled = 200 then 1 else 0)"
    "counter (mr_requests_failure (recorded_infer m meth scheduled mr)) k =
      counter (mr_requests_failure mr) k + (if k = m \<and> infer_status scheduled \<noteq> 200 then 1 else 0)"
    by (auto simp: recorded_infer_def recordInferRequest_def Let_def)
qed

text \<open>
  (C10) An inference on a ready model answers with what its scheduler said. For a request that decodes, the
  scheduler of the model is given exactly that request, once. When the handler answers, the registry has
  changed by that submission alone; the status is 200 for a good response, 400 or 500 for a failed one and the
  status of the error code otherwise; the body of a good JSON answer is the response document; and one request
  of this model, and of no other, is counted, as a success exactly when the status is 200. The handler does not
  answer only when the JSON library throws while it prints the answer or a line of the log; that exception leaves
  it with the registry as it was or changed by that one submission, and the request counted at most once.
\<close>

theorem infer_answers:
  assumes "findHandleVersion (ru_registry s) m v = Some n" "snapshot_isReady (rg_schedulers (ru_registry s)) n"
    "sn_scheduler n = Some p" "decode_body env q (sn_metadata n) = Decoded parsed"
    "en_submit env p (execution_request parsed) (\<lambda>_. True) (rg_schedulers (ru_registry s)) = ((tokens, scheduled), st)"
  shows "case infer env m v q s of
      (Value res, t) \<Rightarrow>
        hr_status res = infer_status scheduled \<and> ru_registry t = (ru_registry s)\<lparr>rg_schedulers := st\<rparr> \<and>
        (\<forall>k. counter (mr_requests_total (ru_metrics t)) k =
               counter (mr_requests_total (ru_metrics s)) k + (if k = m then 1 else 0) \<and>
             counter (mr_requests_success (ru_metrics t)) k =
               counter (mr_requests_success (ru_metrics s)) k + (if k = m \<and> hr_status res = 200 then 1 else 0) \<and>
             counter (mr_requests_failure (ru_metrics t)) k =
               counter (mr_requests_failure (ru_metrics s)) k + (if k = m \<and> hr_status res \<noteq> 200 then 1 else 0)) \<and>
        (sr_ok scheduled \<and> rs_ok (sr_response scheduled) \<and> inferenceHeaderLength q = None \<longrightarrow>
           inferenceResponseJson (en_dump env) m v parsed (sr_response scheduled) = Inr (hr_body res))
    | (Exception what, t) \<Rightarrow>
        (\<exists>j. en_dump env j = Inl what) \<and>
        (ru_registry t = ru_registry s \<and> ru_metrics t = ru_metrics s \<or>
         ru_registry t = (ru_registry s)\<lparr>rg_schedulers := st\<rparr> \<and>
           ru_metrics t \<in> {ru_metrics s, recorded_infer m (hq_method q) scheduled (ru_metrics s)})
    | _ \<Rightarrow> False"
  using infer_runs [OF assms]
  by (auto simp: runs_to_def unprintable_def stopped_short_def answered_def recorded_counters split: prod.splits Outcome.splits)

theorem infer_answers_witness:
  "\<exists>res t. infer text_env ''demo'' ''1'' infer_post text_state = (Value res, t) \<and> hr_status res = 200 \<and>
     counter (mr_requests_success (ru_metrics t)) ''demo'' = 1"
proof -
  have "counter (mr_requests_success (ru_metrics text_state)) k = 0" for k
    by (simp add: text_state_def demo_state_def new_metrics_def counter_def)
  moreover have "infer_status new_result = 200"
    by (simp add: infer_status_def new_result_def empty_response_def)
  moreover have "\<nexists>j. en_dump text_env j = Inl what" for what
    using text_env_prints [of what] by (simp add: unprintable_def)
  ultimately show ?thesis
    using infer_answers [OF text_found text_decoded text_submit] by (fastforce split: prod.splits Outcome.splits)
qed

text \<open>
  (C11) A refused inference changes nothing. When the model or version is unknown, not ready or without a
  scheduler, or the request is rejected, registry, schedulers, metrics, log and random draws are as before, and
  the answer is one of 400, 404, 409 and 503, 404 exactly for the unknown one; instead of an answer there may be
  the exception of the JSON library when it cannot print the error text.
\<close>

theorem refused_inference_changes_nothing:
  assumes "infer_refused env (ru_registry s) m v q"
  shows "case infer env m v q s of
      (Value res, t) \<Rightarrow> t = s \<and> hr_status res \<in> {400, 404, 409, 503} \<and>
        (hr_status res = 404 \<longleftrightarrow> findHandleVersion (ru_registry s) m v = None)
    | (Exception what, t) \<Rightarrow> t = s \<and> (\<exists>j. en_dump env j = Inl what)
    | _ \<Rightarrow> False"
  using refused_runs [OF assms] by (auto simp: runs_to_def unprintable_def split: prod.splits Outcome.splits)

theorem refused_inference_changes_nothing_witness:
  "\<exists>res. infer text_env ''demo'' ''2'' infer_post text_state = (Value res, text_state) \<and> hr_status res = 404"
proof -
  have none: "findHandleVersion (ru_registry text_state) ''demo'' ''2'' = None"
    by (simp add: findHandleVersion_def findSlot_def text_state_def solo_def ready_slot_def fromHandle_def text_handle_def
        stub_handle_def llmStubMetadata_def)
  then have refused: "infer_refused text_env (ru_registry text_state) ''demo'' ''2'' infer_post"
    by (simp add: infer_refused_def)
  have "\<nexists>j. en_dump text_env j = Inl what" for what
    using text_env_prints [of what] by (simp add: unprintable_def)
  with refused_inference_changes_nothing [OF refused] none show ?thesis
    by (auto split: prod.splits Outcome.splits)
qed

end
