(* ===== verification/Runtime_Props.thy ===== *)
theory Runtime_Props
  imports Runtime_Answers
begin

text \<open>
  What the runtime promises its clients: the registry it drives only makes steps the registry allows,
  payloads stay out of the log, requests are counted, and the routes do what their names say.
\<close>

section \<open>The registry behind the server\<close>

text \<open>A registry with no other call in flight, as a state of the registry's runs.\<close>

definition run_of :: "Build list \<Rightarrow> ModelRegistry \<Rightarrow> RegistryRun" where
  "run_of bs r = ModelRegistry.extend r \<lparr>rr_builds = bs\<rparr>"

lemma run_of_fields [simp]:
  "rg_models (run_of bs r) = rg_models r" "rg_catalog (run_of bs r) = rg_catalog r"
  "rg_retiring (run_of bs r) = rg_retiring r" "rg_schedulers (run_of bs r) = rg_schedulers r"
  "rr_builds (run_of bs r) = bs"
  by (simp_all add: run_of_def ModelRegistry.extend_def)

lemma run_of_updates [simp]:
  "(run_of bs r)\<lparr>rg_models := m\<rparr> = run_of bs (r\<lparr>rg_models := m\<rparr>)"
  "(run_of bs r)\<lparr>rg_schedulers := st\<rparr> = run_of bs (r\<lparr>rg_schedulers := st\<rparr>)"
  "(run_of bs r)\<lparr>rg_retiring := t\<rparr> = run_of bs (r\<lparr>rg_retiring := t\<rparr>)"
  "(run_of bs r)\<lparr>rr_builds := cs\<rparr> = run_of cs r"
  by (simp_all add: run_of_def ModelRegistry.extend_def)

lemma run_of_slots [simp]:
  "findSlot (run_of bs r) name = findSlot r name"
  "set_slot name slot (run_of bs r) = run_of bs (set_slot name slot r)"
  "erase_slot name (run_of bs r) = run_of bs (erase_slot name r)"
  "retire p (run_of bs r) = run_of bs (retire p r)"
  "retireSnapshot n (run_of bs r) = run_of bs (retireSnapshot n r)"
  by (simp_all add: findSlot_def set_slot_def erase_slot_def retire_def retireSnapshot_def split: option.split)

lemma run_of_begin_build: "begin_build name slot (run_of bs r) = map_prod id (run_of bs) (begin_build name slot r)"
  by (simp add: begin_build_def Let_def split_beta)

lemma run_of_begin:
  "loadModel_begin config (run_of bs r) = map_prod id (run_of bs) (loadModel_begin config r)"
  "reload_begin name (run_of bs r) = map_prod id (run_of bs) (reload_begin name r)"
  "switchVersion_begin name version (run_of bs r) = map_prod id (run_of bs) (switchVersion_begin name version r)"
  by (auto simp: loadModel_begin_def reload_begin_def switchVersion_begin_def run_of_begin_build split: option.split)

lemma run_of_finish:
  "loadModel_finish k t f config (run_of bs r) = map_prod id (run_of bs) (loadModel_finish k t f config r)"
  "reload_finish k t f name config (run_of bs r) = map_prod id (run_of bs) (reload_finish k t f name config r)"
  "switchVersion_finish k t f name version config (run_of bs r) =
     map_prod id (run_of bs) (switchVersion_finish k t f name version config r)"
  by (simp_all add: loadModel_finish_def reload_finish_def switchVersion_finish_def Let_def split_beta split: option.split)

lemma run_of_unload:
  "unloadModel_check name (run_of bs r) = map_prod id (run_of bs) (unloadModel_check name r)"
  "registry_beginDrain name (run_of bs r) = map_prod id (run_of bs) (registry_beginDrain name r)"
  "registry_completeUnload name (run_of bs r) = map_prod id (run_of bs) (registry_completeUnload name r)"
  by (simp_all add: unloadModel_check_def registry_beginDrain_def registry_completeUnload_def Let_def split_beta
      split: option.split)

lemma unload_steps:
  assumes "unloadModel name r = (b, r')"
  shows "reg_step\<^sup>*\<^sup>* (run_of bs r) (run_of bs r')"
proof -
  obtain d r1 where check: "unloadModel_check name r = (d, r1)" by fastforce
  then have 1: "reg_step (run_of bs r) (run_of bs r1)" using reg_unload_check [of name] by (simp add: run_of_unload)
  show ?thesis
  proof (cases d)
    case None
    obtain ok r2 where drain: "registry_beginDrain name r1 = (ok, r2)" by fastforce
    then have 2: "reg_step (run_of bs r1) (run_of bs r2)" using reg_drain [of name] by (simp add: run_of_unload)
    show ?thesis
    proof (cases ok)
      case True
      with assms check None drain have "registry_completeUnload name r2 = (b, r')" by (simp add: unloadModel_def)
      then have "reg_step (run_of bs r2) (run_of bs r')" using reg_unload [of name] by (simp add: run_of_unload)
      with 1 2 show ?thesis by (meson converse_rtranclp_into_rtranclp r_into_rtranclp)
    next
      case False
      with assms check None drain have "r' = r2" by (simp add: unloadModel_def)
      with 1 2 show ?thesis by (meson converse_rtranclp_into_rtranclp r_into_rtranclp)
    qed
  next
    case (Some b')
    with assms check have "r' = r1" by (simp add: unloadModel_def)
    with 1 show ?thesis by blast
  qed
qed

text \<open>A build that begins and ends within one call.\<close>

lemma build_steps:
  assumes inv: "reg_inv (run_of bs r)"
    and call: "run_call (build_begin b r) (build_finish k t f b) = Some (res, r')"
    and lift: "\<And>cs x. build_begin b (run_of cs x) = map_prod id (run_of cs) (build_begin b x)"
      "\<And>cs x. build_finish k t f b (run_of cs x) = map_prod id (run_of cs) (build_finish k t f b x)"
  shows "reg_step\<^sup>*\<^sup>* (run_of bs r) (run_of bs r')"
proof -
  obtain d r1 where start: "build_begin b r = (d, r1)" by fastforce
  show ?thesis
  proof (cases "d = Build")
    case True
    with start call have finish: "build_finish k t f b r1 = (res, r')" by (simp add: run_call_def)
    have 1: "reg_step (run_of bs r) (run_of (bs @ [b]) r1)"
      using reg_begin [of b "run_of bs r" "run_of bs r1"] start True by (simp add: lift)
    then have "reg_inv (run_of (bs @ [b]) r1)" by (rule inv_reg_step) (rule inv)
    then have "b \<notin> set bs" by (auto simp: reg_inv_def builds_ok_def)
    then have "remove1 b (bs @ [b]) = bs" by (simp add: remove1_append)
    with reg_finish [of b "run_of (bs @ [b]) r1" k t f res "run_of (bs @ [b]) r'"] finish
    have "reg_step (run_of (bs @ [b]) r1) (run_of bs r')" by (simp add: lift)
    with 1 show ?thesis by (meson converse_rtranclp_into_rtranclp r_into_rtranclp)
  next
    case False
    with start call have "r' = r1" by (cases d) (auto simp: run_call_def)
    with reg_refuse [of b "run_of bs r" d "run_of bs r1"] start False show ?thesis by (simp add: lift r_into_rtranclp)
  qed
qed

lemma build_finish_eta:
  "build_finish k t f (LoadBuild config) = loadModel_finish k t f config"
  "build_finish k t f (ReloadBuild name config) = reload_finish k t f name config"
  "build_finish k t f (SwitchBuild name version config) = switchVersion_finish k t f name version config"
  by (rule ext, simp)+

lemma call_steps:
  assumes "reg_inv (run_of bs r)"
  shows "loadModel k t f config r = Some (res, r') \<Longrightarrow> reg_step\<^sup>*\<^sup>* (run_of bs r) (run_of bs r')"
    and "reload k t f name config r = Some (res, r') \<Longrightarrow> reg_step\<^sup>*\<^sup>* (run_of bs r) (run_of bs r')"
    and "switchVersion k t f name version config r = Some (res, r') \<Longrightarrow> reg_step\<^sup>*\<^sup>* (run_of bs r) (run_of bs r')"
  using build_steps [OF assms, of "LoadBuild config" k t f res r'] build_steps [OF assms, of "ReloadBuild name config" k t f res r']
    build_steps [OF assms, of "SwitchBuild name version config" k t f res r']
  by (simp_all add: loadModel_def reload_def switchVersion_def run_of_begin run_of_finish build_finish_eta)

lemma registry_flags [simp]:
  "rg_log_payloads (set_slot name slot r) = rg_log_payloads r" "rg_log_payloads (erase_slot name r) = rg_log_payloads r"
  "rg_log_payloads (retire p r) = rg_log_payloads r" "rg_log_payloads (retireSnapshot n r) = rg_log_payloads r"
  by (simp_all add: set_slot_def erase_slot_def retire_def retireSnapshot_def split: option.split)

lemma begin_build_flags: "begin_build name slot r = (d, r1) \<Longrightarrow> rg_log_payloads r1 = rg_log_payloads r"
  by (auto simp: begin_build_def Let_def split: if_splits prod.splits)

lemma begin_flags:
  "loadModel_begin config r = (d, r1) \<Longrightarrow> rg_log_payloads r1 = rg_log_payloads r"
  "reload_begin name r = (d, r1) \<Longrightarrow> rg_log_payloads r1 = rg_log_payloads r"
  "switchVersion_begin name version r = (d, r1) \<Longrightarrow> rg_log_payloads r1 = rg_log_payloads r"
  by (auto simp: loadModel_begin_def reload_begin_def switchVersion_begin_def
      dest: begin_build_flags split: option.splits if_splits)

lemma finish_flags:
  "loadModel_finish k t f config r = (b, r1) \<Longrightarrow> rg_log_payloads r1 = rg_log_payloads r"
  "reload_finish k t f name config r = (b, r1) \<Longrightarrow> rg_log_payloads r1 = rg_log_payloads r"
  "switchVersion_finish k t f name version config r = (b, r1) \<Longrightarrow> rg_log_payloads r1 = rg_log_payloads r"
  by (auto simp: loadModel_finish_def reload_finish_def switchVersion_finish_def
      Let_def split: option.splits if_splits prod.splits)

lemma run_call_flags:
  assumes "run_call start build = Some (b, r')"
    and "\<And>d r1. start = (d, r1) \<Longrightarrow> rg_log_payloads r1 = logs"
    and "\<And>r1 x y. rg_log_payloads r1 = logs \<Longrightarrow> build r1 = (x, y) \<Longrightarrow> rg_log_payloads y = logs"
  shows "rg_log_payloads r' = logs"
proof -
  obtain d r1 where start: "start = (d, r1)" by fastforce
  then have "rg_log_payloads r1 = logs" by (rule assms(2))
  moreover from assms(1) start have "r' = r1 \<or> build r1 = (b, r')" by (cases d) (auto simp: run_call_def)
  ultimately show ?thesis using assms(3) by metis
qed

lemma call_flags:
  "loadModel k t f config r = Some (b, r') \<Longrightarrow> rg_log_payloads r' = rg_log_payloads r"
  "reload k t f name config r = Some (b, r') \<Longrightarrow> rg_log_payloads r' = rg_log_payloads r"
  "switchVersion k t f name version config r = Some (b, r') \<Longrightarrow> rg_log_payloads r' = rg_log_payloads r"
  "unloadModel name r = (b, r') \<Longrightarrow> rg_log_payloads r' = rg_log_payloads r"
  unfolding loadModel_def reload_def switchVersion_def
  by (erule run_call_flags, erule begin_flags, drule finish_flags, simp)+
    (auto simp: unloadModel_def unloadModel_check_def registry_beginDrain_def registry_completeUnload_def Let_def
      split: option.splits if_splits prod.splits)

text \<open>What \<open>submit\<close> does to the schedulers: steps of theirs that neither stop nor drain one.\<close>

definition store_step :: "SchedulerStore \<Rightarrow> SchedulerStore \<Rightarrow> bool" where
  "store_step st st' \<longleftrightarrow> (\<exists>p s. p < length st \<and> sched_step (st ! p) s \<and> sched_isReady s = sched_isReady (st ! p) \<and>
     st' = st[p := s])"

definition submits_by_steps :: "RuntimeEnv \<Rightarrow> bool" where
  "submits_by_steps env \<longleftrightarrow> (\<forall>p q accepts st. store_step\<^sup>*\<^sup>* st (snd (en_submit env p q accepts st)))"

lemma store_steps:
  assumes "store_step\<^sup>*\<^sup>* st st'"
  shows "reg_step\<^sup>*\<^sup>* (run_of bs (r\<lparr>rg_schedulers := st\<rparr>)) (run_of bs (r\<lparr>rg_schedulers := st'\<rparr>))"
  using assms
proof induction
  case (step st1 st2)
  then obtain p x where "p < length st1" "sched_step (st1 ! p) x" "sched_isReady x = sched_isReady (st1 ! p)"
    "st2 = st1[p := x]" by (auto simp: store_step_def)
  then have "reg_step (run_of bs (r\<lparr>rg_schedulers := st1\<rparr>)) (run_of bs (r\<lparr>rg_schedulers := st2\<rparr>))"
    using reg_scheduler [of p "run_of bs (r\<lparr>rg_schedulers := st1\<rparr>)" x] by simp
  with step.IH show ?case by simp
qed simp

definition simulated :: "RuntimeEnv \<Rightarrow> Build list \<Rightarrow> ModelRegistry \<Rightarrow> bool \<Rightarrow> RuntimeState \<Rightarrow> bool" where
  "simulated env bs r0 logs s \<longleftrightarrow> submits_by_steps env \<and> rg_log_payloads (ru_registry s) = logs \<and>
     reg_inv (run_of bs r0) \<and> reg_step\<^sup>*\<^sup>* (run_of bs r0) (run_of bs (ru_registry s))"

lemma steps_inv: "reg_step\<^sup>*\<^sup>* r t \<Longrightarrow> reg_inv r \<Longrightarrow> reg_inv t"
  by (induction rule: rtranclp_induct) (auto intro: inv_reg_step)

lemma simulated_move:
  assumes "simulated env bs r0 logs s" "rg_log_payloads r = rg_log_payloads (ru_registry s)"
    and "reg_inv (run_of bs (ru_registry s)) \<Longrightarrow> reg_step\<^sup>*\<^sup>* (run_of bs (ru_registry s)) (run_of bs r)"
  shows "simulated env bs r0 logs (s\<lparr>ru_registry := r\<rparr>)"
  using assms steps_inv unfolding simulated_def by (metis (mono_tags, lifting) RuntimeState.select_convs(1)
      RuntimeState.surjective RuntimeState.update_convs(1) rtranclp_trans)

lemma simulated_calls:
  assumes "simulated env bs r0 logs s"
  shows "loadModel k t f config (ru_registry s) = Some (b, r) \<Longrightarrow> simulated env bs r0 logs (s\<lparr>ru_registry := r\<rparr>)"
    and "reload k t f name config (ru_registry s) = Some (b, r) \<Longrightarrow> simulated env bs r0 logs (s\<lparr>ru_registry := r\<rparr>)"
    and "switchVersion k t f name version config (ru_registry s) = Some (b, r) \<Longrightarrow>
      simulated env bs r0 logs (s\<lparr>ru_registry := r\<rparr>)"
    and "unloadModel name (ru_registry s) = (b, r) \<Longrightarrow> simulated env bs r0 logs (s\<lparr>ru_registry := r\<rparr>)"
  by (rule simulated_move [OF assms], erule call_flags, erule call_steps [rotated] unload_steps, assumption?)+

interpretation simulation: runtime_invariant env logs "simulated env bs r0 logs" for env bs r0 logs
proof
  fix s p q accepts res st
  assume s: "simulated env bs r0 logs s" and sub: "en_submit env p q accepts (rg_schedulers (ru_registry s)) = (res, st)"
  then have "store_step\<^sup>*\<^sup>* (rg_schedulers (ru_registry s)) st" by (metis simulated_def submits_by_steps_def snd_conv)
  then show "simulated env bs r0 logs (s\<lparr>ru_registry := (ru_registry s)\<lparr>rg_schedulers := st\<rparr>\<rparr>)"
    using store_steps [of "rg_schedulers (ru_registry s)" st bs "ru_registry s"] by (intro simulated_move [OF s]) simp_all
qed (erule (1) simulated_calls | simp add: simulated_def)+

interpretation quiet: runtime_invariant env False
  "\<lambda>s. \<not> rg_log_payloads (ru_registry s) \<and> (\<forall>e \<in> set (ru_log s). span_event False e)" for env
  by unfold_locales (auto dest: call_flags)

interpretation counted: runtime_invariant env logs
  "\<lambda>s. rg_log_payloads (ru_registry s) = logs \<and> (\<exists>calls. ru_metrics s = fold metrics_call calls new_metrics)" for env logs
proof (unfold_locales, goal_cases)
  case (2 s c)
  then obtain calls where "ru_metrics s = fold metrics_call calls new_metrics" by blast
  then have "metrics_call c (ru_metrics s) = fold metrics_call (calls @ [c]) new_metrics" by simp
  with 2 show ?case by (metis RuntimeState.select_convs(1,2) RuntimeState.surjective RuntimeState.update_convs(2))
qed (auto dest: call_flags)

section \<open>The demo environment\<close>

lemma demo_env_steps: "submits_by_steps demo_env"
  by (simp add: submits_by_steps_def demo_env_def)

lemma demo_state_reach: "reach reg_start reg_step (run_of [] (ru_registry demo_state))"
  by (rule reach_start) (simp add: reg_start_def demo_state_def empty_registry_def)

section \<open>Properties\<close>

text \<open>
  (C8) The server drives the registry only as its protocol allows: whatever arrives over HTTP and gRPC, loads,
  reloads, version switches and unloads through the admin and repository routes, inference over HTTP and
  gRPC, and streams, the registry goes through steps of the registry's own machine, with the calls of other threads in flight before
  and after. So every invariant of that machine, readiness meaning service among them, holds behind the HTTP
  interface. The hypothesis on \<open>submit\<close> is that it only makes steps of the schedulers that stop none.
\<close>

theorem server_refines_registry:
  assumes "reach reg_start reg_step (run_of bs (ru_registry s))" "submits_by_steps env"
  shows "reg_step\<^sup>*\<^sup>* (run_of bs (ru_registry s)) (run_of bs (ru_registry (serve env arrivals s)))"
proof -
  from assms have "simulated env bs (ru_registry s) (rg_log_payloads (ru_registry s)) s"
    by (simp add: simulated_def registry.reach_inv)
  then have "simulated env bs (ru_registry s) (rg_log_payloads (ru_registry s)) (serve env arrivals s)"
    by (rule simulation.serve_keeps)
  then show ?thesis by (simp add: simulated_def)
qed

theorem server_refines_registry_witness:
  "reg_step\<^sup>*\<^sup>* (run_of [] (ru_registry demo_state))
     (run_of [] (ru_registry (serve demo_env [HttpIn (get_request ''/v2/health/ready''), GrpcIn ServerReady] demo_state)))"
  by (rule server_refines_registry [OF demo_state_reach demo_env_steps])

text \<open>
  (C30) Payloads stay out of the log unless the configuration asks for them: with payload logging off, every
  message a request handler writes to the log (\<open>ru_log\<close>), over either transport, is one of the fixed texts, or a
  failure text followed by the code of the error. The lines that an adapter writes itself while it loads a model
  are not among them; they name a configuration file and counts of tensors (\<open>real_load\<close>).
\<close>

theorem payloads_stay_out_of_log:
  assumes "\<not> rg_log_payloads (ru_registry s)" "ru_log s = []" "e \<in> set (ru_log (serve env arrivals s))"
  shows "le_message e \<in> span_texts \<or> le_message e \<in> code_texts (le_error_code e)"
proof -
  have "\<forall>e \<in> set (ru_log (serve env arrivals s)). span_event False e"
    using quiet.serve_keeps [of s env arrivals] assms(1,2) by simp
  with assms(3) show ?thesis by (auto simp: span_event_def)
qed

theorem payloads_stay_out_of_log_witness:
  "\<exists>e \<in> set (ru_log (serve text_env [HttpIn infer_post] text_state)).
     le_message e \<in> span_texts \<or> le_message e \<in> code_texts (le_error_code e)"
proof -
  have start: "\<not> rg_log_payloads (ru_registry text_state)" "ru_log text_state = []"
    by (simp_all add: text_state_def solo_def demo_state_def)
  obtain res t where run: "infer text_env ''demo'' ''1'' infer_post text_state = (Value res, t)" "\<not> hr_streaming res"
    "length (ru_log t) = length (ru_log text_state) + 6"
    using infer_runs [OF text_found text_decoded text_submit]
    by (auto simp: runs_to_def answered_def split: prod.splits Outcome.splits)
  then have "serve text_env [HttpIn infer_post] text_state = t"
    by (simp add: serve_def text_route answer_def)
  with run(3) have "ru_log (serve text_env [HttpIn infer_post] text_state) \<noteq> []" by auto
  then have "hd (ru_log (serve text_env [HttpIn infer_post] text_state)) \<in> set (ru_log (serve text_env [HttpIn infer_post] text_state))"
    by simp
  with payloads_stay_out_of_log [OF start] show ?thesis by blast
qed

end
