(* ===== verification/Grpc_Props.thy ===== *)
theory Grpc_Props
  imports Runtime_Answers Grpc_Service
begin

text \<open>
  What the gRPC service answers, compared with the HTTP routes, and how its requests are counted.
\<close>

section \<open>Lemmas\<close>

text \<open>The answer of the service for a result of the scheduler.\<close>

definition grpc_outcome :: "ModelInferRequest \<Rightarrow> SchedulerResult \<Rightarrow> GrpcAnswer" where
  "grpc_outcome q scheduled =
     (let response = sr_response scheduled in
      if \<not> sr_ok scheduled
      then Inl (gRpcErrorFromCode (if sr_error_code scheduled = [] then ''INTERNAL'' else sr_error_code scheduled)
                  (sr_error_message scheduled))
      else if \<not> rs_ok response
      then Inl (gRpcErrorFromCode (if rs_error_code response = [] then ''BACKEND_ERROR'' else rs_error_code response)
                  (rs_error_message response))
      else Inr (ModelInferReply (buildInferResponse response (mi_model_name q) (mi_model_version q)
                  (if mi_id q = [] then None else Some (mi_id q)))))"

text \<open>The count of the service: the number of the gRPC status, 0 for OK, for an HTTP status.\<close>

definition recorded_grpc :: "string \<Rightarrow> SchedulerResult \<Rightarrow> MetricsRegistry \<Rightarrow> MetricsRegistry" where
  "recorded_grpc m scheduled =
     (let response = sr_response scheduled in
      if \<not> sr_ok scheduled
      then recordInferRequest m ''GRPC''
        (gRpcStatusForCode (if sr_error_code scheduled = [] then ''INTERNAL'' else sr_error_code scheduled)) 0 0 0 0
      else recordInferRequest m ''GRPC''
        (if rs_ok response then status_number StatusOk
         else gRpcStatusForCode (if rs_error_code response = [] then ''BACKEND_ERROR'' else rs_error_code response))
        (sr_queue_latency_ns scheduled) (sr_execution_latency_ns scheduled) (sr_total_latency_ns scheduled)
        (sr_batch_size scheduled))"

lemma grpc_respond_runs:
  assumes E: "\<And>t. ru_registry t = ru_registry s \<Longrightarrow>
      ru_metrics t = ru_metrics s \<or> ru_metrics t = recorded_grpc (mi_model_name q) scheduled (ru_metrics s) \<Longrightarrow> E t"
    and Q: "\<And>t. ru_registry t = ru_registry s \<Longrightarrow>
      ru_metrics t = recorded_grpc (mi_model_name q) scheduled (ru_metrics s) \<Longrightarrow> Q (grpc_outcome q scheduled) t"
  shows "runs_to env E (grpc_respond env q (if mi_id q = [] then None else Some (mi_id q)) scheduled) Q s"
proof -
  consider "\<not> sr_ok scheduled" | "sr_ok scheduled" "\<not> rs_ok (sr_response scheduled)"
    | "sr_ok scheduled" "rs_ok (sr_response scheduled)" by blast
  then show ?thesis
  proof cases
    case 1
    then have "grpc_outcome q scheduled =
        Inl (gRpcErrorFromCode (if sr_error_code scheduled = [] then ''INTERNAL'' else sr_error_code scheduled) (sr_error_message scheduled))"
      by (simp add: grpc_outcome_def)
    note Q' = Q [unfolded this]
    from 1 show ?thesis
      by (simp only: grpc_respond_def grpc_scheduler_failure_def Let_def if_True not_False_eq_True)
        (intro vcg E Q'; simp add: recorded_grpc_def)
  next
    case 2
    then have "grpc_outcome q scheduled =
        Inl (gRpcErrorFromCode (if rs_error_code (sr_response scheduled) = [] then ''BACKEND_ERROR''
          else rs_error_code (sr_response scheduled)) (rs_error_message (sr_response scheduled)))"
      by (simp add: grpc_outcome_def Let_def)
    note Q' = Q [unfolded this]
    from 2 show ?thesis
      by (simp only: grpc_respond_def grpc_backend_failure_def Let_def if_True if_False not_False_eq_True not_True_eq_False)
        (intro vcg E Q'; simp add: recorded_grpc_def)
  next
    case 3
    then have "grpc_outcome q scheduled = Inr (ModelInferReply (buildInferResponse (sr_response scheduled)
        (mi_model_name q) (mi_model_version q) (if mi_id q = [] then None else Some (mi_id q))))"
      by (simp add: grpc_outcome_def)
    note Q' = Q [unfolded this]
    from 3 show ?thesis
      by (simp only: grpc_respond_def grpc_success_def Let_def if_False not_True_eq_False)
        (intro vcg E Q'; simp add: recorded_grpc_def)
  qed
qed

lemma grpc_submit_runs:
  assumes p: "sn_scheduler n = Some p"
    and st: "en_submit env p exec_request (\<lambda>_. True) (rg_schedulers (ru_registry s)) = ((tokens, scheduled), st)"
  shows "runs_to env (stopped_short st (recorded_grpc (mi_model_name q) scheduled) s)
    (grpc_submit env q (if mi_id q = [] then None else Some (mi_id q)) n exec_request)
    (\<lambda>given t. given = grpc_outcome q scheduled \<and> ru_registry t = (ru_registry s)\<lparr>rg_schedulers := st\<rparr> \<and>
       ru_metrics t = recorded_grpc (mi_model_name q) scheduled (ru_metrics s)) s"
proof -
  have submit: "runs_to env E (submit_to env (Some p) exec_request (\<lambda>_. True)) Q' t"
    if "ru_registry t = ru_registry s" "Q' (tokens, scheduled) (t\<lparr>ru_registry := (ru_registry s)\<lparr>rg_schedulers := st\<rparr>\<rparr>)" for E Q' t
    using vcg_submit [of env p _ _ t, OF st [folded that(1)]] that by simp
  show ?thesis
    unfolding grpc_submit_def Let_def p
    by (intro vcg submit grpc_respond_runs) (auto simp: stopped_short_def)
qed

lemma grpc_infer_runs:
  assumes "grpc_handle (ru_registry s) q = Some n" "snapshot_isReady (rg_schedulers (ru_registry s)) n"
    "sn_scheduler n = Some p" "convertInferRequest q = Some exec_request"
    "en_submit env p exec_request (\<lambda>_. True) (rg_schedulers (ru_registry s)) = ((tokens, scheduled), st)"
  shows "runs_to env (stopped_short st (recorded_grpc (mi_model_name q) scheduled) s) (grpc_ModelInfer env q)
    (\<lambda>given t. given = grpc_outcome q scheduled \<and> ru_registry t = (ru_registry s)\<lparr>rg_schedulers := st\<rparr> \<and>
       ru_metrics t = recorded_grpc (mi_model_name q) scheduled (ru_metrics s)) s"
  using grpc_submit_runs [OF assms(3,5), of q] assms(1-4)
  by (simp add: grpc_ModelInfer_def runs_bind runs_registry Let_def)

lemma low_status_fails:
  assumes "status < 200"
  shows "counter (mr_requests_failure (recordInferRequest m meth status a b c d mr)) k =
      counter (mr_requests_failure mr) k + (if k = m then 1 else 0)"
    "counter (mr_requests_success (recordInferRequest m meth status a b c d mr)) k = counter (mr_requests_success mr) k"
  using assms by (simp_all add: recordInferRequest_def Let_def)

lemma recorded_grpc_fails:
  "counter (mr_requests_failure (recorded_grpc m scheduled mr)) k =
     counter (mr_requests_failure mr) k + (if k = m then 1 else 0)"
  "counter (mr_requests_success (recorded_grpc m scheduled mr)) k = counter (mr_requests_success mr) k"
proof -
  have "gRpcStatusForCode code < 200" for code by (simp add: gRpcStatusForCode_def)
  then show "counter (mr_requests_failure (recorded_grpc m scheduled mr)) k =
      counter (mr_requests_failure mr) k + (if k = m then 1 else 0)"
    "counter (mr_requests_success (recorded_grpc m scheduled mr)) k = counter (mr_requests_success mr) k"
    by (simp_all add: recorded_grpc_def Let_def low_status_fails)
qed

section \<open>An example\<close>

definition text_call :: ModelInferRequest where
  "text_call = \<lparr>mi_model_name = ''demo'', mi_model_version = ''1'', mi_id = [], mi_parameters = [],
     mi_inputs = [\<lparr>pt_name = ''prompt'', pt_datatype = ''BYTES'', pt_shape = [1],
                   pt_contents = no_contents\<lparr>tc_bytes := [''hi'']\<rparr>\<rparr>],
     mi_outputs = [], mi_raw_input_contents = []\<rparr>"

lemma text_call_found: "grpc_handle (ru_registry text_state) text_call = Some (fromHandle text_handle)"
  using text_found(1) by (simp add: grpc_handle_def text_call_def)

lemma text_call_converts: "\<exists>exec_request. convertInferRequest text_call = Some exec_request"
  by (simp add: convertInferRequest_def convert_inputs_def text_call_def convert_input_def isBytesDatatype_def)

lemma text_env_submits: "en_submit text_env p exec_request accepts st = (([], new_result), st)"
  by (simp add: text_env_def demo_env_def)

section \<open>Properties\<close>

text \<open>
  Both transports map an error code alike, as the README says: the gRPC status of a code is the one that
  stands for its HTTP status, whatever the code, and the number the service records is that status.
\<close>

definition grpc_class :: "int \<Rightarrow> StatusCode" where
  "grpc_class status =
     (if status = 400 then InvalidArgument else if status = 404 then NotFound
      else if status = 409 \<or> status = 503 then ServiceUnavailable else if status = 429 then ResourceExhausted
      else if status = 504 then DeadlineExceeded else InternalError)"

theorem transports_map_errors_alike:
  "gRpcErrorFromCode code message = (grpc_class (httpStatusForCode code), message) \<and>
   gRpcStatusForCode code = status_number (grpc_class (httpStatusForCode code))"
  by (simp add: gRpcErrorFromCode_def gRpcStatusForCode_def httpStatusForCode_def grpc_class_def)

text \<open>
  (C33) A gRPC inference on a ready model answers with what its scheduler said: the scheduler is given exactly
  the converted request, once. When the call answers, the registry has changed by that submission alone, and the
  answer is OK with the response message when scheduler and executor succeeded, and the status of the error code
  otherwise. The call does not answer only when the JSON library throws while it prints a line of the log; that
  exception leaves it with the registry as it was or changed by that one submission.
\<close>

theorem grpc_infer_answers:
  assumes "grpc_handle (ru_registry s) q = Some n" "snapshot_isReady (rg_schedulers (ru_registry s)) n"
    "sn_scheduler n = Some p" "convertInferRequest q = Some exec_request"
    "en_submit env p exec_request (\<lambda>_. True) (rg_schedulers (ru_registry s)) = ((tokens, scheduled), st)"
  shows "case grpc_ModelInfer env q s of
      (Value given, t) \<Rightarrow> given = grpc_outcome q scheduled \<and>
        ru_registry t = (ru_registry s)\<lparr>rg_schedulers := st\<rparr> \<and>
        ((\<exists>reply. given = Inr reply) \<longleftrightarrow> sr_ok scheduled \<and> rs_ok (sr_response scheduled))
    | (Exception what, t) \<Rightarrow> (\<exists>j. en_dump env j = Inl what) \<and>
        ru_registry t \<in> {ru_registry s, (ru_registry s)\<lparr>rg_schedulers := st\<rparr>}
    | _ \<Rightarrow> False"
proof -
  have "(\<exists>reply. grpc_outcome q scheduled = Inr reply) \<longleftrightarrow> sr_ok scheduled \<and> rs_ok (sr_response scheduled)"
    by (simp add: grpc_outcome_def Let_def)
  with grpc_infer_runs [OF assms] show ?thesis
    by (auto simp: runs_to_def unprintable_def stopped_short_def split: prod.splits Outcome.splits)
qed

theorem grpc_infer_answers_witness:
  "\<exists>reply t. grpc_ModelInfer text_env text_call text_state = (Value (Inr reply), t)"
proof -
  from text_call_converts obtain exec_request where q: "convertInferRequest text_call = Some exec_request" by blast
  have "\<nexists>j. en_dump text_env j = Inl what" for what
    using text_env_prints [of what] by (simp add: unprintable_def)
  with grpc_infer_answers [OF text_call_found text_found(2,3) q text_env_submits] show ?thesis
    by (auto simp: new_result_def empty_response_def split: prod.splits Outcome.splits)
qed

text \<open>
  Every inference over gRPC that is answered is counted as a failed request of its model, also one that is answered
  OK: the counters take the number of the gRPC status, 0 for OK, for an HTTP status.
\<close>

theorem grpc_success_counted_as_failure:
  assumes "grpc_handle (ru_registry s) q = Some n" "snapshot_isReady (rg_schedulers (ru_registry s)) n"
    "sn_scheduler n = Some p" "convertInferRequest q = Some exec_request"
    "en_submit env p exec_request (\<lambda>_. True) (rg_schedulers (ru_registry s)) = ((tokens, scheduled), st)"
    "grpc_ModelInfer env q s = (Value given, t)"
  shows "counter (mr_requests_failure (ru_metrics t)) (mi_model_name q) =
      counter (mr_requests_failure (ru_metrics s)) (mi_model_name q) + 1 \<and>
    counter (mr_requests_success (ru_metrics t)) k = counter (mr_requests_success (ru_metrics s)) k"
  using grpc_infer_runs [OF assms(1-5)] assms(6) by (simp add: runs_to_def recorded_grpc_fails)

theorem grpc_success_counted_as_failure_witness:
  "\<exists>reply t. grpc_ModelInfer text_env text_call text_state = (Value (Inr reply), t) \<and>
     counter (mr_requests_failure (ru_metrics t)) ''demo'' = 1"
proof -
  from text_call_converts obtain exec_request where q: "convertInferRequest text_call = Some exec_request" by blast
  note run = text_call_found text_found(2,3) q text_env_submits
  have zero: "counter (mr_requests_failure (ru_metrics text_state)) ''demo'' = 0"
    by (simp add: text_state_def demo_state_def new_metrics_def counter_def)
  have name: "mi_model_name text_call = ''demo''" by (simp add: text_call_def)
  from grpc_infer_runs [OF run] obtain given t where t: "grpc_ModelInfer text_env text_call text_state = (Value given, t)"
      "given = grpc_outcome text_call new_result"
    by (auto simp: runs_to_def split: prod.splits Outcome.splits)
  moreover obtain reply where "grpc_outcome text_call new_result = Inr reply"
    by (simp add: grpc_outcome_def new_result_def empty_response_def)
  ultimately show ?thesis
    using grpc_success_counted_as_failure [OF run t(1)] zero name by auto
qed

end
