(* ===== verification/Startup.thy ===== *)
theory Startup
  imports Runtime_Props
begin

text \<open>
  \<open>main.cpp\<close>: from the command line to the state the server starts with, and the program as a whole: that
  state followed by any sequence of requests. Binding the ports, the threads of the two servers and their
  shutdown are operating-system and library calls.
\<close>

section \<open>Start-up\<close>

definition hasFlag :: "string list \<Rightarrow> string \<Rightarrow> bool" where
  "hasFlag argv flag \<longleftrightarrow> flag \<in> set (drop 1 argv)"

definition usage_text :: string where
  "usage_text =
     ''usage: neuriplo-kserve-runtime [--host 0.0.0.0] [--port 8080] '' @
     ''[--grpc-port 9000] [--max-request-bytes 67108864] [--model-name demo] [--model-path path] '' @
     ''[--models path | --model-repository path] [--model-control-mode none] '' @
     ''[--backend stub] [--use-gpu false] [--plugin-dir path] [--max-queue-size 64] '' @
     ''[--request-timeout-ms 30000] '' @
     ''[--instances 1] [--dynamic-batching-enabled false] [--max-batch-size 1] '' @
     ''[--max-queue-delay-us 0] [--preferred-batch-sizes 2,4,8] '' @
     ''[--log-payloads false]'' @ [CHR 0x0A]"

text \<open>
  How \<open>main\<close> goes on after start-up: it has printed a text and returns 0, it has printed a fatal error and
  returns 1 (\<open>Fatal\<close> with its text, \<open>LoadThrows\<close> when the registry's constructor throws), or it serves.
\<close>

datatype Startup = Exits string | Fatal string | LoadThrows | Serving RuntimeConfig RuntimeState

definition startup_metrics :: "RuntimeConfig \<Rightarrow> MetricsRegistry" where
  "startup_metrics config =
     (let mr = (if rc_model_repository config = [] then setModelVersion (rc_model_version config) new_metrics
                else new_metrics)
      in if rc_deployment config \<noteq> [] then setDeployment (rc_deployment config) mr else mr)"

definition discovered_event :: "RuntimeConfig \<Rightarrow> LogEvent" where
  "discovered_event c = log_info (''discovered model '' @ rc_model_name c @ '' version '' @ rc_model_version c @
     '' backend '' @ rc_backend c @ '' at '' @ rc_model_path c)"

definition explicit_event :: "RuntimeConfig list \<Rightarrow> LogEvent" where
  "explicit_event discovered = log_info (''explicit model control: '' @ to_string (length discovered) @
     '' model(s) available, none loaded; use POST /v2/repository/models/<name>/load'')"

definition starting_event :: "RuntimeConfig \<Rightarrow> LogEvent" where
  "starting_event config =
     (if rc_model_repository config = []
      then new_event\<lparr>le_model := rc_model_name config, le_backend := rc_backend config, le_message := ''runtime starting''\<rparr>
      else new_event\<lparr>le_message := ''runtime starting''\<rparr>)"

text \<open>The models of the repository and the warnings of its scan; none in single-model mode.\<close>

definition discover :: "RuntimeEnv \<Rightarrow> RuntimeConfig \<Rightarrow> RuntimeConfig list \<times> string list" where
  "discover env config =
     (if rc_model_repository config = [] then ([], [])
      else scanModelRepository (en_files env) (en_priority env) (rc_model_repository config) config)"

text \<open>The registry; \<open>None\<close> is a constructor that throws.\<close>

definition startup_registry :: "RuntimeEnv \<Rightarrow> RuntimeConfig \<Rightarrow> RuntimeConfig list \<Rightarrow> ModelRegistry option" where
  "startup_registry env config discovered =
     (if rc_model_repository config = []
      then new_single_registry (en_library env) (en_backends env) (en_pipeline env) (en_now env) config
      else map_option (setRepositoryCatalog discovered)
        (if rc_model_control_mode config = ''explicit''
         then new_repository_registry (en_library env) (en_backends env) (en_pipeline env) (en_now env) [] True config
         else new_repository_registry (en_library env) (en_backends env) (en_pipeline env) (en_now env) discovered False config))"

text \<open>The load metrics: each discovered model by its outcome, the single model always as a success.\<close>

definition record_outcome :: "ModelRegistry \<Rightarrow> RuntimeConfig \<Rightarrow> MetricsRegistry \<Rightarrow> MetricsRegistry" where
  "record_outcome r c mr =
     (if ready r (rc_model_name c) then recordModelLoadSuccess (rc_model_name c) mr
      else recordModelLoadFailure (rc_model_name c) mr)"

definition startup_loads ::
  "RuntimeConfig \<Rightarrow> RuntimeConfig list \<Rightarrow> ModelRegistry \<Rightarrow> MetricsRegistry \<Rightarrow> MetricsRegistry" where
  "startup_loads config discovered r mr =
     (if rc_model_repository config = [] then recordModelLoadSuccess (rc_model_name config) mr
      else if rc_model_control_mode config \<noteq> ''explicit'' then fold (record_outcome r) discovered mr
      else mr)"

text \<open>Log lines in order, or the exception of the printer.\<close>

fun write_all :: "RuntimeEnv \<Rightarrow> LogEvent list \<Rightarrow> string option" where
  "write_all env [] = None"
| "write_all env (e # es) =
     (case writeEvent (en_dump env) (en_timestamp env) e of Inl what \<Rightarrow> Some what | Inr _ \<Rightarrow> write_all env es)"

definition main_startup ::
  "RuntimeEnv \<Rightarrow> (string \<Rightarrow> string + double) \<Rightarrow> string list \<Rightarrow> RuntimeEnvironment \<Rightarrow> Startup" where
  "main_startup env stod argv environment =
     (if hasFlag argv ''--version'' then Exits (''neuriplo-kserve-runtime '' @ en_version env @ [CHR 0x0A])
      else if hasFlag argv ''--help'' \<or> hasFlag argv ''-h'' then Exits usage_text
      else case parseRuntimeConfig stod argv environment of
        Inl what \<Rightarrow> Fatal what
      | Inr config \<Rightarrow>
          let (discovered, warnings) = discover env config;
              scan_log = map log_warn warnings @ map discovered_event discovered;
              start_log = (if rc_model_repository config \<noteq> [] \<and> rc_model_control_mode config = ''explicit''
                           then [explicit_event discovered] else []) @ [starting_event config]
          in case write_all env scan_log of
               Some what \<Rightarrow> Fatal what
             | None \<Rightarrow>
                 (case startup_registry env config discovered of
                    None \<Rightarrow> LoadThrows
                  | Some r \<Rightarrow>
                      (case write_all env start_log of
                         Some what \<Rightarrow> Fatal what
                       | None \<Rightarrow> Serving config
                           \<lparr>ru_registry = r, ru_metrics = startup_loads config discovered r (startup_metrics config),
                            ru_log = scan_log @ start_log, ru_draws = 0\<rparr>)))"

section \<open>Lemmas\<close>

lemma main_startup_Serving:
  assumes "main_startup env stod argv environment = Serving config s"
  obtains discovered warnings where "parseRuntimeConfig stod argv environment = Inr config"
    "discover env config = (discovered, warnings)" "startup_registry env config discovered = Some (ru_registry s)"
    "ru_metrics s = startup_loads config discovered (ru_registry s) (startup_metrics config)"
  using assms by (auto simp: main_startup_def Let_def split: if_splits sum.splits prod.splits option.splits)

text \<open>The constructors only load: the registry they leave has the invariant of the registry's machine.\<close>

definition constructed :: "ModelRegistry option \<Rightarrow> bool" where
  "constructed reg \<longleftrightarrow> (\<forall>r. reg = Some r \<longrightarrow> reg_inv (run_of [] r))"

lemma constructed_load:
  assumes "constructed reg"
  shows "constructed (load_config lib b mk now config reg)"
  unfolding constructed_def
proof (intro allI impI)
  fix t
  assume "load_config lib b mk now config reg = Some t"
  then obtain r factory res where r: "reg = Some r" "loadModel (backendKind lib b) now factory config r = Some (res, t)"
    by (auto simp: load_config_def split: Call.splits bind_splits)
  with assms have inv: "reg_inv (run_of [] r)" by (simp add: constructed_def)
  show "reg_inv (run_of [] t)"
    by (rule steps_inv [OF call_steps(1) [OF inv r(2)] inv])
qed

lemma constructed_loads: "constructed reg \<Longrightarrow> constructed (fold (load_config lib b mk now) configs reg)"
  by (induction configs arbitrary: reg) (simp_all add: constructed_load)

lemma constructed_empty: "constructed (Some (empty_registry rep expl logs ratio))"
  by (simp add: constructed_def reg_inv_def core_inv_def builds_ok_def empty_registry_def)

lemma constructed_catalog: "constructed reg \<Longrightarrow> constructed (map_option (setRepositoryCatalog configs) reg)"
  by (cases reg) (simp_all add: constructed_def reg_inv_def setRepositoryCatalog_def)

lemma startup_constructed: "constructed (startup_registry env config discovered)"
  unfolding startup_registry_def new_single_registry_def new_repository_registry_def Let_def
  by (simp add: constructed_catalog constructed_load constructed_loads constructed_empty)

lemma fold_outcomes:
  "counter (mr_model_load_success (fold (record_outcome r) cs mr)) m = counter (mr_model_load_success mr) m +
     (if ready r m then of_nat (length (filter (\<lambda>c. rc_model_name c = m) cs)) else 0)"
  "counter (mr_model_load_failure (fold (record_outcome r) cs mr)) m = counter (mr_model_load_failure mr) m +
     (if ready r m then 0 else of_nat (length (filter (\<lambda>c. rc_model_name c = m) cs)))"
  by (induction cs arbitrary: mr)
    (auto simp: record_outcome_def recordModelLoadSuccess_def recordModelLoadFailure_def)

lemma startup_counters [simp]:
  "counter (mr_model_load_success (startup_metrics config)) m = 0"
  "counter (mr_model_load_failure (startup_metrics config)) m = 0"
  by (simp_all add: startup_metrics_def setModelVersion_def setDeployment_def new_metrics_def counter_def Let_def)

section \<open>An example\<close>

text \<open>A server started for a backend nobody registered.\<close>

definition missing_config :: RuntimeConfig where
  "missing_config = default_config\<lparr>rc_backend := ''missing''\<rparr>"

lemma missing_command_line:
  "parseRuntimeConfig (\<lambda>_. Inr 1) [''server'', ''--backend'', ''missing''] (demo_environment []) = Inr missing_config"
  by (simp add: run_parser option_table_def demo_environment_def default_config_def missing_config_def)

lemma missing_backend: "findBackendCapability lib new_backends ''missing'' = None"
  by (simp add: findBackendCapability_def registerDefaultBackends_def new_backends_def default_backends_def emplace_def
      pipelineBackendId_def Let_def)

lemma missing_executor:
  "defaultExecutorFactory (en_library demo_env) (en_backends demo_env) missing_config err =
     NoExecutor ''unsupported backend: missing''"
  by (simp add: defaultExecutorFactory_def createExecutorFor_def demo_env_def missing_config_def missing_backend)

lemma missing_simps:
  "rc_instances missing_config = 1" "rc_model_name missing_config = ''demo''" "rc_backend missing_config = ''missing''"
  "rc_model_repository missing_config = []" "pinned_version missing_config = None"
  by (simp_all add: missing_config_def default_config_def pinned_version_def)

lemma missing_load:
  "load kind now missing_config (\<lambda>_. defaultExecutorFactory (en_library demo_env) (en_backends demo_env)) v new_handle st =
     (markLoadFailed missing_config ''unsupported backend: missing'' (on_state startLoad (new_handle\<lparr>mh_name := ''demo'',
        mh_versions := [case v of Some x \<Rightarrow> x | None \<Rightarrow> ''1''], mh_load_error := None\<rparr>)), st)"
  by (simp add: load_def missing_simps missing_executor vector_max_size_def Let_def)

lemma demo_dump: "en_dump demo_env j = Inr ''{}''"
  by (simp add: demo_env_def)

lemma demo_write: "(\<And>j. en_dump env j = Inr ''{}'') \<Longrightarrow> write_all env es = None"
  by (induction es) (simp_all add: writeEvent_def)

lemma single_serves:
  assumes "startup_registry demo_env config [] = Some r" "rc_model_repository config = []"
    "parseRuntimeConfig (\<lambda>_. Inr 1) argv (demo_environment []) = Inr config"
    "\<not> hasFlag argv ''--version'' \<and> \<not> hasFlag argv ''--help'' \<and> \<not> hasFlag argv ''-h''"
  obtains s where "main_startup demo_env (\<lambda>_. Inr 1) argv (demo_environment []) = Serving config s" "ru_registry s = r"
proof (rule that)
  show "main_startup demo_env (\<lambda>_. Inr 1) argv (demo_environment []) = Serving config
      \<lparr>ru_registry = r, ru_metrics = startup_loads config [] r (startup_metrics config),
       ru_log = [starting_event config], ru_draws = 0\<rparr>"
    using assms by (simp add: main_startup_def discover_def demo_write [OF demo_dump] Let_def
        del: write_all.simps)
qed simp

lemmas single_load = startup_registry_def new_single_registry_def load_config_def factory_for_def isPipelineConfig_def
  pipelineBackendId_def loadModel_def run_call_def loadModel_begin_def loadModel_finish_def findSlot_def
  empty_registry_def set_slot_def ready_def findHandle_def snapshot_isReady_def fromHandle_def

lemma missing_startup:
  obtains s where "main_startup demo_env (\<lambda>_. Inr 1) [''server'', ''--backend'', ''missing''] (demo_environment []) =
      Serving missing_config s" "\<not> ready (ru_registry s) ''demo''"
proof -
  have "\<exists>r. startup_registry demo_env missing_config [] = Some r \<and> \<not> ready r ''demo''"
    by (simp add: single_load missing_simps missing_load)
  then obtain r where r: "startup_registry demo_env missing_config [] = Some r" "\<not> ready r ''demo''" by blast
  show thesis
    by (rule single_serves [OF r(1) missing_simps(4) missing_command_line]) (use r(2) that in \<open>auto simp: hasFlag_def\<close>)
qed

text \<open>A server started with no options serves the stub model.\<close>

lemma stub_backend:
  "findBackendCapability lib new_backends ''stub'' =
     Some \<lparr>bc_id = ''stub'', bc_kind = TensorKind, bc_uses_neuriplo = False, bc_factory = Some makeStubExecutor\<rparr>"
  by (simp add: findBackendCapability_def registerDefaultBackends_def new_backends_def default_backends_def emplace_def
      pipelineBackendId_def Let_def)

lemma stub_kind: "backendKind (en_library demo_env) (en_backends demo_env) ''stub'' = TensorKind"
  by (simp add: backendKind_def demo_env_def stub_backend)

lemma default_simps: "rc_backend default_config = ''stub''" "rc_model_repository default_config = []"
  by (simp_all add: default_config_def)

lemma stub_executor:
  "defaultExecutorFactory (en_library demo_env) (en_backends demo_env) default_config err =
     makeStubExecutor (\<lambda>_. TensorKind) default_config err"
  by (simp add: defaultExecutorFactory_def createExecutorFor_def demo_env_def stub_backend default_simps makeStubExecutor_def
      usesLlmScheduler_def backendKind_def)

lemma default_load:
  "load (backendKind (en_library demo_env) (en_backends demo_env)) now default_config
     (\<lambda>_. defaultExecutorFactory (en_library demo_env) (en_backends demo_env)) v new_handle st =
   load (\<lambda>_. TensorKind) now default_config stub_factory v new_handle st"
proof -
  have b: "build_executors (\<lambda>_. defaultExecutorFactory (en_library demo_env) (en_backends demo_env)) default_config n es err =
      build_executors stub_factory default_config n es err" for n es err
    by (induction n arbitrary: es err) (simp_all add: stub_executor stub_factory_def split: FactoryOutcome.split)
  have m: "make_scheduler (backendKind (en_library demo_env) (en_backends demo_env)) now k default_config =
      make_scheduler (\<lambda>_. TensorKind) now k default_config" for k
    by (simp add: make_scheduler_def usesLlmScheduler_def stub_kind default_simps)
  show ?thesis unfolding load_def b m ..
qed

lemma default_startup:
  obtains s where "main_startup demo_env (\<lambda>_. Inr 1) [''server''] (demo_environment []) = Serving default_config s"
    "ready (ru_registry s) ''demo''"
proof -
  have now: "en_now demo_env = 0" by (simp add: demo_env_def)
  have "\<exists>r. startup_registry demo_env default_config [] = Some r \<and> ready r ''demo''"
    by (simp add: single_load default_load default_simps stub_load now)
  then obtain r where r: "startup_registry demo_env default_config [] = Some r" "ready r ''demo''" by blast
  have "parseRuntimeConfig (\<lambda>_. Inr 1) [''server''] (demo_environment []) = Inr default_config"
    by (simp add: run_parser demo_environment_def default_config_def)
  from single_serves [OF r(1) default_simps(2) this] r(2) that show thesis by (auto simp: hasFlag_def)
qed

text \<open>A server started on a repository of one model.\<close>

definition repo_env :: RuntimeEnv where
  "repo_env = demo_env\<lparr>en_files := demo_fs\<rparr>"

definition repo_config :: RuntimeConfig where
  "repo_config = default_config\<lparr>rc_model_repository := ''r''\<rparr>"

definition repo_model :: RuntimeConfig where
  "repo_model = demo_scanned\<lparr>rc_model_repository := ''r''\<rparr>"

lemma repo_discovered:
  "fst (discover repo_env repo_config) = [repo_model]" "rc_model_name repo_model = ''m''" "\<not> isPipelineConfig repo_model"
proof -
  have "fst (scanModelRepository demo_fs priority ''r'' repo_config) = [repo_model]" for priority
    by (simp add: scanModelRepository_def demo_entries scan_model_configs path_join_def demo_versions demo_pick
        discovered_config_def demo_scanned_def default_config_def demo_directories pipelineBackendId_def repo_config_def
        repo_model_def)
  then show "fst (discover repo_env repo_config) = [repo_model]"
    by (simp add: discover_def repo_env_def repo_config_def demo_env_def)
  show "rc_model_name repo_model = ''m''" "\<not> isPipelineConfig repo_model"
    by (simp_all add: repo_model_def demo_fields isPipelineConfig_def pipelineBackendId_def)
qed

lemma repo_startup:
  obtains s where "main_startup repo_env (\<lambda>_. Inr 1) [''server'', ''--models'', ''r''] (demo_environment []) =
    Serving repo_config s"
proof -
  have parsed: "parseRuntimeConfig (\<lambda>_. Inr 1) [''server'', ''--models'', ''r''] (demo_environment []) = Inr repo_config"
    by (simp add: run_parser demo_environment_def default_config_def repo_config_def)
  obtain warnings where found: "discover repo_env repo_config = ([repo_model], warnings)"
    using repo_discovered(1) by (metis prod.collapse)
  have mode: "rc_model_repository repo_config = ''r''" "rc_model_control_mode repo_config = ''none''"
    by (simp_all add: repo_config_def default_config_def)
  have "\<exists>t. loadModel kind now factory repo_model (empty_registry True False logs ratio) = Some (True, t)"
    for kind now factory logs ratio
    by (rule load_reports_success_on_failure) (simp add: findSlot_def empty_registry_def)
  then have "\<exists>r. startup_registry repo_env repo_config [repo_model] = Some r"
    by (fastforce simp: startup_registry_def mode new_repository_registry_def repo_discovered load_config_def factory_for_def)
  then obtain r where r: "startup_registry repo_env repo_config [repo_model] = Some r" by blast
  have "en_dump repo_env j = Inr ''{}''" for j by (simp add: repo_env_def demo_env_def)
  note written = demo_write [OF this]
  show thesis
    by (rule that) (simp add: main_startup_def hasFlag_def parsed found r written mode Let_def del: write_all.simps)
qed

section \<open>Properties\<close>

text \<open>
  The program as a whole keeps the invariant of the registry's machine: whatever the command line, the
  environment and the files, once it serves, and whatever arrives, every invariant of that machine holds.
\<close>

theorem served_registry_inv:
  assumes "main_startup env stod argv environment = Serving config s" "submits_by_steps env"
  shows "reg_inv (run_of [] (ru_registry (serve env arrivals s)))"
proof -
  have "reg_inv (run_of [] (ru_registry s))"
    using main_startup_Serving [OF assms(1)] startup_constructed by (metis constructed_def)
  then have "simulated env [] (ru_registry s) (rg_log_payloads (ru_registry s)) s"
    using assms(2) by (simp add: simulated_def)
  then have "simulated env [] (ru_registry s) (rg_log_payloads (ru_registry s)) (serve env arrivals s)"
    by (rule simulation.serve_keeps)
  then show ?thesis by (auto simp: simulated_def dest: steps_inv)
qed

text \<open>
  Repository mode records each discovered model by its own outcome: after start-up, a model counts as
  many successful loads as the scan found configurations for it when it is ready, as many failed ones when it
  is not, and nothing else.
\<close>

theorem startup_counts_outcomes:
  assumes "main_startup env stod argv environment = Serving config s"
    "rc_model_repository config \<noteq> []" "rc_model_control_mode config \<noteq> ''explicit''"
  shows "counter (mr_model_load_success (ru_metrics s)) m = (if ready (ru_registry s) m
      then of_nat (length (filter (\<lambda>c. rc_model_name c = m) (fst (discover env config)))) else 0) \<and>
    counter (mr_model_load_failure (ru_metrics s)) m = (if ready (ru_registry s) m
      then 0 else of_nat (length (filter (\<lambda>c. rc_model_name c = m) (fst (discover env config)))))"
proof -
  obtain discovered warnings where "discover env config = (discovered, warnings)"
    "ru_metrics s = startup_loads config discovered (ru_registry s) (startup_metrics config)"
    by (rule main_startup_Serving [OF assms(1)])
  then show ?thesis using assms(2,3) by (simp add: startup_loads_def fold_outcomes)
qed

theorem startup_counts_outcomes_witness:
  "\<exists>s. main_startup repo_env (\<lambda>_. Inr 1) [''server'', ''--models'', ''r''] (demo_environment []) = Serving repo_config s \<and>
     counter (mr_model_load_success (ru_metrics s)) ''m'' + counter (mr_model_load_failure (ru_metrics s)) ''m'' = 1"
proof -
  obtain s where s: "main_startup repo_env (\<lambda>_. Inr 1) [''server'', ''--models'', ''r''] (demo_environment []) =
      Serving repo_config s" by (rule repo_startup)
  have "rc_model_repository repo_config \<noteq> []" "rc_model_control_mode repo_config \<noteq> ''explicit''"
    by (simp_all add: repo_config_def default_config_def)
  from startup_counts_outcomes [OF s this, of "''m''"] repo_discovered s show ?thesis by (auto split: if_splits)
qed

text \<open>
  Single-model mode records a successful load whatever became of the model: also a server whose only model
  failed to load starts with one successful load, and no failed one, on its metrics page.
\<close>

theorem single_model_counted_as_loaded:
  assumes "main_startup env stod argv environment = Serving config s" "rc_model_repository config = []"
  shows "counter (mr_model_load_success (ru_metrics s)) (rc_model_name config) = 1 \<and>
    counter (mr_model_load_failure (ru_metrics s)) m = 0"
proof -
  obtain discovered warnings where "discover env config = (discovered, warnings)"
    "ru_metrics s = startup_loads config discovered (ru_registry s) (startup_metrics config)"
    by (rule main_startup_Serving [OF assms(1)])
  then show ?thesis using assms(2) by (simp add: startup_loads_def recordModelLoadSuccess_def)
qed

theorem single_model_counted_as_loaded_witness:
  "\<exists>s. main_startup demo_env (\<lambda>_. Inr 1) [''server'', ''--backend'', ''missing''] (demo_environment []) = Serving missing_config s \<and>
     \<not> ready (ru_registry s) ''demo'' \<and> counter (mr_model_load_success (ru_metrics s)) ''demo'' = 1"
proof -
  obtain s where s: "main_startup demo_env (\<lambda>_. Inr 1) [''server'', ''--backend'', ''missing''] (demo_environment []) =
      Serving missing_config s" "\<not> ready (ru_registry s) ''demo''"
    by (rule missing_startup)
  with single_model_counted_as_loaded [OF s(1) missing_simps(4)] missing_simps(2) show ?thesis by metis
qed

end
