(* ===== verification/Image_Header.thy ===== *)
theory Image_Header
  imports Tensors
begin

text \<open>
  The part of \<open>PipelineStepsTasks.cpp\<close> that reads the size an encoded image declares from its PNG, JPEG or BMP
  header. A read outside the buffer is \<open>None\<close>, so that none happens is a statement about the code.
\<close>

section \<open>Reads\<close>

text \<open>\<open>n\<close> bytes from position \<open>i\<close>, the first being the most or the least significant.\<close>

definition bytes_at :: "byte list \<Rightarrow> nat \<Rightarrow> nat \<Rightarrow> nat list option" where
  "bytes_at data i n = (if i + n \<le> length data then Some (map unat (take n (drop i data))) else None)"

definition big_endian :: "nat list \<Rightarrow> nat" where
  "big_endian ns = foldl (\<lambda>a b. 256 * a + b) 0 ns"

definition little_endian :: "nat list \<Rightarrow> nat" where
  "little_endian ns = foldr (\<lambda>b a. b + 256 * a) ns 0"

text \<open>A read, and what the code does with the value.\<close>

definition reading :: "'a option \<Rightarrow> ('a \<Rightarrow> 'b option) \<Rightarrow> 'b option" where
  "reading r f = (case r of None \<Rightarrow> None | Some x \<Rightarrow> f x)"

text \<open>
  What the function does: \<open>None\<close> for a read outside the buffer, otherwise whether it found a size, which is a
  width and a height.
\<close>

type_synonym header = "(int \<times> int) option option"

lemma reading_cong [fundef_cong]:
  "r = r' \<Longrightarrow> (\<And>x. r' = Some x \<Longrightarrow> f x = g x) \<Longrightarrow> reading r f = reading r' g"
  by (auto simp: reading_def split: option.split)

section \<open>PNG\<close>

definition png_signature :: "byte list" where
  "png_signature = [0x89, 0x50, 0x4E, 0x47, 0x0D, 0x0A, 0x1A, 0x0A]"

definition ihdr_type :: "nat list" where
  "ihdr_type = [73, 72, 68, 82]"

text \<open>The walk over the chunks. An offset is below the buffer's size plus \<open>2 ^ 33\<close>, so \<open>size_t\<close> does not wrap.\<close>

function png_walk :: "byte list \<Rightarrow> nat \<Rightarrow> header" where
  "png_walk data offset =
     (if offset + 12 \<le> length data then
        reading (bytes_at data offset 4) (\<lambda>chunk_length.
        reading (bytes_at data (offset + 4) 4) (\<lambda>chunk_type.
        if chunk_type = ihdr_type then
          if offset + 16 > length data then Some None
          else reading (bytes_at data (offset + 8) 4) (\<lambda>w.
               reading (bytes_at data (offset + 12) 4) (\<lambda>h.
               Some (Some (int (big_endian w), int (big_endian h)))))
        else png_walk data (offset + (12 + big_endian chunk_length))))
      else Some None)"
  by pat_completeness auto
termination by (relation "measure (\<lambda>(data, offset). length data - offset)") auto

declare png_walk.simps [simp del]

section \<open>JPEG\<close>

text \<open>The first position from \<open>i\<close> on that holds another byte than \<open>0xFF\<close>, or the end.\<close>

function skip_fill :: "byte list \<Rightarrow> nat \<Rightarrow> nat" where
  "skip_fill data i = (if i < length data \<and> data ! i = 0xFF then skip_fill data (i + 1) else i)"
  by pat_completeness auto
termination by (relation "measure (\<lambda>(data, i). length data - i)") auto

declare skip_fill.simps [simp del]

lemma skip_fill_ge: "i \<le> skip_fill data i"
proof (induction data i rule: skip_fill.induct)
  case (1 data i)
  show ?case
  proof (cases "i < length data \<and> data ! i = 0xFF")
    case True
    with 1 have "i + 1 \<le> skip_fill data (i + 1)" by blast
    moreover from True have "skip_fill data i = skip_fill data (i + 1)" by (subst skip_fill.simps) (rule if_P)
    ultimately show ?thesis by simp
  next
    case False
    then have "skip_fill data i = i" by (subst skip_fill.simps) (rule if_not_P)
    then show ?thesis by simp
  qed
qed

definition is_sof :: "nat \<Rightarrow> bool" where
  "is_sof marker \<longleftrightarrow> 0xC0 \<le> marker \<and> marker \<le> 0xCF \<and> marker \<noteq> 0xC4 \<and> marker \<noteq> 0xC8 \<and> marker \<noteq> 0xCC"

function jpeg_walk :: "byte list \<Rightarrow> bool \<Rightarrow> nat \<Rightarrow> header" where
  "jpeg_walk data first_marker offset =
     (if offset < length data then
        reading (bytes_at data offset 1) (\<lambda>b.
        if b \<noteq> [0xFF] then (if first_marker then Some None else jpeg_walk data first_marker (offset + 1))
        else
          let code_offset = skip_fill data (offset + 1) in
          if code_offset \<ge> length data then Some None
          else reading (bytes_at data code_offset 1) (\<lambda>m.
            let marker = hd m in
            if marker = 0x01 \<or> (0xD0 \<le> marker \<and> marker \<le> 0xD9) then jpeg_walk data False (code_offset + 1)
            else if is_sof marker then
              if code_offset + 7 \<ge> length data then Some None
              else reading (bytes_at data (code_offset + 4) 2) (\<lambda>h.
                   reading (bytes_at data (code_offset + 6) 2) (\<lambda>w.
                   Some (Some (int (big_endian w), int (big_endian h)))))
            else if code_offset + 2 \<ge> length data then Some None
            else reading (bytes_at data (code_offset + 1) 2) (\<lambda>l.
              if big_endian l < 2 then Some None
              else jpeg_walk data False (code_offset + (1 + big_endian l)))))
      else Some None)"
  by pat_completeness auto
termination
proof (relation "measure (\<lambda>(data, first_marker, offset). length data - offset)", goal_cases)
  case (3 data first_marker offset)
  then show ?case using skip_fill_ge [of "offset + 1" data] by simp
next
  case (4 data first_marker offset)
  then show ?case using skip_fill_ge [of "offset + 1" data] by simp
qed auto

declare jpeg_walk.simps [simp del]

section \<open>BMP\<close>

definition read_i32_le :: "nat list \<Rightarrow> int" where
  "read_i32_le ns = (let v = int (little_endian ns) in if v < 2 ^ 31 then v else v - 2 ^ 32)"

definition bmp_size :: "byte list \<Rightarrow> header" where
  "bmp_size data =
     reading (bytes_at data 14 4) (\<lambda>s.
       let header_size = little_endian s in
       if header_size = 12 then
         if length data < 22 then Some None
         else reading (bytes_at data 18 2) (\<lambda>w.
              reading (bytes_at data 20 2) (\<lambda>h.
              Some (Some (int (little_endian w), int (little_endian h)))))
       else if header_size \<in> {40, 56, 108, 124} then
         if length data < 26 then Some None
         else reading (bytes_at data 18 4) (\<lambda>w.
              reading (bytes_at data 22 4) (\<lambda>h.
              Some (Some (\<bar>read_i32_le w\<bar>, \<bar>read_i32_le h\<bar>))))
       else Some None)"

section \<open>The function\<close>

definition decodedImageDimensions :: "byte list \<Rightarrow> header" where
  "decodedImageDimensions data =
     (if length data \<ge> 8 \<and> take 8 data = png_signature then png_walk data 8
      else if length data \<ge> 2 \<and> data ! 0 = 0xFF then
        let soi_offset = skip_fill data 0
        in if soi_offset \<ge> length data \<or> data ! soi_offset \<noteq> 0xD8 then Some None
           else jpeg_walk data True (soi_offset + 1)
      else if length data \<ge> 18 \<and> data ! 0 = 0x42 \<and> data ! 1 = 0x4D then bmp_size data
      else Some None)"

section \<open>Lemmas\<close>

lemma bytes_at_Some: "bytes_at data i n = Some ns \<longleftrightarrow> i + n \<le> length data \<and> ns = map unat (take n (drop i data))"
  by (auto simp: bytes_at_def)

lemma reading_in: "i + n \<le> length data \<Longrightarrow> reading (bytes_at data i n) f = f (map unat (take n (drop i data)))"
  by (simp add: reading_def bytes_at_def)

lemma big_endian_snoc: "big_endian (ns @ [b]) = 256 * big_endian ns + b"
  by (simp add: big_endian_def)

lemma big_endian_bound: "\<forall>b \<in> set ns. b < 256 \<Longrightarrow> big_endian ns < 256 ^ length ns"
proof (induction ns rule: rev_induct)
  case Nil
  show ?case by (simp add: big_endian_def)
next
  case (snoc b ns)
  then have "big_endian ns + 1 \<le> 256 ^ length ns" "b < 256" by auto
  then have "256 * (big_endian ns + 1) \<le> 256 * 256 ^ length ns" by simp
  with \<open>b < 256\<close> show ?case by (simp add: big_endian_snoc)
qed

lemma little_endian_bound: "\<forall>b \<in> set ns. b < 256 \<Longrightarrow> little_endian ns < 256 ^ length ns"
  by (induction ns) (auto simp: little_endian_def)

lemma byte_bound: "b \<in> set (map unat (xs :: byte list)) \<Longrightarrow> b < 256"
  using unsigned_less [where 'b = 8] by fastforce

lemma big_endian_bytes: "big_endian (map unat (xs :: byte list)) < 256 ^ length xs"
  using big_endian_bound [of "map unat xs"] byte_bound by simp

lemma little_endian_bytes: "little_endian (map unat (xs :: byte list)) < 256 ^ length xs"
  using little_endian_bound [of "map unat xs"] byte_bound by simp

text \<open>Every read is inside the buffer and a declared size is one of 32 bits.\<close>

fun sane :: "header \<Rightarrow> bool" where
  "sane None \<longleftrightarrow> False"
| "sane (Some None) \<longleftrightarrow> True"
| "sane (Some (Some (w, h))) \<longleftrightarrow> 0 \<le> w \<and> w < 2 ^ 32 \<and> 0 \<le> h \<and> h < 2 ^ 32"

lemma bytes_small:
  assumes "length (xs :: byte list) \<le> 4"
  shows "big_endian (map unat xs) < 4294967296" and "little_endian (map unat xs) < 4294967296"
proof -
  have "(256 :: nat) ^ length xs \<le> 256 ^ 4" by (rule power_increasing [OF assms]) simp
  then show "big_endian (map unat xs) < 4294967296" "little_endian (map unat xs) < 4294967296"
    using big_endian_bytes [of xs] little_endian_bytes [of xs] by simp_all
qed

lemma png_walk_sane: "sane (png_walk data offset)"
proof (induction data offset rule: png_walk.induct)
  case (1 data offset)
  show ?case
    apply (subst png_walk.simps)
    using 1 by (auto simp: reading_in bytes_at_Some bytes_small split: if_splits)
qed

lemma jpeg_walk_sane: "sane (jpeg_walk data first_marker offset)"
proof (induction data first_marker offset rule: jpeg_walk.induct)
  case (1 data first_marker offset)
  show ?case
    apply (subst jpeg_walk.simps)
    using 1 by (auto simp: reading_in bytes_at_Some bytes_small Let_def split: if_splits)
qed

lemma read_i32_le_range: "\<bar>read_i32_le (map unat (take 4 xs :: byte list))\<bar> < 2 ^ 32"
  using bytes_small(2) [of "take 4 xs"] by (auto simp: read_i32_le_def Let_def)

lemma bmp_size_sane: "18 \<le> length data \<Longrightarrow> sane (bmp_size data)"
  using read_i32_le_range by (auto simp: bmp_size_def reading_in bytes_small Let_def)

lemma decodedImageDimensions_sane: "sane (decodedImageDimensions data)"
  by (auto simp: decodedImageDimensions_def Let_def png_walk_sane jpeg_walk_sane bmp_size_sane)

section \<open>The size a PNG file declares\<close>

text \<open>A chunk of a PNG file, given by its type, its data and its checksum.\<close>

definition be32 :: "nat \<Rightarrow> byte list" where
  "be32 n = rev (scalar_bytes 4 n)"

definition png_chunk :: "byte list \<times> byte list \<times> byte list \<Rightarrow> byte list" where
  "png_chunk c = (case c of (type, data, crc) \<Rightarrow> be32 (length data) @ type @ data @ crc)"

definition other_chunk :: "byte list \<times> byte list \<times> byte list \<Rightarrow> bool" where
  "other_chunk c \<longleftrightarrow> (case c of (type, data, crc) \<Rightarrow>
     length type = 4 \<and> map unat type \<noteq> ihdr_type \<and> length data < 2 ^ 32 \<and> length crc = 4)"

text \<open>A PNG file up to the size in its IHDR chunk, which other chunks may precede, and whatever follows.\<close>

definition png_file :: "(byte list \<times> byte list \<times> byte list) list \<Rightarrow> nat \<Rightarrow> nat \<Rightarrow> byte list \<Rightarrow> byte list" where
  "png_file chunks w h rest =
     png_signature @ concat (map png_chunk chunks) @ be32 13 @ map word_of_nat ihdr_type @ be32 w @ be32 h @ rest"

lemma length_be32 [simp]: "length (be32 n) = 4"
  by (simp add: be32_def)

lemma big_endian_rev: "big_endian (map unat (rev xs)) = scalar_value xs"
  by (induction xs) (simp_all add: big_endian_def)

lemma big_endian_be32: "n < 2 ^ 32 \<Longrightarrow> big_endian (map unat (be32 n)) = n"
  by (simp add: be32_def big_endian_rev scalar_value_bytes)

lemma png_walk_other:
  assumes "other_chunk c"
  shows "png_walk (pre @ png_chunk c @ rest) (length pre) = png_walk (pre @ png_chunk c @ rest) (length (pre @ png_chunk c))"
proof -
  obtain type data crc where c: "c = (type, data, crc)" by (cases c)
  show ?thesis using assms
    by (subst png_walk.simps) (simp add: c other_chunk_def png_chunk_def reading_in big_endian_be32 algebra_simps)
qed

lemma png_walk_others:
  "\<forall>c \<in> set chunks. other_chunk c \<Longrightarrow>
     png_walk (pre @ concat (map png_chunk chunks) @ rest) (length pre) =
     png_walk (pre @ concat (map png_chunk chunks) @ rest) (length (pre @ concat (map png_chunk chunks)))"
proof (induction chunks arbitrary: pre)
  case (Cons c chunks)
  then have "png_walk (pre @ png_chunk c @ concat (map png_chunk chunks) @ rest) (length pre) =
      png_walk ((pre @ png_chunk c) @ concat (map png_chunk chunks) @ rest) (length (pre @ png_chunk c))"
    using png_walk_other [of c pre] by simp
  also have "\<dots> = png_walk ((pre @ png_chunk c) @ concat (map png_chunk chunks) @ rest)
      (length ((pre @ png_chunk c) @ concat (map png_chunk chunks)))"
    using Cons by (intro Cons.IH) simp
  finally show ?case by (simp add: add.assoc)
qed simp

lemma ihdr_bytes: "map unat (map word_of_nat ihdr_type :: byte list) = ihdr_type"
  by (simp add: ihdr_type_def)

lemma png_walk_ihdr:
  assumes "w < 2 ^ 32" "h < 2 ^ 32"
  shows "png_walk (pre @ be32 n @ map word_of_nat ihdr_type @ be32 w @ be32 h @ rest) (length pre) =
    Some (Some (int w, int h))"
proof -
  have "length (map word_of_nat ihdr_type :: byte list) = 4" by (simp add: ihdr_type_def)
  then show ?thesis using assms ihdr_bytes
    by (subst png_walk.simps) (simp add: reading_in big_endian_be32)
qed

lemma png_file_size:
  assumes "\<forall>c \<in> set chunks. other_chunk c" "w < 2 ^ 32" "h < 2 ^ 32"
  shows "decodedImageDimensions (png_file chunks w h rest) = Some (Some (int w, int h))"
proof -
  have "length png_signature = 8" by (simp add: png_signature_def)
  then have "decodedImageDimensions (png_file chunks w h rest) = png_walk (png_file chunks w h rest) (length png_signature)"
    by (simp add: decodedImageDimensions_def png_file_def)
  also have "\<dots> = png_walk (png_file chunks w h rest) (length (png_signature @ concat (map png_chunk chunks)))"
    unfolding png_file_def by (rule png_walk_others [OF assms(1)])
  also have "\<dots> = Some (Some (int w, int h))"
    using png_walk_ihdr [OF assms(2,3), of "png_signature @ concat (map png_chunk chunks)"] by (simp add: png_file_def)
  finally show ?thesis .
qed

end
