(* ===== verification/Task_Steps.thy ===== *)
theory Task_Steps
  imports Pipeline Numbers Image_Header
begin

text \<open>
  The built-in pipeline steps of \<open>PipelineStepsTasks.cpp\<close>: preprocessing, which turns one encoded image into
  the inputs of a model, and postprocessing, which turns its outputs into a detection envelope. The image
  decoder and the tasks are those of the neuriplo-tasks library and are arguments; what a task returns is data
  the envelope is written from.
\<close>

section \<open>The task layer\<close>

text \<open>
  A scalar of a task tensor is kept as its type and its bits. \<open>'n\<close> is the type of the library's coordinates
  and class numbers, from which the code only takes an \<open>int32_t\<close>.
\<close>

record TaskTensor =
  tt_shape :: "int64_t list"
  tt_data :: "(ElementType \<times> nat) list"

datatype SegmentationOutput = MaskOutput | PolygonOutput

record TaskConfig =
  tc_confidence_threshold :: double
  tc_nms_threshold :: double
  tc_mask_threshold :: double
  tc_segmentation_output :: SegmentationOutput

record 'n Rect =
  rc_x :: 'n
  rc_y :: 'n
  rc_width :: 'n
  rc_height :: 'n

record 'n Polygon =
  pg_exterior :: "('n \<times> 'n) list"
  pg_holes :: "('n \<times> 'n) list list"

text \<open>The image of a mask; \<open>mi_data\<close> is \<open>None\<close> for a null pointer.\<close>

record MaskImage =
  mi_empty :: bool
  mi_data :: "byte list option"
  mi_rows :: int
  mi_cols :: int
  mi_uint8 :: bool

record 'n InstanceSegmentation =
  is_bbox :: "'n Rect"
  is_class_confidence :: nat \<comment> \<open>the bits of a \<open>float\<close>\<close>
  is_class_id :: 'n
  is_mask_data :: "byte list"
  is_mask :: MaskImage
  is_polygons :: "'n Polygon list"

record 'n TaskDetection =
  td_bbox :: "'n Rect"
  td_class_confidence :: nat
  td_class_id :: 'n

datatype 'n TaskResult = Segmentation "'n InstanceSegmentation" | DetectionResult "'n TaskDetection" | OtherResult

text \<open>
  The operations of the library: the model description \<open>'m\<close> and its accessors, the decoder and its images \<open>'i\<close>,
  the factory and its tasks \<open>'t\<close>, and the conversion of a coordinate to \<open>int32_t\<close>.
\<close>

record ('m, 'i, 't, 'n) TaskLayer =
  tl_new_info :: 'm
  tl_addInput :: "string \<Rightarrow> int64_t list \<Rightarrow> nat \<Rightarrow> 'm \<Rightarrow> 'm"
  tl_addOutput :: "string \<Rightarrow> int64_t list \<Rightarrow> nat \<Rightarrow> 'm \<Rightarrow> 'm"
  tl_no_formats :: "'m \<Rightarrow> bool"
  tl_input_shapes :: "'m \<Rightarrow> int64_t list list"
  tl_set_first_format :: "string \<Rightarrow> 'm \<Rightarrow> 'm"
  tl_no_types :: "'m \<Rightarrow> bool"
  tl_set_first_float :: "'m \<Rightarrow> 'm"
  tl_decodeImage :: "byte list \<Rightarrow> nat \<Rightarrow> 'i Call"
  tl_height :: "'i \<Rightarrow> int"
  tl_width :: "'i \<Rightarrow> int"
  tl_createTaskInstance :: "string \<Rightarrow> 'm \<Rightarrow> TaskConfig \<Rightarrow> 't Call"
  tl_preprocess :: "'t \<Rightarrow> 'i list \<Rightarrow> byte list list Call"
  tl_postprocess :: "'t \<Rightarrow> int \<times> int \<Rightarrow> TaskTensor list \<Rightarrow> 'n TaskResult list Call"
  tl_int32 :: "'n \<Rightarrow> int"

fun call_then :: "'a Call \<Rightarrow> ('a \<Rightarrow> 'b Call) \<Rightarrow> 'b Call" where
  "call_then (Returns v) f = f v"
| "call_then (Throws m) f = Throws m"
| "call_then ThrowsOther f = ThrowsOther"

text \<open>\<open>catch (const std::exception &)\<close>, which makes the message an error of the step.\<close>

fun catching :: "string \<Rightarrow> (string + 'a) Call \<Rightarrow> (string + 'a) Call" where
  "catching said (Returns r) = Returns r"
| "catching said (Throws m) = Returns (Inl (said @ m))"
| "catching said ThrowsOther = ThrowsOther"

section \<open>Tensors of the steps\<close>

definition kPipelineMaxDecodedPixels :: int64_t where
  "kPipelineMaxDecodedPixels = 64 * 1024 * 1024"

definition frameSizeTensor :: TensorMetadata where
  "frameSizeTensor = \<lparr>tm_name = ''FRAME_SIZE'', tm_datatype = ''INT64'', tm_shape = [2]\<rparr>"

text \<open>The layout the shape of the first input suggests.\<close>

definition shape_format :: "int64_t list \<Rightarrow> string option" where
  "shape_format shape =
     (if length shape = 4 then
        let is_nchw = shape ! 1 = 1 \<or> shape ! 1 = 3;
            is_nhwc = shape ! 3 = 1 \<or> shape ! 3 = 3
        in Some (if is_nchw \<and> \<not> is_nhwc then ''FORMAT_NCHW''
                 else if \<not> is_nchw \<and> is_nhwc then ''FORMAT_NHWC''
                 else if shape ! 2 > 3 \<and> shape ! 3 > 3 then ''FORMAT_NCHW''
                 else if shape ! 1 > 3 \<and> shape ! 2 > 3 then ''FORMAT_NHWC''
                 else ''FORMAT_NCHW'')
      else if length shape = 3 then Some ''FORMAT_NCHW''
      else None)"

definition setInputFormat :: "('m, 'i, 't, 'n) TaskLayer \<Rightarrow> 'm \<Rightarrow> 'm" where
  "setInputFormat lib info =
     (if tl_no_formats lib info \<or> tl_input_shapes lib info = [] \<or> hd (tl_input_shapes lib info) = [] then info
      else (case shape_format (hd (tl_input_shapes lib info)) of
              None \<Rightarrow> info
            | Some format \<Rightarrow> tl_set_first_format lib format info))"

definition buildModelInfo :: "('m, 'i, 't, 'n) TaskLayer \<Rightarrow> ModelMetadata \<Rightarrow> 'm" where
  "buildModelInfo lib metadata =
     (let with_inputs = fold (\<lambda>t. tl_addInput lib (tm_name t)
            (if length (tm_shape t) = 3 then 1 # tm_shape t else tm_shape t) 1) (mm_inputs metadata) (tl_new_info lib);
          with_outputs = fold (\<lambda>t. tl_addOutput lib (tm_name t) (tm_shape t) 1) (mm_outputs metadata) with_inputs;
          info = setInputFormat lib with_outputs
      in if tl_no_types lib info then info else tl_set_first_float lib info)"

definition buildTaskConfig :: "PipelineStepConfig \<Rightarrow> TaskConfig" where
  "buildTaskConfig step = \<lparr>tc_confidence_threshold = pc_confidence_threshold step, tc_nms_threshold = pc_nms_threshold step,
     tc_mask_threshold = pc_mask_threshold step,
     tc_segmentation_output = (if pc_envelope step = Polygon then PolygonOutput else MaskOutput)\<rparr>"

text \<open>The element type a datatype is carried as; \<open>None\<close> when the task layer has none.\<close>

definition task_type :: "string \<Rightarrow> ElementType option" where
  "task_type datatype =
     (if datatype = ''FP32'' \<or> datatype = ''FP16'' then Some T_float
      else if datatype = ''INT32'' then Some T_int32
      else if datatype = ''INT64'' then Some T_int64
      else if datatype = ''UINT8'' \<or> datatype = ''BOOL'' then Some T_uint8
      else None)"

definition toTaskTensor :: "OutputTensor \<Rightarrow> string + TaskTensor" where
  "toTaskTensor source =
     (let element_size = tensorElementSize (ot_datatype source);
          count = length (ot_bytes source) div element_size
      in if element_size = 0
         then Inl (''tensor '' @ quoted (ot_name source) @ '' has no fixed-size datatype: '' @ ot_datatype source)
         else (case task_type (ot_datatype source) of
                 Some T \<Rightarrow> Inr \<lparr>tt_shape = ot_shape source,
                                tt_data = map (\<lambda>i. (T, the (tensorScalarAt T (ot_bytes source) i))) [0..<count]\<rparr>
               | None \<Rightarrow>
                   if count = 0 then Inr \<lparr>tt_shape = ot_shape source, tt_data = []\<rparr>
                   else Inl (''tensor '' @ quoted (ot_name source) @ '' has a datatype the task layer cannot carry: '' @
                             ot_datatype source)))"

definition makeTensor :: "TensorMetadata \<Rightarrow> OutputTensor" where
  "makeTensor m = \<lparr>ot_name = tm_name m, ot_datatype = tm_datatype m, ot_shape = tm_shape m, ot_bytes = [], ot_string_data = []\<rparr>"

text \<open>The bits of a signed value.\<close>

definition bits_of :: "ElementType \<Rightarrow> int \<Rightarrow> nat" where
  "bits_of T i = nat (i mod 2 ^ (8 * sizeof T))"

definition int_of_bits :: "ElementType \<Rightarrow> nat \<Rightarrow> int" where
  "int_of_bits T b = (if 2 * b < 2 ^ (8 * sizeof T) then int b else int b - 2 ^ (8 * sizeof T))"

section \<open>PreprocessStep\<close>

definition pipelineImageInputDatatype :: string where
  "pipelineImageInputDatatype = ''UINT8''"

definition preprocess_inputs :: "TensorMetadata list" where
  "preprocess_inputs = [\<lparr>tm_name = pipelineImageInputName, tm_datatype = pipelineImageInputDatatype, tm_shape = [1, -1]\<rparr>]"

definition preprocess_outputs :: "ModelMetadata \<Rightarrow> TensorMetadata list" where
  "preprocess_outputs neighbour = mm_inputs neighbour @ [frameSizeTensor]"

text \<open>A declared size over the cap; the header is read first, and \<open>None\<close> is a read outside the image.\<close>

definition over_pixel_cap :: "byte list \<Rightarrow> (int \<times> int) option option" where
  "over_pixel_cap bytes =
     (case decodedImageDimensions bytes of
        None \<Rightarrow> None
      | Some None \<Rightarrow> Some None
      | Some (Some (w, h)) \<Rightarrow>
          Some (if w > 0 \<and> h > 0 \<and> w > kPipelineMaxDecodedPixels div h then Some (w, h) else None))"

definition encoded_inputs :: "ModelMetadata \<Rightarrow> byte list list \<Rightarrow> int \<Rightarrow> int \<Rightarrow> OutputTensor list" where
  "encoded_inputs neighbour preprocessed height width =
     map (\<lambda>(m, bytes). (makeTensor m)\<lparr>ot_bytes := bytes\<rparr>) (zip (mm_inputs neighbour) preprocessed) @
     [(makeTensor frameSizeTensor)\<lparr>ot_bytes :=
        appendTensorScalar T_int64 (appendTensorScalar T_int64 [] (bits_of T_int64 height)) (bits_of T_int64 width)\<rparr>]"

definition preprocess_run ::
  "('m, 'i, 't, 'n) TaskLayer \<Rightarrow> PipelineStepConfig \<Rightarrow> ModelMetadata \<Rightarrow> OutputTensor list \<Rightarrow>
     (string + OutputTensor list) Call option" where
  "preprocess_run lib step neighbour step_inputs =
     (let said = ''preprocess step '' @ quoted (pc_name step)
      in if length step_inputs \<noteq> 1 \<or> ot_bytes (hd step_inputs) = []
         then Some (Returns (Inl (said @ '' expects one non-empty encoded image'')))
         else
           let bytes = ot_bytes (hd step_inputs)
           in (case over_pixel_cap bytes of
                 None \<Rightarrow> None
               | Some (Some (w, h)) \<Rightarrow>
                   Some (Returns (Inl (said @ '' rejected an encoded image declaring '' @ int_text w @ ''x'' @ int_text h @
                     '' pixels, over the '' @ int_text kPipelineMaxDecodedPixels @ ''-pixel cap'')))
               | Some None \<Rightarrow>
                   Some (catching (said @ '' failed: '')
                     (call_then (tl_decodeImage lib bytes 3) (\<lambda>image.
                      call_then (tl_createTaskInstance lib (pc_task_type step) (buildModelInfo lib neighbour) (buildTaskConfig step)) (\<lambda>task.
                      call_then (tl_preprocess lib task [image]) (\<lambda>preprocessed.
                      Returns
                        (if length preprocessed < length (mm_inputs neighbour)
                         then Inl (said @ '' produced '' @ to_string (length preprocessed) @ '' tensors for a model with '' @
                                to_string (length (mm_inputs neighbour)) @ '' inputs'')
                         else Inr (encoded_inputs neighbour preprocessed (tl_height lib image) (tl_width lib image))))))))))"

section \<open>The mask of one detection\<close>

definition rect_int :: "('m, 'i, 't, 'n) TaskLayer \<Rightarrow> 'n Rect \<Rightarrow> int \<times> int \<times> int \<times> int" where
  "rect_int lib r = (tl_int32 lib (rc_x r), tl_int32 lib (rc_y r), tl_int32 lib (rc_width r), tl_int32 lib (rc_height r))"

text \<open>
  One byte of a mask that is cut out of a frame; \<open>None\<close> is a read outside the image. Positions are computed in
  \<open>size_t\<close>, where they do not wrap, and \<open>y + row\<close> and \<open>x + column\<close> in \<open>int\<close>.
\<close>

definition mask_byte :: "byte list \<Rightarrow> int \<Rightarrow> int \<Rightarrow> int \<Rightarrow> int \<Rightarrow> nat \<Rightarrow> nat \<Rightarrow> byte option" where
  "mask_byte pixels rows cols x y row column =
     (let source_row = y + int row; source_column = x + int column
      in if source_row < 0 \<or> source_row \<ge> rows \<or> source_column < 0 \<or> source_column \<ge> cols then Some 0
         else let position = nat source_row * nat cols + nat source_column
              in if position < length pixels then Some (pixels ! position) else None)"

definition pipelineBoxSizedMask :: "('m, 'i, 't, 'n) TaskLayer \<Rightarrow> 'n InstanceSegmentation \<Rightarrow> byte list option" where
  "pipelineBoxSizedMask lib seg =
     (case rect_int lib (is_bbox seg) of (x, y, width, height) \<Rightarrow>
        if width \<le> 0 \<or> height \<le> 0 then Some []
        else
          let box_width = nat width; box_height = nat height; expected = box_width * box_height; image = is_mask seg
          in if length (is_mask_data seg) = expected then Some (is_mask_data seg)
             else if mi_empty image then Some []
             else (case mi_data image of
                     None \<Rightarrow> Some []
                   | Some pixels \<Rightarrow>
                       if mi_rows image \<le> 0 \<or> mi_cols image \<le> 0 \<or> \<not> mi_uint8 image then Some []
                       else if mi_rows image = height \<and> mi_cols image = width
                         then (if expected \<le> length pixels then Some (take expected pixels) else None)
                       else those (concat (map (\<lambda>row. map (mask_byte pixels (mi_rows image) (mi_cols image) x y row)
                              [0..<box_width]) [0..<box_height]))))"

section \<open>The envelope\<close>

record 'n DecodedDetection =
  dd_x :: int
  dd_y :: int
  dd_width :: int
  dd_height :: int
  dd_score :: nat
  dd_class_id :: int
  dd_segmentation :: "'n InstanceSegmentation option"

definition no_detection :: "'n DecodedDetection" where
  "no_detection = \<lparr>dd_x = 0, dd_y = 0, dd_width = 0, dd_height = 0, dd_score = 0, dd_class_id = 0, dd_segmentation = None\<rparr>"

definition decoded_detection ::
  "('m, 'i, 't, 'n) TaskLayer \<Rightarrow> 'n Rect \<Rightarrow> nat \<Rightarrow> 'n \<Rightarrow> 'n InstanceSegmentation option \<Rightarrow> 'n DecodedDetection" where
  "decoded_detection lib box score class_id segmentation =
     (case rect_int lib box of (x, y, w, h) \<Rightarrow>
        \<lparr>dd_x = x, dd_y = y, dd_width = w, dd_height = h, dd_score = score, dd_class_id = tl_int32 lib class_id,
         dd_segmentation = segmentation\<rparr>)"

fun decode_result :: "('m, 'i, 't, 'n) TaskLayer \<Rightarrow> 'n TaskResult \<Rightarrow> 'n DecodedDetection list" where
  "decode_result lib (Segmentation s) =
     [decoded_detection lib (is_bbox s) (is_class_confidence s) (is_class_id s) (Some s)]"
| "decode_result lib (DetectionResult d) = [decoded_detection lib (td_bbox d) (td_class_confidence d) (td_class_id d) None]"
| "decode_result lib OtherResult = []"

text \<open>
  The place of a \<open>float\<close> in the order of scores, the infinities beyond every finite value; \<open>None\<close> for a value
  that is not a number.
\<close>

definition float_score :: "nat \<Rightarrow> double option" where
  "float_score b =
     (if b mod 2 ^ 31 = 255 * 2 ^ 23 then Some (if b < 2 ^ 31 then 2 ^ 128 else - (2 ^ 128))
      else ieee_decode 23 8 b)"

definition collect_detections :: "('m, 'i, 't, 'n) TaskLayer \<Rightarrow> 'n TaskResult list \<Rightarrow> 'n DecodedDetection list" where
  "collect_detections lib results =
     (let every = concat (map (decode_result lib) results)
      in map (\<lambda>i. every ! i) (pipelineTopScoreIndices (map (float_score \<circ> dd_score) every) (nat kPipelineMaxDetections)))"

text \<open>One scalar appended to the tensor at a position of the envelope.\<close>

definition put :: "nat \<Rightarrow> ElementType \<Rightarrow> nat \<Rightarrow> OutputTensor list \<Rightarrow> OutputTensor list" where
  "put k T v envelope = envelope[k := (envelope ! k)\<lparr>ot_bytes := appendTensorScalar T (ot_bytes (envelope ! k)) v\<rparr>]"

definition put_detection :: "'n DecodedDetection \<Rightarrow> OutputTensor list \<Rightarrow> OutputTensor list" where
  "put_detection d envelope =
     put 3 T_int32 (bits_of T_int32 (dd_class_id d))
    (put 2 T_float (dd_score d)
    (put 1 T_int32 (bits_of T_int32 (dd_height d))
    (put 1 T_int32 (bits_of T_int32 (dd_width d))
    (put 1 T_int32 (bits_of T_int32 (dd_y d))
    (put 1 T_int32 (bits_of T_int32 (dd_x d)) envelope)))))"

definition set_shape :: "nat \<Rightarrow> int64_t list \<Rightarrow> OutputTensor list \<Rightarrow> OutputTensor list" where
  "set_shape k shape envelope = envelope[k := (envelope ! k)\<lparr>ot_shape := shape\<rparr>]"

text \<open>The mask of the detection in a row; rows past the last detection have none.\<close>

definition row_mask :: "('m, 'i, 't, 'n) TaskLayer \<Rightarrow> 'n DecodedDetection list \<Rightarrow> nat \<Rightarrow> byte list option" where
  "row_mask lib detections i =
     (if i < length detections then
        (case dd_segmentation (detections ! i) of None \<Rightarrow> Some [] | Some s \<Rightarrow> pipelineBoxSizedMask lib s)
      else Some [])"

fun encode_mask_rows :: "byte list list \<Rightarrow> int64_t \<Rightarrow> OutputTensor list \<Rightarrow> OutputTensor list" where
  "encode_mask_rows [] offset envelope = envelope"
| "encode_mask_rows (bytes # masks) offset envelope =
     (let grown = envelope[5 := (envelope ! 5)\<lparr>ot_bytes := ot_bytes (envelope ! 5) @ bytes\<rparr>];
          next_offset = offset + int (length bytes)
      in encode_mask_rows masks next_offset (put 4 T_int64 (bits_of T_int64 next_offset) grown))"

definition encodeMasks ::
  "('m, 'i, 't, 'n) TaskLayer \<Rightarrow> 'n DecodedDetection list \<Rightarrow> OutputTensor list \<Rightarrow> OutputTensor list option" where
  "encodeMasks lib detections envelope =
     map_option (\<lambda>masks.
         let written = encode_mask_rows masks 0 (put 4 T_int64 (bits_of T_int64 0) envelope)
         in set_shape 5 [int (length (ot_bytes (written ! 5)))] written)
       (those (map (row_mask lib detections) [0..<nat kPipelineMaxDetections]))"

record PolygonWriter =
  pw_envelope :: "OutputTensor list"
  pw_point_count :: int64_t
  pw_ring_count :: int64_t

definition appendRing :: "('m, 'i, 't, 'n) TaskLayer \<Rightarrow> ('n \<times> 'n) list \<Rightarrow> PolygonWriter \<Rightarrow> PolygonWriter" where
  "appendRing lib ring s =
     (if length ring < 3 then s
      else
        let points = fold (\<lambda>p e. put 6 T_int32 (bits_of T_int32 (tl_int32 lib (snd p)))
                                  (put 6 T_int32 (bits_of T_int32 (tl_int32 lib (fst p))) e)) ring (pw_envelope s);
            point_count = pw_point_count s + int (length ring)
        in \<lparr>pw_envelope = put 5 T_int64 (bits_of T_int64 point_count) points, pw_point_count = point_count,
            pw_ring_count = pw_ring_count s + 1\<rparr>)"

definition polygon_rings :: "'n Polygon \<Rightarrow> ('n \<times> 'n) list list" where
  "polygon_rings p = pg_exterior p # pg_holes p"

text \<open>The rings of the detection in a row.\<close>

definition row_rings :: "'n DecodedDetection list \<Rightarrow> nat \<Rightarrow> ('n \<times> 'n) list list" where
  "row_rings detections i =
     (if i < length detections then
        (case dd_segmentation (detections ! i) of
           None \<Rightarrow> []
         | Some s \<Rightarrow> concat (map polygon_rings (is_polygons s)))
      else [])"

definition encode_polygon_row ::
  "('m, 'i, 't, 'n) TaskLayer \<Rightarrow> ('n \<times> 'n) list list \<Rightarrow> PolygonWriter \<Rightarrow> PolygonWriter" where
  "encode_polygon_row lib rings s =
     (let s' = fold (appendRing lib) rings s
      in s'\<lparr>pw_envelope := put 4 T_int64 (bits_of T_int64 (pw_ring_count s')) (pw_envelope s')\<rparr>)"

definition encodePolygons ::
  "('m, 'i, 't, 'n) TaskLayer \<Rightarrow> 'n DecodedDetection list \<Rightarrow> OutputTensor list \<Rightarrow> OutputTensor list" where
  "encodePolygons lib detections envelope =
     (let start = \<lparr>pw_envelope = put 5 T_int64 (bits_of T_int64 0) (put 4 T_int64 (bits_of T_int64 0) envelope),
                   pw_point_count = 0, pw_ring_count = 0\<rparr>;
          s = fold (\<lambda>i. encode_polygon_row lib (row_rings detections i)) [0..<nat kPipelineMaxDetections] start
      in set_shape 6 [pw_point_count s, 2] (set_shape 5 [pw_ring_count s + 1] (pw_envelope s)))"

definition encode_rows :: "'n DecodedDetection list \<Rightarrow> OutputTensor list \<Rightarrow> OutputTensor list" where
  "encode_rows detections envelope =
     fold (\<lambda>i. put_detection (if i < length detections then detections ! i else no_detection))
       [0..<nat kPipelineMaxDetections] (put 0 T_int32 (bits_of T_int32 (int (length detections))) envelope)"

definition encodeEnvelope ::
  "('m, 'i, 't, 'n) TaskLayer \<Rightarrow> PipelineEnvelope \<Rightarrow> 'n TaskResult list \<Rightarrow> OutputTensor list option" where
  "encodeEnvelope lib kind results =
     (let detections = collect_detections lib results;
          envelope = encode_rows detections (map makeTensor (pipelineEnvelopeOutputs kind))
      in case kind of
           Detection \<Rightarrow> Some envelope
         | Mask \<Rightarrow> encodeMasks lib detections envelope
         | Polygon \<Rightarrow> Some (encodePolygons lib detections envelope))"

section \<open>PostprocessStep\<close>

definition postprocess_inputs :: "ModelMetadata \<Rightarrow> TensorMetadata list" where
  "postprocess_inputs neighbour = mm_outputs neighbour @ [frameSizeTensor]"

text \<open>\<open>static_cast<int>\<close> of an \<open>int64_t\<close> given by its bits.\<close>

definition int_of_int64 :: "nat \<Rightarrow> int" where
  "int_of_int64 b = int_of_bits T_int32 (b mod 2 ^ 32)"

fun convert_tensors :: "OutputTensor list \<Rightarrow> string + TaskTensor list" where
  "convert_tensors [] = Inr []"
| "convert_tensors (t # ts) =
     (case toTaskTensor t of
        Inl e \<Rightarrow> Inl e
      | Inr c \<Rightarrow> (case convert_tensors ts of Inl e \<Rightarrow> Inl e | Inr cs \<Rightarrow> Inr (c # cs)))"

definition postprocess_run ::
  "('m, 'i, 't, 'n) TaskLayer \<Rightarrow> PipelineStepConfig \<Rightarrow> ModelMetadata \<Rightarrow> OutputTensor list \<Rightarrow>
     (string + OutputTensor list) Call option" where
  "postprocess_run lib step neighbour step_inputs =
     (let said = ''postprocess step '' @ quoted (pc_name step);
          wanted = length (postprocess_inputs neighbour)
      in if length step_inputs \<noteq> wanted
         then Some (Returns (Inl (said @ '' expects '' @ to_string wanted @ '' inputs, got '' @ to_string (length step_inputs))))
         else
           let frame_size = last step_inputs
           in if ot_datatype frame_size \<noteq> ''INT64'' \<or> length (ot_bytes frame_size) < 2 * sizeof T_int64
              then Some (Returns (Inl (said @ '' requires FRAME_SIZE as INT64 with at least 2 elements, got datatype '' @
                     quoted (ot_datatype frame_size) @ '' with '' @ to_string (length (ot_bytes frame_size)) @ '' bytes'')))
              else (case (tensorScalarAt T_int64 (ot_bytes frame_size) 0, tensorScalarAt T_int64 (ot_bytes frame_size) 1) of
                 (Some h, Some w) \<Rightarrow>
                   let height = int_of_int64 h; width = int_of_int64 w
                   in if width \<le> 0 \<or> height \<le> 0
                      then Some (Returns (Inl (said @ '' received a non-positive FRAME_SIZE'')))
                      else (case convert_tensors (butlast step_inputs) of
                         Inl e \<Rightarrow> Some (Returns (Inl e))
                       | Inr tensors \<Rightarrow>
                           (case call_then (tl_createTaskInstance lib (pc_task_type step) (buildModelInfo lib neighbour)
                                    (buildTaskConfig step)) (\<lambda>task. tl_postprocess lib task (width, height) tensors) of
                              Returns results \<Rightarrow> map_option (\<lambda>e. Returns (Inr e)) (encodeEnvelope lib (pc_envelope step) results)
                            | Throws m \<Rightarrow> Some (Returns (Inl (said @ '' failed: '' @ m)))
                            | ThrowsOther \<Rightarrow> Some ThrowsOther))
               | _ \<Rightarrow> None))"

section \<open>makeBuiltinPipelineStep\<close>

text \<open>
  The step of a configuration. A constructor copies tensors and describes the model to the task layer, so it
  returns. What a run would do with a read outside its data, which its task layer can cause, is undefined
  behaviour: \<open>undefined_run\<close>.
\<close>

definition makeBuiltinPipelineStep ::
  "('m, 'i, 't, 'n) TaskLayer \<Rightarrow> (string + OutputTensor list) Call \<Rightarrow> PipelineStepConfig \<Rightarrow> ModelMetadata \<Rightarrow>
     (string + BuiltinStep) Call" where
  "makeBuiltinPipelineStep lib undefined_run step neighbour =
     (let ran = (\<lambda>r. case r of None \<Rightarrow> undefined_run | Some c \<Rightarrow> c)
      in Returns
        (case pc_kind step of
           Preprocess \<Rightarrow>
             if mm_inputs neighbour = []
             then Inl (''preprocess step '' @ quoted (pc_name step) @ '' has no following model step whose input it can produce'')
             else Inr \<lparr>bs_inputs = preprocess_inputs, bs_outputs = preprocess_outputs neighbour,
                       bs_run = ran \<circ> preprocess_run lib step neighbour\<rparr>
         | Postprocess \<Rightarrow>
             if mm_outputs neighbour = []
             then Inl (''postprocess step '' @ quoted (pc_name step) @ '' has no preceding model step whose outputs it can decode'')
             else Inr \<lparr>bs_inputs = postprocess_inputs neighbour, bs_outputs = pipelineEnvelopeOutputs (pc_envelope step),
                       bs_run = ran \<circ> postprocess_run lib step neighbour\<rparr>
         | ModelStep \<Rightarrow> Inl (''pipeline step '' @ quoted (pc_name step) @ '' is not a built-in step'')))"

end
