(* ===== verification/Task_Steps_Props.thy ===== *)
theory Task_Steps_Props
  imports Task_Steps Pipeline_Props
begin

text \<open>
  What the built-in steps do: an image that declares too many pixels never reaches the decoder, a detection
  envelope has its full length whatever was found and reads back to the detections, masks and polygons it was
  written from, and the steps produce the tensors they declare.
\<close>

named_theorems envelope \<open>what writing to an envelope does to its tensors\<close>

section \<open>Envelope writers\<close>

definition declared :: "OutputTensor list \<Rightarrow> (string \<times> string) list" where
  "declared e = map (\<lambda>t. (ot_name t, ot_datatype t)) e"

lemma length_put [envelope]: "length (put k T v e) = length e"
  by (simp add: put_def)

lemma bytes_put [envelope]:
  "k < length e \<Longrightarrow> ot_bytes (put k T v e ! j) = (if j = k then appendTensorScalar T (ot_bytes (e ! k)) v else ot_bytes (e ! j))"
  by (simp add: put_def nth_list_update)

lemma declared_update: "k < length e \<Longrightarrow> ot_name t = ot_name (e ! k) \<Longrightarrow> ot_datatype t = ot_datatype (e ! k) \<Longrightarrow>
    declared (e[k := t]) = declared e"
  by (simp add: declared_def map_update list_update_same_conv)

lemma declared_put [envelope]: "k < length e \<Longrightarrow> declared (put k T v e) = declared e"
  by (simp add: put_def declared_update)

lemma length_set_shape [envelope]: "length (set_shape k shape e) = length e"
  by (simp add: set_shape_def)

lemma bytes_set_shape [envelope]: "k < length e \<Longrightarrow> ot_bytes (set_shape k shape e ! j) = ot_bytes (e ! j)"
  by (simp add: set_shape_def nth_list_update)

lemma declared_set_shape [envelope]: "k < length e \<Longrightarrow> declared (set_shape k shape e) = declared e"
  by (simp add: set_shape_def declared_update)

text \<open>A buffer of scalars of one type.\<close>

abbreviation scalars :: "ElementType \<Rightarrow> nat list \<Rightarrow> byte list" where
  "scalars T vs \<equiv> foldl (appendTensorScalar T) [] vs"

definition box_scalars :: "'n DecodedDetection \<Rightarrow> nat list" where
  "box_scalars d = map (bits_of T_int32) [dd_x d, dd_y d, dd_width d, dd_height d]"

lemma box_scalars_nth: "k < 4 \<Longrightarrow> box_scalars d ! k = bits_of T_int32 ([dd_x d, dd_y d, dd_width d, dd_height d] ! k)"
  unfolding box_scalars_def by (rule nth_map) simp

lemma length_box_scalars [simp]: "length (box_scalars d) = 4"
  by (simp add: box_scalars_def)

definition row_of :: "'n DecodedDetection list \<Rightarrow> nat \<Rightarrow> 'n DecodedDetection" where
  "row_of ds i = (if i < length ds then ds ! i else no_detection)"

lemma put_detection_effect:
  assumes "4 \<le> length e" "ot_bytes (e ! 1) = scalars T_int32 bs" "ot_bytes (e ! 2) = scalars T_float ss"
    "ot_bytes (e ! 3) = scalars T_int32 cs"
  shows "length (put_detection d e) = length e" "declared (put_detection d e) = declared e"
    "ot_bytes (put_detection d e ! 1) = scalars T_int32 (bs @ box_scalars d)"
    "ot_bytes (put_detection d e ! 2) = scalars T_float (ss @ [dd_score d])"
    "ot_bytes (put_detection d e ! 3) = scalars T_int32 (cs @ [bits_of T_int32 (dd_class_id d)])"
    "j \<notin> {1, 2, 3} \<Longrightarrow> ot_bytes (put_detection d e ! j) = ot_bytes (e ! j)"
  using assms by (simp_all add: put_detection_def envelope box_scalars_def)

lemma encode_rows_fold:
  assumes "4 \<le> length e" "ot_bytes (e ! 1) = []" "ot_bytes (e ! 2) = []" "ot_bytes (e ! 3) = []"
  shows "length (fold (\<lambda>i. put_detection (row_of ds i)) [0..<n] e) = length e \<and>
    declared (fold (\<lambda>i. put_detection (row_of ds i)) [0..<n] e) = declared e \<and>
    ot_bytes (fold (\<lambda>i. put_detection (row_of ds i)) [0..<n] e ! 1) = scalars T_int32 (concat (map (box_scalars \<circ> row_of ds) [0..<n])) \<and>
    ot_bytes (fold (\<lambda>i. put_detection (row_of ds i)) [0..<n] e ! 2) = scalars T_float (map (dd_score \<circ> row_of ds) [0..<n]) \<and>
    ot_bytes (fold (\<lambda>i. put_detection (row_of ds i)) [0..<n] e ! 3) =
      scalars T_int32 (map (bits_of T_int32 \<circ> dd_class_id \<circ> row_of ds) [0..<n]) \<and>
    (\<forall>j. j \<notin> {1, 2, 3} \<longrightarrow> ot_bytes (fold (\<lambda>i. put_detection (row_of ds i)) [0..<n] e ! j) = ot_bytes (e ! j))"
proof (induction n)
  case 0
  then show ?case using assms by simp
next
  case (Suc n)
  let ?e = "fold (\<lambda>i. put_detection (row_of ds i)) [0..<n] e"
  have "4 \<le> length ?e" using Suc assms(1) by simp
  note step = put_detection_effect [OF this, where d = "row_of ds n"]
  from Suc.IH step show ?case by simp
qed

lemma encode_rows_effect:
  fixes ds :: "'n DecodedDetection list" and kind :: PipelineEnvelope
  defines "e \<equiv> encode_rows ds (map makeTensor (pipelineEnvelopeOutputs kind))"
  shows "length e = length (pipelineEnvelopeOutputs kind)"
    "declared e = map (\<lambda>m. (tm_name m, tm_datatype m)) (pipelineEnvelopeOutputs kind)"
    "ot_bytes (e ! 0) = scalars T_int32 [bits_of T_int32 (int (length ds))]"
    "ot_bytes (e ! 1) = scalars T_int32 (concat (map (box_scalars \<circ> row_of ds) [0..<100]))"
    "ot_bytes (e ! 2) = scalars T_float (map (dd_score \<circ> row_of ds) [0..<100])"
    "ot_bytes (e ! 3) = scalars T_int32 (map (bits_of T_int32 \<circ> dd_class_id \<circ> row_of ds) [0..<100])"
    "\<And>k. 4 \<le> k \<Longrightarrow> k < length e \<Longrightarrow> ot_bytes (e ! k) = []"
proof -
  define e0 where "e0 = map makeTensor (pipelineEnvelopeOutputs kind)"
  let ?e = "put 0 T_int32 (bits_of T_int32 (int (length ds))) e0"
  have len: "4 \<le> length e0" by (simp add: e0_def pipelineEnvelopeOutputs_def Let_def)
  have same: "length e0 = length (pipelineEnvelopeOutputs kind)" by (simp add: e0_def)
  have empty: "ot_bytes (e0 ! k) = []" if "k < length e0" for k
    using that by (simp add: makeTensor_def e0_def)
  have e: "e = fold (\<lambda>i. put_detection (row_of ds i)) [0..<100] ?e"
    by (simp add: e_def e0_def encode_rows_def row_of_def kPipelineMaxDetections_def)
  have "0 < length e0" using len by linarith
  then have "4 \<le> length ?e" "ot_bytes (?e ! 1) = []" "ot_bytes (?e ! 2) = []" "ot_bytes (?e ! 3) = []"
    using len empty by (simp_all add: length_put bytes_put)
  note f = encode_rows_fold [OF this, of ds 100, folded e]
  have ne: "0 < length e0" using len by linarith
  show "length e = length (pipelineEnvelopeOutputs kind)" using f same by (simp add: envelope)
  have "declared ?e = declared e0" by (rule declared_put) (rule ne)
  with f show "declared e = map (\<lambda>m. (tm_name m, tm_datatype m)) (pipelineEnvelopeOutputs kind)"
    by (simp add: declared_def makeTensor_def e0_def)
  show "ot_bytes (e ! 0) = scalars T_int32 [bits_of T_int32 (int (length ds))]"
    using f bytes_put [OF ne, of T_int32 _ 0] empty [OF ne] by simp
  show "ot_bytes (e ! 1) = scalars T_int32 (concat (map (box_scalars \<circ> row_of ds) [0..<100]))"
    "ot_bytes (e ! 2) = scalars T_float (map (dd_score \<circ> row_of ds) [0..<100])"
    "ot_bytes (e ! 3) = scalars T_int32 (map (bits_of T_int32 \<circ> dd_class_id \<circ> row_of ds) [0..<100])"
    using f by blast+
  show "ot_bytes (e ! k) = []" if "4 \<le> k" "k < length e" for k
  proof -
    have "ot_bytes (e ! k) = ot_bytes (?e ! k)" using f that(1) by simp
    also have "\<dots> = ot_bytes (e0 ! k)" using bytes_put [OF ne] that(1) by simp
    also have "\<dots> = []" using that(2) f by (intro empty) (simp add: envelope)
    finally show ?thesis .
  qed
qed

section \<open>Reading a buffer back\<close>

lemma length_scalars: "length (scalars T vs) = length vs * sizeof T"
  by (induction vs rule: rev_induct) simp_all

lemma read_scalars: "i < length vs \<Longrightarrow> tensorScalarAt T (scalars T vs) i = Some (vs ! i mod 256 ^ sizeof T)"
proof (induction vs rule: rev_induct)
  case (snoc v vs)
  show ?case
  proof (cases "i = length vs")
    case True
    then show ?thesis
      by (simp add: tensorScalarAt_def length_scalars appendTensorScalar_def [of T "scalars T vs"] scalar_value_bytes)
  next
    case False
    with snoc.prems have i: "i < length vs" by simp
    then have "(i + 1) * sizeof T \<le> length vs * sizeof T" by (intro mult_le_mono1) simp
    then have "tensorScalarAt T (scalars T (vs @ [v])) i = tensorScalarAt T (scalars T vs) i"
      by (simp add: tensorScalarAt_append_old length_scalars)
    with snoc.IH [OF i] i show ?thesis by (simp add: nth_append)
  qed
qed simp

lemma sizeof_power: "(256 :: nat) ^ sizeof T = 2 ^ (8 * sizeof T)"
  by (simp add: power_mult)

lemma bits_of_less [simp]: "bits_of T i < 256 ^ sizeof T"
  unfolding bits_of_def sizeof_power by (simp add: nat_less_iff)

lemma read_bits: "i < length vs \<Longrightarrow> tensorScalarAt T (scalars T (map (bits_of T) vs)) i = Some (bits_of T (vs ! i))"
  by (simp add: read_scalars)

lemma bits_of_nonneg: "0 \<le> i \<Longrightarrow> i < 2 ^ (8 * sizeof T) \<Longrightarrow> bits_of T i = nat i"
  by (simp add: bits_of_def)

lemma int_of_bits_of:
  assumes "- (2 ^ (8 * sizeof T - 1)) \<le> i" "i < 2 ^ (8 * sizeof T - 1)"
  shows "int_of_bits T (bits_of T i) = i"
proof -
  have p: "(2 :: int) ^ (8 * sizeof T) = 2 * 2 ^ (8 * sizeof T - 1)" by (cases T) simp_all
  have n: "(2 :: nat) ^ (8 * sizeof T) = 2 * 2 ^ (8 * sizeof T - 1)" by (cases T) simp_all
  define m :: int where "m = 2 ^ (8 * sizeof T - 1)"
  have m: "nat m = 2 ^ (8 * sizeof T - 1)" by (simp add: m_def nat_power_eq)
  have i: "- m \<le> i" "i < m" using assms by (simp_all add: m_def)
  show ?thesis
  proof (cases "0 \<le> i")
    case True
    then have "i mod (2 * m) = i" using i by simp
    then show ?thesis using True i m by (auto simp: int_of_bits_def bits_of_def p n m_def [symmetric])
  next
    case False
    have "i mod (2 * m) = (i + 2 * m) mod (2 * m)" by simp
    also have "\<dots> = i + 2 * m" using False i by (intro mod_pos_pos_trivial) auto
    finally have "i mod (2 * m) = i + 2 * m" .
    then show ?thesis using False i m by (auto simp: int_of_bits_def bits_of_def p n m_def [symmetric])
  qed
qed

section \<open>Masks\<close>

text \<open>The offsets of pieces laid out one after the other.\<close>

definition offsets :: "nat list \<Rightarrow> int list" where
  "offsets ns = map (\<lambda>i. int (sum_list (take i ns))) [0..<Suc (length ns)]"

lemma offsets_snoc: "offsets (ns @ [n]) = offsets ns @ [int (sum_list ns + n)]"
  by (simp add: offsets_def)

lemma length_offsets [simp]: "length (offsets ns) = Suc (length ns)"
  by (simp add: offsets_def)

lemma offsets_nth: "i \<le> length ns \<Longrightarrow> offsets ns ! i = int (sum_list (take i ns))"
  by (simp add: offsets_def del: upt_Suc)

lemma sum_list_take_le: "sum_list (take i ns) \<le> sum_list (ns :: nat list)"
  by (metis append_take_drop_id le_add1 sum_list_append)

text \<open>Reading an offset back from a buffer of them.\<close>

lemma read_offset:
  assumes "i \<le> length ns" "sum_list ns < 2 ^ 63"
  shows "tensorScalarAt T_int64 (scalars T_int64 (map (bits_of T_int64) (offsets ns))) i = Some (sum_list (take i ns))"
proof -
  have "sum_list (take i ns) < 2 ^ 63" using sum_list_take_le [of i ns] assms(2) by linarith
  then have "bits_of T_int64 (int (sum_list (take i ns))) = sum_list (take i ns)"
    by (subst bits_of_nonneg) simp_all
  then show ?thesis using assms(1) by (subst read_bits) (simp_all add: offsets_nth)
qed

lemma encode_mask_rows_effect:
  assumes "6 \<le> length e" "ot_bytes (e ! 4) = scalars T_int64 (map (bits_of T_int64) (offsets (map length ws)))"
    "ot_bytes (e ! 5) = concat ws"
  shows "length (encode_mask_rows ms (int (sum_list (map length ws))) e) = length e \<and>
    declared (encode_mask_rows ms (int (sum_list (map length ws))) e) = declared e \<and>
    ot_bytes (encode_mask_rows ms (int (sum_list (map length ws))) e ! 4) =
      scalars T_int64 (map (bits_of T_int64) (offsets (map length (ws @ ms)))) \<and>
    ot_bytes (encode_mask_rows ms (int (sum_list (map length ws))) e ! 5) = concat (ws @ ms) \<and>
    (\<forall>j. j \<notin> {4, 5} \<longrightarrow> ot_bytes (encode_mask_rows ms (int (sum_list (map length ws))) e ! j) = ot_bytes (e ! j))"
  using assms
proof (induction ms arbitrary: ws e)
  case (Cons m ms)
  define next_offset where "next_offset = int (sum_list (map length (ws @ [m])))"
  define grown where "grown = e[5 := (e ! 5)\<lparr>ot_bytes := ot_bytes (e ! 5) @ m\<rparr>]"
  define e' where "e' = put 4 T_int64 (bits_of T_int64 next_offset) grown"
  have five: "5 < length e" using Cons.prems(1) by simp
  have "declared grown = declared e" using five by (simp add: grown_def declared_update)
  then have keep: "length e' = length e" "declared e' = declared e"
    using five by (simp_all add: e'_def grown_def envelope)
  have b4: "ot_bytes (e' ! 4) = scalars T_int64 (map (bits_of T_int64) (offsets (map length (ws @ [m]))))"
    using Cons.prems five by (simp add: e'_def grown_def envelope offsets_snoc next_offset_def)
  have b5: "ot_bytes (e' ! 5) = concat (ws @ [m])"
    using Cons.prems five by (simp add: e'_def grown_def envelope)
  have other: "ot_bytes (e' ! j) = ot_bytes (e ! j)" if "j \<notin> {4, 5}" for j
    using that five by (simp add: e'_def grown_def envelope)
  have "6 \<le> length e'" using keep Cons.prems(1) by simp
  note IH = Cons.IH [OF this b4 b5]
  have unfold: "encode_mask_rows (m # ms) (int (sum_list (map length ws))) e =
      encode_mask_rows ms (int (sum_list (map length (ws @ [m])))) e'"
    by (simp add: e'_def grown_def next_offset_def Let_def)
  show ?case unfolding unfold using IH keep other by simp
qed simp

text \<open>The mask a client reads for a row: the bytes between two neighbouring offsets.\<close>

definition mask_of :: "OutputTensor list \<Rightarrow> nat \<Rightarrow> byte list option" where
  "mask_of e i =
     (case (tensorScalarAt T_int64 (ot_bytes (e ! 4)) i, tensorScalarAt T_int64 (ot_bytes (e ! 4)) (i + 1)) of
        (Some a, Some b) \<Rightarrow> if a \<le> b \<and> b \<le> length (ot_bytes (e ! 5)) then Some (take (b - a) (drop a (ot_bytes (e ! 5)))) else None
      | _ \<Rightarrow> None)"

lemma those_Some_iff: "those xs = Some ys \<longleftrightarrow> xs = map Some ys"
  by (induction xs arbitrary: ys) (auto split: option.splits simp: Cons_eq_map_conv)

lemma encodeMasks_effect:
  assumes "encodeMasks lib ds e = Some e'" "6 \<le> length e" "ot_bytes (e ! 4) = []" "ot_bytes (e ! 5) = []"
  obtains ms where "map (row_mask lib ds) [0..<100] = map Some ms" "declared e' = declared e" "length e' = length e"
    "ot_bytes (e' ! 4) = scalars T_int64 (map (bits_of T_int64) (offsets (map length ms)))"
    "ot_bytes (e' ! 5) = concat ms" "\<forall>j. j \<notin> {4, 5} \<longrightarrow> ot_bytes (e' ! j) = ot_bytes (e ! j)"
proof -
  from assms(1) obtain ms where ms: "map (row_mask lib ds) [0..<100] = map Some ms"
    and e': "e' = (let written = encode_mask_rows ms 0 (put 4 T_int64 (bits_of T_int64 0) e)
         in set_shape 5 [int (length (ot_bytes (written ! 5)))] written)"
    by (auto simp: encodeMasks_def kPipelineMaxDetections_def those_Some_iff)
  let ?p = "put 4 T_int64 (bits_of T_int64 0) e"
  have p: "6 \<le> length ?p" "ot_bytes (?p ! 4) = scalars T_int64 (map (bits_of T_int64) (offsets (map length [])))"
    "ot_bytes (?p ! 5) = concat []" "declared ?p = declared e" "length ?p = length e"
    using assms(2-4) by (simp_all add: envelope offsets_def)
  have other: "ot_bytes (?p ! j) = ot_bytes (e ! j)" if "j \<noteq> 4" for j
    using assms(2) that by (simp add: envelope)
  note w = encode_mask_rows_effect [OF p(1-3), of ms, simplified]
  have "5 < length (encode_mask_rows ms 0 ?p)" using w p(1) by simp
  then have "declared e' = declared e" "length e' = length e"
    "ot_bytes (e' ! j) = ot_bytes (encode_mask_rows ms 0 ?p ! j)" for j
    using w p(4,5) by (simp_all add: e' Let_def envelope)
  with w other show thesis by (intro that [OF ms]) simp_all
qed

section \<open>Polygons\<close>

definition coordinates :: "('m, 'i, 't, 'n) TaskLayer \<Rightarrow> ('n \<times> 'n) list \<Rightarrow> int list" where
  "coordinates lib ring = concat (map (\<lambda>p. [tl_int32 lib (fst p), tl_int32 lib (snd p)]) ring)"

lemma put_points:
  assumes "6 < length e" "ot_bytes (e ! 6) = scalars T_int32 (map (bits_of T_int32) ps)"
  shows "length (fold (\<lambda>p e. put 6 T_int32 (bits_of T_int32 (tl_int32 lib (snd p)))
            (put 6 T_int32 (bits_of T_int32 (tl_int32 lib (fst p))) e)) ring e) = length e \<and>
    declared (fold (\<lambda>p e. put 6 T_int32 (bits_of T_int32 (tl_int32 lib (snd p)))
            (put 6 T_int32 (bits_of T_int32 (tl_int32 lib (fst p))) e)) ring e) = declared e \<and>
    ot_bytes (fold (\<lambda>p e. put 6 T_int32 (bits_of T_int32 (tl_int32 lib (snd p)))
            (put 6 T_int32 (bits_of T_int32 (tl_int32 lib (fst p))) e)) ring e ! 6) =
      scalars T_int32 (map (bits_of T_int32) (ps @ coordinates lib ring)) \<and>
    (\<forall>j. j \<noteq> 6 \<longrightarrow> ot_bytes (fold (\<lambda>p e. put 6 T_int32 (bits_of T_int32 (tl_int32 lib (snd p)))
            (put 6 T_int32 (bits_of T_int32 (tl_int32 lib (fst p))) e)) ring e ! j) = ot_bytes (e ! j))"
  using assms
proof (induction ring arbitrary: e ps)
  case (Cons p ring)
  let ?e = "put 6 T_int32 (bits_of T_int32 (tl_int32 lib (snd p))) (put 6 T_int32 (bits_of T_int32 (tl_int32 lib (fst p))) e)"
  have e: "length ?e = length e" "declared ?e = declared e" "\<forall>j. j \<noteq> 6 \<longrightarrow> ot_bytes (?e ! j) = ot_bytes (e ! j)"
    "ot_bytes (?e ! 6) = scalars T_int32 (map (bits_of T_int32) (ps @ [tl_int32 lib (fst p), tl_int32 lib (snd p)]))"
    using Cons.prems by (simp_all add: envelope)
  have "6 < length ?e" using e(1) Cons.prems(1) by simp
  note IH = Cons.IH [OF this e(4)]
  show ?case unfolding fold_Cons o_apply using IH e(1-3) by (simp add: coordinates_def)
qed (simp add: coordinates_def)

text \<open>What has been written: the number of rings of each row that is complete, and the rings so far.\<close>

definition wrote :: "('m, 'i, 't, 'n) TaskLayer \<Rightarrow> OutputTensor list \<Rightarrow> nat list \<Rightarrow> ('n \<times> 'n) list list \<Rightarrow> PolygonWriter \<Rightarrow> bool" where
  "wrote lib e counts rings s \<longleftrightarrow>
     length (pw_envelope s) = length e \<and> 7 \<le> length e \<and> declared (pw_envelope s) = declared e \<and>
     ot_bytes (pw_envelope s ! 4) = scalars T_int64 (map (bits_of T_int64) (offsets counts)) \<and>
     ot_bytes (pw_envelope s ! 5) = scalars T_int64 (map (bits_of T_int64) (offsets (map length rings))) \<and>
     ot_bytes (pw_envelope s ! 6) = scalars T_int32 (map (bits_of T_int32) (concat (map (coordinates lib) rings))) \<and>
     pw_point_count s = int (sum_list (map length rings)) \<and> pw_ring_count s = int (length rings) \<and>
     (\<forall>j. j \<notin> {4, 5, 6} \<longrightarrow> ot_bytes (pw_envelope s ! j) = ot_bytes (e ! j))"

lemma wrote_ring:
  assumes "wrote lib e counts rings s"
  shows "wrote lib e counts (rings @ filter (\<lambda>r. 3 \<le> length r) [ring]) (appendRing lib ring s)"
proof (cases "length ring < 3")
  case True
  then show ?thesis using assms by (simp add: appendRing_def)
next
  case False
  let ?p = "fold (\<lambda>p e. put 6 T_int32 (bits_of T_int32 (tl_int32 lib (snd p)))
      (put 6 T_int32 (bits_of T_int32 (tl_int32 lib (fst p))) e)) ring (pw_envelope s)"
  have "6 < length (pw_envelope s)" using assms by (auto simp: wrote_def)
  then have p: "length ?p = length (pw_envelope s)" "declared ?p = declared (pw_envelope s)"
    "ot_bytes (?p ! 6) = scalars T_int32 (map (bits_of T_int32) (concat (map (coordinates lib) rings) @ coordinates lib ring))"
    "\<forall>j. j \<noteq> 6 \<longrightarrow> ot_bytes (?p ! j) = ot_bytes (pw_envelope s ! j)"
    using put_points [of "pw_envelope s" "concat (map (coordinates lib) rings)" lib ring] assms
    unfolding wrote_def by blast+
  have "5 < length ?p" using p(1) \<open>6 < length (pw_envelope s)\<close> by simp
  with False p assms show ?thesis
    by (simp add: appendRing_def wrote_def Let_def envelope offsets_snoc)
qed

lemma wrote_rings:
  "wrote lib e counts rings s \<Longrightarrow> wrote lib e counts (rings @ filter (\<lambda>r. 3 \<le> length r) rs) (fold (appendRing lib) rs s)"
proof (induction rs arbitrary: rings s)
  case (Cons r rs)
  have "wrote lib e counts ((rings @ filter (\<lambda>r. 3 \<le> length r) [r]) @ filter (\<lambda>r. 3 \<le> length r) rs) (fold (appendRing lib) rs (appendRing lib r s))"
    by (rule Cons.IH [OF wrote_ring [OF Cons.prems]])
  then show ?case by (simp split: if_splits)
qed simp

lemma wrote_row:
  assumes "wrote lib e counts rings s" "sum_list counts = length rings"
  shows "wrote lib e (counts @ [length (filter (\<lambda>r. 3 \<le> length r) rs)]) (rings @ filter (\<lambda>r. 3 \<le> length r) rs)
    (encode_polygon_row lib rs s)"
  using wrote_rings [OF assms(1), of rs] assms(2)
  by (simp add: encode_polygon_row_def wrote_def Let_def envelope offsets_snoc)

definition kept_rings :: "'n DecodedDetection list \<Rightarrow> nat \<Rightarrow> ('n \<times> 'n) list list" where
  "kept_rings ds i = filter (\<lambda>r. 3 \<le> length r) (row_rings ds i)"

lemma wrote_rows:
  assumes "wrote lib e [] [] s"
  shows "wrote lib e (map (length \<circ> kept_rings ds) [0..<n]) (concat (map (kept_rings ds) [0..<n]))
    (fold (\<lambda>i. encode_polygon_row lib (row_rings ds i)) [0..<n] s)"
proof (induction n)
  case (Suc n)
  have "sum_list (map (length \<circ> kept_rings ds) [0..<n]) = length (concat (map (kept_rings ds) [0..<n]))"
    by (simp add: length_concat o_def)
  from wrote_row [OF Suc this, of "row_rings ds n", folded kept_rings_def] show ?case by (simp add: o_def)
qed (simp add: assms)

lemma encodePolygons_effect:
  fixes ds :: "'n DecodedDetection list" and lib :: "('m, 'i, 't, 'n) TaskLayer"
  assumes "7 \<le> length e" "ot_bytes (e ! 4) = []" "ot_bytes (e ! 5) = []" "ot_bytes (e ! 6) = []"
  defines "e' \<equiv> encodePolygons lib ds e" and "rings \<equiv> concat (map (kept_rings ds) [0..<100])"
  shows "length e' = length e" "declared e' = declared e"
    "ot_bytes (e' ! 4) = scalars T_int64 (map (bits_of T_int64) (offsets (map (length \<circ> kept_rings ds) [0..<100])))"
    "ot_bytes (e' ! 5) = scalars T_int64 (map (bits_of T_int64) (offsets (map length rings)))"
    "ot_bytes (e' ! 6) = scalars T_int32 (map (bits_of T_int32) (concat (map (coordinates lib) rings)))"
    "\<forall>j. j \<notin> {4, 5, 6} \<longrightarrow> ot_bytes (e' ! j) = ot_bytes (e ! j)"
proof -
  define start where "start = \<lparr>pw_envelope = put 5 T_int64 (bits_of T_int64 0) (put 4 T_int64 (bits_of T_int64 0) e),
    pw_point_count = 0, pw_ring_count = 0\<rparr>"
  have "wrote lib e [] [] start"
    using assms(1-4) by (simp add: start_def wrote_def envelope offsets_def)
  note w = wrote_rows [OF this, of ds 100, folded rings_def]
  define s where "s = fold (\<lambda>i. encode_polygon_row lib (row_rings ds i)) [0..<100] start"
  have e': "e' = set_shape 6 [pw_point_count s, 2] (set_shape 5 [pw_ring_count s + 1] (pw_envelope s))"
    by (simp add: e'_def encodePolygons_def start_def s_def Let_def kPipelineMaxDetections_def)
  have l: "length (pw_envelope s) = length e" "6 < length e" "5 < length e" using w assms(1) by (simp_all add: s_def wrote_def)
  then have keep: "length e' = length e" "declared e' = declared (pw_envelope s)" "\<And>j. ot_bytes (e' ! j) = ot_bytes (pw_envelope s ! j)"
    by (simp_all add: e' envelope)
  note w' = w [folded s_def, unfolded wrote_def]
  show "length e' = length e" by (rule keep(1))
  show "declared e' = declared e" using keep(2) w' by simp
  show "ot_bytes (e' ! 4) = scalars T_int64 (map (bits_of T_int64) (offsets (map (length \<circ> kept_rings ds) [0..<100])))"
    "ot_bytes (e' ! 5) = scalars T_int64 (map (bits_of T_int64) (offsets (map length rings)))"
    "ot_bytes (e' ! 6) = scalars T_int32 (map (bits_of T_int32) (concat (map (coordinates lib) rings)))"
    "\<forall>j. j \<notin> {4, 5, 6} \<longrightarrow> ot_bytes (e' ! j) = ot_bytes (e ! j)"
    using w' unfolding keep(3) by blast+
qed

section \<open>The whole envelope\<close>

lemma encodeEnvelope_rows:
  assumes "encodeEnvelope lib kind results = Some e"
  defines "e0 \<equiv> encode_rows (collect_detections lib results) (map makeTensor (pipelineEnvelopeOutputs kind))"
  shows "declared e = declared e0 \<and> length e = length e0 \<and> (\<forall>j < 4. ot_bytes (e ! j) = ot_bytes (e0 ! j))"
proof (cases kind)
  case Detection
  then show ?thesis using assms(1) by (simp add: encodeEnvelope_def Let_def e0_def)
next
  case Mask
  then have len: "6 \<le> length e0"
    unfolding e0_def encode_rows_effect(1) by (simp add: pipelineEnvelopeOutputs_def Let_def)
  then have "ot_bytes (e0 ! 4) = []" "ot_bytes (e0 ! 5) = []"
    using encode_rows_effect(7) [where k = 4 and ds = "collect_detections lib results" and kind = kind]
      encode_rows_effect(7) [where k = 5 and ds = "collect_detections lib results" and kind = kind] by (simp_all add: e0_def)
  moreover have "encodeMasks lib (collect_detections lib results) e0 = Some e"
    using assms(1) Mask by (simp add: encodeEnvelope_def Let_def e0_def)
  ultimately obtain "declared e = declared e0" "length e = length e0" "\<forall>j. j \<notin> {4, 5} \<longrightarrow> ot_bytes (e ! j) = ot_bytes (e0 ! j)"
    using len by (metis encodeMasks_effect)
  then show ?thesis by auto
next
  case Polygon
  then have len: "7 \<le> length e0"
    unfolding e0_def encode_rows_effect(1) by (simp add: pipelineEnvelopeOutputs_def Let_def)
  then have nil: "ot_bytes (e0 ! 4) = []" "ot_bytes (e0 ! 5) = []" "ot_bytes (e0 ! 6) = []"
    using encode_rows_effect(7) [where ds = "collect_detections lib results" and kind = kind] by (simp_all add: e0_def)
  have "e = encodePolygons lib (collect_detections lib results) e0"
    using assms(1) Polygon by (simp add: encodeEnvelope_def Let_def e0_def)
  with encodePolygons_effect [OF len nil, of lib "collect_detections lib results"] show ?thesis by auto
qed

lemma mask_envelope:
  assumes "encodeEnvelope lib Mask results = Some e"
  obtains ms where "map (row_mask lib (collect_detections lib results)) [0..<100] = map Some ms"
    "ot_bytes (e ! 4) = scalars T_int64 (map (bits_of T_int64) (offsets (map length ms)))" "ot_bytes (e ! 5) = concat ms"
proof -
  let ?ds = "collect_detections lib results"
  define e0 where "e0 = encode_rows ?ds (map makeTensor (pipelineEnvelopeOutputs Mask))"
  have len: "6 \<le> length e0"
    unfolding e0_def encode_rows_effect(1) by (simp add: pipelineEnvelopeOutputs_def Let_def)
  then have "ot_bytes (e0 ! 4) = []" "ot_bytes (e0 ! 5) = []"
    using encode_rows_effect(7) [where ds = ?ds and kind = Mask] by (simp_all add: e0_def)
  moreover have "encodeMasks lib ?ds e0 = Some e" using assms by (simp add: encodeEnvelope_def Let_def e0_def)
  ultimately show thesis using len that by (metis encodeMasks_effect)
qed

lemma polygon_envelope:
  assumes "encodeEnvelope lib Polygon results = Some e"
  defines "kept \<equiv> kept_rings (collect_detections lib results)"
  shows "ot_bytes (e ! 4) = scalars T_int64 (map (bits_of T_int64) (offsets (map (length \<circ> kept) [0..<100])))"
    "ot_bytes (e ! 5) = scalars T_int64 (map (bits_of T_int64) (offsets (map length (concat (map kept [0..<100])))))"
    "ot_bytes (e ! 6) = scalars T_int32 (map (bits_of T_int32) (concat (map (coordinates lib) (concat (map kept [0..<100])))))"
proof -
  let ?ds = "collect_detections lib results"
  define e0 where "e0 = encode_rows ?ds (map makeTensor (pipelineEnvelopeOutputs Polygon))"
  have len: "7 \<le> length e0"
    unfolding e0_def encode_rows_effect(1) by (simp add: pipelineEnvelopeOutputs_def Let_def)
  then have nil: "ot_bytes (e0 ! 4) = []" "ot_bytes (e0 ! 5) = []" "ot_bytes (e0 ! 6) = []"
    using encode_rows_effect(7) [where ds = ?ds and kind = Polygon] by (simp_all add: e0_def)
  have "e = encodePolygons lib ?ds e0" using assms(1) by (simp add: encodeEnvelope_def Let_def e0_def)
  with encodePolygons_effect(3-5) [OF len nil, of lib ?ds]
  show "ot_bytes (e ! 4) = scalars T_int64 (map (bits_of T_int64) (offsets (map (length \<circ> kept) [0..<100])))"
    "ot_bytes (e ! 5) = scalars T_int64 (map (bits_of T_int64) (offsets (map length (concat (map kept [0..<100])))))"
    "ot_bytes (e ! 6) = scalars T_int32 (map (bits_of T_int32) (concat (map (coordinates lib) (concat (map kept [0..<100])))))"
    by (simp_all add: kept_def)
qed

lemma nth_concat_fixed:
  assumes "\<And>i. i < n \<Longrightarrow> length (f i) = w" "i < n" "k < w"
  shows "concat (map f [0..<n]) ! (w * i + k) = f i ! k \<and> w * i + k < length (concat (map f [0..<n]))"
proof -
  have "map f [0..<n] = map f ([0..<i] @ i # [Suc i..<n])"
    using assms(2) by (metis le_add_same_cancel1 less_imp_add_positive less_imp_le_nat upt_add_eq_append upt_conv_Cons zero_le)
  then have split: "concat (map f [0..<n]) = concat (map f [0..<i]) @ f i @ concat (map f [Suc i..<n])" by simp
  have "length (concat (map f [0..<j])) = w * j" if "j \<le> n" for j
    using that assms(1) by (induction j) simp_all
  then have "length (concat (map f [0..<i])) = w * i" using assms(2) by simp
  with assms show ?thesis unfolding split by (simp add: nth_append)
qed

lemma length_boxes: "length (concat (map (box_scalars \<circ> row_of ds) [0..<n])) = 4 * n"
  by (induction n) (simp_all add: box_scalars_def)

lemma length_collect: "length (collect_detections lib results) \<le> 100"
  by (simp add: collect_detections_def pipelineTopScoreIndices_def kPipelineMaxDetections_def Let_def)

section \<open>Properties\<close>

text \<open>
  (C26) A detection envelope has the tensors its kind declares and its full length whatever was found: one
  hundred rows, of which the first ones read back to the box, score and class of the detections that were kept,
  in their order, and the others to zero, and their number in NUM_DETECTIONS.
\<close>

theorem envelope_reads_back:
  assumes "encodeEnvelope lib kind results = Some e"
  shows "map (\<lambda>t. (ot_name t, ot_datatype t)) e = map (\<lambda>m. (tm_name m, tm_datatype m)) (pipelineEnvelopeOutputs kind) \<and>
    tensorScalarAt T_int32 (ot_bytes (e ! 0)) 0 = Some (length (collect_detections lib results)) \<and>
    length (ot_bytes (e ! 1)) = 1600 \<and> length (ot_bytes (e ! 2)) = 400 \<and> length (ot_bytes (e ! 3)) = 400 \<and>
    (\<forall>i < 100. let row = (if i < length (collect_detections lib results) then collect_detections lib results ! i else no_detection) in
       (\<forall>k < 4. tensorScalarAt T_int32 (ot_bytes (e ! 1)) (4 * i + k) =
          Some (bits_of T_int32 ([dd_x row, dd_y row, dd_width row, dd_height row] ! k))) \<and>
       tensorScalarAt T_float (ot_bytes (e ! 2)) i = Some (dd_score row mod 2 ^ 32) \<and>
       tensorScalarAt T_int32 (ot_bytes (e ! 3)) i = Some (bits_of T_int32 (dd_class_id row)))"
proof -
  let ?ds = "collect_detections lib results"
  note r = encodeEnvelope_rows [OF assms]
  note f = encode_rows_effect [where ds = ?ds and kind = kind]
  have b: "ot_bytes (e ! 0) = scalars T_int32 [bits_of T_int32 (int (length ?ds))]"
    "ot_bytes (e ! 1) = scalars T_int32 (concat (map (box_scalars \<circ> row_of ?ds) [0..<100]))"
    "ot_bytes (e ! 2) = scalars T_float (map (dd_score \<circ> row_of ?ds) [0..<100])"
    "ot_bytes (e ! 3) = scalars T_int32 (map (bits_of T_int32 \<circ> dd_class_id \<circ> row_of ?ds) [0..<100])"
    using r f(3-6) by simp_all
  have names: "declared e = map (\<lambda>m. (tm_name m, tm_datatype m)) (pipelineEnvelopeOutputs kind)" using r f(2) by simp
  have "bits_of T_int32 (int (length ?ds)) = length ?ds"
    using length_collect [of lib results] by (subst bits_of_nonneg) simp_all
  then have count: "tensorScalarAt T_int32 (ot_bytes (e ! 0)) 0 = Some (length ?ds)"
    unfolding b(1) using length_collect [of lib results] by (subst read_scalars) simp_all
  have box: "tensorScalarAt T_int32 (ot_bytes (e ! 1)) (4 * i + k) =
      Some (bits_of T_int32 ([dd_x (row_of ?ds i), dd_y (row_of ?ds i), dd_width (row_of ?ds i), dd_height (row_of ?ds i)] ! k))"
    if "i < 100" "k < 4" for i k
    using nth_concat_fixed [of 100 "box_scalars \<circ> row_of ?ds" 4 i k] that bits_of_less [of T_int32] unfolding b(2)
    by (subst read_scalars) (simp_all add: box_scalars_nth)
  have score: "tensorScalarAt T_float (ot_bytes (e ! 2)) i = Some (dd_score (row_of ?ds i) mod 2 ^ 32)" if "i < 100" for i
    using that unfolding b(3) by (subst read_scalars) simp_all
  have cls: "tensorScalarAt T_int32 (ot_bytes (e ! 3)) i = Some (bits_of T_int32 (dd_class_id (row_of ?ds i)))" if "i < 100" for i
    using that bits_of_less [of T_int32] unfolding b(4) by (subst read_scalars) simp_all
  have lengths: "length (ot_bytes (e ! 1)) = 1600" "length (ot_bytes (e ! 2)) = 400" "length (ot_bytes (e ! 3)) = 400"
    unfolding b(2-4) length_scalars length_boxes by simp_all
  show ?thesis using names count lengths box score cls
    by (simp add: declared_def row_of_def [symmetric] Let_def)
qed

text \<open>A task layer for the witnesses: it decodes every image and finds what it is told to find.\<close>

definition demo_layer :: "32 word TaskResult list \<Rightarrow> (unit, unit, unit, 32 word) TaskLayer" where
  "demo_layer found = \<lparr>tl_new_info = (), tl_addInput = (\<lambda>_ _ _ _. ()), tl_addOutput = (\<lambda>_ _ _ _. ()), tl_no_formats = (\<lambda>_. True),
     tl_input_shapes = (\<lambda>_. []), tl_set_first_format = (\<lambda>_ _. ()), tl_no_types = (\<lambda>_. True), tl_set_first_float = (\<lambda>_. ()),
     tl_decodeImage = (\<lambda>_ _. Returns ()), tl_height = (\<lambda>_. 480), tl_width = (\<lambda>_. 640),
     tl_createTaskInstance = (\<lambda>_ _ _. Returns ()), tl_preprocess = (\<lambda>_ _. Returns [[1, 2, 3, 4]]),
     tl_postprocess = (\<lambda>_ _ _. Returns found), tl_int32 = sint\<rparr>"

definition demo_segmentation :: "32 word InstanceSegmentation" where
  "demo_segmentation = \<lparr>is_bbox = \<lparr>rc_x = 1, rc_y = 1, rc_width = 2, rc_height = 1\<rparr>, is_class_confidence = 1056964608,
     is_class_id = 7, is_mask_data = [], is_mask = \<lparr>mi_empty = False, mi_data = Some [0, 1, 2, 3, 4, 5], mi_rows = 2, mi_cols = 3,
     mi_uint8 = True\<rparr>, is_polygons = [\<lparr>pg_exterior = [(0, 0), (2, 0), (2, 1)], pg_holes = [[(1, 1)]]\<rparr>]\<rparr>"

lemma demo_collect:
  "collect_detections (demo_layer [Segmentation demo_segmentation]) [Segmentation demo_segmentation] =
   [\<lparr>dd_x = 1, dd_y = 1, dd_width = 2, dd_height = 1, dd_score = 1056964608, dd_class_id = 7, dd_segmentation = Some demo_segmentation\<rparr>]"
  by (simp add: collect_detections_def decoded_detection_def rect_int_def demo_layer_def demo_segmentation_def
      pipelineTopScoreIndices_def kPipelineMaxDetections_def stable_sort_def Let_def)

lemma demo_mask: "pipelineBoxSizedMask (demo_layer found) demo_segmentation = Some [4, 5]"
  by (simp add: pipelineBoxSizedMask_def rect_int_def demo_layer_def demo_segmentation_def mask_byte_def Let_def numeral_2_eq_2)

lemma demo_rows:
  "those (map (row_mask (demo_layer found) [\<lparr>dd_x = 1, dd_y = 1, dd_width = 2, dd_height = 1, dd_score = 1056964608, dd_class_id = 7,
     dd_segmentation = Some demo_segmentation\<rparr>]) [0..<100]) = Some ([4, 5] # replicate 99 [])"
proof -
  have "[0..<100 :: nat] = 0 # [1..<100]" by (simp add: upt_conv_Cons)
  moreover have "map (row_mask (demo_layer found) [d]) [1..<100] = replicate 99 (Some [])" for d
    by (rule nth_equalityI) (simp_all add: row_mask_def)
  ultimately show ?thesis by (simp add: those_Some_iff row_mask_def demo_mask)
qed

theorem envelope_reads_back_witness:
  "\<exists>e. encodeEnvelope (demo_layer [Segmentation demo_segmentation]) Detection [Segmentation demo_segmentation] = Some e \<and>
     tensorScalarAt T_int32 (ot_bytes (e ! 0)) 0 = Some 1 \<and> tensorScalarAt T_int32 (ot_bytes (e ! 1)) 2 = Some 2 \<and>
     tensorScalarAt T_float (ot_bytes (e ! 2)) 99 = Some 0"
proof -
  obtain e where e: "encodeEnvelope (demo_layer [Segmentation demo_segmentation]) Detection [Segmentation demo_segmentation] = Some e"
    by (simp add: encodeEnvelope_def Let_def)
  note p = envelope_reads_back [OF e, unfolded demo_collect]
  from p have "tensorScalarAt T_int32 (ot_bytes (e ! 0)) 0 = Some 1" by simp
  moreover from p have "tensorScalarAt T_int32 (ot_bytes (e ! 1)) (4 * 0 + 2) = Some (bits_of T_int32 2)"
    by (elim conjE allE [where x = 0]) (simp add: Let_def)
  moreover from p have "tensorScalarAt T_float (ot_bytes (e ! 2)) 99 = Some (dd_score (no_detection :: 32 word DecodedDetection) mod 2 ^ 32)"
    by (elim conjE allE [where x = 99]) (simp add: Let_def)
  ultimately show ?thesis using e by (simp add: bits_of_def no_detection_def numeral_2_eq_2)
qed

text \<open>
  (C24) Masks round-trip: for every row, the bytes of MASK_DATA between its two entries of MASK_OFFSETS are
  the box-sized mask of the detection in that row, and no bytes for a detection without a mask and for padding.
\<close>

theorem masks_roundtrip:
  assumes "encodeEnvelope lib Mask results = Some e" "length (ot_bytes (e ! 5)) < 2 ^ 63" "i < 100"
  shows "mask_of e i = row_mask lib (collect_detections lib results) i"
proof -
  let ?ds = "collect_detections lib results"
  from assms(1) obtain ms where ms: "map (row_mask lib ?ds) [0..<100] = map Some ms"
    and b4: "ot_bytes (e ! 4) = scalars T_int64 (map (bits_of T_int64) (offsets (map length ms)))"
    and b5: "ot_bytes (e ! 5) = concat ms" by (rule mask_envelope)
  have l: "length ms = 100" using ms by (metis diff_zero length_map length_upt)
  have total: "sum_list (map length ms) < 2 ^ 63" using assms(2) by (simp add: b5 length_concat)
  have a: "tensorScalarAt T_int64 (ot_bytes (e ! 4)) j = Some (sum_list (take j (map length ms)))" if "j \<le> 100" for j
    unfolding b4 using that l total by (intro read_offset) simp_all
  have snoc: "sum_list (take (i + 1) (map length ms)) = sum_list (take i (map length ms)) + length (ms ! i)"
    using assms(3) l by (simp add: take_Suc_conv_app_nth)
  have "take (length (ms ! i) * 1) (drop (sum_list (take i (map length ms)) * 1) (concat ms)) = ms ! i"
    using concat_window [of ms "map length ms" 1 i] assms(3) l by simp
  moreover have "sum_list (take i (map length ms)) + length (ms ! i) \<le> length (concat ms)"
    unfolding length_concat using sum_list_take_le [of "i + 1" "map length ms"] snoc by simp
  ultimately have "mask_of e i = Some (ms ! i)"
    using a [of i] a [of "i + 1"] assms(3) snoc by (simp add: mask_of_def b5)
  moreover have "row_mask lib ?ds i = Some (ms ! i)"
    using arg_cong [OF ms, of "\<lambda>xs. xs ! i"] assms(3) l by simp
  ultimately show ?thesis by simp
qed

theorem masks_roundtrip_witness:
  "\<exists>e. encodeEnvelope (demo_layer [Segmentation demo_segmentation]) Mask [Segmentation demo_segmentation] = Some e \<and>
     mask_of e 0 = Some [4, 5] \<and> mask_of e 99 = Some []"
proof -
  let ?l = "demo_layer [Segmentation demo_segmentation]"
  let ?ds = "collect_detections ?l [Segmentation demo_segmentation]"
  obtain e where e: "encodeEnvelope ?l Mask [Segmentation demo_segmentation] = Some e"
    by (simp add: encodeEnvelope_def encodeMasks_def demo_collect demo_rows kPipelineMaxDetections_def Let_def)
  from e obtain ms where ms: "map (row_mask ?l ?ds) [0..<100] = map Some ms" "ot_bytes (e ! 5) = concat ms"
    by (rule mask_envelope)
  have "map Some ms = map Some ([4, 5] # replicate 99 [])"
    using demo_rows [of "[Segmentation demo_segmentation]"] ms(1) by (simp only: demo_collect those_Some_iff)
  then have "ms = [4, 5] # replicate 99 []" by (simp only: inj_map_eq_map [OF inj_Some])
  then have "ot_bytes (e ! 5) = [4, 5]" using ms(2) by simp
  then have "mask_of e i = row_mask ?l ?ds i" if "i < 100" for i
    using masks_roundtrip [OF e _ that] by simp
  then have "mask_of e 0 = row_mask ?l ?ds 0" "mask_of e 99 = row_mask ?l ?ds 99" by simp_all
  then show ?thesis using e by (simp add: demo_collect row_mask_def demo_mask)
qed

text \<open>The rings a client reads for a row.\<close>

definition point_of :: "OutputTensor list \<Rightarrow> nat \<Rightarrow> (int \<times> int) option" where
  "point_of e p =
     (case (tensorScalarAt T_int32 (ot_bytes (e ! 6)) (2 * p), tensorScalarAt T_int32 (ot_bytes (e ! 6)) (2 * p + 1)) of
        (Some x, Some y) \<Rightarrow> Some (int_of_bits T_int32 x, int_of_bits T_int32 y)
      | _ \<Rightarrow> None)"

definition ring_of :: "OutputTensor list \<Rightarrow> nat \<Rightarrow> (int \<times> int) list option" where
  "ring_of e j =
     (case (tensorScalarAt T_int64 (ot_bytes (e ! 5)) j, tensorScalarAt T_int64 (ot_bytes (e ! 5)) (j + 1)) of
        (Some a, Some b) \<Rightarrow> those (map (point_of e) [a..<b])
      | _ \<Rightarrow> None)"

definition rings_of :: "OutputTensor list \<Rightarrow> nat \<Rightarrow> (int \<times> int) list list option" where
  "rings_of e i =
     (case (tensorScalarAt T_int64 (ot_bytes (e ! 4)) i, tensorScalarAt T_int64 (ot_bytes (e ! 4)) (i + 1)) of
        (Some a, Some b) \<Rightarrow> those (map (ring_of e) [a..<b])
      | _ \<Rightarrow> None)"

lemma coordinates_nth:
  "p < length ps \<Longrightarrow> 2 * p + 1 < length (coordinates lib ps) \<and>
     coordinates lib ps ! (2 * p) = tl_int32 lib (fst (ps ! p)) \<and> coordinates lib ps ! (2 * p + 1) = tl_int32 lib (snd (ps ! p))"
proof (induction ps arbitrary: p)
  case (Cons q ps)
  show ?case
  proof (cases p)
    case (Suc p')
    with Cons.prems Cons.IH [of p'] show ?thesis by (simp add: coordinates_def)
  qed (simp add: coordinates_def)
qed simp

lemma coordinates_concat: "concat (map (coordinates lib) rings) = coordinates lib (concat rings)"
  by (induction rings) (simp_all add: coordinates_def)

lemma length_coordinates: "length (coordinates lib ps) = 2 * length ps"
  by (induction ps) (simp_all add: coordinates_def)

lemma map_nth_window: "b \<le> length xs \<Longrightarrow> map (\<lambda>p. g (xs ! p)) [a..<b] = map g (take (b - a) (drop a xs))"
  by (rule nth_equalityI) simp_all

lemma nth_window:
  assumes "j < length xss"
  shows "map (\<lambda>p. g (concat xss ! p)) [sum_list (take j (map length xss))..<sum_list (take (j + 1) (map length xss))] = map g (xss ! j)"
    and "sum_list (take (j + 1) (map length xss)) \<le> length (concat xss)"
proof -
  have snoc: "sum_list (take (j + 1) (map length xss)) = sum_list (take j (map length xss)) + length (xss ! j)"
    using assms by (simp add: take_Suc_conv_app_nth)
  show le: "sum_list (take (j + 1) (map length xss)) \<le> length (concat xss)"
    unfolding length_concat by (rule sum_list_take_le)
  have "take (length (xss ! j) * 1) (drop (sum_list (take j (map length xss)) * 1) (concat xss)) = xss ! j"
    using concat_window [of xss "map length xss" 1 j] assms by simp
  then show "map (\<lambda>p. g (concat xss ! p)) [sum_list (take j (map length xss))..<sum_list (take (j + 1) (map length xss))] = map g (xss ! j)"
    using map_nth_window [OF le, of g "sum_list (take j (map length xss))"] snoc by simp
qed

definition int32_range :: "('m, 'i, 't, 'n) TaskLayer \<Rightarrow> bool" where
  "int32_range lib \<longleftrightarrow> (\<forall>n. - (2 ^ 31) \<le> tl_int32 lib n \<and> tl_int32 lib n < 2 ^ 31)"

definition int_points :: "('m, 'i, 't, 'n) TaskLayer \<Rightarrow> ('n \<times> 'n) list \<Rightarrow> (int \<times> int) list" where
  "int_points lib ring = map (\<lambda>p. (tl_int32 lib (fst p), tl_int32 lib (snd p))) ring"

lemma ring_of_written:
  assumes "ot_bytes (e ! 5) = scalars T_int64 (map (bits_of T_int64) (offsets (map length rings)))"
    "ot_bytes (e ! 6) = scalars T_int32 (map (bits_of T_int32) (concat (map (coordinates lib) rings)))"
    "length (concat rings) < 2 ^ 63" "int32_range lib" "j < length rings"
  shows "ring_of e j = Some (int_points lib (rings ! j))"
proof -
  have total: "sum_list (map length rings) < 2 ^ 63" using assms(3) by (simp add: length_concat)
  define a where "a = sum_list (take j (map length rings))"
  define b where "b = sum_list (take (j + 1) (map length rings))"
  have ab: "tensorScalarAt T_int64 (ot_bytes (e ! 5)) j = Some a" "tensorScalarAt T_int64 (ot_bytes (e ! 5)) (j + 1) = Some b"
    unfolding assms(1) a_def b_def using assms(5) total by (intro read_offset; simp)+
  have point: "point_of e p = Some (tl_int32 lib (fst (concat rings ! p)), tl_int32 lib (snd (concat rings ! p)))"
    if "p \<in> set [a..<b]" for p
  proof -
    have "p < length (concat rings)" using that nth_window(2) [OF assms(5)] by (simp add: b_def)
    note c = coordinates_nth [OF this, of lib]
    have again: "int_of_bits T_int32 (bits_of T_int32 (tl_int32 lib n)) = tl_int32 lib n" for n
      using assms(4) by (intro int_of_bits_of) (simp_all add: int32_range_def)
    have "tensorScalarAt T_int32 (ot_bytes (e ! 6)) (2 * p) = Some (bits_of T_int32 (tl_int32 lib (fst (concat rings ! p))))"
      "tensorScalarAt T_int32 (ot_bytes (e ! 6)) (2 * p + 1) = Some (bits_of T_int32 (tl_int32 lib (snd (concat rings ! p))))"
      unfolding assms(2) coordinates_concat using c by (subst read_bits; simp)+
    then show ?thesis by (simp add: point_of_def again)
  qed
  have "ring_of e j = Some (map (\<lambda>p. (tl_int32 lib (fst (concat rings ! p)), tl_int32 lib (snd (concat rings ! p)))) [a..<b])"
    unfolding ring_of_def ab prod.case option.case by (rule those_map_Some) (rule point)
  also have "\<dots> = Some (int_points lib (rings ! j))"
    using nth_window(1) [OF assms(5), of "\<lambda>p. (tl_int32 lib (fst p), tl_int32 lib (snd p))"]
    by (simp add: a_def b_def int_points_def)
  finally show ?thesis .
qed

text \<open>
  (C25) Polygons round-trip: the rings a client reads for a row, through both levels of offsets, are the rings
  of the detection in that row that have at least three points, exterior before holes and polygon by polygon,
  with their points as integers.
\<close>

theorem polygons_roundtrip:
  assumes "encodeEnvelope lib Polygon results = Some e" "length (ot_bytes (e ! 6)) < 2 ^ 63"
    and "\<forall>n. - (2 ^ 31) \<le> tl_int32 lib n \<and> tl_int32 lib n < 2 ^ 31" "i < 100"
  shows "rings_of e i =
    Some (map (map (\<lambda>p. (tl_int32 lib (fst p), tl_int32 lib (snd p))))
      (filter (\<lambda>ring. 3 \<le> length ring) (row_rings (collect_detections lib results) i)))"
proof -
  define kept where "kept = kept_rings (collect_detections lib results)"
  define rings where "rings = concat (map kept [0..<100])"
  note b = polygon_envelope [OF assms(1), folded kept_def, folded rings_def]
  have points: "length (concat rings) < 2 ^ 63"
    using assms(2) unfolding b(3) coordinates_concat by (simp add: length_scalars length_coordinates)
  have "1 \<le> length r" if "r \<in> set rings" for r
    using that by (auto simp: rings_def kept_def kept_rings_def)
  then have "length rings \<le> length (concat rings)"
    by (induction rings) fastforce+
  then have "sum_list (map (length \<circ> kept) [0..<100]) < 2 ^ 63"
    using points by (simp add: rings_def length_concat o_def)
  then have off: "tensorScalarAt T_int64 (ot_bytes (e ! 4)) k = Some (sum_list (take k (map (length \<circ> kept) [0..<100])))"
    if "k \<le> 100" for k
    unfolding b(1) using that by (intro read_offset) simp_all
  have i: "i < length (map kept [0..<100])" using assms(4) by simp
  define a where "a = sum_list (take i (map length (map kept [0..<100])))"
  define c where "c = sum_list (take (i + 1) (map length (map kept [0..<100])))"
  have ac: "tensorScalarAt T_int64 (ot_bytes (e ! 4)) i = Some a" "tensorScalarAt T_int64 (ot_bytes (e ! 4)) (i + 1) = Some c"
    using off [of i] off [of "i + 1"] assms(4) by (simp_all add: a_def c_def)
  have "rings_of e i = Some (map (\<lambda>j. int_points lib (rings ! j)) [a..<c])"
    unfolding rings_of_def ac prod.case option.case
  proof (rule those_map_Some)
    fix j assume "j \<in> set [a..<c]"
    then have "j < length rings" using nth_window(2) [OF i] by (simp add: c_def rings_def)
    then show "ring_of e j = Some (int_points lib (rings ! j))"
      using assms(3) by (intro ring_of_written [OF b(2,3) points]) (simp_all add: int32_range_def)
  qed
  also have "map (\<lambda>j. int_points lib (rings ! j)) [a..<c] = map (int_points lib) (map kept [0..<100] ! i)"
    unfolding a_def c_def rings_def by (rule nth_window(1) [OF i])
  finally show ?thesis using assms(4) by (simp add: kept_def kept_rings_def int_points_def)
qed

lemma demo_int: "tl_int32 (demo_layer found) 0 = 0" "tl_int32 (demo_layer found) 1 = 1" "tl_int32 (demo_layer found) 2 = 2"
  by (simp_all add: demo_layer_def)

lemma demo_kept:
  "map (kept_rings [\<lparr>dd_x = 1, dd_y = 1, dd_width = 2, dd_height = 1, dd_score = 1056964608, dd_class_id = 7,
     dd_segmentation = Some demo_segmentation\<rparr>]) [0..<100] = [[(0, 0), (2, 0), (2, 1)]] # replicate 99 []"
proof -
  have "[0..<100 :: nat] = 0 # [1..<100]" by (simp add: upt_conv_Cons)
  moreover have "map (kept_rings [d]) [1..<100] = replicate 99 []" for d :: "32 word DecodedDetection"
    by (rule nth_equalityI) (simp_all add: kept_rings_def row_rings_def)
  ultimately show ?thesis
    by (simp add: kept_rings_def row_rings_def demo_segmentation_def polygon_rings_def)
qed

theorem polygons_roundtrip_witness:
  "\<exists>e. encodeEnvelope (demo_layer [Segmentation demo_segmentation]) Polygon [Segmentation demo_segmentation] = Some e \<and>
     rings_of e 0 = Some [[(0, 0), (2, 0), (2, 1)]]"
proof -
  let ?l = "demo_layer [Segmentation demo_segmentation]"
  obtain e where e: "encodeEnvelope ?l Polygon [Segmentation demo_segmentation] = Some e"
    by (simp add: encodeEnvelope_def Let_def)
  have len: "length (ot_bytes (e ! 6)) < 2 ^ 63"
    using polygon_envelope(3) [OF e] by (simp add: demo_collect demo_kept coordinates_concat length_scalars length_coordinates)
  have range: "\<forall>n. - (2 ^ 31) \<le> tl_int32 ?l n \<and> tl_int32 ?l n < 2 ^ 31"
    using sint_ge [where 'a = 32] sint_lt [where 'a = 32] by (simp add: demo_layer_def)
  have "rings_of e 0 = Some (map (map (\<lambda>p. (tl_int32 ?l (fst p), tl_int32 ?l (snd p))))
      (filter (\<lambda>ring. 3 \<le> length ring) (row_rings (collect_detections ?l [Segmentation demo_segmentation]) 0)))"
    by (rule polygons_roundtrip [OF e len range]) simp
  also have "\<dots> = Some [[(0, 0), (2, 0), (2, 1)]]"
    unfolding demo_collect row_rings_def
    by (simp add: demo_int) (simp add: demo_segmentation_def polygon_rings_def demo_int)
  finally show ?thesis using e by blast
qed

section \<open>Encoded images\<close>

lemma over_cap_refused:
  assumes "decodedImageDimensions bytes = Some (Some (w, h))" "0 < w" "0 < h" "kPipelineMaxDecodedPixels < w * h"
  shows "over_pixel_cap bytes = Some (Some (w, h))"
proof -
  have "kPipelineMaxDecodedPixels div h < w"
  proof (rule ccontr)
    assume "\<not> ?thesis"
    then have "w * h \<le> kPipelineMaxDecodedPixels div h * h" using assms(3) by (intro mult_right_mono) simp_all
    also have "\<dots> = kPipelineMaxDecodedPixels - kPipelineMaxDecodedPixels mod h" by (simp only: minus_mod_eq_div_mult)
    also have "\<dots> \<le> kPipelineMaxDecodedPixels" using pos_mod_sign [OF assms(3)] by simp
    finally show False using assms(4) by simp
  qed
  with assms(1-3) show ?thesis by (simp add: over_pixel_cap_def)
qed


text \<open>
  (C23) An image bomb never reaches the decoder: a PNG file that declares more pixels than the cap is refused
  with one and the same error whatever the task layer is, however many other chunks precede its header chunk and
  whatever follows it.
\<close>

theorem declared_bomb_is_refused:
  assumes "\<forall>c \<in> set others. other_chunk c" "w < 2 ^ 32" "h < 2 ^ 32" "64 * 1024 * 1024 < w * h"
    and "ot_bytes encoded = png_file others w h rest"
  shows "\<exists>e. \<forall>lib :: ('m, 'i, 't, 'n) TaskLayer. preprocess_run lib step neighbour [encoded] = Some (Returns (Inl e))"
proof -
  have pos: "0 < w" "0 < h" using assms(4) by (cases w; cases h; simp)+
  have "int (64 * 1024 * 1024) < int (w * h)" using assms(4) by (simp only: of_nat_less_iff)
  then have "over_pixel_cap (png_file others w h rest) = Some (Some (int w, int h))"
    using pos by (intro over_cap_refused [OF png_file_size [OF assms(1-3)]]) (simp_all add: kPipelineMaxDecodedPixels_def)
  moreover have "png_file others w h rest \<noteq> []" by (simp add: png_file_def png_signature_def)
  ultimately show ?thesis using assms(5) by (simp add: preprocess_run_def Let_def)
qed

theorem declared_bomb_is_refused_witness:
  "\<exists>e. \<forall>lib :: (unit, unit, unit, 32 word) TaskLayer.
     preprocess_run lib new_step empty_metadata
       [makeTensor frameSizeTensor\<lparr>ot_bytes := png_file [([0x43, 0x67, 0x42, 0x49], [1, 2], [0, 0, 0, 0])] 30000 30000 []\<rparr>] =
     Some (Returns (Inl e))"
  by (rule declared_bomb_is_refused [where rest = "[]" and w = 30000 and h = 30000 and
      others = "[([0x43, 0x67, 0x42, 0x49], [1, 2], [0, 0, 0, 0])]"])
    (simp_all add: other_chunk_def ihdr_type_def)

section \<open>The mask of a box\<close>

text \<open>An image of bytes has as many of them as its size says.\<close>

definition complete_mask :: "'n InstanceSegmentation \<Rightarrow> bool" where
  "complete_mask seg \<longleftrightarrow>
     (\<forall>pixels. mi_data (is_mask seg) = Some pixels \<longrightarrow> mi_uint8 (is_mask seg) \<longrightarrow>
        length pixels = nat (mi_rows (is_mask seg)) * nat (mi_cols (is_mask seg)))"

definition cut_byte :: "byte list \<Rightarrow> int \<Rightarrow> int \<Rightarrow> int \<Rightarrow> int \<Rightarrow> nat \<Rightarrow> nat \<Rightarrow> byte" where
  "cut_byte pixels rows cols x y r c =
     (if 0 \<le> y + int r \<and> y + int r < rows \<and> 0 \<le> x + int c \<and> x + int c < cols
      then pixels ! (nat (y + int r) * nat cols + nat (x + int c)) else 0)"

lemma mask_byte_in:
  assumes "length pixels = nat rows * nat cols"
  shows "mask_byte pixels rows cols x y r c = Some (cut_byte pixels rows cols x y r c)"
proof (cases "0 \<le> y + int r \<and> y + int r < rows \<and> 0 \<le> x + int c \<and> x + int c < cols")
  case True
  then have "nat (y + int r) < nat rows" "nat (x + int c) < nat cols" by auto
  then have "nat (y + int r) * nat cols + nat (x + int c) < length pixels"
    unfolding assms by (metis add.commute add_less_mono1 less_eq_Suc_le mult_Suc mult_le_mono1 order_less_le_trans)
  with True show ?thesis by (simp add: mask_byte_def cut_byte_def Let_def)
qed (auto simp: mask_byte_def cut_byte_def Let_def)

lemma mask_rows_in:
  assumes "length pixels = nat rows * nat cols"
  shows "those (concat (map (\<lambda>r. map (mask_byte pixels rows cols x y r) [0..<w]) [0..<h])) =
    Some (concat (map (\<lambda>r. map (cut_byte pixels rows cols x y r) [0..<w]) [0..<h]))"
proof -
  have "mask_byte pixels rows cols x y = (\<lambda>r c. Some (cut_byte pixels rows cols x y r c))"
    by (intro ext) (rule mask_byte_in [OF assms])
  then show ?thesis by (simp add: those_Some_iff map_concat o_def)
qed

lemma box_mask_defined: "complete_mask seg \<Longrightarrow> pipelineBoxSizedMask lib seg \<noteq> None"
  by (auto simp: pipelineBoxSizedMask_def complete_mask_def mask_rows_in Let_def split: option.split prod.split)

text \<open>
  The mask of a detection covers its box: when the task layer gave a mask of another size, the bytes are
  cut out of it, each one the pixel of the frame at its place and zero where the box leaves the frame, and no read
  leaves the image.
\<close>

theorem box_mask_is_cut:
  assumes "rect_int lib (is_bbox seg) = (x, y, w, h)" "0 < w" "0 < h" "length (is_mask_data seg) \<noteq> nat w * nat h"
    and "is_mask seg = \<lparr>mi_empty = False, mi_data = Some pixels, mi_rows = rows, mi_cols = cols, mi_uint8 = True\<rparr>"
    and "0 < rows" "0 < cols" "length pixels = nat rows * nat cols" "(rows, cols) \<noteq> (h, w)"
  shows "\<exists>m. pipelineBoxSizedMask lib seg = Some m \<and> length m = nat w * nat h \<and>
    (\<forall>r < nat h. \<forall>c < nat w. m ! (r * nat w + c) =
       (if 0 \<le> y + int r \<and> y + int r < rows \<and> 0 \<le> x + int c \<and> x + int c < cols
        then pixels ! (nat (y + int r) * nat cols + nat (x + int c)) else 0))"
proof -
  let ?m = "concat (map (\<lambda>r. map (cut_byte pixels rows cols x y r) [0..<nat w]) [0..<nat h])"
  have "pipelineBoxSizedMask lib seg = Some ?m"
    using assms by (auto simp: pipelineBoxSizedMask_def mask_rows_in Let_def)
  moreover have "length ?m = nat w * nat h" by (simp add: length_concat o_def sum_list_triv)
  moreover have "?m ! (r * nat w + c) = cut_byte pixels rows cols x y r c" if "r < nat h" "c < nat w" for r c
    using nth_concat_fixed [of "nat h" "\<lambda>r. map (cut_byte pixels rows cols x y r) [0..<nat w]" "nat w" r c] that
    by (simp add: mult.commute)
  ultimately show ?thesis by (simp add: cut_byte_def)
qed

theorem box_mask_is_cut_witness:
  "\<exists>m. pipelineBoxSizedMask (demo_layer []) (demo_segmentation\<lparr>is_bbox := \<lparr>rc_x = 2, rc_y = 1, rc_width = 2, rc_height = 1\<rparr>\<rparr>) = Some m \<and>
     m ! 0 = 5 \<and> m ! 1 = 0"
proof -
  let ?seg = "demo_segmentation\<lparr>is_bbox := \<lparr>rc_x = 2, rc_y = 1, rc_width = 2, rc_height = 1\<rparr>\<rparr>"
  have "\<exists>m. pipelineBoxSizedMask (demo_layer []) ?seg = Some m \<and> length m = nat 2 * nat 1 \<and>
    (\<forall>r < nat 1. \<forall>c < nat 2. m ! (r * nat 2 + c) =
       (if 0 \<le> 1 + int r \<and> 1 + int r < 2 \<and> 0 \<le> 2 + int c \<and> 2 + int c < 3
        then [0, 1, 2, 3, 4, 5] ! (nat (1 + int r) * nat 3 + nat (2 + int c)) else (0 :: byte)))"
    by (rule box_mask_is_cut) (simp_all add: rect_int_def demo_layer_def demo_segmentation_def)
  then obtain m where m: "pipelineBoxSizedMask (demo_layer []) ?seg = Some m"
    and at: "\<forall>r < nat 1. \<forall>c < nat 2. m ! (r * nat 2 + c) =
       (if 0 \<le> 1 + int r \<and> 1 + int r < 2 \<and> 0 \<le> 2 + int c \<and> 2 + int c < 3
        then [0, 1, 2, 3, 4, 5] ! (nat (1 + int r) * nat 3 + nat (2 + int c)) else (0 :: byte))" by blast
  from at have "m ! 0 = 5" by (elim allE [where x = 0]) simp
  moreover from at have "m ! 1 = 0" by (elim allE [where x = 0] allE [where x = 1]) simp
  ultimately show ?thesis using m by blast
qed

section \<open>Steps in a pipeline\<close>

definition complete_masks :: "('m, 'i, 't, 'n) TaskLayer \<Rightarrow> bool" where
  "complete_masks lib \<longleftrightarrow>
     (\<forall>task size tensors results s. tl_postprocess lib task size tensors = Returns results \<longrightarrow>
        Segmentation s \<in> set results \<longrightarrow> complete_mask s)"

lemma collect_from:
  assumes "d \<in> set (collect_detections lib results)"
  obtains r where "r \<in> set results" "d \<in> set (decode_result lib r)"
proof -
  let ?every = "concat (map (decode_result lib) results)"
  from assms obtain i where "d = ?every ! i" "i \<in> set (pipelineTopScoreIndices (map (float_score \<circ> dd_score) ?every) (nat kPipelineMaxDetections))"
    by (auto simp: collect_detections_def Let_def)
  then have "d = ?every ! i" "i < length ?every"
    by (auto simp: pipelineTopScoreIndices_def dest!: in_set_takeD)
  then have "d \<in> set ?every" by (simp only: nth_mem)
  then have "\<exists>r \<in> set results. d \<in> set (decode_result lib r)" by simp
  with that show thesis by blast
qed

lemma encodeEnvelope_defined:
  assumes "\<And>s. Segmentation s \<in> set results \<Longrightarrow> complete_mask s"
  shows "encodeEnvelope lib kind results \<noteq> None"
proof (cases kind)
  case Mask
  let ?ds = "collect_detections lib results"
  have "row_mask lib ?ds i \<noteq> None" for i
  proof -
    have "complete_mask s" if "i < length ?ds" "dd_segmentation (?ds ! i) = Some s" for s
    proof -
      from that(1) have "?ds ! i \<in> set ?ds" by simp
      then obtain r where "r \<in> set results" "?ds ! i \<in> set (decode_result lib r)" by (rule collect_from)
      with that(2) assms show ?thesis by (cases r) (auto simp: decoded_detection_def split: prod.splits)
    qed
    then show ?thesis using box_mask_defined by (fastforce simp: row_mask_def split: option.split)
  qed
  then have "those (map (row_mask lib ?ds) [0..<n]) = Some (map (\<lambda>i. the (row_mask lib ?ds i)) [0..<n])" for n
    by (intro those_map_Some) simp
  then show ?thesis using Mask by (simp add: encodeEnvelope_def encodeMasks_def Let_def)
qed (simp_all add: encodeEnvelope_def Let_def)

lemma catching_Inr [simp]: "catching said c = Returns (Inr r) \<longleftrightarrow> c = Returns (Inr r)"
  by (cases c) auto

lemma call_then_Returns [simp]: "call_then c f = Returns r \<longleftrightarrow> (\<exists>v. c = Returns v \<and> f v = Returns r)"
  by (cases c) auto

lemma preprocess_outputs_match:
  assumes "preprocess_run lib step neighbour ins = Some (Returns (Inr outs))"
  shows "map ot_name outs = map tm_name (preprocess_outputs neighbour)"
proof -
  from assms obtain pre h w where "length (mm_inputs neighbour) \<le> length pre" "outs = encoded_inputs neighbour pre h w"
    by (auto simp: preprocess_run_def Let_def not_less split: if_splits option.splits)
  then show ?thesis
    by (simp add: encoded_inputs_def preprocess_outputs_def makeTensor_def o_def case_prod_beta map_fst_zip_take flip: map_map [of tm_name fst, unfolded o_def])
qed

lemma over_pixel_cap_defined: "over_pixel_cap bytes \<noteq> None"
  using decodedImageDimensions_sane [of bytes]
  by (cases "decodedImageDimensions bytes" rule: sane.cases) (simp_all add: over_pixel_cap_def)

lemma preprocess_run_defined: "preprocess_run lib step neighbour ins \<noteq> None"
  using over_pixel_cap_defined [of "ot_bytes (hd ins)"]
  by (auto simp: preprocess_run_def Let_def split: option.split)

lemma postprocess_run_defined:
  assumes "complete_masks lib"
  shows "postprocess_run lib step neighbour ins \<noteq> None"
proof -
  have envelope: "encodeEnvelope lib kind results \<noteq> None" if "tl_postprocess lib task size tensors = Returns results" for kind task size tensors results
    using assms that unfolding complete_masks_def by (intro encodeEnvelope_defined) blast
  have scalars: "\<exists>v. tensorScalarAt T_int64 bytes 0 = Some v" "\<exists>v. tensorScalarAt T_int64 bytes 1 = Some v"
    if "\<not> length bytes < 2 * sizeof T_int64" for bytes
    using that by (simp_all add: tensorScalarAt_def)
  show ?thesis
  proof (cases "ot_datatype (last ins) \<noteq> ''INT64'' \<or> length (ot_bytes (last ins)) < 2 * sizeof T_int64")
    case False
    then obtain h w where "tensorScalarAt T_int64 (ot_bytes (last ins)) 0 = Some h" "tensorScalarAt T_int64 (ot_bytes (last ins)) 1 = Some w"
      using scalars by blast
    then show ?thesis
      using False envelope unfolding postprocess_run_def Let_def
      by (simp split: sum.split Call.split) blast
  qed (simp add: postprocess_run_def Let_def)
qed

lemma postprocess_outputs_match:
  assumes "postprocess_run lib step neighbour ins = Some (Returns (Inr outs))"
  shows "map ot_name outs = map tm_name (pipelineEnvelopeOutputs (pc_envelope step))"
proof -
  from assms obtain results where e: "encodeEnvelope lib (pc_envelope step) results = Some outs"
    by (auto simp: postprocess_run_def Let_def split: if_splits option.splits sum.splits Call.splits)
  then have "declared outs = map (\<lambda>m. (tm_name m, tm_datatype m)) (pipelineEnvelopeOutputs (pc_envelope step))"
    using encodeEnvelope_rows [OF e] encode_rows_effect(2) by simp
  then have "map fst (declared outs) = map tm_name (pipelineEnvelopeOutputs (pc_envelope step))" by simp
  then show ?thesis by (simp add: declared_def o_def)
qed

lemma builtin_steps_produce:
  assumes "complete_masks lib" "makeBuiltinPipelineStep lib undefined_run c n = Returns (Inr b)" "bs_run b ins = Returns (Inr outs)"
  shows "map ot_name outs = map tm_name (bs_outputs b)"
proof (cases "pc_kind c")
  case Preprocess
  with assms(2,3) have "preprocess_run lib c n ins = Some (Returns (Inr outs))" "bs_outputs b = preprocess_outputs n"
    using preprocess_run_defined [of lib c n ins] by (auto simp: makeBuiltinPipelineStep_def Let_def split: if_splits option.splits)
  then show ?thesis using preprocess_outputs_match by metis
next
  case Postprocess
  with assms(2,3) have "postprocess_run lib c n ins = Some (Returns (Inr outs))" "bs_outputs b = pipelineEnvelopeOutputs (pc_envelope c)"
    using postprocess_run_defined [OF assms(1), of c n ins] by (auto simp: makeBuiltinPipelineStep_def Let_def split: if_splits option.splits)
  then show ?thesis using postprocess_outputs_match by metis
next
  case ModelStep
  with assms(2) show ?thesis by (simp add: makeBuiltinPipelineStep_def Let_def)
qed

lemma build_steps_builtin:
  assumes "build_steps env builtin name before graph = Returns (Inr steps)" "s \<in> set steps" "sp_builtin s = Some b"
  shows "pc_kind (sp_config s) \<noteq> ModelStep \<and> sp_outputs s = bs_outputs b \<and> (\<exists>c n. builtin c n = Returns (Inr b))"
  using assms
proof (induction graph arbitrary: before steps)
  case (Cons c graph)
  from Cons.prems(1) obtain s' ss where s': "build_step env builtin name before c graph = Returns (Inr s')"
    and ss: "build_steps env builtin name (before @ [c]) graph = Returns (Inr ss)" "steps = s' # ss"
    by (auto split: Call.splits sum.splits)
  show ?case
  proof (cases "s \<in> set ss")
    case True
    then show ?thesis by (rule Cons.IH [OF ss(1) _ Cons.prems(3)])
  next
    case False
    then have "s = s'" using ss(2) Cons.prems(2) by simp
    with s' Cons.prems(3) show ?thesis
      by (auto simp: build_step_def Let_def split: if_splits option.splits sum.splits Call.splits, blast+)
  qed
qed simp

lemma builtin_keeps_promise:
  assumes "complete_masks lib" "build_steps env (makeBuiltinPipelineStep lib undefined_run) name before graph = Returns (Inr steps)"
    "s \<in> set steps" "sp_builtin s = Some b"
  shows "keeps_promise env s"
  unfolding keeps_promise_def
proof (intro allI impI)
  fix ins outs assume "run_step env s ins = Returns (Inr outs)"
  then have "bs_run b ins = Returns (Inr outs)"
    using assms(4) by (auto simp: run_step_def split: Call.splits sum.splits)
  moreover from build_steps_builtin [OF assms(2-4)] obtain c n where
    "makeBuiltinPipelineStep lib undefined_run c n = Returns (Inr b)" "sp_outputs s = bs_outputs b" by blast
  ultimately have "map ot_name outs = map tm_name (sp_outputs s)" using builtin_steps_produce [OF assms(1)] by metis
  then show "tm_name ` set (sp_outputs s) \<subseteq> ot_name ` set outs" by (metis order_refl set_map)
qed

text \<open>
  (C22) A pipeline with the built-in steps of the task layer is wired: once it was built, and as long as its
  model steps produce the tensors they declare, no request with the declared inputs fails for a missing tensor.
  Every error it answers with is one a step gave.
\<close>

theorem task_pipeline_is_wired:
  assumes "complete_masks lib"
    and "makePipelineExecutor parse to_float read_file (makeBuiltinPipelineStep lib undefined_run) env config = Returns (Inr pe)"
    and "tm_name ` set (mm_inputs (pe_metadata pe)) \<subseteq> it_name ` set (er_inputs request)"
    and "\<forall>s \<in> set (pe_steps pe). sp_builtin s = None \<longrightarrow> keeps_promise env s"
    and "pipeline_infer env pe request = Returns response" "\<not> rs_ok response"
  shows "\<exists>s \<in> set (pe_steps pe). \<exists>ins. run_step env s ins = Returns (Inl response)"
proof (rule wired_pipeline [OF assms(2,3) _ assms(5,6)], rule ballI)
  fix s assume s: "s \<in> set (pe_steps pe)"
  from assms(2) obtain graph where
    "build_steps env (makeBuiltinPipelineStep lib undefined_run) (rc_model_name config) [] graph = Returns (Inr (pe_steps pe))"
    by (rule makePipelineExecutor_Inr) simp
  with s assms(1,4) show "keeps_promise env s" by (cases "sp_builtin s") (auto intro: builtin_keeps_promise)
qed

definition image_graph :: Json where
  "image_graph = JObject [(''steps'', JArray [
     JObject [(''kind'', JString ''preprocess''), (''name'', JString ''p''), (''task_type'', JString ''t'')],
     JObject [(''kind'', JString ''model''), (''model_name'', JString ''m''), (''name'', JString ''s'')]])]"

definition image_model :: ModelCalls where
  "image_model = \<lparr>mc_resolve = (\<lambda>_ _. Some \<lparr>sn_name = ''m'', sn_versions = [''1''], sn_state = Ready,
       sn_metadata = empty_metadata\<lparr>mm_inputs := [\<lparr>tm_name = ''X'', tm_datatype = ''UINT8'', tm_shape = [4]\<rparr>]\<rparr>,
       sn_scheduler = Some 0, sn_load_error = None\<rparr>),
     mc_ready = (\<lambda>_. True), mc_submit = (\<lambda>_ _. makeOverloadedResult)\<rparr>"

theorem task_pipeline_is_wired_witness:
  "\<exists>pe response. makePipelineExecutor (\<lambda>_. Some image_graph) id (\<lambda>_. None) (makeBuiltinPipelineStep (demo_layer []) ThrowsOther) image_model
       (default_config\<lparr>rc_pipeline_graph := ''graph''\<rparr>) = Returns (Inr pe) \<and> length (pe_steps pe) = 2 \<and>
     (\<exists>s \<in> set (pe_steps pe). \<exists>ins. run_step image_model s ins = Returns (Inl response))"
proof -
  let ?meta = "empty_metadata\<lparr>mm_inputs := [\<lparr>tm_name = ''X'', tm_datatype = ''UINT8'', tm_shape = [4]\<rparr>]\<rparr>"
  let ?builtin = "makeBuiltinPipelineStep (demo_layer []) ThrowsOther"
  define c where "c = new_step\<lparr>pc_kind := Preprocess, pc_name := ''p'', pc_task_type := ''t''\<rparr>"
  define d where "d = new_step\<lparr>pc_name := ''s'', pc_model_name := ''m''\<rparr>"
  define b where "b = \<lparr>bs_inputs = preprocess_inputs, bs_outputs = preprocess_outputs ?meta,
    bs_run = (\<lambda>r. case r of None \<Rightarrow> ThrowsOther | Some x \<Rightarrow> x) \<circ> preprocess_run (demo_layer []) c ?meta\<rparr>"
  have b: "?builtin c ?meta = Returns (Inr b)" "bs_inputs b = preprocess_inputs" "bs_outputs b = preprocess_outputs ?meta"
    "bs_run b = (\<lambda>r. case r of None \<Rightarrow> ThrowsOther | Some x \<Rightarrow> x) \<circ> preprocess_run (demo_layer []) c ?meta"
    by (simp_all add: makeBuiltinPipelineStep_def b_def c_def Let_def)
  define first where "first = \<lparr>sp_config = c, sp_builtin = Some b, sp_inputs = preprocess_inputs, sp_outputs = preprocess_outputs ?meta\<rparr>"
  define second where "second = \<lparr>sp_config = d, sp_builtin = None, sp_inputs = mm_inputs ?meta, sp_outputs = []\<rparr>"
  let ?pe = "newPipelineExecutor ''demo'' [first, second]"
  let ?config = "default_config\<lparr>rc_pipeline_graph := ''graph''\<rparr>"
  let ?request = "empty_request\<lparr>er_inputs := [as_input (makeTensor (hd preprocess_inputs))]\<rparr>"
  have kinds: "pc_kind c = Preprocess" "pc_kind d = ModelStep" "pc_model_name d = ''m''" by (simp_all add: c_def d_def new_step_def)
  have "parsePipelineConfig (\<lambda>_. Some image_graph) id ''graph'' = Parsed [c, d]"
    by (simp add: parsePipelineConfig_def image_graph_def contains_def at_key_def parse_step_def node_string_def
        value_string_def check_def parseKind_def readFloat_def readTensorMap_def c_def d_def new_step_def)
  moreover have "build_steps image_model ?builtin ''demo'' [] [c, d] = Returns (Inr [first, second])"
    using b kinds by (simp add: build_step_def neighbourModelMetadata_def image_model_def first_def second_def empty_metadata_def)
  moreover have "wiring_error (graph_inputs first) [first, second] = None"
    by (simp add: graph_inputs_def first_def second_def c_def d_def new_step_def mapped_def preprocess_inputs_def preprocess_outputs_def
        frameSizeTensor_def)
  ultimately have built: "makePipelineExecutor (\<lambda>_. Some image_graph) id (\<lambda>_. None) ?builtin image_model ?config = Returns (Inr ?pe)"
    by (simp add: makePipelineExecutor_def readGraphText_def default_config_def)
  have fails: "\<exists>r. run_step image_model first ins = Returns (Inl r) \<and> \<not> rs_ok r" if "ot_bytes (hd ins) = []" for ins
    using b(4) that by (simp add: run_step_def first_def preprocess_run_def failure_def Let_def)
  have gathered: "gather lu 0 c preprocess_inputs (initial_values ?request) =
      Inr ([makeTensor (hd preprocess_inputs)], initial_values ?request) \<or>
    gather lu 0 c preprocess_inputs (initial_values ?request) = Inr ([makeTensor (hd preprocess_inputs)],
      AList.delete pipelineImageInputName (initial_values ?request))" for lu
    by (simp add: preprocess_inputs_def makeTensor_def initial_values_def c_def new_step_def mapped_def as_input_def as_output_def
        emplace_def Let_def)
  have "\<exists>r. run_step image_model first [makeTensor (hd preprocess_inputs)] = Returns (Inl r) \<and> \<not> rs_ok r"
    by (rule fails) (simp add: makeTensor_def)
  then have answered: "\<exists>r. pipeline_infer image_model ?pe ?request = Returns r \<and> \<not> rs_ok r"
    using gathered [of "pe_last_use ?pe"] by (auto simp: pipeline_infer_def first_def simp del: new_executor_simps(2))
  have "tm_name ` set (mm_inputs (pe_metadata ?pe)) \<subseteq> it_name ` set (er_inputs ?request)"
    by (simp add: newPipelineExecutor_def first_def preprocess_inputs_def makeTensor_def as_input_def c_def new_step_def mapped_def Let_def)
  moreover have "\<forall>s \<in> set (pe_steps ?pe). sp_builtin s = None \<longrightarrow> keeps_promise image_model s"
    by (simp add: first_def second_def keeps_promise_def)
  moreover have "complete_masks (demo_layer [])" by (simp add: complete_masks_def demo_layer_def)
  ultimately have "\<exists>response. \<exists>s \<in> set (pe_steps ?pe). \<exists>ins. run_step image_model s ins = Returns (Inl response)"
    using task_pipeline_is_wired [OF _ built, of ?request] answered by blast
  then show ?thesis using built by auto
qed

end
