(* ===== verification/Real_Adapter.thy ===== *)
theory Real_Adapter
  imports Model_Repository Numbers Llm_Scheduler
begin

text \<open>
  \<open>RealNeuriploAdapter.cpp\<close>: the adapter that serves a model through the neuriplo library, and the part of it
  that reads tensor names out of a \<open>config.pbtxt\<close> beside the model. The library (an engine and its set-up) and
  the files are arguments.
\<close>

section \<open>Identifiers and datatypes\<close>

definition toupper :: "char \<Rightarrow> char" where
  "toupper c = (if 97 \<le> (of_char c :: nat) \<and> (of_char c :: nat) \<le> 122 then char_of (of_char c - 32 :: nat) else c)"

definition toNeuriploBackendId :: "string \<Rightarrow> string" where
  "toNeuriploBackendId backend = map toupper backend"

definition toRuntimeBackendId :: "string \<Rightarrow> string" where
  "toRuntimeBackendId backend = map tolower backend"

text \<open>The enumerations of the library; the last constructors stand for values their headers may add.\<close>

datatype TensorDataType = DT_Float32 | DT_Int32 | DT_Int64 | DT_UInt8 | DT_Int8 | DT_Bool | DT_Unknown
datatype TensorDtype = TD_FP32 | TD_INT32 | TD_INT64 | TD_UINT8 | TD_Unknown

fun tensorDataTypeToKserve :: "TensorDataType \<Rightarrow> string Call" where
  "tensorDataTypeToKserve DT_Float32 = Returns ''FP32''"
| "tensorDataTypeToKserve DT_Int32 = Returns ''INT32''"
| "tensorDataTypeToKserve DT_Int64 = Returns ''INT64''"
| "tensorDataTypeToKserve DT_UInt8 = Returns ''UINT8''"
| "tensorDataTypeToKserve DT_Int8 = Returns ''INT8''"
| "tensorDataTypeToKserve DT_Bool = Returns ''BOOL''"
| "tensorDataTypeToKserve DT_Unknown = Throws ''unsupported neuriplo tensor datatype''"

fun tensorDtypeToKserve :: "TensorDtype \<Rightarrow> string Call" where
  "tensorDtypeToKserve TD_FP32 = Returns ''FP32''"
| "tensorDtypeToKserve TD_INT32 = Returns ''INT32''"
| "tensorDtypeToKserve TD_INT64 = Returns ''INT64''"
| "tensorDtypeToKserve TD_UINT8 = Returns ''UINT8''"
| "tensorDtypeToKserve TD_Unknown = Throws ''unsupported neuriplo output dtype''"

fun chain :: "'a Call \<Rightarrow> ('a \<Rightarrow> 'b Call) \<Rightarrow> 'b Call" where
  "chain (Returns v) f = f v"
| "chain (Throws m) f = Throws m"
| "chain ThrowsOther f = ThrowsOther"

text \<open>A loop that collects the results of calls.\<close>

fun collect_calls :: "('a \<Rightarrow> 'b Call) \<Rightarrow> 'a list \<Rightarrow> 'b list Call" where
  "collect_calls f [] = Returns []"
| "collect_calls f (x # xs) = chain (f x) (\<lambda>y. chain (collect_calls f xs) (\<lambda>ys. Returns (y # ys)))"

definition text_bytes :: "string \<Rightarrow> byte list" where
  "text_bytes s = map of_char s"

definition tensorToBytes :: "InputTensor \<Rightarrow> byte list Call" where
  "tensorToBytes t =
     (if it_datatype t = ''BYTES'' then Returns (concat (map text_bytes (it_string_data t)))
      else if tensorElementSize (it_datatype t) = 0 then Throws (''unsupported input datatype: '' @ it_datatype t)
      else Returns (it_bytes t))"

record LayerInfo =
  li_name :: string
  li_shape :: "int64_t list"
  li_datatype :: TensorDataType

definition extractDatatypes :: "LayerInfo list \<Rightarrow> string list Call" where
  "extractDatatypes layers = collect_calls (tensorDataTypeToKserve \<circ> li_datatype) layers"

definition convertLayers :: "LayerInfo list \<Rightarrow> string list \<Rightarrow> TensorMetadata list" where
  "convertLayers layers datatypes =
     map (\<lambda>(i, layer). \<lparr>tm_name = li_name layer, tm_datatype = (if i < length datatypes then datatypes ! i else ''FP32''),
        tm_shape = li_shape layer\<rparr>) (enumerate 0 layers)"

section \<open>config.pbtxt\<close>

record PbtxtTensor =
  pt_name :: string
  pt_datatype :: string

definition pbtxtTypeToKserve :: "string \<Rightarrow> string" where
  "pbtxtTypeToKserve type =
     (if type \<in> {''TYPE_FP32'', ''TYPE_FP16'', ''TYPE_INT64'', ''TYPE_INT32'', ''TYPE_INT8'', ''TYPE_UINT8'', ''TYPE_BOOL''}
      then drop 5 type else [])"

function strip_comments :: "bool \<Rightarrow> string \<Rightarrow> string" where
  "strip_comments in_string [] = []"
| "strip_comments in_string (c # cs) =
     (let in_string' = (if c = CHR 0x22 then \<not> in_string else in_string) in
      if c = CHR ''#'' \<and> \<not> in_string' then
        (case dropWhile (\<lambda>d. d \<noteq> CHR 0x0A) cs of [] \<Rightarrow> [] | newline # rest \<Rightarrow> CHR 0x0A # strip_comments in_string' rest)
      else c # strip_comments in_string' cs)"
  by pat_completeness auto
termination
proof (relation "measure (\<lambda>(in_string, s). length s)", goal_cases)
  case (2 in_string c cs x newline rest)
  then have "length (newline # rest) \<le> length cs" by (metis length_dropWhile_le)
  then show ?case by simp
qed auto

definition stripPbtxtComments :: "string \<Rightarrow> string" where
  "stripPbtxtComments content = strip_comments False content"

text \<open>\<open>std::regex_search\<close>: the first position at which the pattern matches; \<open>m\<close> is the pattern.\<close>

fun regex_search :: "(string \<Rightarrow> 'a option) \<Rightarrow> string \<Rightarrow> 'a option" where
  "regex_search m [] = m []"
| "regex_search m (c # cs) = (case m (c # cs) of Some r \<Rightarrow> Some r | None \<Rightarrow> regex_search m cs)"

text \<open>\<open>word\<close>, white space and one character; the rest of the text is the result.\<close>

definition word_then :: "string \<Rightarrow> char \<Rightarrow> string \<Rightarrow> string option" where
  "word_then word sign s =
     (if \<not> startsWith s word then None
      else (case dropWhile is_space (drop (length word) s) of
              [] \<Rightarrow> None
            | c # rest \<Rightarrow> if c = sign then Some rest else None))"

text \<open>\<open>name\s*:\s*"([^"]*)"\<close>\<close>

definition name_re :: "string \<Rightarrow> string option" where
  "name_re s =
     (case word_then ''name'' (CHR '':'') s of
        None \<Rightarrow> None
      | Some rest \<Rightarrow>
          (case dropWhile is_space rest of
             [] \<Rightarrow> None
           | c # text_and_more \<Rightarrow>
               if c = CHR 0x22 \<and> CHR 0x22 \<in> set text_and_more then Some (takeWhile (\<lambda>d. d \<noteq> CHR 0x22) text_and_more)
               else None))"

definition type_char :: "char \<Rightarrow> bool" where
  "type_char c \<longleftrightarrow> is_digit c \<or> (65 \<le> (of_char c :: nat) \<and> (of_char c :: nat) \<le> 90)"

text \<open>\<open>data_type\s*:\s*(TYPE_[A-Z0-9]+)\<close>\<close>

definition dtype_re :: "string \<Rightarrow> string option" where
  "dtype_re s =
     (case word_then ''data_type'' (CHR '':'') s of
        None \<Rightarrow> None
      | Some rest \<Rightarrow>
          (let t = dropWhile is_space rest; ident = takeWhile type_char (drop 5 t)
           in if startsWith t ''TYPE_'' \<and> ident \<noteq> [] then Some (''TYPE_'' @ ident) else None))"

text \<open>
  The text up to the bracket that closes the \<open>depth\<close> open ones, and the text after it; \<open>None\<close> when they are not
  closed.
\<close>

fun until_closed :: "char \<Rightarrow> char \<Rightarrow> nat \<Rightarrow> string \<Rightarrow> (string \<times> string) option" where
  "until_closed opening closing depth [] = None"
| "until_closed opening closing depth (c # cs) =
     (let depth' = (if c = opening then depth + 1 else if c = closing then depth - 1 else depth) in
      if depth' = 0 then Some ([], cs)
      else map_option (\<lambda>(body, rest). (c # body, rest)) (until_closed opening closing depth' cs))"

lemma until_closed_shorter: "until_closed opening closing depth s = Some (body, rest) \<Longrightarrow> length rest < length s"
  by (induction s arbitrary: depth body) (fastforce simp: Let_def split: if_splits)+

definition extractBracketSection :: "string \<Rightarrow> string \<Rightarrow> string option" where
  "extractBracketSection content key =
     (case regex_search (word_then key (CHR ''['')) content of
        None \<Rightarrow> None
      | Some after \<Rightarrow> map_option fst (until_closed (CHR ''['') (CHR '']'') 1 after))"

text \<open>The objects of a section. One that is not closed loses the last character of the section.\<close>

function pbtxt_objects :: "string \<Rightarrow> string list" where
  "pbtxt_objects [] = []"
| "pbtxt_objects (c # cs) =
     (if c \<noteq> CHR ''{'' then pbtxt_objects cs
      else (case until_closed (CHR ''{'') (CHR ''}'') 1 cs of
              None \<Rightarrow> [butlast cs]
            | Some (body, rest) \<Rightarrow> body # pbtxt_objects rest))"
  by pat_completeness auto
termination
  by (relation "measure length") (auto dest: until_closed_shorter)

definition pbtxt_tensor :: "string \<Rightarrow> PbtxtTensor" where
  "pbtxt_tensor object =
     \<lparr>pt_name = (case regex_search name_re object of None \<Rightarrow> [] | Some name \<Rightarrow> name),
      pt_datatype = (case regex_search dtype_re object of None \<Rightarrow> [] | Some type \<Rightarrow> pbtxtTypeToKserve type)\<rparr>"

definition parsePbtxtTensors :: "string \<Rightarrow> PbtxtTensor list" where
  "parsePbtxtTensors section_text = filter (\<lambda>t. pt_name t \<noteq> []) (map pbtxt_tensor (pbtxt_objects section_text))"

text \<open>\<open>path::parent_path\<close>, for a path with at most one leading slash.\<close>

definition parent_path :: "string \<Rightarrow> string" where
  "parent_path path =
     (let dir = rev (dropWhile (\<lambda>c. c \<noteq> CHR ''/'') (rev path)); trimmed = rev (dropWhile (\<lambda>c. c = CHR ''/'') (rev dir))
      in if trimmed = [] then take 1 dir else trimmed)"

definition findConfigPbtxt :: "(string \<Rightarrow> bool) \<Rightarrow> string \<Rightarrow> string option" where
  "findConfigPbtxt is_regular_file model_path =
     (let parent = parent_path model_path;
          candidates = (if parent \<noteq> [] then [path_join (parent_path parent) ''config.pbtxt'', path_join parent ''config.pbtxt''] else []) @
            [path_join model_path ''config.pbtxt'']
      in find_first is_regular_file candidates)"

text \<open>The tensors after the overlay, and what it logs.\<close>

definition overlayPbtxt :: "string \<Rightarrow> PbtxtTensor list \<Rightarrow> TensorMetadata list \<Rightarrow> TensorMetadata list \<times> string list" where
  "overlayPbtxt kind config tensors =
     (if config = [] then (tensors, [])
      else if length config \<noteq> length tensors
        then (tensors, [''config.pbtxt '' @ kind @ '' count ('' @ to_string (length config) @ '') does not match backend metadata ('' @
                to_string (length tensors) @ ''); keeping backend '' @ kind @ '' metadata''])
      else (map2 (\<lambda>t c. t\<lparr>tm_name := pt_name c, tm_datatype := (if pt_datatype c \<noteq> [] then pt_datatype c else tm_datatype t)\<rparr>)
              tensors config, []))"

text \<open>The file system: which paths are regular files, and the content of a file that can be opened.\<close>

record ModelFiles =
  mf_is_regular_file :: "string \<Rightarrow> bool"
  mf_read :: "string \<Rightarrow> string option"

definition overlay_section :: "string \<Rightarrow> string option \<Rightarrow> TensorMetadata list \<Rightarrow> TensorMetadata list \<times> string list" where
  "overlay_section kind found tensors =
     (case found of None \<Rightarrow> (tensors, []) | Some body \<Rightarrow> overlayPbtxt kind (parsePbtxtTensors body) tensors)"

definition applyConfigPbtxt :: "ModelFiles \<Rightarrow> string \<Rightarrow> ModelMetadata \<Rightarrow> ModelMetadata \<times> string list" where
  "applyConfigPbtxt files model_path metadata =
     (case findConfigPbtxt (mf_is_regular_file files) model_path of
        None \<Rightarrow> (metadata, [])
      | Some config_path \<Rightarrow>
          (case mf_read files config_path of
             None \<Rightarrow> (metadata, [])
           | Some raw \<Rightarrow>
               let content = stripPbtxtComments raw;
                   (inputs, in_log) = overlay_section ''input'' (extractBracketSection content ''input'') (mm_inputs metadata);
                   (outputs, out_log) = overlay_section ''output'' (extractBracketSection content ''output'') (mm_outputs metadata)
               in (metadata\<lparr>mm_inputs := inputs, mm_outputs := outputs\<rparr>,
                   in_log @ out_log @ [''applied config.pbtxt I/O metadata from '' @ config_path])))"

section \<open>RealNeuriploAdapter\<close>

record RawOutput =
  ro_dtype :: TensorDtype
  ro_shape :: "int64_t list"
  ro_bytes :: "byte list"

text \<open>The engine of the library. A scalar it returns is a type and the bits of its value.\<close>

record Engine =
  en_get_inference_metadata :: "(LayerInfo list \<times> LayerInfo list) Call"
  en_get_infer_results_raw :: "byte list list \<Rightarrow> RawOutput list Call"
  en_get_infer_results :: "byte list list \<Rightarrow> (ElementType \<times> nat) list list Call"

record EngineOptions =
  eo_model_path :: string
  eo_backend_id :: string
  eo_use_gpu :: bool
  eo_plugin_dir :: string
  eo_input_sizes :: "int64_t list list"

record EngineLibrary =
  el_setup_inference_engine :: "EngineOptions \<Rightarrow> Engine option Call"
  el_available_backend_ids :: "string \<Rightarrow> string list"

record RealNeuriploAdapter =
  ra_engine :: "Engine option"
  ra_output_metadata :: "TensorMetadata list"

definition makeRealNeuriploAdapter :: RealNeuriploAdapter where
  "makeRealNeuriploAdapter = \<lparr>ra_engine = None, ra_output_metadata = []\<rparr>"

definition realNeuriploAvailableBackends :: "EngineLibrary \<Rightarrow> string \<Rightarrow> string list" where
  "realNeuriploAvailableBackends lib plugin_dir = map toRuntimeBackendId (el_available_backend_ids lib plugin_dir)"

definition engine_options :: "RuntimeConfig \<Rightarrow> EngineOptions" where
  "engine_options config = \<lparr>eo_model_path = rc_model_path config, eo_backend_id = toNeuriploBackendId (rc_backend config),
     eo_use_gpu = rc_use_gpu config, eo_plugin_dir = rc_plugin_dir config, eo_input_sizes = rc_input_sizes config\<rparr>"

definition available_text :: "EngineLibrary \<Rightarrow> string \<Rightarrow> string" where
  "available_text lib plugin_dir =
     fold (\<lambda>name text. (if text = [] then [] else text @ '', '') @ name) (realNeuriploAvailableBackends lib plugin_dir) []"

definition llm_tensor :: "string \<Rightarrow> TensorMetadata" where
  "llm_tensor name = \<lparr>tm_name = name, tm_datatype = ''BYTES'', tm_shape = [1]\<rparr>"

text \<open>The metadata of the model an engine holds; the second component is what is logged.\<close>

definition engine_metadata ::
  "ModelFiles \<Rightarrow> (string \<Rightarrow> BackendKind) \<Rightarrow> RuntimeConfig \<Rightarrow> Engine \<Rightarrow> (ModelMetadata \<times> string list) Call" where
  "engine_metadata files kind_of config engine =
     chain (en_get_inference_metadata engine) (\<lambda>(inputs, outputs).
       let metadata = empty_metadata\<lparr>mm_name := rc_model_name config, mm_versions := [''1''],
                        mm_platform := ''neuriplo_'' @ rc_backend config\<rparr>
       in if kind_of (rc_backend config) = LlmKind
          then Returns (metadata\<lparr>mm_inputs := [llm_tensor ''prompt''], mm_outputs := [llm_tensor ''text'']\<rparr>, [])
          else chain (extractDatatypes inputs) (\<lambda>in_types.
               chain (extractDatatypes outputs) (\<lambda>out_types.
               Returns (applyConfigPbtxt files (rc_model_path config)
                 (metadata\<lparr>mm_inputs := convertLayers inputs in_types, mm_outputs := convertLayers outputs out_types\<rparr>)))))"

text \<open>\<open>load\<close>: the adapter after it, the lines it logs and what it returns.\<close>

definition real_load ::
  "EngineLibrary \<Rightarrow> ModelFiles \<Rightarrow> (string \<Rightarrow> BackendKind) \<Rightarrow> RuntimeConfig \<Rightarrow> RealNeuriploAdapter \<Rightarrow>
     RealNeuriploAdapter \<times> string list \<times> ModelMetadata Call" where
  "real_load lib files kind_of config s =
     (case el_setup_inference_engine lib (engine_options config) of
        Throws m \<Rightarrow> (s, [], Throws m)
      | ThrowsOther \<Rightarrow> (s, [], ThrowsOther)
      | Returns None \<Rightarrow>
          (s\<lparr>ra_engine := None\<rparr>, [],
           Throws (''failed to load backend '' @ quoted (rc_backend config) @ '' (available in this process: '' @
             available_text lib (rc_plugin_dir config) @ '')''))
      | Returns (Some engine) \<Rightarrow>
          (case engine_metadata files kind_of config engine of
             Throws m \<Rightarrow> (s\<lparr>ra_engine := Some engine\<rparr>, [], Throws m)
           | ThrowsOther \<Rightarrow> (s\<lparr>ra_engine := Some engine\<rparr>, [], ThrowsOther)
           | Returns (metadata, lines) \<Rightarrow>
               (s\<lparr>ra_engine := Some engine, ra_output_metadata := mm_outputs metadata\<rparr>, lines, Returns metadata)))"

definition raw_output :: "TensorMetadata list \<Rightarrow> nat \<times> RawOutput \<Rightarrow> OutputTensor Call" where
  "raw_output metadata = (\<lambda>(i, raw).
     chain (tensorDtypeToKserve (ro_dtype raw)) (\<lambda>datatype.
       Returns \<lparr>ot_name = (if i < length metadata then tm_name (metadata ! i) else ''output_'' @ to_string i),
         ot_datatype = datatype, ot_shape = ro_shape raw, ot_bytes = ro_bytes raw, ot_string_data = []\<rparr>))"

definition real_infer :: "RealNeuriploAdapter \<Rightarrow> InputTensor list \<Rightarrow> NeuriploInferenceResult Call" where
  "real_infer s inputs =
     (case ra_engine s of
        None \<Rightarrow> Throws ''neuriplo engine is not loaded''
      | Some engine \<Rightarrow>
          chain (collect_calls tensorToBytes inputs) (\<lambda>backend_inputs.
          chain (en_get_infer_results_raw engine backend_inputs) (\<lambda>raw_outputs.
          chain (collect_calls (raw_output (ra_output_metadata s)) (enumerate 0 raw_outputs)) (\<lambda>outputs.
            Returns \<lparr>ni_ok = True, ni_error_message = [], ni_outputs = outputs\<rparr>))))"

text \<open>
  A character of the generated text: the element as a \<open>double\<close>, then as an \<open>unsigned char\<close>; \<open>None\<close> where that
  conversion is undefined.
\<close>

definition generated_char :: "ElementType \<times> nat \<Rightarrow> char option" where
  "generated_char element =
     map_option char_of (Option.bind (double_of_bits (fst element) (snd element)) (cast_double T_uint8))"

definition llm_failure :: "string \<Rightarrow> LlmInferenceResult" where
  "llm_failure message = \<lparr>nl_ok = False, nl_error_message = message, nl_outputs = [], nl_prompt_tokens = 0,
     nl_completion_tokens = 0, nl_finish_reason = []\<rparr>"

definition llm_text_result :: "string \<Rightarrow> string \<Rightarrow> LlmInferenceResult" where
  "llm_text_result prompt generated =
     \<lparr>nl_ok = True, nl_error_message = [],
      nl_outputs = [\<lparr>ot_name = ''text'', ot_datatype = ''BYTES'', ot_shape = [1], ot_bytes = [], ot_string_data = [generated]\<rparr>],
      nl_prompt_tokens = WhitespaceTokenizer_countTokens prompt,
      nl_completion_tokens = WhitespaceTokenizer_countTokens generated, nl_finish_reason = ''stop''\<rparr>"

text \<open>
  \<open>llmInfer\<close> with the pieces of text it passes to the callback; \<open>cancelled\<close> says that the request has a token
  and the token is set. \<open>None\<close> is undefined behaviour.
\<close>

definition real_llmInfer ::
  "RealNeuriploAdapter \<Rightarrow> bool \<Rightarrow> LlmInferenceParams \<Rightarrow> (LlmInferenceResult Call \<times> string list) option" where
  "real_llmInfer s cancelled params =
     (case ra_engine s of
        None \<Rightarrow> Some (Returns (llm_failure ''neuriplo engine is not loaded''), [])
      | Some engine \<Rightarrow>
          if cancelled then Some (Returns (llm_failure ''request cancelled before LLM inference''), [])
          else (case en_get_infer_results engine [text_bytes (np_prompt params)] of
                  Throws m \<Rightarrow> Some (Returns (llm_failure m), [])
                | ThrowsOther \<Rightarrow> Some (ThrowsOther, [])
                | Returns values \<Rightarrow>
                    map_option (\<lambda>generated.
                        (Returns (llm_text_result (np_prompt params) generated),
                         if np_streaming_callback params \<noteq> None \<and> generated \<noteq> [] then [generated] else []))
                      (those (map generated_char (case values of [] \<Rightarrow> [] | v # _ \<Rightarrow> v)))))"

text \<open>
  The adapter an executor holds, and the lines its load writes to the default logger: it loads once, when the
  executor is made, so that the later calls see the state after that load. \<open>undefined_run\<close> is what undefined
  behaviour does.
\<close>

definition real_adapter ::
  "EngineLibrary \<Rightarrow> ModelFiles \<Rightarrow> (string \<Rightarrow> BackendKind) \<Rightarrow> (LlmInferenceResult Call \<times> string list) \<Rightarrow> bool \<Rightarrow>
     RuntimeConfig \<Rightarrow> NeuriploAdapter \<times> string list" where
  "real_adapter lib files kind_of undefined_run cancelled config =
     (let (loaded, lines, _) = real_load lib files kind_of config makeRealNeuriploAdapter
      in (\<lparr>na_load = (\<lambda>c. snd (snd (real_load lib files kind_of c makeRealNeuriploAdapter))),
           na_infer = real_infer loaded,
           na_llmInfer = (\<lambda>params. case real_llmInfer loaded cancelled params of None \<Rightarrow> undefined_run | Some r \<Rightarrow> r)\<rparr>,
          lines))"

section \<open>A binary without the library\<close>

definition disabled_library :: NeuriploLibrary where
  "disabled_library = \<lparr>nb_enabled = False, nb_available = (\<lambda>_. []),
     nb_adapter = Throws ''real neuriplo support is not enabled; rebuild with NEURIPLO_RUNTIME_ENABLE_REAL_NEURIPLO=ON''\<rparr>"

end
