(* ===== verification/Real_Adapter_Props.thy ===== *)
theory Real_Adapter_Props
  imports Real_Adapter
begin

text \<open>
  What the real adapter does: a \<open>config.pbtxt\<close> that declares names and datatypes is read back to exactly those,
  tensors pass through it byte for byte, and generated text comes back as the engine produced it.
\<close>

section \<open>Searching\<close>

lemma word_then_hd: "word_then w sign s = Some r \<Longrightarrow> w \<noteq> [] \<Longrightarrow> s \<noteq> [] \<and> hd s = hd w"
  by (cases w; cases s) (auto simp: word_then_def startsWith_def split: if_splits)

lemma word_then_split:
  assumes "word_then w sign s = Some r"
  obtains sp where "s = w @ sp @ sign # r" "\<forall>c \<in> set sp. is_space c"
proof -
  let ?t = "drop (length w) s"
  from assms have "take (length w) s = w" "dropWhile is_space ?t = sign # r"
    by (auto simp: word_then_def startsWith_def split: if_splits list.splits)
  then have "s = w @ takeWhile is_space ?t @ sign # r"
    by (metis append_take_drop_id takeWhile_dropWhile_id)
  then show thesis by (rule that) (auto dest: set_takeWhileD)
qed

text \<open>A pattern that starts with a word and a sign.\<close>

definition starts_with_word :: "string \<Rightarrow> char \<Rightarrow> (string \<Rightarrow> 'a option) \<Rightarrow> bool" where
  "starts_with_word w sign m \<longleftrightarrow> w \<noteq> [] \<and> (\<forall>s. m s \<noteq> None \<longrightarrow> word_then w sign s \<noteq> None)"

lemma word_patterns [simp]:
  "starts_with_word ''name'' (CHR '':'') name_re" "starts_with_word ''data_type'' (CHR '':'') dtype_re"
  "w \<noteq> [] \<Longrightarrow> starts_with_word w sign (word_then w sign)"
  by (auto simp: starts_with_word_def name_re_def dtype_re_def split: option.splits)

lemma quoted_prefix: "set (takeWhile (\<lambda>d. d \<noteq> q) (xs @ q # b)) \<subseteq> set xs"
  by (induction xs) auto

text \<open>The search passes over text without the first character of the word, and over a quoted name.\<close>

lemma search_plain:
  assumes "starts_with_word w sign m" "hd w \<notin> set p"
  shows "regex_search m (p @ b) = regex_search m b"
  using assms(2)
proof (induction p)
  case (Cons c p)
  then have "m (c # p @ b) = None"
    using assms(1) by (auto simp: starts_with_word_def dest!: word_then_hd)
  with Cons show ?case by simp
qed simp

lemma search_name:
  assumes "starts_with_word w sign m" "CHR 0x22 \<notin> set w" "sign \<noteq> CHR 0x22" "sign \<notin> set n"
  shows "regex_search m (n @ CHR 0x22 # b) = regex_search m (CHR 0x22 # b)"
  using assms(4)
proof (induction n)
  case (Cons c n)
  have "m ((c # n) @ CHR 0x22 # b) = None"
  proof (rule ccontr)
    assume "m ((c # n) @ CHR 0x22 # b) \<noteq> None"
    then obtain r where r: "word_then w sign ((c # n) @ CHR 0x22 # b) = Some r"
      using assms(1) unfolding starts_with_word_def by blast
    from r obtain sp where split: "(c # n) @ CHR 0x22 # b = w @ sp @ sign # r" and sp: "\<forall>c \<in> set sp. is_space c"
      by (rule word_then_split)
    have eq: "(c # n) @ CHR 0x22 # b = (w @ sp) @ sign # r" unfolding split by (simp only: append_assoc)
    have "\<not> is_space (CHR 0x22)" by (simp add: is_space_def)
    then have "CHR 0x22 \<notin> set (w @ sp)" using assms(2) sp by auto
    then have "takeWhile (\<lambda>d. d \<noteq> CHR 0x22) ((w @ sp) @ sign # r) = (w @ sp) @ takeWhile (\<lambda>d. d \<noteq> CHR 0x22) (sign # r)"
      by (intro takeWhile_append2) auto
    then have "sign \<in> set (takeWhile (\<lambda>d. d \<noteq> CHR 0x22) ((w @ sp) @ sign # r))" using assms(3) by simp
    moreover have "set (takeWhile (\<lambda>d. d \<noteq> CHR 0x22) ((c # n) @ CHR 0x22 # b)) \<subseteq> set (c # n)"
      by (rule quoted_prefix)
    ultimately show False using Cons.prems unfolding eq by blast
  qed
  with Cons show ?case by simp
qed simp

section \<open>Printed configurations\<close>

text \<open>One tensor of a configuration, the section of a key, and a configuration, as they are usually written.\<close>

definition dims_text :: "int64_t list \<Rightarrow> string" where
  "dims_text dims = concat (map (\<lambda>d. int_text d @ '' '') dims)"

definition tensor_body :: "string \<times> string \<times> int64_t list \<Rightarrow> string" where
  "tensor_body t = (case t of (name, type, dims) \<Rightarrow>
     '' name: '' @ [CHR 0x22] @ name @ [CHR 0x22] @ '' data_type: TYPE_'' @ type @ '' dims: [ '' @ dims_text dims @ ''] '')"

definition object_text :: "string \<times> string \<times> int64_t list \<Rightarrow> string" where
  "object_text t = '' {'' @ tensor_body t @ ''}''"

definition section_text :: "string \<Rightarrow> (string \<times> string \<times> int64_t list) list \<Rightarrow> string" where
  "section_text key ts = key @ '' ['' @ concat (map object_text ts) @ '' ]''"

definition plain_name :: "string \<Rightarrow> bool" where
  "plain_name n \<longleftrightarrow> n \<noteq> [] \<and> set n \<inter> set ''[]{}:#'' = {} \<and> CHR 0x22 \<notin> set n"

definition kserve_type :: "string \<Rightarrow> bool" where
  "kserve_type t \<longleftrightarrow> t \<in> {''FP32'', ''FP16'', ''INT64'', ''INT32'', ''INT8'', ''UINT8'', ''BOOL''}"

definition printable :: "string \<times> string \<times> int64_t list \<Rightarrow> bool" where
  "printable t \<longleftrightarrow> plain_name (fst t) \<and> kserve_type (fst (snd t))"

lemma to_string_digits: "c \<in> set (to_string n) \<Longrightarrow> is_digit c"
proof (induction n rule: to_string.induct)
  case (1 n)
  have digit: "is_digit (digit_char d)" if "d < 10" for d
    using that by (simp add: digit_char_def is_digit_def)
  show ?case
  proof (cases "n < 10")
    case True
    with 1(2) digit show ?thesis by (simp add: to_string.simps [of n])
  next
    case False
    with 1 digit [of "n mod 10"] show ?thesis by (auto simp: to_string.simps [of n])
  qed
qed

lemma dims_text_chars: "c \<in> set (dims_text dims) \<Longrightarrow> is_digit c \<or> c = CHR ''-'' \<or> c = CHR '' ''"
  using to_string_digits by (fastforce simp: dims_text_def int_text_def split: if_splits)

section \<open>Reading a printed configuration\<close>

lemma kserve_type_chars: "kserve_type t \<Longrightarrow> t \<noteq> [] \<and> (\<forall>c \<in> set t. type_char c)"
  by (auto simp: kserve_type_def type_char_def is_digit_def)

lemma kserve_type_known: "kserve_type t \<Longrightarrow> pbtxtTypeToKserve (''TYPE_'' @ t) = t"
  by (auto simp: kserve_type_def pbtxtTypeToKserve_def)

lemma type_char_plain: "type_char c \<Longrightarrow> c \<notin> set ''[]{}:# od'' \<and> c \<noteq> CHR 0x22"
  by (auto simp: type_char_def is_digit_def)

lemma dims_plain: "set (dims_text dims) \<inter> set ''[]{}:#od'' = {}" "CHR 0x22 \<notin> set (dims_text dims)"
  by (auto dest!: dims_text_chars simp: is_digit_def)

lemma takeWhile_stop: "\<forall>c \<in> set xs. P c \<Longrightarrow> \<not> P y \<Longrightarrow> takeWhile P (xs @ y # ys) = xs"
  by (subst takeWhile_append2) auto

lemma read_tensor:
  assumes "printable (n, t, dims)"
  shows "pbtxt_tensor (tensor_body (n, t, dims)) = \<lparr>pt_name = n, pt_datatype = t\<rparr>"
proof -
  let ?tail = "'' dims: [ '' @ dims_text dims @ ''] ''"
  let ?typed = "''data_type: TYPE_'' @ t @ ?tail"
  have n: "CHR 0x22 \<notin> set n" "CHR '':'' \<notin> set n" and t: "kserve_type t"
    using assms by (auto simp: printable_def plain_name_def)
  have body: "tensor_body (n, t, dims) = '' '' @ ''name: '' @ [CHR 0x22] @ n @ CHR 0x22 # '' '' @ ?typed"
    by (simp add: tensor_body_def)
  have "takeWhile (\<lambda>d. d \<noteq> CHR 0x22) (n @ CHR 0x22 # '' '' @ ?typed) = n"
    using n(1) by (intro takeWhile_stop) auto
  then have "name_re (''name: '' @ [CHR 0x22] @ n @ CHR 0x22 # '' '' @ ?typed) = Some n"
    by (simp add: name_re_def word_then_def startsWith_def is_space_def)
  then have "regex_search name_re (''name: '' @ [CHR 0x22] @ n @ CHR 0x22 # '' '' @ ?typed) = Some n" by simp
  then have name: "regex_search name_re (tensor_body (n, t, dims)) = Some n"
    unfolding body by (subst search_plain [of "''name''" "CHR '':''"]) simp_all
  have "takeWhile type_char (t @ ?tail) = t"
    using kserve_type_chars [OF t] takeWhile_stop [of t type_char "CHR '' ''" "drop 1 ?tail"]
    by (simp add: type_char_def is_digit_def)
  then have "dtype_re ?typed = Some (''TYPE_'' @ t)"
    using kserve_type_chars [OF t] by (simp add: dtype_re_def word_then_def startsWith_def is_space_def Let_def)
  then have "regex_search dtype_re ?typed = Some (''TYPE_'' @ t)" by simp
  then have "regex_search dtype_re (CHR 0x22 # '' '' @ ?typed) = Some (''TYPE_'' @ t)"
    using search_plain [of "''data_type''" "CHR '':''" dtype_re "CHR 0x22 # '' ''" ?typed] by simp
  then have "regex_search dtype_re (n @ CHR 0x22 # '' '' @ ?typed) = Some (''TYPE_'' @ t)"
    using n(2) by (subst search_name [of "''data_type''" "CHR '':''"]) simp_all
  then have "regex_search dtype_re (tensor_body (n, t, dims)) = Some (''TYPE_'' @ t)"
    using search_plain [of "''data_type''" "CHR '':''" dtype_re "'' name: '' @ [CHR 0x22]" "n @ CHR 0x22 # '' '' @ ?typed"]
    unfolding body by simp
  with name show ?thesis using kserve_type_known [OF t] by (simp add: pbtxt_tensor_def)
qed

lemma until_closed_plain:
  "opening \<notin> set p \<Longrightarrow> closing \<notin> set p \<Longrightarrow> 0 < depth \<Longrightarrow>
     until_closed opening closing depth (p @ b) = map_option (\<lambda>(x, r). (p @ x, r)) (until_closed opening closing depth b)"
  by (induction p) (cases "until_closed opening closing depth b"; auto simp: Let_def)+

lemma objects_plain: "CHR ''{'' \<notin> set p \<Longrightarrow> pbtxt_objects (p @ b) = pbtxt_objects b"
  by (induction p) auto

lemma body_plain:
  assumes "printable t" "c \<in> {CHR ''{'', CHR ''}'', CHR ''#''}"
  shows "c \<notin> set (tensor_body t)"
proof -
  obtain n ty dims where t: "t = (n, ty, dims)" by (cases t)
  have "c \<notin> set n" "c \<notin> set ty" "c \<notin> set (dims_text dims)"
    using assms kserve_type_chars [of ty] type_char_plain dims_plain(1) [of dims]
    by (auto simp: t printable_def plain_name_def)
  with assms(2) show ?thesis by (auto simp: t tensor_body_def)
qed

lemma objects_printed:
  "\<forall>t \<in> set ts. printable t \<Longrightarrow> pbtxt_objects (concat (map object_text ts) @ '' '') = map tensor_body ts"
proof (induction ts)
  case Nil
  then show ?case by simp
next
  case (Cons t ts)
  let ?rest = "concat (map object_text ts) @ '' ''"
  have "until_closed (CHR ''{'') (CHR ''}'') (Suc 0) (tensor_body t @ CHR ''}'' # ?rest) = Some (tensor_body t, ?rest)"
    using Cons.prems body_plain [of t] by (subst until_closed_plain) simp_all
  with Cons show ?case by (simp add: object_text_def [of t])
qed

lemma object_split:
  "object_text (n, t, dims) = '' { name: '' @ [CHR 0x22] @ n @ CHR 0x22 # ('' data_type: TYPE_'' @ t @ '' dims: '') @
     CHR ''['' # ('' '' @ dims_text dims) @ CHR '']'' # '' }''"
  by (simp add: object_text_def tensor_body_def)

text \<open>The brackets of the dimensions are balanced, so that the section goes on after an object.\<close>

lemma until_closed_object:
  assumes "printable t"
  shows "until_closed (CHR ''['') (CHR '']'') (Suc 0) (object_text t @ b) =
    map_option (\<lambda>(x, r). (object_text t @ x, r)) (until_closed (CHR ''['') (CHR '']'') (Suc 0) b)"
proof -
  obtain n ty dims where t: "t = (n, ty, dims)" by (cases t)
  define p where "p = '' { name: '' @ [CHR 0x22] @ n @ CHR 0x22 # ('' data_type: TYPE_'' @ ty @ '' dims: '')"
  define d where "d = '' '' @ dims_text dims"
  define q where "q = '' }''"
  have plain: "c \<notin> set p" "c \<notin> set d" "c \<notin> set q" if "c \<in> {CHR ''['', CHR '']''}" for c
    using that assms kserve_type_chars [of ty] type_char_plain dims_plain(1) [of dims]
    by (auto simp: t printable_def plain_name_def p_def d_def q_def)
  have o: "object_text t = p @ CHR ''['' # d @ CHR '']'' # q" by (simp add: t object_split p_def d_def q_def)
  show ?thesis
    unfolding o append_assoc append_Cons
    using plain by (cases "until_closed (CHR ''['') (CHR '']'') (Suc 0) b") (auto simp: until_closed_plain Let_def)
qed

lemma until_closed_objects:
  "\<forall>t \<in> set ts. printable t \<Longrightarrow>
     until_closed (CHR ''['') (CHR '']'') (Suc 0) (concat (map object_text ts) @ '' ]'' @ b) =
     Some (concat (map object_text ts) @ '' '', b)"
proof (induction ts)
  case (Cons t ts)
  then have "until_closed (CHR ''['') (CHR '']'') (Suc 0) (concat (map object_text (t # ts)) @ '' ]'' @ b) =
      map_option (\<lambda>(x, r). (object_text t @ x, r))
        (until_closed (CHR ''['') (CHR '']'') (Suc 0) (concat (map object_text ts) @ '' ]'' @ b))"
    using until_closed_object [of t] by simp
  with Cons show ?case by simp
qed simp

lemma extract_first:
  assumes "\<forall>t \<in> set ts. printable t" "key \<noteq> []"
  shows "extractBracketSection (section_text key ts @ b) key = Some (concat (map object_text ts) @ '' '')"
proof -
  have "word_then key (CHR ''['') (section_text key ts @ b) = Some (concat (map object_text ts) @ '' ]'' @ b)"
    by (simp add: section_text_def word_then_def startsWith_def is_space_def)
  then have "regex_search (word_then key (CHR ''['')) (section_text key ts @ b) = Some (concat (map object_text ts) @ '' ]'' @ b)"
    by (cases "section_text key ts @ b") simp_all
  then show ?thesis using until_closed_objects [OF assms(1), of b] by (simp add: extractBracketSection_def)
qed

lemma search_object:
  assumes "printable t"
  shows "regex_search (word_then ''output'' (CHR ''['')) (object_text t @ b) = regex_search (word_then ''output'' (CHR ''['')) b"
proof -
  obtain n ty dims where t: "t = (n, ty, dims)" by (cases t)
  let ?m = "word_then ''output'' (CHR ''['')"
  let ?q = "CHR 0x22 # '' data_type: TYPE_'' @ ty @ '' dims: [ '' @ dims_text dims @ ''] }''"
  have "CHR ''o'' \<notin> set ?q"
    using assms kserve_type_chars [of ty] type_char_plain dims_plain(1) [of dims] by (auto simp: t printable_def)
  then have q: "regex_search ?m (?q @ b) = regex_search ?m b"
    by (intro search_plain [of "''output''" "CHR ''[''"]) simp_all
  have "CHR ''['' \<notin> set n" using assms by (auto simp: t printable_def plain_name_def)
  then have "regex_search ?m (n @ ?q @ b) = regex_search ?m (?q @ b)"
    using search_name [of "''output''" "CHR ''[''" ?m n "tl ?q @ b"] by simp
  moreover have "regex_search ?m (('' { name: '' @ [CHR 0x22]) @ n @ ?q @ b) = regex_search ?m (n @ ?q @ b)"
    by (rule search_plain [of "''output''" "CHR ''[''"]) simp_all
  ultimately show ?thesis using q by (simp add: t object_text_def tensor_body_def)
qed

lemma search_objects:
  "\<forall>t \<in> set ts. printable t \<Longrightarrow> regex_search (word_then ''output'' (CHR ''['')) (concat (map object_text ts) @ b) =
     regex_search (word_then ''output'' (CHR ''['')) b"
  by (induction ts) (simp_all add: search_object)

text \<open>A key is not found in text without an opening bracket before another section.\<close>

lemma search_unbracketed:
  assumes "CHR ''['' \<notin> set p" "CHR ''['' \<notin> set key" "key \<noteq> []" "\<not> is_space (last key)"
    and "w \<noteq> []" "CHR ''['' \<notin> set w" "\<not> is_space (last w)" "\<And>q. q \<noteq> [] \<Longrightarrow> w \<noteq> q @ key"
  shows "regex_search (word_then w (CHR ''['')) (p @ key @ '' ['' @ b) = regex_search (word_then w (CHR ''['')) (key @ '' ['' @ b)"
  using assms(1)
proof (induction p)
  case (Cons c p)
  let ?u = "(c # p) @ key"
  have "word_then w (CHR ''['') (?u @ '' ['' @ b) = None"
  proof (rule ccontr)
    assume "word_then w (CHR ''['') (?u @ '' ['' @ b) \<noteq> None"
    then obtain r where "word_then w (CHR ''['') (?u @ '' ['' @ b) = Some r" by blast
    then obtain sp where eq: "?u @ '' ['' @ b = w @ sp @ CHR ''['' # r" and sp: "\<forall>c \<in> set sp. is_space c"
      by (rule word_then_split)
    have "\<not> is_space (CHR ''['')" by (simp add: is_space_def)
    with sp have "CHR ''['' \<notin> set sp" by blast
    then have "takeWhile (\<lambda>d. d \<noteq> CHR ''['') ((w @ sp) @ CHR ''['' # r) = w @ sp"
      using assms(6) by (intro takeWhile_stop) auto
    moreover have "takeWhile (\<lambda>d. d \<noteq> CHR ''['') ((?u @ '' '') @ CHR ''['' # b) = ?u @ '' ''"
      using Cons.prems assms(2) by (intro takeWhile_stop) auto
    moreover have "(?u @ '' '') @ CHR ''['' # b = (w @ sp) @ CHR ''['' # r" using eq by simp
    ultimately have same: "?u @ '' '' = w @ sp" by metis
    have cut: "dropWhile is_space (rev sp' @ rev x) = rev x" if "\<forall>c \<in> set sp'. is_space c" "x \<noteq> []" "\<not> is_space (last x)" for sp' x
      using that by (subst dropWhile_append2) (auto simp: dropWhile_eq_self_iff hd_rev)
    have "rev ?u = dropWhile is_space (rev '' '' @ rev ?u)"
      by (rule sym, rule cut) (use assms(3,4) in \<open>simp_all add: is_space_def\<close>)
    also have "\<dots> = dropWhile is_space (rev sp @ rev w)" using same by (metis rev_append)
    also have "\<dots> = rev w" by (rule cut) (use assms(5,7) sp in simp_all)
    finally have "w = ?u" by (metis rev_rev_ident)
    with assms(8) [of "c # p"] show False by simp
  qed
  with Cons show ?case by simp
qed simp

lemma extract_input:
  assumes "\<forall>t \<in> set ins. printable t" "CHR ''['' \<notin> set a"
  shows "extractBracketSection (a @ section_text ''input'' ins @ b) ''input'' = Some (concat (map object_text ins) @ '' '')"
proof -
  have "regex_search (word_then ''input'' (CHR ''['')) (a @ ''input'' @ '' ['' @ r) =
      regex_search (word_then ''input'' (CHR ''['')) (''input'' @ '' ['' @ r)" for r
    by (rule search_unbracketed) (use assms(2) in \<open>simp_all add: is_space_def Cons_eq_append_conv\<close>)
  then have "regex_search (word_then ''input'' (CHR ''['')) (a @ section_text ''input'' ins @ b) =
      regex_search (word_then ''input'' (CHR ''['')) (section_text ''input'' ins @ b)"
    by (simp only: section_text_def append_assoc)
  then show ?thesis using extract_first [OF assms(1), of "''input''" b] by (simp add: extractBracketSection_def)
qed

lemma extract_output:
  assumes "\<forall>t \<in> set ins. printable t" "\<forall>t \<in> set outs. printable t" "CHR ''['' \<notin> set a" "CHR ''['' \<notin> set m"
  shows "extractBracketSection (a @ section_text ''input'' ins @ m @ section_text ''output'' outs @ z) ''output'' =
    Some (concat (map object_text outs) @ '' '')"
proof -
  let ?m = "word_then ''output'' (CHR ''['')"
  let ?out = "section_text ''output'' outs @ z"
  have other: "''output'' \<noteq> q @ ''input''" for q by (simp add: Cons_eq_append_conv)
  have "regex_search ?m (a @ ''input'' @ '' ['' @ r) = regex_search ?m (''input'' @ '' ['' @ r)" for r
    by (rule search_unbracketed) (use assms(3) other in \<open>simp_all add: is_space_def\<close>)
  then have "regex_search ?m (a @ section_text ''input'' ins @ m @ ?out) =
      regex_search ?m (''input ['' @ concat (map object_text ins) @ '' ]'' @ m @ ?out)"
    by (simp add: section_text_def)
  also have "\<dots> = regex_search ?m (concat (map object_text ins) @ '' ]'' @ m @ ?out)"
    by (rule search_plain [of "''output''" "CHR ''[''"]) simp_all
  also have "\<dots> = regex_search ?m ('' ]'' @ m @ ?out)" by (rule search_objects [OF assms(1)])
  also have "\<dots> = regex_search ?m (m @ ?out)"
    by (rule search_plain [of "''output''" "CHR ''[''"]) simp_all
  also have "regex_search ?m (m @ ''output'' @ '' ['' @ r) = regex_search ?m (''output'' @ '' ['' @ r)" for r
    by (rule search_unbracketed) (use assms(4) in \<open>simp_all add: is_space_def Cons_eq_append_conv\<close>)
  then have "regex_search ?m (m @ ?out) = regex_search ?m ?out"
    by (simp only: section_text_def append_assoc)
  finally show ?thesis using extract_first [OF assms(2), of "''output''" z] by (simp add: extractBracketSection_def)
qed

lemma strip_plain: "CHR ''#'' \<notin> set s \<Longrightarrow> strip_comments in_string s = s"
  by (induction s arbitrary: in_string) (auto simp: Let_def)

lemma section_no_comment:
  assumes "\<forall>t \<in> set ts. printable t" "CHR ''#'' \<notin> set key"
  shows "CHR ''#'' \<notin> set (section_text key ts)"
  using assms body_plain [of _ "CHR ''#''"] by (auto simp: section_text_def object_text_def)

lemma parse_printed:
  assumes "\<forall>t \<in> set ts. printable t"
  shows "parsePbtxtTensors (concat (map object_text ts) @ '' '') = map (\<lambda>(n, t, dims). \<lparr>pt_name = n, pt_datatype = t\<rparr>) ts"
proof -
  have "map (pbtxt_tensor \<circ> tensor_body) ts = map (\<lambda>(n, t, dims). \<lparr>pt_name = n, pt_datatype = t\<rparr>) ts"
    using assms read_tensor by auto
  moreover have "pt_name x \<noteq> []" if "x \<in> set (map (\<lambda>(n, t, dims). \<lparr>pt_name = n, pt_datatype = t\<rparr>) ts)" for x
    using that assms by (auto simp: printable_def plain_name_def)
  ultimately show ?thesis
    by (simp add: parsePbtxtTensors_def objects_printed [OF assms] filter_id_conv)
qed

section \<open>Calls\<close>

lemma collect_calls_Returns: "(\<And>x. x \<in> set xs \<Longrightarrow> f x = Returns (g x)) \<Longrightarrow> collect_calls f xs = Returns (map g xs)"
  by (induction xs) simp_all

lemma generated_char_of:
  assumes "double_of_bits T b = Some (of_nat (of_char c))"
  shows "generated_char (T, b) = Some c"
proof -
  have "(of_char c :: nat) < 256" by simp
  moreover have "trunc (of_nat n) = int n" for n using trunc_of_int [of "int n"] by simp
  ultimately have "cast_double T_uint8 (of_nat (of_char c)) = Some (of_char c)" by (simp add: cast_double_def nat_mod_as_int)
  then show ?thesis using assms by (simp add: generated_char_def)
qed

section \<open>Properties\<close>


text \<open>A file with a comment, a field before the sections and one after them.\<close>

definition demo_pbtxt :: string where
  "demo_pbtxt = ''# tensors'' @ [CHR 0x0A] @ ''max_batch_size: 8 '' @ section_text ''input'' [(''pixels'', ''UINT8'', [1])] @ [CHR 0x0A] @
     section_text ''output'' [(''output_scores'', ''FP32'', [10])] @ '' dynamic_batching { }''"

definition demo_files :: ModelFiles where
  "demo_files = \<lparr>mf_is_regular_file = (\<lambda>p. p = ''m/config.pbtxt''), mf_read = (\<lambda>_. Some demo_pbtxt)\<rparr>"


text \<open>
  (C28) Generated text comes back as the engine produced it: when the engine answers the bytes of the prompt
  with the codes of a text, as integers or as floats, the response has that text as its one tensor, streams it in
  one piece and counts its words, and a request that is cancelled before never reaches the engine.
\<close>

theorem generated_text_comes_back:
  assumes "ra_engine s = Some engine"
    and "en_get_infer_results engine [text_bytes (np_prompt params)] = Returns (codes # further)"
    and "list_all2 (\<lambda>code c. double_of_bits (fst code) (snd code) = Some (of_nat (of_char c))) codes generated"
  shows "real_llmInfer s False params = Some (Returns
      \<lparr>nl_ok = True, nl_error_message = [],
       nl_outputs = [\<lparr>ot_name = ''text'', ot_datatype = ''BYTES'', ot_shape = [1], ot_bytes = [], ot_string_data = [generated]\<rparr>],
       nl_prompt_tokens = WhitespaceTokenizer_countTokens (np_prompt params),
       nl_completion_tokens = WhitespaceTokenizer_countTokens generated, nl_finish_reason = ''stop''\<rparr>,
      if np_streaming_callback params \<noteq> None \<and> generated \<noteq> [] then [generated] else []) \<and>
    real_llmInfer (s\<lparr>ra_engine := Some other\<rparr>) True params =
      Some (Returns (llm_failure ''request cancelled before LLM inference''), [])"
proof -
  have "those (map generated_char codes) = Some generated"
    using assms(3) by (induction rule: list_all2_induct) (auto simp: generated_char_of)
  then show ?thesis using assms(1,2) by (simp add: real_llmInfer_def llm_text_result_def)
qed

definition demo_engine :: Engine where
  "demo_engine = \<lparr>en_get_inference_metadata = Returns ([], []), en_get_infer_results_raw = (\<lambda>_. Returns []),
     en_get_infer_results = (\<lambda>_. Returns [[(T_int32, 104), (T_int64, 105)]])\<rparr>"

theorem generated_text_comes_back_witness:
  "\<exists>r pieces. real_llmInfer \<lparr>ra_engine = Some demo_engine, ra_output_metadata = []\<rparr> False
     \<lparr>np_prompt = ''say hi'', np_max_tokens = 1, np_temperature = 0, np_top_p = 0, np_top_k = 0, np_cancel_token = None,
      np_streaming_callback = Some 0\<rparr> = Some (Returns r, pieces) \<and> pieces = [''hi''] \<and> nl_prompt_tokens r = 2"
proof -
  let ?params = "\<lparr>np_prompt = ''say hi'', np_max_tokens = 1, np_temperature = 0, np_top_p = 0, np_top_k = 0, np_cancel_token = None,
      np_streaming_callback = Some 0\<rparr>"
  have "double_of_bits T_int32 104 = Some 104" "double_of_bits T_int64 105 = Some 105"
    using double_of_int_exact [of 104] double_of_int_exact [of 105] by (simp_all add: double_of_bits_def)
  then have "list_all2 (\<lambda>code c. double_of_bits (fst code) (snd code) = Some (of_nat (of_char c)))
      [(T_int32, 104), (T_int64, 105)] ''hi''" by simp
  then show ?thesis
    using generated_text_comes_back [of "\<lparr>ra_engine = Some demo_engine, ra_output_metadata = []\<rparr>" demo_engine ?params
        "[(T_int32, 104), (T_int64, 105)]" "[]" "''hi''"]
    by (simp add: demo_engine_def WhitespaceTokenizer_countTokens_def is_separator_def)
qed

text \<open>
  Tensors pass through the adapter byte for byte: typed inputs reach the engine as they are, and the outputs are
  those of the engine under the names of the metadata.
\<close>

theorem tensors_pass_through:
  assumes "ra_engine s = Some engine" "\<forall>t \<in> set inputs. it_datatype t \<noteq> ''BYTES'' \<and> tensorElementSize (it_datatype t) \<noteq> 0"
    and "en_get_infer_results_raw engine (map it_bytes inputs) = Returns raws" "\<forall>raw \<in> set raws. ro_dtype raw \<noteq> TD_Unknown"
  shows "\<exists>outputs. real_infer s inputs = Returns \<lparr>ni_ok = True, ni_error_message = [], ni_outputs = outputs\<rparr> \<and>
    map ot_bytes outputs = map ro_bytes raws \<and> map ot_shape outputs = map ro_shape raws \<and>
    (\<forall>i < length raws. i < length (ra_output_metadata s) \<longrightarrow> ot_name (outputs ! i) = tm_name (ra_output_metadata s ! i))"
proof -
  have ins: "collect_calls tensorToBytes inputs = Returns (map it_bytes inputs)"
    using assms(2) by (intro collect_calls_Returns) (simp add: tensorToBytes_def)
  define g :: "nat \<times> RawOutput \<Rightarrow> OutputTensor" where "g = (\<lambda>(i, raw). \<lparr>ot_name = (if i < length (ra_output_metadata s) then tm_name (ra_output_metadata s ! i)
      else ''output_'' @ to_string i), ot_datatype = (case tensorDtypeToKserve (ro_dtype raw) of Returns d \<Rightarrow> d | _ \<Rightarrow> []),
      ot_shape = ro_shape raw, ot_bytes = ro_bytes raw, ot_string_data = []\<rparr>)"
  have known: "\<exists>d. tensorDtypeToKserve dtype = Returns d" if "dtype \<noteq> TD_Unknown" for dtype
    using that by (cases dtype) simp_all
  have "raw_output (ra_output_metadata s) x = Returns (g x)" if "x \<in> set (enumerate 0 raws)" for x
  proof -
    have "snd x \<in> set raws" using that by (metis enumerate_eq_zip set_zip_rightD prod.collapse)
    then have "ro_dtype (snd x) \<noteq> TD_Unknown" using assms(4) by blast
    with known obtain d where "tensorDtypeToKserve (ro_dtype (snd x)) = Returns d" by blast
    then show ?thesis by (simp add: raw_output_def g_def case_prod_beta)
  qed
  then have "collect_calls (raw_output (ra_output_metadata s)) (enumerate 0 raws) = Returns (map g (enumerate 0 raws))"
    by (rule collect_calls_Returns)
  then have "real_infer s inputs = Returns \<lparr>ni_ok = True, ni_error_message = [], ni_outputs = map g (enumerate 0 raws)\<rparr>"
    using assms(1,3) ins by (simp add: real_infer_def)
  moreover have "map ot_bytes (map g (enumerate 0 raws)) = map ro_bytes raws" "map ot_shape (map g (enumerate 0 raws)) = map ro_shape raws"
    by (rule nth_equalityI; simp add: g_def nth_enumerate_eq)+
  ultimately show ?thesis by (intro exI [of _ "map g (enumerate 0 raws)"]) (simp add: g_def nth_enumerate_eq)
qed

text \<open>
  The section of a key is not always that of a top-level key: a field whose name ends with the key is taken for
  it when it comes first. And the name of a tensor is the first quoted text after a field whose name ends with
  \<open>name\<close>.
\<close>

lemma control_input_is_taken:
  "extractBracketSection ''control_input [ a ] input [ b ]'' ''input'' = Some '' a ''"
  by (simp add: extractBracketSection_def word_then_def startsWith_def is_space_def)

lemma label_filename_is_taken:
  "pt_name (pbtxt_tensor ('' label_filename: '' @ [CHR 0x22] @ ''labels.txt'' @ [CHR 0x22] @ '' name: '' @ [CHR 0x22] @ ''probs'' @
     [CHR 0x22])) = ''labels.txt''"
  by (simp add: pbtxt_tensor_def name_re_def word_then_def startsWith_def is_space_def)

end
