(* ===== verification/Http_Server.thy ===== *)
theory Http_Server
  imports Http
begin

text \<open>
  The threads of \<open>HttpServer.cpp\<close>: the accept loop of \<open>run\<close>, the client threads it starts and joins, and \<open>stop\<close>,
  which another thread may call at any time. What the system calls do is chosen by the step; a connection is a
  number, in the order of \<open>accept\<close>, and a client thread is one step, which receives, handles and answers.
\<close>

section \<open>States\<close>

text \<open>
  Where \<open>run\<close> is: before it, between its system calls, after \<open>listen\<close> and before \<open>running_ = true\<close>, at the head of its
  loop, in \<open>accept\<close>, joining the threads it still has to wait for, or left.
\<close>

datatype RunPhase =
  NotStarted | SettingUp | Listening | LoopHead | InAccept | Joining "nat list" | Returned | RunThrew string

record 's HttpServer =
  hs_running :: bool
  hs_server_fd :: "nat option" \<comment> \<open>\<open>None\<close> is \<open>-1\<close>\<close>
  hs_client_threads :: "nat list"
  hs_phase :: RunPhase
  hs_live :: "nat list" \<comment> \<open>the client threads that have not ended\<close>
  hs_next :: nat
  hs_sent :: "(nat \<times> string list) list" \<comment> \<open>what each connection was sent, in the order in which they ended\<close>
  hs_app :: 's \<comment> \<open>the state the handler works on\<close>
  hs_killed :: bool \<comment> \<open>the process has ended\<close>

definition newHttpServer :: "'s \<Rightarrow> 's HttpServer" where
  "newHttpServer app = \<lparr>hs_running = False, hs_server_fd = None, hs_client_threads = [], hs_phase = NotStarted, hs_live = [],
     hs_next = 0, hs_sent = [], hs_app = app, hs_killed = False\<rparr>"

definition http_stop :: "'s HttpServer \<Rightarrow> 's HttpServer" where
  "http_stop s = s\<lparr>hs_running := False, hs_server_fd := None\<rparr>"

text \<open>\<open>client_threads_.emplace_back\<close> under the lock.\<close>

definition start_client :: "'s HttpServer \<Rightarrow> 's HttpServer" where
  "start_client s = s\<lparr>hs_client_threads := hs_client_threads s @ [hs_next s], hs_live := hs_live s @ [hs_next s],
     hs_next := hs_next s + 1, hs_phase := LoopHead\<rparr>"

definition end_client :: "nat \<Rightarrow> string list \<Rightarrow> 's \<Rightarrow> 's HttpServer \<Rightarrow> 's HttpServer" where
  "end_client c texts app s = s\<lparr>hs_live := removeAll c (hs_live s), hs_sent := hs_sent s @ [(c, texts)], hs_app := app\<rparr>"

section \<open>Steps\<close>

text \<open>
  The steps of the server's own threads. An exception that leaves a client thread ends the process, and so does
  SIGPIPE, which \<open>send\<close> without \<open>MSG_NOSIGNAL\<close> raises when the client is gone.
\<close>

inductive server_step ::
  "(Json \<Rightarrow> string + string) \<Rightarrow> (HttpRequest \<Rightarrow> ('s, 's HttpResponse) run) \<Rightarrow> size_t \<Rightarrow> 's HttpServer \<Rightarrow> 's HttpServer \<Rightarrow> bool"
  for dump handler max_request_bytes where
  socket_fails: "\<not> hs_killed s \<Longrightarrow> hs_phase s = NotStarted \<Longrightarrow>
    server_step dump handler max_request_bytes s (s\<lparr>hs_phase := RunThrew message\<rparr>)"
| socket_opens: "\<not> hs_killed s \<Longrightarrow> hs_phase s = NotStarted \<Longrightarrow>
    server_step dump handler max_request_bytes s (s\<lparr>hs_server_fd := Some fd, hs_phase := SettingUp\<rparr>)"
| set_up_fails: "\<not> hs_killed s \<Longrightarrow> hs_phase s = SettingUp \<Longrightarrow>
    server_step dump handler max_request_bytes s (s\<lparr>hs_phase := RunThrew message\<rparr>)"
| set_up_done: "\<not> hs_killed s \<Longrightarrow> hs_phase s = SettingUp \<Longrightarrow> hs_server_fd s = Some fd \<Longrightarrow>
    server_step dump handler max_request_bytes s (s\<lparr>hs_phase := Listening\<rparr>)"
| start_loop: "\<not> hs_killed s \<Longrightarrow> hs_phase s = Listening \<Longrightarrow>
    server_step dump handler max_request_bytes s (s\<lparr>hs_running := True, hs_phase := LoopHead\<rparr>)"
| enter_accept: "\<not> hs_killed s \<Longrightarrow> hs_phase s = LoopHead \<Longrightarrow> hs_running s \<Longrightarrow>
    server_step dump handler max_request_bytes s (s\<lparr>hs_phase := InAccept\<rparr>)"
| accept_fails: "\<not> hs_killed s \<Longrightarrow> hs_phase s = InAccept \<Longrightarrow>
    server_step dump handler max_request_bytes s (s\<lparr>hs_phase := LoopHead\<rparr>)"
| accepts: "\<not> hs_killed s \<Longrightarrow> hs_phase s = InAccept \<Longrightarrow> hs_server_fd s = Some fd \<Longrightarrow>
    server_step dump handler max_request_bytes s (start_client s)"
| leave_loop: "\<not> hs_killed s \<Longrightarrow> hs_phase s = LoopHead \<Longrightarrow> \<not> hs_running s \<Longrightarrow>
    server_step dump handler max_request_bytes s (s\<lparr>hs_phase := Joining (hs_client_threads s), hs_client_threads := []\<rparr>)"
| joins: "\<not> hs_killed s \<Longrightarrow> hs_phase s = Joining (c # cs) \<Longrightarrow> c \<notin> set (hs_live s) \<Longrightarrow>
    server_step dump handler max_request_bytes s (s\<lparr>hs_phase := Joining cs\<rparr>)"
| all_joined: "\<not> hs_killed s \<Longrightarrow> hs_phase s = Joining [] \<Longrightarrow>
    server_step dump handler max_request_bytes s (s\<lparr>hs_phase := Returned\<rparr>)"
| client_ends: "\<not> hs_killed s \<Longrightarrow> c \<in> set (hs_live s) \<Longrightarrow>
    handleClient dump handler max_request_bytes pieces (hs_app s) = ((texts, Value ()), app) \<Longrightarrow>
    server_step dump handler max_request_bytes s (end_client c texts app s)"
| client_escapes: "\<not> hs_killed s \<Longrightarrow> c \<in> set (hs_live s) \<Longrightarrow>
    handleClient dump handler max_request_bytes pieces (hs_app s) = ((texts, r), app) \<Longrightarrow> r \<in> {Exception what, OtherException} \<Longrightarrow>
    server_step dump handler max_request_bytes s (s\<lparr>hs_killed := True\<rparr>)"
| client_gone: "\<not> hs_killed s \<Longrightarrow> c \<in> set (hs_live s) \<Longrightarrow>
    handleClient dump handler max_request_bytes pieces (hs_app s) = ((texts, r), app) \<Longrightarrow> texts \<noteq> [] \<Longrightarrow>
    server_step dump handler max_request_bytes s (s\<lparr>hs_killed := True\<rparr>)"

inductive http_step ::
  "(Json \<Rightarrow> string + string) \<Rightarrow> (HttpRequest \<Rightarrow> ('s, 's HttpResponse) run) \<Rightarrow> size_t \<Rightarrow> 's HttpServer \<Rightarrow> 's HttpServer \<Rightarrow> bool"
  for dump handler max_request_bytes where
  own: "server_step dump handler max_request_bytes s t \<Longrightarrow> http_step dump handler max_request_bytes s t"
| stopped: "\<not> hs_killed s \<Longrightarrow> http_step dump handler max_request_bytes s (http_stop s)"

inductive_cases http_stepE: "http_step dump handler max_request_bytes s t"

section \<open>The invariant\<close>

text \<open>The threads \<open>run\<close> still has to join, and the account of the connections it accepted.\<close>

definition to_join :: "'s HttpServer \<Rightarrow> nat set" where
  "to_join s = (case hs_phase s of Joining cs \<Rightarrow> set cs | LoopHead \<Rightarrow> set (hs_client_threads s)
     | InAccept \<Rightarrow> set (hs_client_threads s) | _ \<Rightarrow> {})"

definition accounted :: "nat list \<Rightarrow> nat list \<Rightarrow> nat \<Rightarrow> bool" where
  "accounted answered live n \<longleftrightarrow> mset answered + mset live = mset [0..<n]"

definition http_inv :: "'s HttpServer \<Rightarrow> bool" where
  "http_inv s \<longleftrightarrow> set (hs_live s) \<subseteq> to_join s \<and> accounted (map fst (hs_sent s)) (hs_live s) (hs_next s)"

lemma accounted_start: "accounted answered live n \<Longrightarrow> accounted answered (live @ [n]) (Suc n)"
  by (simp add: accounted_def del: mset_upt)

lemma accounted_end:
  assumes "accounted answered live n" "c \<in> set live"
  shows "accounted (answered @ [c]) (removeAll c live) n"
proof -
  have "mset (answered @ live) = mset [0..<n]" using assms(1) by (simp add: accounted_def del: mset_upt)
  then have "distinct (answered @ live)" by (metis distinct_upt mset_eq_imp_distinct_iff)
  then have "removeAll c live = remove1 c live" by (simp add: distinct_remove1_removeAll)
  then have live: "mset live = add_mset c (mset (removeAll c live))" using assms(2) by simp
  have "mset (answered @ [c]) + mset (removeAll c live) = mset answered + add_mset c (mset (removeAll c live))" by simp
  also have "\<dots> = mset [0..<n]" using assms(1) unfolding accounted_def live [symmetric] .
  finally show ?thesis by (simp only: accounted_def)
qed

lemma server_step_inv: "server_step dump handler m s t \<Longrightarrow> http_inv s \<Longrightarrow> http_inv t"
proof (induction rule: server_step.induct)
  case (accepts s fd)
  then show ?case by (auto simp: http_inv_def to_join_def start_client_def accounted_start)
next
  case (client_ends s c pieces texts app)
  then show ?case by (auto simp: http_inv_def to_join_def end_client_def accounted_end split: RunPhase.splits)
qed (auto simp: http_inv_def to_join_def split: RunPhase.splits)

lemma http_step_inv: "http_inv s \<Longrightarrow> http_step dump handler m s t \<Longrightarrow> http_inv t"
proof (erule http_stepE)
  assume "http_inv s" "t = http_stop s"
  then show "http_inv t" by (auto simp: http_stop_def http_inv_def to_join_def split: RunPhase.split)
qed (rule server_step_inv)

definition http_start :: "'s \<Rightarrow> 's HttpServer \<Rightarrow> bool" where
  "http_start app s \<longleftrightarrow> s = newHttpServer app"

interpretation http_server: invariant_system "http_start app" "http_step dump handler m" http_inv
  for app dump handler m
proof unfold_locales
  show "http_start app s \<Longrightarrow> http_inv s" for s
    by (simp add: http_start_def newHttpServer_def http_inv_def to_join_def accounted_def)
qed (rule http_step_inv)

section \<open>Properties\<close>

text \<open>
  (C18) \<open>run\<close> waits for its clients: whenever it has returned, every connection it accepted was answered exactly
  once and no client thread is left, however accepts, client threads and calls of \<open>stop\<close> interleave.
\<close>

theorem run_returns_after_all_answers:
  assumes "reach (http_start app) (http_step dump handler max_request_bytes) s" "hs_phase s = Returned"
  shows "hs_live s = [] \<and> mset (map fst (hs_sent s)) = mset [0..<hs_next s]"
  using http_server.reach_inv [OF assms(1)] assms(2) by (auto simp: http_inv_def to_join_def accounted_def)

theorem run_returns_after_all_answers_witness:
  "\<exists>s :: unit HttpServer. reach (http_start ()) (http_step (\<lambda>_. Inr []) (\<lambda>_. give new_response) 10) s \<and> hs_phase s = Returned \<and>
     mset (map fst (hs_sent s)) = {#0#}"
proof -
  let ?step = "http_step (\<lambda>_. Inr []) (\<lambda>_. give new_response) 10 :: unit HttpServer \<Rightarrow> unit HttpServer \<Rightarrow> bool"
  note own' = own [where dump = "\<lambda>_. Inr []" and handler = "\<lambda>_. give new_response" and max_request_bytes = 10 and 's = unit]
  define s0 where "s0 = newHttpServer ()"
  define s1 where "s1 = s0\<lparr>hs_server_fd := Some 3, hs_phase := SettingUp\<rparr>"
  define s2 where "s2 = s1\<lparr>hs_phase := Listening\<rparr>"
  define s3 where "s3 = s2\<lparr>hs_running := True, hs_phase := LoopHead\<rparr>"
  define s4 where "s4 = s3\<lparr>hs_phase := InAccept\<rparr>"
  define s5 where "s5 = start_client s4"
  obtain texts where h: "handleClient (\<lambda>_. Inr []) (\<lambda>_. give new_response) 10 [] (hs_app s5) = ((texts, Value ()), ())"
    by (simp add: handleClient_def early_response_def handled_def give_def answer_def new_response_def)
  define s6 where "s6 = end_client 0 texts () s5"
  define s7 where "s7 = http_stop s6"
  define s8 where "s8 = s7\<lparr>hs_phase := Joining (hs_client_threads s7), hs_client_threads := []\<rparr>"
  define s9 where "s9 = s8\<lparr>hs_phase := Joining []\<rparr>"
  define s10 where "s10 = s9\<lparr>hs_phase := Returned\<rparr>"
  note d = s0_def s1_def s2_def s3_def s4_def s5_def s6_def s7_def s8_def s9_def s10_def newHttpServer_def start_client_def
    end_client_def http_stop_def
  have "?step s0 s1" unfolding s1_def by (rule own', rule socket_opens) (simp_all add: d)
  moreover have "?step s1 s2" unfolding s2_def by (rule own', rule set_up_done [where fd = 3]) (simp_all add: d)
  moreover have "?step s2 s3" unfolding s3_def by (rule own', rule start_loop) (simp_all add: d)
  moreover have "?step s3 s4" unfolding s4_def by (rule own', rule enter_accept) (simp_all add: d)
  moreover have "?step s4 s5" unfolding s5_def by (rule own', rule accepts [where fd = 3]) (simp_all add: d)
  moreover have "?step s5 s6" unfolding s6_def by (rule own', rule client_ends [OF _ _ h]) (simp_all add: d)
  moreover have "?step s6 s7" unfolding s7_def by (rule stopped) (simp add: d)
  moreover have "?step s7 s8" unfolding s8_def by (rule own', rule leave_loop) (simp_all add: d)
  moreover have "?step s8 s9" unfolding s9_def by (rule own', rule joins [where c = 0]) (simp_all add: d)
  moreover have "?step s9 s10" unfolding s10_def by (rule own', rule all_joined) (simp_all add: d)
  moreover have "reach (http_start ()) ?step s0" by (rule reach_start) (simp add: http_start_def s0_def)
  ultimately have r: "reach (http_start ()) ?step s10" by (meson reach_step)
  have p: "hs_phase s10 = Returned" and n: "hs_next s10 = 1" by (simp_all add: d)
  from run_returns_after_all_answers [OF r p] have "mset (map fst (hs_sent s10)) = mset [0..<hs_next s10]" by blast
  then show ?thesis using r p n by (intro exI [of _ s10]) simp
qed

definition steps_left :: "'s HttpServer \<Rightarrow> nat" where
  "steps_left s = length (hs_live s) +
     (case hs_phase s of InAccept \<Rightarrow> length (hs_client_threads s) + 4 | LoopHead \<Rightarrow> length (hs_client_threads s) + 3
      | Joining cs \<Rightarrow> length cs + 1 | _ \<Rightarrow> 0)"

definition stopping :: "'s HttpServer \<Rightarrow> bool" where
  "stopping s \<longleftrightarrow> \<not> hs_running s \<and> hs_server_fd s = None \<and>
     (hs_phase s \<in> {LoopHead, InAccept, Returned} \<or> (\<exists>cs. hs_phase s = Joining cs))"

lemma stopping_step:
  assumes "server_step dump handler m s t" "stopping s" "\<not> hs_killed t"
  shows "stopping t \<and> hs_next t = hs_next s \<and> steps_left t < steps_left s"
  using assms
proof cases
  case (client_ends c pieces texts app)
  then have "length (removeAll c (hs_live s)) < length (hs_live s)" by (auto intro: length_removeAll_less)
  with client_ends assms(2) show ?thesis by (auto simp: stopping_def steps_left_def end_client_def)
qed (auto simp: stopping_def steps_left_def)

text \<open>
  (C19) A \<open>stop\<close> that comes while the accept loop runs ends \<open>run\<close>: after it, \<open>run\<close> takes a bounded number of steps beside
  those of its client threads, never accepts again, and is never stuck but for a client thread it joins. (A \<open>stop\<close>
  that comes before the loop sets its flag is lost: \<open>early_stop_is_lost\<close>.)
\<close>

theorem stop_ends_run:
  assumes "hs_phase s \<in> {LoopHead, InAccept}" "\<not> hs_killed s" "f 0 = http_stop s"
    and "\<forall>i < n. server_step dump handler max_request_bytes (f i) (f (Suc i)) \<and> \<not> hs_killed (f (Suc i))"
  shows "n \<le> length (hs_live s) + length (hs_client_threads s) + 4 \<and> hs_next (f n) = hs_next s \<and>
    (hs_phase (f n) = Returned \<or> hs_live (f n) \<noteq> [] \<or> (\<exists>t. server_step dump handler max_request_bytes (f n) t))"
proof -
  have run: "k \<le> n \<Longrightarrow> stopping (f k) \<and> hs_next (f k) = hs_next s \<and> \<not> hs_killed (f k) \<and> steps_left (f k) + k \<le> steps_left (f 0)" for k
  proof (induction k)
    case 0
    then show ?case using assms(1-3) by (auto simp: stopping_def http_stop_def)
  next
    case (Suc k)
    then have "server_step dump handler max_request_bytes (f k) (f (Suc k))" "\<not> hs_killed (f (Suc k))" using assms(4) by auto
    with Suc stopping_step [of dump handler max_request_bytes "f k" "f (Suc k)"] show ?case by auto
  qed
  have "steps_left (f 0) \<le> length (hs_live s) + length (hs_client_threads s) + 4"
    using assms(1,3) by (auto simp: steps_left_def http_stop_def)
  then have bound: "n \<le> length (hs_live s) + length (hs_client_threads s) + 4" using run [of n] by simp
  have "\<exists>t. server_step dump handler max_request_bytes (f n) t" if "hs_phase (f n) \<noteq> Returned" "hs_live (f n) = []"
  proof -
    have n: "stopping (f n)" "\<not> hs_killed (f n)" using run [of n] by simp_all
    with that(1) consider "hs_phase (f n) = LoopHead" | "hs_phase (f n) = InAccept" | cs where "hs_phase (f n) = Joining cs"
      by (auto simp: stopping_def)
    then show ?thesis
    proof cases
      case 1
      with n show ?thesis by (auto simp: stopping_def intro: leave_loop)
    next
      case 2
      with n show ?thesis by (auto intro: accept_fails)
    next
      case 3
      show ?thesis
      proof (cases cs)
        case Nil
        with 3 n show ?thesis by (auto intro: all_joined)
      next
        case (Cons c rest)
        moreover have "c \<notin> set (hs_live (f n))" by (simp add: that(2))
        ultimately show ?thesis using 3 n by (blast intro: joins)
      qed
    qed
  qed
  then show ?thesis using bound run [of n] by blast
qed

theorem stop_ends_run_witness:
  "\<exists>f n s :: unit HttpServer. hs_running s \<and> hs_phase s = LoopHead \<and> f 0 = http_stop s \<and> n = 1 \<and>
     n \<le> length (hs_live s) + length (hs_client_threads s) + 4 \<and> hs_next (f n) = hs_next s"
proof -
  define s where "s = (newHttpServer ())\<lparr>hs_running := True, hs_server_fd := Some 3, hs_phase := LoopHead\<rparr>"
  define t where "t = (http_stop s)\<lparr>hs_phase := Joining (hs_client_threads (http_stop s)), hs_client_threads := []\<rparr>"
  define f where "f = (\<lambda>i :: nat. if i = 0 then http_stop s else t)"
  have "server_step (\<lambda>_. Inr []) (\<lambda>_. give new_response) 10 (http_stop s) t"
    unfolding t_def by (rule leave_loop) (simp_all add: s_def newHttpServer_def http_stop_def)
  then have run: "\<forall>i < 1. server_step (\<lambda>_. Inr []) (\<lambda>_. give new_response) 10 (f i) (f (Suc i)) \<and> \<not> hs_killed (f (Suc i))"
    by (simp add: f_def t_def s_def newHttpServer_def http_stop_def)
  have "hs_phase s \<in> {LoopHead, InAccept}" "\<not> hs_killed s" "f 0 = http_stop s"
    by (simp_all add: s_def f_def newHttpServer_def)
  from stop_ends_run [OF this run] this show ?thesis
    by (intro exI [of _ f] exI [of _ 1] exI [of _ s]) (simp add: s_def newHttpServer_def)
qed

text \<open>
  A stop that comes while \<open>run\<close> is still setting up is lost: \<open>run\<close> then sets \<open>running_\<close>, and its loop goes round on a
  closed socket, accepts nobody and never returns.
\<close>

definition spinning :: "'s HttpServer \<Rightarrow> bool" where
  "spinning s \<longleftrightarrow> hs_running s \<and> hs_server_fd s = None \<and> hs_phase s \<in> {LoopHead, InAccept}"

lemma spinning_step: "server_step dump handler m s t \<Longrightarrow> spinning s \<Longrightarrow> spinning t \<and> hs_next t = hs_next s"
  by (induction rule: server_step.induct) (auto simp: spinning_def end_client_def)

theorem early_stop_is_lost:
  assumes "hs_phase s = Listening" "\<not> hs_killed s"
  shows "server_step dump handler max_request_bytes (http_stop s) ((http_stop s)\<lparr>hs_running := True, hs_phase := LoopHead\<rparr>) \<and>
    (\<forall>t. (server_step dump handler max_request_bytes)\<^sup>*\<^sup>* ((http_stop s)\<lparr>hs_running := True, hs_phase := LoopHead\<rparr>) t \<longrightarrow>
       hs_phase t \<in> {LoopHead, InAccept} \<and> hs_next t = hs_next s)"
proof (intro conjI allI impI)
  have "\<not> hs_killed (http_stop s)" "hs_phase (http_stop s) = Listening" using assms by (simp_all add: http_stop_def)
  then show "server_step dump handler max_request_bytes (http_stop s) ((http_stop s)\<lparr>hs_running := True, hs_phase := LoopHead\<rparr>)"
    by (rule start_loop)
  fix t assume "(server_step dump handler max_request_bytes)\<^sup>*\<^sup>* ((http_stop s)\<lparr>hs_running := True, hs_phase := LoopHead\<rparr>) t"
  then have "spinning t \<and> hs_next t = hs_next s"
    by (induction rule: rtranclp_induct) (auto simp: spinning_def http_stop_def dest: spinning_step [unfolded spinning_def])
  then show "hs_phase t \<in> {LoopHead, InAccept}" "hs_next t = hs_next s" by (auto simp: spinning_def)
qed

end
