(* ===== verification/Spec2Isabelle.thy ===== *)
theory Spec2Isabelle
  imports Prelude Model_State Tensors Batching Scheduler_Core Model_Scheduler_Props Llm_Scheduler_Props Runtime_Config
    Executors Backends Lifecycle Registry_Props Json Pipeline_Props Numbers V2_Codec Admin_Codec Model_Repository Http
    Metrics_Registry OpenAi_Codec Logging Kserve_Runtime Runtime_Infer Runtime_Admin Runtime_Invariants Runtime_Answers Runtime_Props
    Grpc_Codec Grpc_Service Grpc_Props Startup Image_Header Task_Steps Task_Steps_Props Real_Adapter
    Real_Adapter_Props Http_Server
begin

text \<open>
  A verification development of the KServe runtime: a server that loads models through the neuriplo
  inference library and serves them over HTTP (the KServe V2 protocol, an OpenAI-compatible protocol and admin
  routes) and over gRPC.

  \<^bold>\<open>The program.\<close> \<open>main.cpp\<close> parses the configuration, scans the model repository, builds the registry and starts
  the servers. A request arrives in \<open>HttpServer.cpp\<close> or \<open>GrpcServer.cpp\<close>; \<open>KServeRuntime.cpp\<close> routes it, the codecs decode
  it, the registry (\<open>ModelRegistry.cpp\<close>) resolves a snapshot of the model, and the scheduler behind that snapshot
  (\<open>ModelScheduler.cpp\<close> for tensors, \<open>LlmScheduler.cpp\<close> for generation) queues it, forms batches
  (\<open>DynamicBatcher.cpp\<close>, \<open>BatchCompatibility.cpp\<close>) and runs an executor: the stub, one over the neuriplo library, or a
  pipeline of other models with image steps around them. Admin requests load, reload, switch and unload models
  while requests are in flight. Metrics and the log are written along the way.

  \<^bold>\<open>Reading the models.\<close> A struct is a record, an enumeration a datatype; a \<open>size_t\<close> is a natural number whose sums and
  products are reduced modulo \<open>2 ^ 64\<close> where the source can leave the range, an \<open>int64_t\<close> an integer, a byte an
  8-bit word, a counter a 64-bit word, a finite \<open>double\<close> a rational with the rounding written out where it matters
  (\<open>Numbers\<close>). A call that can throw returns a \<open>Call\<close>, an \<open>Outcome\<close> or a sum. Code that is single-threaded is a function
  on explicit state. Code with threads is an inductive step relation whose steps are the critical sections of the
  source, so that its interleavings are the runs of the relation; \<open>invariant_system\<close> in \<open>Prelude\<close> is the one
  interface all invariants go through, and each component interprets it with its own steps. Reads that the
  source does not guard are partial (an option), so that memory safety is a statement. There is no fuel: loops
  recurse on the input that is left, and those whose end is not obvious have a termination proof.

  \<^bold>\<open>The theories and the source.\<close>
  \<^item> \<open>Prelude\<close>: machine types, string helpers, stable sorting, reachability. \<open>Tensors\<close>: \<open>TensorBytes.hpp\<close>, \<open>Executor.hpp\<close>,
    \<open>ModelMetadata.hpp\<close>. \<open>Numbers\<close>: the conversions between \<open>double\<close> and the element types. \<open>Json\<close>: the values of the
    JSON library.
  \<^item> \<open>Model_State\<close>: \<open>ModelState.hpp\<close> and \<open>ModelStateMachine.hpp\<close>, every transition and the observers.
  \<^item> \<open>Batching\<close>: which requests may be merged, \<open>mergeExecutionRequests\<close> and \<open>splitExecutionResponse\<close>.
  \<^item> \<open>Scheduler_Core\<close>: requests, queue, promises, metrics, \<open>submit\<close>, \<open>drain\<close> and \<open>stop\<close>, which both schedulers share.
    \<open>Model_Scheduler\<close> has the workers of the tensor scheduler as steps, \<open>_Steps\<close> what each step does, \<open>_Inv\<close> the
    invariant, \<open>_Props\<close> what follows from it; \<open>Llm_Scheduler\<close>, \<open>_Inv\<close> and \<open>_Props\<close> the same for generation.
  \<^item> \<open>Runtime_Config\<close>: environment, command line and checks of \<open>RuntimeConfig.cpp\<close>.
  \<^item> \<open>Executors\<close>: \<open>StubExecutor.cpp\<close>, \<open>NeuriploExecutor.cpp\<close>, \<open>NeuriploAdapterDefault.cpp\<close>. \<open>Backends\<close>:
    \<open>BackendRegistry.cpp\<close>. \<open>Real_Adapter\<close> and \<open>_Props\<close>: \<open>RealNeuriploAdapter.cpp\<close>, with the reader of \<open>config.pbtxt\<close>.
  \<^item> \<open>Lifecycle\<close>: \<open>ModelLifecycle.cpp\<close>, \<open>ModelHandle.hpp\<close>, \<open>InferSnapshot.hpp\<close>. \<open>Registry\<close>: \<open>ModelRegistry.cpp\<close> and
    \<open>SchedulerRetireQueue.cpp\<close>, each operation split where it releases the lock; \<open>Registry_Inv\<close>: its runs with any
    number of calls in flight; \<open>Registry_Props\<close>: its promises.
  \<^item> \<open>Pipeline\<close> and \<open>_Props\<close>: \<open>PipelineConfig.cpp\<close>, \<open>PipelineEnvelope.cpp\<close>, \<open>PipelineExecutor.cpp\<close>. \<open>Image_Header\<close>,
    \<open>Task_Steps\<close> and \<open>Task_Steps_Props\<close>: \<open>PipelineStepsTasks.cpp\<close>, the image header reader, both built-in steps and the
    envelopes.
  \<^item> \<open>V2_Codec\<close>, \<open>Admin_Codec\<close>, \<open>OpenAi_Codec\<close>: the codecs of the same names. \<open>Model_Repository\<close>: \<open>ModelRepository.cpp\<close>.
    \<open>Metrics_Registry\<close>: \<open>MetricsRegistry.cpp\<close>. \<open>Logging\<close>: \<open>Logging.cpp\<close>.
  \<^item> \<open>Http\<close>: the bytes of one connection (\<open>HttpServer.cpp\<close>, \<open>HttpTypes.hpp\<close>). \<open>Http_Server\<close>: its accept loop, client
    threads and \<open>stop\<close>.
  \<^item> \<open>Kserve_Runtime\<close>: the state of \<open>KServeRuntime.cpp\<close> and the calls its handlers are made of; \<open>Runtime_Infer\<close> and
    \<open>Runtime_Admin\<close> its routes; \<open>Runtime_Invariants\<close>: the interface by which a property kept by every elementary effect
    is kept by every route; \<open>Runtime_Answers\<close> and \<open>Runtime_Props\<close>: what clients are promised.
  \<^item> \<open>Grpc_Codec\<close>, \<open>Grpc_Service\<close>, \<open>Grpc_Props\<close>: \<open>GrpcV2Codec.cpp\<close>, \<open>kserve_grpc.proto\<close> and \<open>GrpcServer.cpp\<close>.
    \<open>Startup\<close>: \<open>main.cpp\<close>.

  \<^bold>\<open>What is shown.\<close>
  \<^item> Schedulers: in any interleaving, a request that was accepted and is neither cancelled nor late is in exactly one
    place, none is answered twice, queues are bounded and in order, batches are well formed and each member gets its
    own rows, a drained scheduler has served its queue, decode slots are respected and a generation request is admitted
    exactly when it fits. One fault of the source, a queue iterator used after it was invalidated, is reachable.
  \<^item> Registry: a model is reported ready exactly when it can be served, a failed reload keeps the old model
    serving, whoever waits for a load is answered, an unload removes exactly its model. The server, whatever it
    is sent, only takes steps of that registry (a refinement), so these promises hold for the running program
    (\<open>served_registry_inv\<close>).
  \<^item> Codecs: decoded requests are well formed, printed tensors are found again, the framing of requests does not
    depend on how the network cuts them, configurations keep the ranges that are checked.
  \<^item> Pipelines: moving tensors is invisible, a built pipeline is wired, its image steps refuse image bombs before
    the decoder, and masks and polygons can be read back from what they write.
  \<^item> Routes: an inference submits exactly the decoded request and answers with the outcome of its scheduler, a
    refused one changes nothing, payloads stay out of what the handlers log, requests are counted. A handler that gives no
    answer stops with the exception of the JSON library, which does not print text that is not UTF-8; the theorems say
    what it has done by then (\<open>runs_to\<close> in \<open>Runtime_Answers\<close>).
  \<^item> Some theorems state faults: what the code does where a comment, a document or the protocol says otherwise.

  \<^bold>\<open>Not modelled.\<close> The libraries: neuriplo (its engine, set-up and list of backends), neuriplo-tasks (decoder, tasks),
  the JSON parser and printer, gRPC and protocol buffers as a transport, system calls. They are arguments of the
  definitions that use them. The two lines an adapter logs while it loads a model are results of its definitions and not
  part of the server's log. Clocks, the environment, the file system and \<open>readVmRssBytes\<close> are arguments as well.
  Memory allocation succeeds. The threads that collect retired schedulers and drive gRPC appear through the calls
  they make. A handler runs as one step of the server where the theorems are about the server; the interleaving
  inside it is that of the schedulers and of the registry, whose own relations have every critical section.
\<close>

end
